(* ===== verification/Prelude.thy ===== *)
theory Prelude
  imports Main "HOL-Library.Word" "HOL-Library.Multiset" "HOL-Library.Char_ord" "HOL-Library.List_Lexorder"
begin

text \<open>
  Shared vocabulary of the development: Go's unsigned integers, slices, errors and
  instants, and the generic lemmas the component theories share.

  \<^item> Strings are byte strings (\<open>string\<close>, a list of 8-bit characters), as in Go; \<open><\<close> on
    them is Go's bytewise lexicographic order.
  \<^item> A slice is \<open>NilSlice\<close> or \<open>Slice xs\<close>: Go's \<open>nil\<close> and empty slices are different
    values for \<open>reflect.DeepEqual\<close> and \<open>encoding/json\<close>.
  \<^item> A \<open>time.Time\<close> is an instant in nanoseconds since Go's zero time together with its
    presentation metadata (location and monotonic reading): HOL equality of the record is
    \<open>reflect.DeepEqual\<close>, the methods \<open>Equal\<close>, \<open>Before\<close>, \<open>After\<close> and \<open>Sub\<close> read the instant.
  \<^item> An \<open>error\<close> result is a \<open>gerr option\<close> (\<open>None\<close> for nil); a pair of a value and an
    error is \<open>gerr + 'a\<close> where the value is only used without an error.
\<close>

named_theorems time_defs \<open>definitions of the operations on instants\<close>
named_theorems wp \<open>weakest preconditions of the effect combinators\<close>

section \<open>Integers\<close>

type_synonym u8 = "8 word"
type_synonym u16 = "16 word"
type_synonym u32 = "32 word"
type_synonym u64 = "64 word"

text \<open>\<open>math.MaxInt64\<close> and \<open>math.MinInt64\<close>, the range of \<open>int64\<close> and \<open>time.Duration\<close>.\<close>

abbreviation max_int64 :: int where "max_int64 \<equiv> 9223372036854775807"
abbreviation min_int64 :: int where "min_int64 \<equiv> - 9223372036854775808"

section \<open>Slices\<close>

datatype 'a slice = NilSlice | Slice "'a list"

fun items :: "'a slice \<Rightarrow> 'a list" where
  "items NilSlice = []"
| "items (Slice xs) = xs"

text \<open>\<open>append(s, xs...)\<close>: appending nothing keeps a nil slice nil.\<close>

definition slice_append :: "'a slice \<Rightarrow> 'a list \<Rightarrow> 'a slice" where
  "slice_append s xs = (if xs = [] then s else Slice (items s @ xs))"

text \<open>In-place element updates (\<open>for i := range s \<dots> s[i] = \<dots>\<close>) and sorting.\<close>

fun slice_map :: "('a list \<Rightarrow> 'b list) \<Rightarrow> 'a slice \<Rightarrow> 'b slice" where
  "slice_map f NilSlice = NilSlice"
| "slice_map f (Slice xs) = Slice (f xs)"

lemma items_slice_append [simp]: "items (slice_append s xs) = items s @ xs"
  by (cases s) (auto simp: slice_append_def)

lemma slice_append_Nil [simp]: "slice_append s [] = s"
  by (simp add: slice_append_def)

lemma items_slice_map: "f [] = [] \<Longrightarrow> items (slice_map f s) = f (items s)"
  by (cases s) auto

section \<open>Errors\<close>

datatype gerr = Err string | Join gerr gerr

text \<open>\<open>errors.Join(errors.New(message), ctx.Err())\<close>: nil errors are dropped.\<close>

definition join_err :: "string \<Rightarrow> gerr option \<Rightarrow> gerr" where
  "join_err m e = (case e of None \<Rightarrow> Err m | Some c \<Rightarrow> Join (Err m) c)"

text \<open>A check with one fixed message.\<close>

definition check :: "bool \<Rightarrow> string \<Rightarrow> gerr option" where
  "check ok m = (if ok then None else Some (Err m))"

lemma check_None [simp]: "check ok m = None \<longleftrightarrow> ok"
  by (simp add: check_def)

fun is_ok :: "gerr + 'a \<Rightarrow> bool" where
  "is_ok (Inl _) = False"
| "is_ok (Inr _) = True"

lemma is_ok_iff: "is_ok r \<longleftrightarrow> (\<exists>v. r = Inr v)"
  by (cases r) auto

section \<open>Instants\<close>

record gotime =
  inst :: int
  meta :: nat

definition zero_time :: gotime where
  "zero_time = \<lparr>inst = 0, meta = 0\<rparr>"

definition second :: int where
  "second = 1000000000"

definition is_zero :: "gotime \<Rightarrow> bool" where
  [time_defs]: "is_zero t \<longleftrightarrow> inst t = 0"

text \<open>\<open>Sub\<close> saturates at the limits of \<open>time.Duration\<close>.\<close>

definition time_sub :: "gotime \<Rightarrow> gotime \<Rightarrow> int" where
  [time_defs]: "time_sub t u = max min_int64 (min max_int64 (inst t - inst u))"

definition time_add :: "gotime \<Rightarrow> int \<Rightarrow> gotime" where
  [time_defs]: "time_add t d = t\<lparr>inst := inst t + d\<rparr>"

definition before :: "gotime \<Rightarrow> gotime \<Rightarrow> bool" where
  [time_defs]: "before t u \<longleftrightarrow> inst t < inst u"

definition after :: "gotime \<Rightarrow> gotime \<Rightarrow> bool" where
  [time_defs]: "after t u \<longleftrightarrow> inst t > inst u"

definition same_instant :: "gotime \<Rightarrow> gotime \<Rightarrow> bool" where
  [time_defs]: "same_instant t u \<longleftrightarrow> inst t = inst u"

declare second_def [time_defs]

text \<open>The zero time is \<open>0001-01-01 00:00 UTC\<close>, a Monday.\<close>

definition day_ns :: int where
  [time_defs]: "day_ns = 86400 * second"

lemma time_sub_le: "0 \<le> d \<Longrightarrow> d < max_int64 \<Longrightarrow> time_sub t u \<le> d \<longleftrightarrow> inst t - inst u \<le> d"
  by (auto simp: time_defs)

lemma time_sub_gt: "0 \<le> d \<Longrightarrow> d < max_int64 \<Longrightarrow> time_sub t u > d \<longleftrightarrow> inst t - inst u > d"
  by (auto simp: time_defs)

text \<open>
  The admission window every observation is checked against: at most 30 seconds old and at
  most 5 seconds in the future (\<open>now.Sub(t) > 30*time.Second || t.Sub(now) > 5*time.Second\<close>
  refuses).
\<close>

definition in_window :: "gotime \<Rightarrow> gotime \<Rightarrow> bool" where
  "in_window now t \<longleftrightarrow> \<not> (time_sub now t > 30 * second \<or> time_sub t now > 5 * second)"

lemma in_window_iff:
  "in_window now t \<longleftrightarrow> inst now - 30 * second \<le> inst t \<and> inst t \<le> inst now + 5 * second"
  by (auto simp: in_window_def time_sub_gt second_def)

section \<open>Lists, maps and tables\<close>

text \<open>Go map literals with string keys; a missing key reads as the zero value.\<close>

definition lookup_str :: "(string \<times> string) list \<Rightarrow> string \<Rightarrow> string" where
  "lookup_str m k = (case map_of m k of None \<Rightarrow> '''' | Some v \<Rightarrow> v)"

text \<open>The position of the first element that satisfies \<open>p\<close>, if any.\<close>

fun find_index :: "('a \<Rightarrow> bool) \<Rightarrow> 'a list \<Rightarrow> nat option" where
  "find_index p [] = None"
| "find_index p (x # xs) = (if p x then Some 0 else map_option Suc (find_index p xs))"

lemma find_index_Some:
  "find_index p xs = Some i \<Longrightarrow> i < length xs \<and> p (xs ! i) \<and> (\<forall>j<i. \<not> p (xs ! j))"
proof (induction xs arbitrary: i)
  case (Cons x xs)
  show ?case
  proof (cases "p x")
    case False
    with Cons.prems obtain k where k: "find_index p xs = Some k" "i = Suc k" by auto
    from Cons.IH [OF k(1)] False k(2) show ?thesis by (auto simp: nth_Cons split: nat.splits)
  qed (use Cons.prems in auto)
qed simp

lemma find_index_None: "find_index p xs = None \<longleftrightarrow> (\<forall>x\<in>set xs. \<not> p x)"
  by (induction xs) auto

text \<open>Checks inside loops that also record what they have seen.\<close>

fun all_fresh :: "('a \<Rightarrow> 'k) \<Rightarrow> 'k list \<Rightarrow> 'a list \<Rightarrow> bool" where
  "all_fresh f seen [] = True"
| "all_fresh f seen (x # xs) = (f x \<notin> set seen \<and> all_fresh f (f x # seen) xs)"

lemma all_fresh_iff: "all_fresh f seen xs \<longleftrightarrow> distinct (map f xs) \<and> set seen \<inter> f ` set xs = {}"
  by (induction xs arbitrary: seen) auto

lemma foldl_matching:
  "foldl (\<lambda>found m. if f m = k then g m else found) z ms =
     (case find (\<lambda>m. f m = k) (rev ms) of None \<Rightarrow> z | Some m \<Rightarrow> g m)"
  by (induction ms rule: rev_induct) auto

lemma sort_key_perm_unique:
  assumes "mset xs = mset ys" "distinct (map f xs)"
  shows "sort_key f xs = sort_key f ys"
  using assms by (intro sort_key_inj_key_eq) (auto simp: distinct_map)

end
