(* ===== verification/GoText.thy ===== *)
theory GoText
  imports Prelude
begin

text \<open>
  The parts of Go's standard library that the modelled packages use on text: character
  classes and the anchored patterns of the source's regular expressions, \<open>strings\<close>
  (\<open>Split\<close>, \<open>HasPrefix\<close>, \<open>TrimPrefix\<close>, \<open>ReplaceAll\<close>), \<open>strconv\<close> (unsigned decimals),
  \<open>unicode/utf8\<close> and \<open>unicode\<close> (\<open>IsControl\<close>, \<open>IsSpace\<close>), \<open>path.Clean\<close> and the string
  encoder of \<open>encoding/json\<close>.
\<close>

section \<open>Character classes and anchored patterns\<close>

definition char_in :: "char \<Rightarrow> char \<Rightarrow> char \<Rightarrow> bool" where
  "char_in lo hi c \<longleftrightarrow> lo \<le> c \<and> c \<le> hi"

definition is_digit :: "char \<Rightarrow> bool" where
  "is_digit c = char_in CHR ''0'' CHR ''9'' c"

definition is_lower :: "char \<Rightarrow> bool" where
  "is_lower c = char_in CHR ''a'' CHR ''z'' c"

definition is_upper :: "char \<Rightarrow> bool" where
  "is_upper c = char_in CHR ''A'' CHR ''Z'' c"

definition is_alnum :: "char \<Rightarrow> bool" where
  "is_alnum c \<longleftrightarrow> is_lower c \<or> is_upper c \<or> is_digit c"

definition is_lower_hex :: "char \<Rightarrow> bool" where
  "is_lower_hex c \<longleftrightarrow> is_digit c \<or> char_in CHR ''a'' CHR ''f'' c"

text \<open>\<open>^[0-9a-f]{n}$\<close>\<close>

definition hex_string :: "nat \<Rightarrow> string \<Rightarrow> bool" where
  "hex_string n s \<longleftrightarrow> length s = n \<and> list_all is_lower_hex s"

lemma hex_string_nonempty: "hex_string n s \<Longrightarrow> 0 < n \<Longrightarrow> s \<noteq> []"
  by (auto simp: hex_string_def)

lemma hex_string_replicate [simp]: "hex_string n (replicate m c) \<longleftrightarrow> m = n \<and> (m = 0 \<or> is_lower_hex c)"
  by (auto simp: hex_string_def list_all_iff)

section \<open>Strings\<close>

definition has_prefix :: "string \<Rightarrow> string \<Rightarrow> bool" where
  "has_prefix s p \<longleftrightarrow> take (length p) s = p"

definition trim_prefix :: "string \<Rightarrow> string \<Rightarrow> string" where
  "trim_prefix s p = (if has_prefix s p then drop (length p) s else s)"

definition has_suffix :: "string \<Rightarrow> string \<Rightarrow> bool" where
  "has_suffix s p \<longleftrightarrow> length p \<le> length s \<and> drop (length s - length p) s = p"

definition trim_suffix :: "string \<Rightarrow> string \<Rightarrow> string" where
  "trim_suffix s p = (if has_suffix s p then take (length s - length p) s else s)"

text \<open>\<open>strings.CutPrefix\<close>\<close>

definition cut_prefix :: "string \<Rightarrow> string \<Rightarrow> string \<times> bool" where
  "cut_prefix s p = (if has_prefix s p then (drop (length p) s, True) else (s, False))"

lemma has_prefix_append [simp]: "has_prefix (p @ s) p"
  by (simp add: has_prefix_def)

lemma has_prefix_iff: "has_prefix s p \<longleftrightarrow> (\<exists>t. s = p @ t)"
  by (metis append_eq_conv_conj append_take_drop_id has_prefix_def)

lemma has_suffix_iff: "has_suffix s p \<longleftrightarrow> (\<exists>t. s = t @ p)"
proof
  assume "has_suffix s p"
  then have "s = take (length s - length p) s @ p"
    by (metis append_take_drop_id has_suffix_def)
  then show "\<exists>t. s = t @ p" ..
qed (auto simp: has_suffix_def)

lemma has_suffix_append [simp]: "has_suffix (s @ p) p"
  by (auto simp: has_suffix_iff)

lemma trim_prefix_append [simp]: "trim_prefix (p @ s) p = s"
  by (simp add: trim_prefix_def)

lemma trim_suffix_append [simp]: "trim_suffix (s @ p) p = s"
  by (simp add: trim_suffix_def)

lemma trim_prefix_Cons [simp]:
  "trim_prefix (c # s) [c] = s"
  by (simp add: trim_prefix_def has_prefix_def)

text \<open>\<open>strings.Split\<close> on a one-character separator: never empty.\<close>

fun split_on :: "char \<Rightarrow> string \<Rightarrow> string list" where
  "split_on c [] = [[]]"
| "split_on c (x # xs) =
     (if x = c then [] # split_on c xs
      else (case split_on c xs of w # ws \<Rightarrow> (x # w) # ws | [] \<Rightarrow> [[x]]))"

lemma split_on_not_Nil [simp]: "split_on c s \<noteq> []"
  by (induction c s rule: split_on.induct) (auto split: list.splits)

fun join_with :: "char \<Rightarrow> string list \<Rightarrow> string" where
  "join_with c [] = []"
| "join_with c [w] = w"
| "join_with c (w # v # ws) = w @ c # join_with c (v # ws)"

lemma join_split [simp]: "join_with c (split_on c s) = s"
proof (induction c s rule: split_on.induct)
  case (2 c x xs)
  show ?case
  proof (cases "x = c")
    case True
    with 2 obtain w ws where "split_on c xs = w # ws" by (cases "split_on c xs") auto
    with True 2 show ?thesis by simp
  next
    case False
    with 2 obtain w ws where ws: "split_on c xs = w # ws" by (cases "split_on c xs") auto
    with False 2 show ?thesis by (cases ws) auto
  qed
qed simp

lemma split_on_no_sep: "c \<notin> set s \<Longrightarrow> split_on c s = [s]"
  by (induction c s rule: split_on.induct) auto

lemma split_on_sep_free: "w \<in> set (split_on c s) \<Longrightarrow> c \<notin> set w"
proof (induction c s arbitrary: w rule: split_on.induct)
  case (2 c x xs)
  show ?case
  proof (cases "x = c")
    case True
    with 2 show ?thesis by auto
  next
    case False
    obtain v vs where "split_on c xs = v # vs" by (cases "split_on c xs") auto
    with False 2 show ?thesis by fastforce
  qed
qed simp

lemma split_on_append: "c \<notin> set w \<Longrightarrow> split_on c (w @ c # s) = w # split_on c s"
  by (induction w) auto

text \<open>\<open>strings.ReplaceAll(s, "--", "-")\<close>: leftmost, non-overlapping.\<close>

fun collapse_dashes :: "string \<Rightarrow> string" where
  "collapse_dashes (x # y # xs) =
     (if x = CHR ''-'' \<and> y = CHR ''-'' then CHR ''-'' # collapse_dashes xs
      else x # collapse_dashes (y # xs))"
| "collapse_dashes xs = xs"

text \<open>\<open>hex.DecodeString\<close> succeeds on an even number of hexadecimal digits of either case.\<close>

definition hex_decodes :: "string \<Rightarrow> bool" where
  "hex_decodes s \<longleftrightarrow> even (length s)
     \<and> list_all (\<lambda>c. is_lower_hex c \<or> char_in CHR ''A'' CHR ''F'' c) s"

section \<open>Unsigned decimals\<close>

definition digit_char :: "nat \<Rightarrow> char" where
  "digit_char d = char_of (48 + d)"

definition digit_val :: "char \<Rightarrow> nat" where
  "digit_val c = of_char c - 48"

text \<open>\<open>strconv.FormatUint(n, 10)\<close>\<close>

fun dec :: "nat \<Rightarrow> string" where
  "dec n = (if n < 10 then [digit_char n] else dec (n div 10) @ [digit_char (n mod 10)])"

declare dec.simps [simp del]

definition dec_val :: "string \<Rightarrow> nat" where
  "dec_val s = foldl (\<lambda>a c. 10 * a + digit_val c) 0 s"

text \<open>\<open>strconv.ParseUint(s, 10, 64)\<close>: digits only, and in range.\<close>

definition parse_uint :: "string \<Rightarrow> nat option" where
  "parse_uint s =
     (if s = [] \<or> \<not> list_all is_digit s then None
      else if dec_val s < 2 ^ 64 then Some (dec_val s) else None)"

lemma digit_val_digit_char [simp]: "d < 10 \<Longrightarrow> digit_val (digit_char d) = d"
  by (simp add: digit_val_def digit_char_def)

lemma is_digit_digit_char [simp]: "d < 10 \<Longrightarrow> is_digit (digit_char d)"
  by (simp add: is_digit_def char_in_def digit_char_def less_eq_char_def)

lemma digit_char_values [simp]:
  "digit_char 0 = CHR ''0''" "digit_char (Suc 0) = CHR ''1''" "digit_char 2 = CHR ''2''" "digit_char 3 = CHR ''3''" "digit_char 4 = CHR ''4''"
  "digit_char 5 = CHR ''5''" "digit_char 6 = CHR ''6''" "digit_char 7 = CHR ''7''" "digit_char 8 = CHR ''8''" "digit_char 9 = CHR ''9''"
  by (simp_all add: digit_char_def char_of_def bit_0)

lemma dec_val_snoc [simp]: "dec_val (s @ [c]) = 10 * dec_val s + digit_val c"
  by (simp add: dec_val_def)

lemma dec_val_dec [simp]: "dec_val (dec n) = n"
proof (induction n rule: dec.induct)
  case (1 n)
  show ?case
  proof (cases "n < 10")
    case True
    then show ?thesis by (simp add: dec.simps [of n] dec_val_def)
  next
    case False
    with 1 show ?thesis by (simp add: dec.simps [of n])
  qed
qed

lemma dec_digits: "list_all is_digit (dec n)"
proof (induction n rule: dec.induct)
  case (1 n)
  then show ?case by (cases "n < 10") (simp_all add: dec.simps [of n])
qed

lemma dec_not_Nil [simp]: "dec n \<noteq> []"
  by (simp add: dec.simps [of n])

lemma dec_inject [simp]: "dec m = dec n \<longleftrightarrow> m = n"
  by (metis dec_val_dec)

lemma parse_uint_dec [simp]: "n < 2 ^ 64 \<Longrightarrow> parse_uint (dec n) = Some n"
  by (simp add: parse_uint_def dec_digits)

section \<open>UTF-8\<close>

abbreviation bytes_of :: "string \<Rightarrow> nat list" where
  "bytes_of s \<equiv> map of_char s"

definition cont_byte :: "nat \<Rightarrow> bool" where
  "cont_byte b \<longleftrightarrow> 128 \<le> b \<and> b \<le> 191"

text \<open>
  \<open>utf8.DecodeRune\<close> of the bytes \<open>b # bs\<close>: the rune, its width and whether it is a valid
  encoding; an invalid byte decodes to U+FFFD with width 1.
\<close>

definition decode_rune :: "nat \<Rightarrow> nat list \<Rightarrow> nat \<times> nat \<times> bool" where
  "decode_rune b bs =
     (if b < 128 then (b, 1, True)
      else if 194 \<le> b \<and> b \<le> 223 then
        (case bs of
           b1 # _ \<Rightarrow> if cont_byte b1 then ((b - 192) * 64 + (b1 - 128), 2, True) else (65533, 1, False)
         | _ \<Rightarrow> (65533, 1, False))
      else if 224 \<le> b \<and> b \<le> 239 then
        (case bs of
           b1 # b2 # _ \<Rightarrow>
             if (if b = 224 then 160 else 128) \<le> b1 \<and> b1 \<le> (if b = 237 then 159 else 191) \<and> cont_byte b2
             then ((b - 224) * 4096 + (b1 - 128) * 64 + (b2 - 128), 3, True) else (65533, 1, False)
         | _ \<Rightarrow> (65533, 1, False))
      else if 240 \<le> b \<and> b \<le> 244 then
        (case bs of
           b1 # b2 # b3 # _ \<Rightarrow>
             if (if b = 240 then 144 else 128) \<le> b1 \<and> b1 \<le> (if b = 244 then 143 else 191)
                \<and> cont_byte b2 \<and> cont_byte b3
             then ((b - 240) * 262144 + (b1 - 128) * 4096 + (b2 - 128) * 64 + (b3 - 128), 4, True)
             else (65533, 1, False)
         | _ \<Rightarrow> (65533, 1, False))
      else (65533, 1, False))"

fun runes :: "nat list \<Rightarrow> (nat \<times> bool) list" where
  "runes [] = []"
| "runes (b # bs) =
     (case decode_rune b bs of (r, w, ok) \<Rightarrow> (r, ok) # runes (drop (w - 1) bs))"

definition utf8_valid :: "string \<Rightarrow> bool" where
  "utf8_valid s \<longleftrightarrow> list_all snd (runes (bytes_of s))"

text \<open>\<open>strings.IndexFunc(s, p) >= 0\<close>\<close>

definition any_rune :: "(nat \<Rightarrow> bool) \<Rightarrow> string \<Rightarrow> bool" where
  "any_rune p s \<longleftrightarrow> list_ex (\<lambda>(r, _). p r) (runes (bytes_of s))"

definition is_control :: "nat \<Rightarrow> bool" where
  "is_control r \<longleftrightarrow> r < 32 \<or> (127 \<le> r \<and> r < 160)"

definition is_space :: "nat \<Rightarrow> bool" where
  "is_space r \<longleftrightarrow> (9 \<le> r \<and> r \<le> 13) \<or> r = 32 \<or> r = 133 \<or> r = 160 \<or> r = 5760
     \<or> (8192 \<le> r \<and> r \<le> 8202) \<or> r = 8232 \<or> r = 8233 \<or> r = 8239 \<or> r = 8287 \<or> r = 12288"

section \<open>Paths\<close>

fun clean_step :: "bool \<Rightarrow> string list \<Rightarrow> string \<Rightarrow> string list" where
  "clean_step rooted out c =
     (if c = '''' \<or> c = ''.'' then out
      else if c = ''..'' then
        (if out \<noteq> [] \<and> last out \<noteq> ''..'' then butlast out
         else if rooted then out else out @ [''..''])
      else out @ [c])"

text \<open>\<open>path.Clean\<close>\<close>

definition path_clean :: "string \<Rightarrow> string" where
  "path_clean p =
     (if p = '''' then ''.''
      else let rooted = (hd p = CHR ''/'');
               body = join_with CHR ''/'' (foldl (clean_step rooted) [] (split_on CHR ''/'' p))
           in if rooted then CHR ''/'' # body else if body = '''' then ''.'' else body)"

text \<open>\<open>path.Dir\<close>: clean everything up to the last slash.\<close>

definition path_dir :: "string \<Rightarrow> string" where
  "path_dir p = (let ws = split_on CHR ''/'' p in path_clean (join_with CHR ''/'' (butlast ws @ [''''])))"

section \<open>JSON strings\<close>

definition hex_char :: "nat \<Rightarrow> char" where
  "hex_char d = (if d < 10 then char_of (48 + d) else char_of (87 + d))"

abbreviation backslash :: char where "backslash \<equiv> CHR 0x5C"
abbreviation dquote :: char where "dquote \<equiv> CHR 0x22"

text \<open>\<open>json.Marshal\<close> of one ASCII byte, with HTML escaping.\<close>

definition json_ascii :: "nat \<Rightarrow> string" where
  "json_ascii b =
     (if b = 34 \<or> b = 92 then [backslash, char_of b]
      else if b = 8 then [backslash, CHR ''b'']
      else if b = 12 then [backslash, CHR ''f'']
      else if b = 10 then [backslash, CHR ''n'']
      else if b = 13 then [backslash, CHR ''r'']
      else if b = 9 then [backslash, CHR ''t'']
      else if b < 32 \<or> b = 60 \<or> b = 62 \<or> b = 38
        then backslash # ''u00'' @ [hex_char (b div 16), hex_char (b mod 16)]
      else [char_of b])"

fun json_body :: "nat list \<Rightarrow> string" where
  "json_body [] = []"
| "json_body (b # bs) =
     (if b < 128 then json_ascii b @ json_body bs
      else (case decode_rune b bs of (r, w, ok) \<Rightarrow>
        if \<not> ok then (backslash # ''ufffd'') @ json_body (drop (w - 1) bs)
        else (if r = 8232 \<or> r = 8233 then backslash # ''u202'' @ [hex_char (r mod 16)]
              else map char_of (b # take (w - 1) bs)) @ json_body (drop (w - 1) bs)))"

definition json_string :: "string \<Rightarrow> string" where
  "json_string s = dquote # json_body (bytes_of s) @ [dquote]"

definition json_bool :: "bool \<Rightarrow> string" where
  "json_bool b = (if b then ''true'' else ''false'')"

text \<open>Strings of printable ASCII characters that \<open>encoding/json\<close> writes as they are.\<close>

definition json_plain_char :: "char \<Rightarrow> bool" where
  "json_plain_char c \<longleftrightarrow> (let b = (of_char c :: nat) in
     32 \<le> b \<and> b < 128 \<and> b \<noteq> 34 \<and> b \<noteq> 92 \<and> b \<noteq> 60 \<and> b \<noteq> 62 \<and> b \<noteq> 38)"

definition json_plain :: "string \<Rightarrow> bool" where
  "json_plain s \<longleftrightarrow> list_all json_plain_char s"

lemma json_ascii_plain: "json_plain_char c \<Longrightarrow> json_ascii (of_char c) = [c]"
  by (auto simp: json_plain_char_def json_ascii_def Let_def)

lemma json_body_plain: "json_plain s \<Longrightarrow> json_body (bytes_of s) = s"
  by (induction s) (auto simp: json_plain_def json_ascii_plain json_plain_char_def Let_def)

end
