(* ===== verification/ShipName.thy ===== *)
theory ShipName
  imports GoText
begin

text \<open>
  Urbit ship names (\<open>internal/protocol/fake.go\<close> and \<open>ship_atom.go\<close>): the syllable tables, the
  check of a canonical \<open>@p\<close>, the class of a name, and the rendering of Vere's little-endian
  identity atom with its concealment (a four-round Feistel network over MurmurHash3).

  The theorems at the end show that the rendering is the inverse image of the check: every
  identity of at most 128 bits has a canonical name, and two identities never share one.
\<close>

section \<open>Syllables\<close>

definition ship_prefixes :: string where
  "ship_prefixes =
     ''dozmarbinwansamlitsighidfidlissogdirwacsabwissib'' @
     ''rigsoldopmodfoglidhopdardorlorhodfolrintogsilmir'' @
     ''holpaslacrovlivdalsatlibtabhanticpidtorbolfosdot'' @
     ''losdilforpilramtirwintadbicdifrocwidbisdasmidlop'' @
     ''rilnardapmolsanlocnovsitnidtipsicropwitnatpanmin'' @
     ''ritpodmottamtolsavposnapnopsomfinfonbanmorworsip'' @
     ''ronnorbotwicsocwatdolmagpicdavbidbaltimtasmallig'' @
     ''sivtagpadsaldivdactansidfabtarmonranniswolmispal'' @
     ''lasdismaprabtobrollatlonnodnavfignomnibpagsopral'' @
     ''bilhaddocridmocpacravripfaltodtiltinhapmicfanpat'' @
     ''taclabmogsimsonpinlomrictapfirhasbosbatpochactid'' @
     ''havsaplindibhosdabbitbarracparloddosbortochilmac'' @
     ''tomdigfilfasmithobharmighinradmashalraglagfadtop'' @
     ''mophabnilnosmilfopfamdatnoldinhatnacrisfotribhoc'' @
     ''nimlarfitwalrapsarnalmoslandondanladdovrivbacpol'' @
     ''laptalpitnambonrostonfodponsovnocsorlavmatmipfip''"

definition ship_suffixes :: string where
  "ship_suffixes =
     ''zodnecbudwessevpersutletfulpensytdurwepserwylsun'' @
     ''rypsyxdyrnuphebpeglupdepdysputlughecryttyvsydnex'' @
     ''lunmeplutseppesdelsulpedtemledtulmetwenbynhexfeb'' @
     ''pyldulhetmevruttylwydtepbesdexsefwycburderneppur'' @
     ''rysrebdennutsubpetrulsynregtydsupsemwynrecmegnet'' @
     ''secmulnymtevwebsummutnyxrextebfushepbenmuswyxsym'' @
     ''selrucdecwexsyrwetdylmynmesdetbetbeltuxtugmyrpel'' @
     ''syptermebsetdutdegtexsurfeltudnuxruxrenwytnubmed'' @
     ''lytdusnebrumtynseglyxpunresredfunrevrefmectedrus'' @
     ''bexlebduxrynnumpyxrygryxfeptyrtustyclegnemfermer'' @
     ''tenlusnussyltecmexpubrymtucfyllepdebbermughuttun'' @
     ''bylsudpemdevlurdefbusbeprunmelpexdytbyttyplevmyl'' @
     ''wedducfurfexnulluclennerlexrupnedlecrydlydfenwel'' @
     ''nydhusrelrudneshesfetdesretdunlernyrsebhulryllud'' @
     ''remlysfynwerrycsugnysnyllyndyndemluxfedsedbecmun'' @
     ''lyrtesmudnytbyrsenwegfyrmurtelreptegpecnelnevfes''"
fun chunks3 :: "'a list \<Rightarrow> 'a list list" where
  "chunks3 (a # b # c # xs) = [a, b, c] # chunks3 xs"
| "chunks3 _ = []"

text \<open>The loop over a table in steps of three bytes.\<close>

definition has_syllable :: "string \<Rightarrow> string \<Rightarrow> bool" where
  "has_syllable table syllable \<longleftrightarrow> length syllable = 3 \<and> syllable \<in> set (chunks3 table)"

text \<open>\<open>table[3*k : 3*k+3]\<close>\<close>

definition syllable_at :: "string \<Rightarrow> nat \<Rightarrow> string" where
  "syllable_at table k = take 3 (drop (3 * k) table)"

section \<open>Canonical names\<close>

text \<open>
  The loop of \<open>ValidFakeShip\<close> over the words of a name: \<open>None\<close> where it returns false, and
  otherwise the canonical spelling of the words from position \<open>i\<close> of \<open>n\<close>.
\<close>

fun ship_words :: "nat \<Rightarrow> nat \<Rightarrow> string list \<Rightarrow> string option" where
  "ship_words n i [] = Some ''''"
| "ship_words n i (w # ws) =
     (if length w \<noteq> 6 \<or> \<not> has_syllable ship_prefixes (take 3 w) \<or> \<not> has_syllable ship_suffixes (drop 3 w)
      then None
      else if i = 0 \<and> (w = ''dozzod'' \<or> n = 1 \<and> take 3 w = ''doz'') then None
      else map_option
        (\<lambda>r. (if i > 0 then (if (n - i) mod 4 = 0 then ''--'' else ''-'') else '''') @ w @ r)
        (ship_words n (i + 1) ws))"

definition valid_fake_ship :: "string \<Rightarrow> bool" where
  "valid_fake_ship ship =
     (if length ship < 4 \<or> length ship > 57 \<or> ship ! 0 \<noteq> CHR ''~'' then False
      else let name = drop 1 ship
      in if length name = 3 then has_syllable ship_suffixes name
      else let words = split_on CHR ''-'' (collapse_dashes name)
      in if length words > 8 then False else ship_words (length words) 0 words = Some name)"

definition ship_class :: "string \<Rightarrow> string" where
  "ship_class ship =
     (if \<not> valid_fake_ship ship then ''''
      else let n = length (filter (\<lambda>c. c \<noteq> CHR ''-'') (trim_prefix ship ''~''))
      in if n = 3 then ''galaxy'' else if n = 6 then ''star'' else if n = 12 then ''planet''
         else if n \<le> 24 then ''moon'' else ''comet'')"

section \<open>Names of identity atoms\<close>

text \<open>MurmurHash3 x86_32 of a two-byte little-endian input.\<close>

definition ship_hash :: "u32 \<Rightarrow> u16 \<Rightarrow> u32" where
  "ship_hash seed value =
     (let k = ucast value * 0xcc9e2d51;
          k = word_rotl 15 k * 0x1b873593;
          h = xor (xor seed k) 2;
          h = xor h (drop_bit 16 h);
          h = h * 0x85ebca6b;
          h = xor h (drop_bit 13 h);
          h = h * 0xc2b2ae35
      in xor h (drop_bit 16 h))"

text \<open>
  One round of the Feistel network. All values stay far below \<open>2^64\<close>, so the \<open>uint64\<close>
  arithmetic of the source does not wrap.
\<close>

definition feistel_round :: "nat \<Rightarrow> u32 \<Rightarrow> nat \<times> nat \<Rightarrow> nat \<times> nat" where
  "feistel_round j seed lr =
     (case lr of (left, right) \<Rightarrow>
       (right, (left + unat (ship_hash seed (of_nat right))) mod (65535 + j mod 2)))"

definition conceal :: "nat \<Rightarrow> nat" where
  "conceal n =
     (case feistel_round 3 0x4b387af7 (feistel_round 2 0x85bcae01 (feistel_round 1 0xee281300
        (feistel_round 0 0xb76d5eed (n mod 65535, n div 65535))))
      of (left, right) \<Rightarrow> if right = 65535 then 65535 * right + left else 65535 * left + right)"

text \<open>The concealment of the low 64 bits, when the high 64 bits are zero.\<close>

definition conceal_low :: "nat \<Rightarrow> nat" where
  "conceal_low lo =
     (let low = lo mod 2 ^ 32
      in if low \<ge> 65536 then
           (let value = conceal (low - 65536);
                value = (if value \<ge> 0xffffffff then conceal value else value)
            in (lo div 2 ^ 32) * 2 ^ 32 + (65536 + value))
         else lo)"

fun le_nat :: "u8 list \<Rightarrow> nat" where
  "le_nat [] = 0"
| "le_nat (b # bs) = unat b + 256 * le_nat bs"

text \<open>Byte and 16-bit word \<open>k\<close> of the little-endian value.\<close>

definition byte_at :: "nat \<Rightarrow> nat \<Rightarrow> nat" where
  "byte_at v k = (v div 256 ^ k) mod 256"

definition word_at :: "nat \<Rightarrow> nat \<Rightarrow> nat" where
  "word_at v k = byte_at v (2 * k) + 256 * byte_at v (2 * k + 1)"

fun last_word :: "nat \<Rightarrow> nat \<Rightarrow> nat" where
  "last_word v 0 = 0"
| "last_word v (Suc k) = (if word_at v (Suc k) = 0 then last_word v k else Suc k)"

text \<open>The loop from \<open>i\<close> down to 0.\<close>

fun name_words :: "nat \<Rightarrow> nat \<Rightarrow> nat \<Rightarrow> string" where
  "name_words v lw i =
     (if i < lw then (if (i + 1) mod 4 = 0 then ''--'' else ''-'') else '''')
     @ syllable_at ship_prefixes (byte_at v (2 * i + 1)) @ syllable_at ship_suffixes (byte_at v (2 * i))
     @ (case i of 0 \<Rightarrow> '''' | Suc j \<Rightarrow> name_words v lw j)"

declare name_words.simps [simp del]

definition ship_from_atom :: "u8 list \<Rightarrow> gerr + string" where
  "ship_from_atom atom =
     (if length atom > 16 then Inl (Err ''ship identity exceeds 128 bits'')
      else let lo = le_nat (take 8 atom); hi = le_nat (drop 8 atom);
               lo = (if hi = 0 then conceal_low lo else lo)
      in if hi = 0 \<and> lo < 256 then Inr (CHR ''~'' # syllable_at ship_suffixes lo)
         else let v = lo + hi * 2 ^ 64; lw = last_word v 7
              in Inr (CHR ''~'' # name_words v lw lw))"

section \<open>The tables\<close>

definition syllable_code :: "string \<Rightarrow> int" where
  "syllable_code w = of_char (w ! 0) * 65536 + of_char (w ! 1) * 256 + of_char (w ! 2)"

lemma prefix_codes: "map syllable_code (chunks3 ship_prefixes) =
    [6582138, 7168370, 6449518, 7823726, 7561581, 7104884, 7563623, 6842724, 6711652, 7104883,
     7565159, 6580594, 7823715, 7561570, 7825779, 7563618, 7498087, 7565164, 6582128, 7171940,
     6713191, 7104868, 6844272, 6578546, 6582130, 7106418, 6844260, 6713196, 7498094, 7630695,
     7563628, 7170418, 6844268, 7364979, 7102819, 7499638, 7104886, 6578540, 7561588, 7104866,
     7627106, 6840686, 7629155, 7367012, 7630706, 6451052, 6713203, 6582132, 7106419, 6580588,
     6713202, 7367020, 7496045, 7629170, 7825774, 7627108, 6449507, 6580582, 7499619, 7825764,
     6449523, 6578547, 7170404, 7106416, 7498092, 7233906, 6578544, 7171948, 7561582, 7106403,
     7237494, 7563636, 7235940, 7629168, 7563619, 7499632, 7825780, 7233908, 7364974, 7170414,
     7498100, 7368548, 7171956, 7627117, 7630700, 7561590, 7368563, 7233904, 7237488, 7565165,
     6711662, 6713198, 6447470, 7171954, 7827314, 7563632, 7499630, 7237490, 6451060, 7825763,
     7565155, 7823732, 6582124, 7168359, 7367011, 6578550, 6449508, 6447468, 7629165, 7627123,
     7168364, 7104871, 7563638, 7627111, 7364964, 7561580, 6580598, 6578531, 7627118, 7563620,
     6709602, 7627122, 7171950, 7496046, 7235955, 7827308, 7170419, 7364972, 7102835, 6580595,
     7168368, 7496034, 7630690, 7499628, 7102836, 7106414, 7237476, 7233910, 6711655, 7237485,
     7235938, 7364967, 7565168, 7496044, 6449516, 6840676, 6582115, 7498084, 7171939, 7364963,
     7496054, 7498096, 6709612, 7630692, 7629164, 7629166, 6840688, 7170403, 6709614, 7364980,
     7627107, 7102818, 7171943, 7563629, 7565166, 7367022, 7106413, 7498083, 7627120, 6711666,
     6840691, 6451059, 6447476, 7368547, 6840675, 7629156, 6840694, 7561584, 7104878, 6580578,
     6844275, 6578530, 6449524, 6447474, 7496035, 7364978, 7106404, 6582131, 6451058, 7630691,
     6842732, 7168355, 7630701, 6580583, 6711660, 6709619, 7170420, 6844258, 6840690, 7170407,
     6842734, 7496036, 7168371, 6840684, 7496039, 7102823, 6709604, 7630704, 7171952, 6840674,
     7235948, 7237491, 7170412, 6713200, 6709613, 6578548, 7237484, 6580590, 6840692, 7233891,
     7498099, 6713204, 7498082, 6844259, 7235949, 7102834, 6711668, 7823724, 7496048, 7561586,
     7233900, 7171955, 7102830, 6582126, 6578542, 7102820, 6582134, 7498102, 6447459, 7368556,
     7102832, 7627116, 7367028, 7233901, 6451054, 7499635, 7630702, 6713188, 7368558, 7565174,
     7237475, 7565170, 7102838, 7168372, 7170416, 6711664]"
  by code_simp

lemma suffix_codes: "map syllable_code (chunks3 ship_suffixes) =
    [8023908, 7234915, 6452580, 7824755, 7562614, 7366002, 7566708, 7103860, 6714732, 7365998,
     7567732, 6583666, 7824752, 7562610, 7829868, 7566702, 7502192, 7567736, 6584690, 7239024,
     6841698, 7365991, 7107952, 6579568, 6584691, 7370100, 7107943, 6841699, 7502196, 7633270,
     7567716, 7234936, 7107950, 7169392, 7107956, 7562608, 7366003, 6579564, 7566700, 7365988,
     7628141, 7103844, 7632236, 7169396, 7824750, 6453614, 6841720, 6710626, 7371116, 6583660,
     6841716, 7169398, 7501172, 7633260, 7829860, 7628144, 6448499, 6579576, 7562598, 7829859,
     6452594, 6579570, 7234928, 7370098, 7502195, 7497058, 6579566, 7239028, 7566690, 7366004,
     7501164, 7567726, 7497063, 7633252, 7566704, 7562605, 7829870, 7497059, 7169383, 7234932,
     7562595, 7173484, 7240045, 7628150, 7824738, 7566701, 7173492, 7240056, 7497080, 7628130,
     6714739, 6841712, 6448494, 7173491, 7829880, 7567725, 7562604, 7501155, 6579555, 7824760,
     7567730, 7824756, 6584684, 7174510, 7169395, 6579572, 6448500, 6448492, 7632248, 7632231,
     7174514, 7365996, 7567728, 7628146, 7169378, 7562612, 6583668, 6579559, 7628152, 7566706,
     6710636, 7632228, 7239032, 7501176, 7497070, 7829876, 7239010, 7169380, 7108980, 6583667,
     7234914, 7501165, 7633262, 7562599, 7108984, 7370094, 7497075, 7497060, 6714734, 7497078,
     7497062, 7169379, 7628132, 7501171, 6448504, 7103842, 6583672, 7502190, 7239021, 7371128,
     7502183, 7502200, 6710640, 7633266, 7632243, 7633251, 7103847, 7234925, 6710642, 7169394,
     7628142, 7107955, 7239027, 7567724, 7628131, 7169400, 7370082, 7502189, 7632227, 6715756,
     7103856, 6579554, 6448498, 7173479, 6845812, 7632238, 6453612, 7566692, 7365997, 6579574,
     7107954, 6579558, 6452595, 6448496, 7501166, 7169388, 7366008, 6584692, 6453620, 7633264,
     7103862, 7174508, 7824740, 6583651, 6714738, 6710648, 7239020, 7107939, 7103854, 7234930,
     7103864, 7501168, 7234916, 7103843, 7502180, 7108964, 6710638, 7824748, 7240036, 6845811,
     7497068, 7501156, 7234931, 6841715, 6710644, 6579571, 7497076, 6583662, 7103858, 7240050,
     7562594, 6845804, 7502188, 7107940, 7497069, 7108979, 6715758, 7824754, 7502179, 7566695,
     7240051, 7240044, 7108974, 6584686, 6579565, 7107960, 6710628, 7562596, 6448483, 7173486,
     7108978, 7628147, 7173476, 7240052, 6453618, 7562606, 7824743, 6715762, 7173490, 7628140,
     7497072, 7628135, 7365987, 7234924, 7234934, 6710643]"
  by code_simp

lemma distinct_prefix_codes: "distinct (map syllable_code (chunks3 ship_prefixes))"
  unfolding prefix_codes by simp

lemma distinct_suffix_codes: "distinct (map syllable_code (chunks3 ship_suffixes))"
  unfolding suffix_codes by simp

lemma length_prefixes: "length ship_prefixes = 768"
  by (simp add: ship_prefixes_def)

lemma length_suffixes: "length ship_suffixes = 768"
  by (simp add: ship_suffixes_def)

text \<open>Facts about any table of 256 distinct three-letter syllables.\<close>

lemma chunks3_nth:
  "3 * k + 3 \<le> length t \<Longrightarrow> k < length (chunks3 t) \<and> chunks3 t ! k = take 3 (drop (3 * k) t)"
proof (induction t arbitrary: k rule: chunks3.induct)
  case (1 a b c xs)
  then show ?case by (cases k) (auto simp: numeral_3_eq_3)
qed auto

lemma chunks3_sets: "w \<in> set (chunks3 t) \<Longrightarrow> length w = 3 \<and> set w \<subseteq> set t"
  by (induction t rule: chunks3.induct) auto

section \<open>The concealment is a permutation\<close>

lemma feistel_round_bounds:
  "feistel_round j s (l, r) = (l', r') \<Longrightarrow> l' = r \<and> r' < 65535 + j mod 2"
  by (auto simp: feistel_round_def intro!: mod_less_divisor)

lemma mod_add_cancel:
  fixes a b c m :: nat
  assumes "a < m" "b < m" "(a + c) mod m = (b + c) mod m"
  shows "a = b"
proof -
  have *: "x = y" if "x \<le> y" "y < m" "(y + c) mod m = (x + c) mod m" for x y
  proof -
    from that have "m dvd (y + c) - (x + c)" by (subst (asm) mod_eq_dvd_iff_nat) auto
    then have "m dvd y - x" by simp
    with that show ?thesis by (metis diff_is_0_eq dvd_imp_le le_antisym less_imp_diff_less not_le zero_less_diff)
  qed
  show ?thesis using assms * [of a b] * [of b a] by (cases "a \<le> b") auto
qed

lemma digit_parts:
  fixes a x m :: nat
  assumes "x < m"
  shows "(a * m + x) div m = a" "(a * m + x) mod m = x"
  using assms by simp_all

lemma feistel_round_inj:
  assumes "l < 65535 + j mod 2" "k < 65535 + j mod 2"
    and "feistel_round j s (l, r) = feistel_round j s (k, q)"
  shows "(l, r) = (k, q)"
proof -
  from assms(3) have "r = q" by (simp add: feistel_round_def)
  with assms show ?thesis
    by (auto simp: feistel_round_def dest: mod_add_cancel)
qed

text \<open>The four rounds, from a pair in the domain of the network.\<close>

definition feistel :: "nat \<times> nat \<Rightarrow> nat \<times> nat" where
  "feistel p = feistel_round 3 0x4b387af7 (feistel_round 2 0x85bcae01 (feistel_round 1 0xee281300
     (feistel_round 0 0xb76d5eed p)))"

lemma feistel_range: "feistel p = (l, r) \<Longrightarrow> l < 65535 \<and> r < 65536"
proof -
  assume f: "feistel p = (l, r)"
  obtain a b where 0: "feistel_round 0 0xb76d5eed p = (a, b)" by fastforce
  obtain c d where 1: "feistel_round 1 0xee281300 (a, b) = (c, d)" by fastforce
  obtain e g where 2: "feistel_round 2 0x85bcae01 (c, d) = (e, g)" by fastforce
  from f 0 1 2 have 3: "feistel_round 3 0x4b387af7 (e, g) = (l, r)" by (simp add: feistel_def)
  show ?thesis
    using feistel_round_bounds [OF 2] feistel_round_bounds [OF 3] by simp
qed

lemma feistel_inj:
  assumes "l < 65535" "k < 65535" "r < 65536" "q < 65536" "feistel (l, r) = feistel (k, q)"
  shows "(l, r) = (k, q)"
proof -
  obtain a b where r0: "feistel_round 0 0xb76d5eed (l, r) = (a, b)" by fastforce
  obtain a' b' where s0: "feistel_round 0 0xb76d5eed (k, q) = (a', b')" by fastforce
  obtain c d where r1: "feistel_round 1 0xee281300 (a, b) = (c, d)" by fastforce
  obtain c' d' where s1: "feistel_round 1 0xee281300 (a', b') = (c', d')" by fastforce
  obtain e g where r2: "feistel_round 2 0x85bcae01 (c, d) = (e, g)" by fastforce
  obtain e' g' where s2: "feistel_round 2 0x85bcae01 (c', d') = (e', g')" by fastforce
  note bounds = feistel_round_bounds [OF r0] feistel_round_bounds [OF s0]
    feistel_round_bounds [OF r1] feistel_round_bounds [OF s1]
    feistel_round_bounds [OF r2] feistel_round_bounds [OF s2]
  have "feistel_round 3 0x4b387af7 (e, g) = feistel_round 3 0x4b387af7 (e', g')"
    using assms(5) by (simp only: feistel_def r0 s0 r1 s1 r2 s2)
  then have "(e, g) = (e', g')"
    using bounds by (intro feistel_round_inj [of e 3 e' "0x4b387af7"]) auto
  then have "(c, d) = (c', d')"
    using bounds assms r2 s2 by (intro feistel_round_inj [of c 2 c' "0x85bcae01"]) auto
  then have "(a, b) = (a', b')"
    using bounds assms r1 s1 by (intro feistel_round_inj [of a 1 a' "0xee281300"]) auto
  then show ?thesis
    using assms r0 s0 by (intro feistel_round_inj [of l 0 k "0xb76d5eed"]) auto
qed

abbreviation conceal_size :: nat where "conceal_size \<equiv> 65535 * 65536"

definition recombine :: "nat \<times> nat \<Rightarrow> nat" where
  "recombine p = (case p of (left, right) \<Rightarrow>
     if right = 65535 then 65535 * right + left else 65535 * left + right)"

lemma conceal_eq: "conceal n = recombine (feistel (n mod 65535, n div 65535))"
  by (simp add: conceal_def recombine_def feistel_def)

lemma recombine_bound: "l < 65535 \<Longrightarrow> r < 65536 \<Longrightarrow> recombine (l, r) < conceal_size"
  by (auto simp: recombine_def)

lemma recombine_inj:
  assumes "l < 65535" "r < 65536" "k < 65535" "q < 65536" "recombine (l, r) = recombine (k, q)"
  shows "(l, r) = (k, q)"
proof -
  have no: "65535 * a + b \<noteq> 65535 * 65535 + c"
    if "a < 65535" "b < 65535" for a b c :: nat
    using that by linarith
  have split: "a = c \<and> b = d" if "b < 65535" "d < 65535" "65535 * a + b = 65535 * c + d" for a b c d :: nat
    using digit_parts [of b 65535 a] digit_parts [of d 65535 c] that by (metis mult.commute)
  from assms consider "r = 65535" "q = 65535" | "r < 65535" "q < 65535"
    using no [of l r k] no [of k q l] by (auto simp: recombine_def split: if_splits)
  then show ?thesis using assms split [of r q l k] by cases (auto simp: recombine_def)
qed

lemma conceal_args: "n < conceal_size \<Longrightarrow> n mod 65535 < 65535 \<and> n div 65535 < 65536"
  by (simp add: less_mult_imp_div_less)

lemma conceal_bound: "conceal n < conceal_size"
  unfolding conceal_eq using feistel_range recombine_bound
  by (cases "feistel (n mod 65535, n div 65535)") fastforce

lemma conceal_inj:
  assumes "m < conceal_size" "n < conceal_size" "conceal m = conceal n"
  shows "m = n"
proof -
  obtain l r where f: "feistel (m mod 65535, m div 65535) = (l, r)" by fastforce
  obtain k q where g: "feistel (n mod 65535, n div 65535) = (k, q)" by fastforce
  from assms(3) have "(l, r) = (k, q)"
    using feistel_range [OF f] feistel_range [OF g]
    by (intro recombine_inj) (simp_all add: conceal_eq f g)
  then have "(m mod 65535, m div 65535) = (n mod 65535, n div 65535)"
    using conceal_args [OF assms(1)] conceal_args [OF assms(2)] f g
    by (intro feistel_inj) simp_all
  then show ?thesis by (metis div_mult_mod_eq prod.inject)
qed

lemma conceal_low_eq:
  "conceal_low lo = (if lo mod 2 ^ 32 \<ge> 65536
     then (lo div 2 ^ 32) * 2 ^ 32 + (65536 + conceal (lo mod 2 ^ 32 - 65536)) else lo)"
  using conceal_bound [of "lo mod 2 ^ 32 - 65536"] by (simp add: conceal_low_def Let_def)

lemma conceal_low_parts:
  "conceal_low lo div 2 ^ 32 = lo div 2 ^ 32"
  "conceal_low lo mod 2 ^ 32 =
     (if lo mod 2 ^ 32 \<ge> 65536 then 65536 + conceal (lo mod 2 ^ 32 - 65536) else lo mod 2 ^ 32)"
proof -
  have b: "65536 + conceal (lo mod 2 ^ 32 - 65536) < 2 ^ 32"
    using conceal_bound [of "lo mod 2 ^ 32 - 65536"] by simp
  show "conceal_low lo div 2 ^ 32 = lo div 2 ^ 32"
    unfolding conceal_low_eq using digit_parts(1) [OF b, of "lo div 2 ^ 32"] by presburger
  show "conceal_low lo mod 2 ^ 32 =
      (if lo mod 2 ^ 32 \<ge> 65536 then 65536 + conceal (lo mod 2 ^ 32 - 65536) else lo mod 2 ^ 32)"
    unfolding conceal_low_eq using digit_parts(2) [OF b, of "lo div 2 ^ 32"] by presburger
qed

lemma conceal_low_bound: "lo < 2 ^ 64 \<Longrightarrow> conceal_low lo < 2 ^ 64"
proof -
  assume "lo < 2 ^ 64"
  then have "lo div 2 ^ 32 < 2 ^ 32" by (simp add: div_less_iff_less_mult)
  then have "conceal_low lo div 2 ^ 32 < 2 ^ 32" by (simp only: conceal_low_parts)
  then show ?thesis by (simp add: div_less_iff_less_mult)
qed

lemma conceal_low_inj: "conceal_low a = conceal_low b \<Longrightarrow> a = b"
proof -
  assume eq: "conceal_low a = conceal_low b"
  have d: "a div 2 ^ 32 = b div 2 ^ 32" using eq conceal_low_parts(1) by metis
  have m: "a mod 2 ^ 32 - 65536 < conceal_size" "b mod 2 ^ 32 - 65536 < conceal_size"
    using mod_less_divisor [of "2 ^ 32" a] mod_less_divisor [of "2 ^ 32" b] by simp_all
  have "conceal_low a mod 2 ^ 32 = conceal_low b mod 2 ^ 32" using eq by simp
  then have "a mod 2 ^ 32 = b mod 2 ^ 32"
    using conceal_inj [OF m] unfolding conceal_low_parts
    by (simp only: split: if_splits) arith+
  with d show ?thesis by (metis div_mult_mod_eq)
qed

section \<open>Syllables and words\<close>

lemma no_dash_tables: "CHR ''-'' \<notin> set ship_prefixes" "CHR ''-'' \<notin> set ship_suffixes"
  by (simp_all add: ship_prefixes_def ship_suffixes_def)

lemma syllable_at_chunk:
  assumes "length t = 768" "k < 256"
  shows "syllable_at t k = chunks3 t ! k" "k < length (chunks3 t)" "length (syllable_at t k) = 3"
proof -
  show "syllable_at t k = chunks3 t ! k" "k < length (chunks3 t)"
    using assms chunks3_nth [of k t] by (simp_all add: syllable_at_def)
  show "length (syllable_at t k) = 3" using assms by (simp add: syllable_at_def)
qed

lemma syllable_at_has: "length t = 768 \<Longrightarrow> k < 256 \<Longrightarrow> has_syllable t (syllable_at t k)"
  using syllable_at_chunk [of t k] by (auto simp: has_syllable_def)

lemma syllable_at_inj:
  assumes "length t = 768" "distinct (map syllable_code (chunks3 t))" "i < 256" "j < 256"
    and "syllable_at t i = syllable_at t j"
  shows "i = j"
proof -
  have "chunks3 t ! i = chunks3 t ! j" using assms by (simp add: syllable_at_chunk)
  with assms show ?thesis
    by (metis distinct_map nth_eq_iff_index_eq syllable_at_chunk(2))
qed

lemmas prefix_at = syllable_at_chunk(3) [OF length_prefixes] syllable_at_has [OF length_prefixes]
lemmas suffix_at = syllable_at_chunk(3) [OF length_suffixes] syllable_at_has [OF length_suffixes]

lemma syllable_at_set: "c \<in> set (syllable_at t k) \<Longrightarrow> c \<in> set t"
  by (auto simp: syllable_at_def dest!: in_set_takeD in_set_dropD)

definition word_name :: "nat \<Rightarrow> string" where
  "word_name w = syllable_at ship_prefixes (w div 256) @ syllable_at ship_suffixes (w mod 256)"

lemma word_name_length [simp]: "w < 65536 \<Longrightarrow> length (word_name w) = 6"
  by (simp add: word_name_def prefix_at suffix_at)

lemma word_name_parts:
  "w < 65536 \<Longrightarrow> take 3 (word_name w) = syllable_at ship_prefixes (w div 256)"
  "w < 65536 \<Longrightarrow> drop 3 (word_name w) = syllable_at ship_suffixes (w mod 256)"
  by (simp_all add: word_name_def prefix_at suffix_at)

lemma word_name_no_dash: "CHR ''-'' \<notin> set (word_name w)"
  using no_dash_tables by (auto simp: word_name_def dest: syllable_at_set)

lemma word_name_inj: "w < 65536 \<Longrightarrow> v < 65536 \<Longrightarrow> word_name w = word_name v \<Longrightarrow> w = v"
proof -
  assume wv: "w < 65536" "v < 65536" and eq: "word_name w = word_name v"
  have "syllable_at ship_prefixes (w div 256) = syllable_at ship_prefixes (v div 256)"
    using word_name_parts(1) [OF wv(1)] word_name_parts(1) [OF wv(2)] eq by simp
  then have d: "w div 256 = v div 256"
    using wv by (intro syllable_at_inj [OF length_prefixes distinct_prefix_codes]) simp_all
  have "syllable_at ship_suffixes (w mod 256) = syllable_at ship_suffixes (v mod 256)"
    using word_name_parts(2) [OF wv(1)] word_name_parts(2) [OF wv(2)] eq by simp
  then have "w mod 256 = v mod 256"
    by (intro syllable_at_inj [OF length_suffixes distinct_suffix_codes]) simp_all
  with d show ?thesis by (metis div_mult_mod_eq)
qed

lemma word_name_0: "word_name 0 = ''dozzod''"
  by (simp add: word_name_def syllable_at_def ship_prefixes_def ship_suffixes_def)

lemma word_name_doz: "w < 65536 \<Longrightarrow> take 3 (word_name w) = ''doz'' \<Longrightarrow> w < 256"
proof -
  assume w: "w < 65536" "take 3 (word_name w) = ''doz''"
  have "syllable_at ship_prefixes 0 = ''doz''" by (simp add: syllable_at_def ship_prefixes_def)
  with w have "w div 256 = 0"
    by (intro syllable_at_inj [OF length_prefixes distinct_prefix_codes]) (simp_all add: word_name_parts)
  then show ?thesis by simp
qed

section \<open>Rendering a list of words\<close>

definition sep :: "nat \<Rightarrow> nat \<Rightarrow> string" where
  "sep n i = (if i > 0 then (if (n - i) mod 4 = 0 then ''--'' else ''-'') else '''')"

fun render :: "nat \<Rightarrow> nat \<Rightarrow> nat list \<Rightarrow> string" where
  "render n i [] = ''''"
| "render n i (w # ws) = sep n i @ word_name w @ render n (i + 1) ws"

lemma ship_words_render:
  assumes "\<forall>w\<in>set ws. w < 65536" "i = 0 \<Longrightarrow> ws \<noteq> [] \<Longrightarrow> hd ws \<noteq> 0 \<and> (n = 1 \<longrightarrow> 256 \<le> hd ws)"
  shows "ship_words n i (map word_name ws) = Some (render n i ws)"
  using assms
proof (induction ws arbitrary: i)
  case (Cons w ws)
  then have w: "w < 65536" by simp
  have "i = 0 \<Longrightarrow> word_name w \<noteq> ''dozzod''"
    using Cons.prems(2) word_name_inj [of w 0] w by (auto simp flip: word_name_0)
  moreover have "i = 0 \<Longrightarrow> n = 1 \<Longrightarrow> take 3 (word_name w) \<noteq> ''doz''"
    using Cons.prems(2) word_name_doz [OF w] by fastforce
  moreover have "ship_words n (i + 1) (map word_name ws) = Some (render n (i + 1) ws)"
    using Cons by simp
  ultimately show ?case
    using w by (auto simp: word_name_parts prefix_at suffix_at sep_def)
qed simp

lemma render_length:
  assumes "\<forall>w\<in>set ws. w < 65536" "0 < i" "length ws = n - i"
  shows "length (render n i ws) = 7 * (n - i) + (n - i) div 4"
  using assms
proof (induction ws arbitrary: i)
  case (Cons w ws)
  then have ni: "n - i = Suc (n - (i + 1))" by simp
  have IH: "length (render n (i + 1) ws) = 7 * (n - (i + 1)) + (n - (i + 1)) div 4"
    using Cons by simp
  have "length (sep n i) = (if (n - i) mod 4 = 0 then 2 else 1)"
    using Cons.prems by (simp add: sep_def)
  moreover have "Suc m div 4 = (if Suc m mod 4 = 0 then Suc (m div 4) else m div 4)" for m :: nat
    by (simp add: div_Suc)
  ultimately show ?case using IH Cons.prems(1) unfolding ni by simp
qed simp

lemma render_letters:
  "\<forall>w\<in>set ws. w < 65536 \<Longrightarrow> length (filter (\<lambda>c. c \<noteq> CHR ''-'') (render n i ws)) = 6 * length ws"
proof (induction ws arbitrary: i)
  case (Cons w ws)
  have "filter (\<lambda>c. c \<noteq> CHR ''-'') (word_name w) = word_name w"
    using word_name_no_dash [of w] by (auto simp: filter_id_conv)
  with Cons show ?case by (simp add: sep_def)
qed simp

lemma collapse_no_dash: "CHR ''-'' \<notin> set w \<Longrightarrow> collapse_dashes (w @ s) = w @ collapse_dashes s"
proof (induction w)
  case (Cons x w)
  then show ?case by (cases "w @ s") auto
qed simp

lemma collapse_sep:
  "s \<noteq> [] \<Longrightarrow> hd s \<noteq> CHR ''-'' \<Longrightarrow> 0 < i \<Longrightarrow>
     collapse_dashes (sep n i @ s) = CHR ''-'' # collapse_dashes s"
  by (cases s) (auto simp: sep_def)

lemma word_name_hd: "w < 65536 \<Longrightarrow> word_name w \<noteq> [] \<and> hd (word_name w) \<noteq> CHR ''-''"
  using word_name_length [of w] word_name_no_dash [of w]
  by (metis hd_in_set length_0_conv zero_neq_numeral)

lemma collapse_render:
  "\<forall>w\<in>set ws. w < 65536 \<Longrightarrow> 0 < i \<Longrightarrow>
     collapse_dashes (render n i ws) = concat (map (\<lambda>w. CHR ''-'' # word_name w) ws)"
proof (induction ws arbitrary: i)
  case (Cons w ws)
  with word_name_hd [of w] show ?case
    by (simp add: collapse_sep collapse_no_dash [OF word_name_no_dash])
qed simp

lemma split_render:
  assumes "\<forall>w\<in>set (v # ws). w < 65536"
  shows "split_on CHR ''-'' (collapse_dashes (render n 0 (v # ws))) = map word_name (v # ws)"
proof -
  have "collapse_dashes (render n 0 (v # ws)) = word_name v @ concat (map (\<lambda>w. CHR ''-'' # word_name w) ws)"
    using assms by (simp add: sep_def collapse_no_dash [OF word_name_no_dash] collapse_render)
  also have "split_on CHR ''-'' \<dots> = map word_name (v # ws)"
  proof (induction ws arbitrary: v)
    case Nil
    show ?case by (simp add: split_on_no_sep word_name_no_dash)
  next
    case (Cons w ws)
    then show ?case by (simp add: split_on_append word_name_no_dash)
  qed
  finally show ?thesis .
qed

text \<open>A rendered list of one to eight words with a proper first word is a canonical name.\<close>

lemma valid_render:
  assumes ws: "\<forall>w\<in>set (v # ws). w < 65536" and n: "length ws < 8"
    and hd: "v \<noteq> 0" "ws = [] \<Longrightarrow> 256 \<le> v"
  shows "valid_fake_ship (CHR ''~'' # render (length (v # ws)) 0 (v # ws))"
proof -
  let ?n = "length (v # ws)" and ?r = "render (length (v # ws)) 0 (v # ws)"
  have "length ?r = 6 + length (render ?n 1 ws)" using ws by (simp add: sep_def)
  also have "\<dots> = 6 + 7 * length ws + length ws div 4"
    using ws render_length [of ws 1 ?n] by simp
  finally have len: "length ?r = 6 + 7 * length ws + length ws div 4" .
  have w: "ship_words ?n 0 (map word_name (v # ws)) = Some ?r"
    using ws hd by (intro ship_words_render) auto
  have s: "split_on CHR ''-'' (collapse_dashes ?r) = map word_name (v # ws)"
    using ws by (rule split_render)
  have "length ws div 4 \<le> 1" using n by simp
  then show ?thesis
    using n w s len unfolding valid_fake_ship_def Let_def by (simp del: render.simps list.map ship_words.simps)
qed

lemma render_inj:
  assumes "\<forall>w\<in>set (v # ws). w < 65536" "\<forall>w\<in>set (u # us). w < 65536"
    and "render (length (v # ws)) 0 (v # ws) = render (length (u # us)) 0 (u # us)"
  shows "v # ws = u # us"
proof -
  have "map word_name (v # ws) = map word_name (u # us)"
    using split_render [OF assms(1)] split_render [OF assms(2)] assms(3) by metis
  moreover have "inj_on word_name (set (v # ws) \<union> set (u # us))"
    using assms word_name_inj by (intro inj_onI) blast
  ultimately show ?thesis by (metis inj_on_map_eq_map)
qed

section \<open>The words of a value\<close>

lemma word_at_digit: "word_at v k = (v div 65536 ^ k) mod 65536"
proof -
  have p: "(256::nat) ^ (2 * k) = 65536 ^ k" "(256::nat) ^ (2 * k + 1) = 65536 ^ k * 256"
    by (simp_all add: power_add power_mult)
  have "x mod 65536 = 256 * ((x div 256) mod 256) + x mod 256" for x :: nat
    using mod_mult2_eq [of x 256 256] by simp
  then show ?thesis
    unfolding word_at_def byte_at_def p by (simp add: div_mult2_eq)
qed

lemma digit_of_mod:
  fixes a b c v :: nat
  assumes "0 < a"
  shows "(v mod (a * (b * c))) div a mod b = v div a mod b"
  using assms by (simp add: mod_mult2_eq [of v a] mod_mod_cancel)

lemma word_at_less [simp]: "word_at v k < 65536"
  by (simp add: word_at_digit)

lemma bytes_of_word_at:
  "byte_at v (2 * k + 1) = word_at v k div 256" "byte_at v (2 * k) = word_at v k mod 256"
  by (simp_all add: word_at_def byte_at_def)

lemma word_at_Suc: "word_at v (Suc k) = word_at (v div 65536) k"
  by (simp add: word_at_digit div_mult2_eq)

lemma words_determine:
  "v < 65536 ^ n \<Longrightarrow> u < 65536 ^ n \<Longrightarrow> (\<And>k. k < n \<Longrightarrow> word_at v k = word_at u k) \<Longrightarrow> v = u"
proof (induction n arbitrary: v u)
  case (Suc n)
  have "v div 65536 = u div 65536"
  proof (rule Suc.IH)
    show "v div 65536 < 65536 ^ n" "u div 65536 < 65536 ^ n"
      using Suc.prems by (simp_all add: div_less_iff_less_mult mult.commute)
    show "word_at (v div 65536) k = word_at (u div 65536) k" if "k < n" for k
      using Suc.prems(3) [of "Suc k"] that by (simp add: word_at_Suc)
  qed
  moreover have "v mod 65536 = u mod 65536"
    using Suc.prems(3) [of 0] by (simp add: word_at_digit)
  ultimately show ?case by (metis div_mult_mod_eq)
qed simp

lemma last_word_bounds:
  "last_word v n \<le> n" "last_word v n \<noteq> 0 \<Longrightarrow> word_at v (last_word v n) \<noteq> 0"
  "last_word v n < k \<Longrightarrow> k \<le> n \<Longrightarrow> word_at v k = 0"
proof (induction n)
  case (Suc n)
  case 1 from Suc(1) show ?case by (simp add: le_SucI)
next
  case (Suc n)
  case 2 with Suc show ?case by (auto split: if_splits)
next
  case (Suc n)
  case 3 with Suc show ?case by (cases "k = Suc n") (auto split: if_splits)
qed simp_all

text \<open>The size of a value fixes the position of its last nonzero word.\<close>

lemma last_word_size:
  assumes "v < 65536 ^ 8"
  shows "v < 65536 ^ Suc (last_word v 7)" "last_word v 7 \<noteq> 0 \<Longrightarrow> 65536 ^ last_word v 7 \<le> v"
proof -
  let ?l = "last_word v 7"
  have "v = v mod 65536 ^ Suc ?l"
  proof (rule words_determine [of _ 8])
    show "v < 65536 ^ 8" by (rule assms)
    show "v mod 65536 ^ Suc ?l < 65536 ^ 8" using assms by (meson mod_le_divisor mod_less_eq_dividend le_less_trans)
    fix k assume "k < (8::nat)"
    show "word_at v k = word_at (v mod 65536 ^ Suc ?l) k"
    proof (cases "k \<le> ?l")
      case True
      then have "(65536::nat) ^ Suc ?l = 65536 ^ k * (65536 * 65536 ^ (?l - k))"
        by (simp flip: power_add power_Suc)
      then show ?thesis unfolding word_at_digit by (simp only: digit_of_mod zero_less_power zero_less_numeral)
    next
      case False
      then have "word_at v k = 0" using \<open>k < 8\<close> last_word_bounds(3) [of v 7 k] by simp
      moreover have "v mod 65536 ^ Suc ?l < 65536 ^ k"
        using False by (intro less_le_trans [OF mod_less_divisor] power_increasing) auto
      ultimately show ?thesis by (simp add: word_at_digit)
    qed
  qed
  then show "v < 65536 ^ Suc ?l" by (metis mod_less_divisor zero_less_power zero_less_numeral)
  assume "?l \<noteq> 0"
  then have "word_at v ?l \<noteq> 0" by (rule last_word_bounds(2))
  then have "v div 65536 ^ ?l \<noteq> 0" unfolding word_at_digit by (metis mod_0)
  then show "65536 ^ ?l \<le> v" by (simp add: div_eq_0_iff)
qed

lemma name_words_render:
  "i \<le> lw \<Longrightarrow> name_words v lw i = render (Suc lw) (lw - i) (map (word_at v) (rev [0..<Suc i]))"
proof (induction i)
  case 0
  have "byte_at v 1 = word_at v 0 div 256" "byte_at v 0 = word_at v 0 mod 256"
    using bytes_of_word_at [of v 0] by simp_all
  then show ?case by (simp add: name_words.simps [of v lw 0] sep_def word_name_def)
next
  case (Suc i)
  have "Suc lw - (lw - Suc i) = Suc (Suc i)" "lw - i = Suc (lw - Suc i)" using Suc.prems by simp_all
  moreover have "byte_at v (2 * Suc i + 1) = word_at v (Suc i) div 256"
    "byte_at v (2 * Suc i) = word_at v (Suc i) mod 256" by (rule bytes_of_word_at)+
  ultimately show ?case
    using Suc by (simp add: name_words.simps [of v lw "Suc i"] sep_def word_name_def)
qed

definition value_words :: "nat \<Rightarrow> nat list" where
  "value_words v = map (word_at v) (rev [0..<Suc (last_word v 7)])"

lemma value_words_Cons:
  "value_words v = word_at v (last_word v 7) # map (word_at v) (rev [0..<last_word v 7])"
  by (simp add: value_words_def)

lemma name_words_value:
  "name_words v (last_word v 7) (last_word v 7) = render (length (value_words v)) 0 (value_words v)"
  by (simp add: name_words_render value_words_def del: upt_Suc)

lemma value_words_less: "\<forall>w\<in>set (value_words v). w < 65536"
  by (auto simp: value_words_def)

lemma value_words_inj:
  assumes "v < 65536 ^ 8" "u < 65536 ^ 8" "value_words v = value_words u"
  shows "v = u"
proof -
  have "length (value_words v) = length (value_words u)" using assms(3) by simp
  then have l: "last_word v 7 = last_word u 7" by (simp add: value_words_def)
  have "word_at v k = word_at u k" if "k < 8" for k
  proof (cases "k \<le> last_word v 7")
    case True
    with assms(3) show ?thesis by (auto simp: value_words_def l map_eq_conv)
  next
    case False
    with that l show ?thesis
      using last_word_bounds(3) [of v 7 k] last_word_bounds(3) [of u 7 k] by simp
  qed
  with assms show ?thesis by (intro words_determine [of v 8 u])
qed

section \<open>The name of an atom\<close>

lemma le_nat_bound: "le_nat bs < 256 ^ length bs"
proof (induction bs)
  case (Cons b bs)
  have "unat b < 256" using unsigned_less [of b] by simp
  with Cons show ?case by simp
qed simp

lemma le_nat_append: "le_nat (xs @ ys) = le_nat xs + 256 ^ length xs * le_nat ys"
  by (induction xs) (simp_all add: algebra_simps)

lemma le_nat_halves: "le_nat a = le_nat (take 8 a) + 2 ^ 64 * le_nat (drop 8 a)"
proof (cases "8 \<le> length a")
  case True
  then show ?thesis using le_nat_append [of "take 8 a" "drop 8 a"] by simp
qed simp

lemma le_nat_halves_bounds:
  "le_nat (take 8 a) < 2 ^ 64" "length a \<le> 16 \<Longrightarrow> le_nat (drop 8 a) < 2 ^ 64"
proof -
  have *: "le_nat b < 2 ^ 64" if "length b \<le> 8" for b
  proof -
    have "(256::nat) ^ length b \<le> 256 ^ 8" using that by (intro power_increasing) auto
    then show ?thesis using le_nat_bound [of b] by simp
  qed
  show "le_nat (take 8 a) < 2 ^ 64" by (rule *) simp
  show "length a \<le> 16 \<Longrightarrow> le_nat (drop 8 a) < 2 ^ 64" by (rule *) simp
qed

text \<open>The value whose words are rendered.\<close>

definition concealed :: "u8 list \<Rightarrow> nat" where
  "concealed a = (let lo = le_nat (take 8 a); hi = le_nat (drop 8 a)
     in (if hi = 0 then conceal_low lo else lo) + hi * 2 ^ 64)"

lemma concealed_bound: "length a \<le> 16 \<Longrightarrow> concealed a < 65536 ^ 8"
proof -
  assume "length a \<le> 16"
  then have "le_nat (drop 8 a) < 2 ^ 64" "(if le_nat (drop 8 a) = 0 then conceal_low (le_nat (take 8 a))
      else le_nat (take 8 a)) < 2 ^ 64"
    using le_nat_halves_bounds conceal_low_bound by simp_all
  then show ?thesis unfolding concealed_def Let_def by simp
qed

lemma concealed_inj:
  assumes "concealed a = concealed b" "length a \<le> 16" "length b \<le> 16"
  shows "le_nat a = le_nat b"
proof -
  let ?lo = "\<lambda>a. if le_nat (drop 8 a) = 0 then conceal_low (le_nat (take 8 a)) else le_nat (take 8 a)"
  have lo: "?lo x < 2 ^ 64" for x
    using le_nat_halves_bounds(1) conceal_low_bound by simp
  have c: "concealed x = le_nat (drop 8 x) * 2 ^ 64 + ?lo x" for x
    by (simp add: concealed_def Let_def)
  have hi: "le_nat (drop 8 a) = le_nat (drop 8 b)"
    using assms(1) digit_parts(1) [OF lo] unfolding c by metis
  have "?lo a = ?lo b" using assms(1) digit_parts(2) [OF lo] unfolding c by metis
  then have "le_nat (take 8 a) = le_nat (take 8 b)"
    using hi conceal_low_inj by (simp split: if_splits)
  with hi show ?thesis using le_nat_halves [of a] le_nat_halves [of b] by simp
qed

lemma ship_from_atom_cases:
  "ship_from_atom a =
     (if length a > 16 then Inl (Err ''ship identity exceeds 128 bits'')
      else if concealed a < 256 then Inr (CHR ''~'' # syllable_at ship_suffixes (concealed a))
      else Inr (CHR ''~'' # render (length (value_words (concealed a))) 0 (value_words (concealed a))))"
proof -
  have "concealed a < 256 \<longleftrightarrow> le_nat (drop 8 a) = 0 \<and> conceal_low (le_nat (take 8 a)) < 256"
    by (auto simp: concealed_def Let_def)
  then show ?thesis
    by (auto simp: ship_from_atom_def Let_def concealed_def name_words_value simp del: upt_Suc)
qed

lemma value_words_ok:
  assumes "256 \<le> v" "v < 65536 ^ 8"
  shows "hd (value_words v) \<noteq> 0" "length (value_words v) = 1 \<Longrightarrow> 256 \<le> hd (value_words v)"
    "length (value_words v) \<le> 8"
proof -
  have small: "v = word_at v 0" if "last_word v 7 = 0"
    using last_word_size(1) [OF assms(2)] that by (simp add: word_at_digit)
  show "hd (value_words v) \<noteq> 0"
    using last_word_bounds(2) [of v 7] small assms(1)
    by (cases "last_word v 7 = 0") (simp_all add: value_words_Cons)
  show "length (value_words v) = 1 \<Longrightarrow> 256 \<le> hd (value_words v)"
    using small assms(1) by (simp add: value_words_Cons)
  show "length (value_words v) \<le> 8"
    using last_word_bounds(1) [of v 7] by (simp add: value_words_def)
qed

lemma galaxy_name: "k < 256 \<Longrightarrow> valid_fake_ship (CHR ''~'' # syllable_at ship_suffixes k)"
  by (simp add: valid_fake_ship_def suffix_at)

lemma value_name_valid:
  assumes "256 \<le> v" "v < 65536 ^ 8"
  shows "valid_fake_ship (CHR ''~'' # render (length (value_words v)) 0 (value_words v))"
  using valid_render [of "hd (value_words v)" "tl (value_words v)"] value_words_ok [OF assms]
    value_words_less [of v] by (simp add: value_words_Cons del: render.simps)

lemma concealed_le_nat:
  "length a \<le> 16 \<Longrightarrow> concealed a =
     (if le_nat a < 2 ^ 64 then conceal_low (le_nat a) else le_nat a)"
  using le_nat_halves [of a] le_nat_halves_bounds [of a]
  by (cases "le_nat (drop 8 a) = 0") (simp_all add: concealed_def Let_def)

lemma conceal_low_size:
  "conceal_low lo < 65536 \<longleftrightarrow> lo < 65536" "lo < 65536 \<Longrightarrow> conceal_low lo = lo"
  "conceal_low lo < 2 ^ 32 \<longleftrightarrow> lo < 2 ^ 32"
proof -
  have small: "conceal_low lo = lo" if "lo < 65536" for lo
    using that by (simp add: conceal_low_eq)
  show "lo < 65536 \<Longrightarrow> conceal_low lo = lo" by (rule small)
  show "conceal_low lo < 65536 \<longleftrightarrow> lo < 65536"
    using small [of "conceal_low lo"] small [of lo] conceal_low_inj by metis
  show "conceal_low lo < 2 ^ 32 \<longleftrightarrow> lo < 2 ^ 32"
    using conceal_low_parts(1) [of lo] div_eq_0_iff [of "conceal_low lo" "2 ^ 32"]
      div_eq_0_iff [of lo "2 ^ 32"] by simp
qed

text \<open>The thresholds of the five classes are the same before and after concealment.\<close>

lemma concealed_size:
  assumes "length a \<le> 16"
  shows "concealed a < 256 \<longleftrightarrow> le_nat a < 256" "concealed a < 65536 \<longleftrightarrow> le_nat a < 65536"
    "concealed a < 2 ^ 32 \<longleftrightarrow> le_nat a < 2 ^ 32" "concealed a < 2 ^ 64 \<longleftrightarrow> le_nat a < 2 ^ 64"
proof -
  note c = concealed_le_nat [OF assms]
  show *: "concealed a < 65536 \<longleftrightarrow> le_nat a < 65536"
    using conceal_low_size(1) [of "le_nat a"] by (simp add: c)
  show "concealed a < 256 \<longleftrightarrow> le_nat a < 256"
    using * conceal_low_size(2) [of "le_nat a"] by (cases "le_nat a < 65536") (simp_all add: c)
  show "concealed a < 2 ^ 32 \<longleftrightarrow> le_nat a < 2 ^ 32"
    using conceal_low_size(3) [of "le_nat a"] by (simp add: c)
  show "concealed a < 2 ^ 64 \<longleftrightarrow> le_nat a < 2 ^ 64"
    using conceal_low_bound [of "le_nat a"] by (simp add: c)
qed

lemma last_word_class:
  assumes "v < 65536 ^ 8"
  shows "last_word v 7 = 0 \<longleftrightarrow> v < 65536" "last_word v 7 \<le> 1 \<longleftrightarrow> v < 2 ^ 32"
    "last_word v 7 \<le> 3 \<longleftrightarrow> v < 2 ^ 64"
proof -
  have *: "last_word v 7 \<le> k \<longleftrightarrow> v < 65536 ^ Suc k" for k
  proof
    assume "last_word v 7 \<le> k"
    then have "(65536::nat) ^ Suc (last_word v 7) \<le> 65536 ^ Suc k" by (intro power_increasing) auto
    with last_word_size(1) [OF assms] show "v < 65536 ^ Suc k" by (rule less_le_trans)
  next
    assume v: "v < 65536 ^ Suc k"
    show "last_word v 7 \<le> k"
    proof (rule ccontr)
      assume "\<not> last_word v 7 \<le> k"
      then have "(65536::nat) ^ Suc k \<le> 65536 ^ last_word v 7" by (intro power_increasing) auto
      then show False using last_word_size(2) [OF assms] v \<open>\<not> last_word v 7 \<le> k\<close> by simp
    qed
  qed
  show "last_word v 7 = 0 \<longleftrightarrow> v < 65536" "last_word v 7 \<le> 1 \<longleftrightarrow> v < 2 ^ 32"
    "last_word v 7 \<le> 3 \<longleftrightarrow> v < 2 ^ 64"
    using * [of 0] * [of 1] * [of 3] by simp_all
qed

lemma galaxy_class: "k < 256 \<Longrightarrow> ship_class (CHR ''~'' # syllable_at ship_suffixes k) = ''galaxy''"
proof -
  assume k: "k < 256"
  have "filter (\<lambda>c. c \<noteq> CHR ''-'') (syllable_at ship_suffixes k) = syllable_at ship_suffixes k"
    using no_dash_tables(2) by (auto simp: filter_id_conv dest: syllable_at_set)
  with k galaxy_name [OF k] show ?thesis by (simp add: ship_class_def Let_def suffix_at)
qed

lemma value_class:
  assumes "256 \<le> v" "v < 65536 ^ 8"
  shows "ship_class (CHR ''~'' # render (length (value_words v)) 0 (value_words v)) =
    (if v < 65536 then ''star'' else if v < 2 ^ 32 then ''planet''
     else if v < 2 ^ 64 then ''moon'' else ''comet'')"
proof -
  let ?s = "CHR ''~'' # render (length (value_words v)) 0 (value_words v)"
  have "length (filter (\<lambda>c. c \<noteq> CHR ''-'') (trim_prefix ?s ''~'')) = 6 * Suc (last_word v 7)"
    using render_letters [OF value_words_less [of v]] by (simp add: value_words_def)
  then have "ship_class ?s = (if last_word v 7 = 0 then ''star'' else if last_word v 7 \<le> 1 then ''planet''
      else if last_word v 7 \<le> 3 then ''moon'' else ''comet'')"
    using value_name_valid [OF assms] by (auto simp: ship_class_def Let_def simp del: render.simps)
  then show ?thesis unfolding last_word_class [OF assms(2)] by simp
qed

section \<open>Every identity has one canonical name\<close>

lemma ship_from_atom_valid:
  "case ship_from_atom a of Inl e \<Rightarrow> length a > 16 | Inr s \<Rightarrow> length a \<le> 16 \<and> valid_fake_ship s"
  using concealed_bound [of a] galaxy_name [of "concealed a"] value_name_valid [of "concealed a"]
  by (auto simp: ship_from_atom_cases simp del: render.simps)

text \<open>
  C11. Every identity atom of at most 16 bytes is rendered as a name the checker accepts as
  canonical, and only longer atoms are refused.
\<close>

theorem ship_from_atom_canonical:
  "case ship_from_atom a of Inl e \<Rightarrow> length a > 16 | Inr s \<Rightarrow> length a \<le> 16 \<and> valid_fake_ship s"
  by (rule ship_from_atom_valid)

text \<open>
  C12. Two atoms have the same name exactly when they are the same number: the concealment is a
  permutation and the rendering loses nothing.
\<close>

theorem ship_from_atom_unique:
  assumes "length a \<le> 16" "length b \<le> 16"
  shows "ship_from_atom a = ship_from_atom b \<longleftrightarrow> le_nat a = le_nat b"
proof
  assume "le_nat a = le_nat b"
  then have "concealed a = concealed b" using assms by (simp add: concealed_le_nat)
  then show "ship_from_atom a = ship_from_atom b" using assms by (simp add: ship_from_atom_cases)
next
  assume eq: "ship_from_atom a = ship_from_atom b"
  let ?v = "concealed a" and ?u = "concealed b"
  note bd = concealed_bound [OF assms(1)] concealed_bound [OF assms(2)]
  have long: "length (render (length (value_words v)) 0 (value_words v)) \<noteq> 3" for v
    using render_letters [OF value_words_less [of v], of "length (value_words v)" 0]
      length_filter_le [of "\<lambda>c. c \<noteq> CHR ''-''" "render (length (value_words v)) 0 (value_words v)"]
    by (simp add: value_words_def del: render.simps)
  have "?v = ?u"
  proof (cases "?v < 256")
    case True
    with eq assms long [of ?u] have "?u < 256"
      by (auto simp: ship_from_atom_cases suffix_at simp del: render.simps split: if_splits)
        (metis suffix_at(1))
    with True eq assms show ?thesis
      by (auto simp: ship_from_atom_cases intro: syllable_at_inj [OF length_suffixes distinct_suffix_codes])
  next
    case False
    with eq assms have "?u < 256 \<Longrightarrow>
        render (length (value_words ?v)) 0 (value_words ?v) = syllable_at ship_suffixes ?u"
      by (auto simp: ship_from_atom_cases simp del: render.simps split: if_splits)
    then have u: "\<not> ?u < 256" using long [of ?v] suffix_at(1) [of ?u] by metis
    with False eq assms have r: "render (length (value_words ?v)) 0 (value_words ?v)
        = render (length (value_words ?u)) 0 (value_words ?u)"
      by (simp add: ship_from_atom_cases del: render.simps)
    have "value_words ?v = value_words ?u"
      using render_inj r value_words_less [of ?v] value_words_less [of ?u]
      unfolding value_words_Cons by blast
    then show ?thesis using bd by (intro value_words_inj)
  qed
  then show "le_nat a = le_nat b" using assms by (rule concealed_inj)
qed

theorem ship_from_atom_unique_witness:
  "ship_from_atom [0] = ship_from_atom [0, 0] \<and> ship_from_atom [1] \<noteq> ship_from_atom [0, 1]"
  using ship_from_atom_unique [of "[0]" "[0, 0]"] ship_from_atom_unique [of "[1]" "[0, 1]"] by simp

text \<open>
  The class read off a rendered name is the class of the identity's size: 8-bit galaxies,
  16-bit stars, 32-bit planets, 64-bit moons, and comets above.
\<close>

lemma ship_class_of_atom:
  assumes "ship_from_atom a = Inr s"
  shows "ship_class s = (if le_nat a < 2 ^ 8 then ''galaxy'' else if le_nat a < 2 ^ 16 then ''star''
    else if le_nat a < 2 ^ 32 then ''planet'' else if le_nat a < 2 ^ 64 then ''moon'' else ''comet'')"
proof -
  from assms have a: "length a \<le> 16" by (auto simp: ship_from_atom_cases split: if_splits)
  show ?thesis
    using assms a concealed_bound [OF a] concealed_size [OF a] galaxy_class value_class [of "concealed a"]
    by (auto simp: ship_from_atom_cases simp del: render.simps split: if_splits)
qed

lemma ship_class_of_zod: "ship_class ''~zod'' = ''galaxy''"
proof -
  have "ship_from_atom [0] = Inr ''~zod''"
    by (simp add: ship_from_atom_def conceal_low_def syllable_at_def ship_suffixes_def)
  from ship_class_of_atom [OF this] show ?thesis by simp
qed

end
