(* ===== verification/Protocol.thy ===== *)
theory Protocol
  imports ShipName
begin

text \<open>
  Package \<open>internal/protocol\<close>: the identifiers and request checks of the runner RPC. The
  bootstrap, boot key and boot pill checks (\<open>bootstrap.go\<close>, \<open>key.go\<close>), login codes and
  instance ids (\<open>protocol.go\<close>), runtime settings, the creation-replay header,
  project actions, recovery actions and saved-status summaries with their resource paths.
  Ship names are in theory \<open>ShipName\<close>.
\<close>

section \<open>Identifiers\<close>

definition valid_id_char :: "char \<Rightarrow> bool" where
  "valid_id_char c \<longleftrightarrow> is_lower c \<or> is_upper c \<or> is_digit c \<or> c = CHR ''_'' \<or> c = CHR ''-''"

definition valid_id :: "string \<Rightarrow> bool" where
  "valid_id s \<longleftrightarrow> \<not> (length s = 0 \<or> length s > 64) \<and> list_all valid_id_char s"

definition valid_pier_name :: "string \<Rightarrow> bool" where
  "valid_pier_name s \<longleftrightarrow> valid_id s \<and> (is_lower (s ! 0) \<or> is_upper (s ! 0) \<or> is_digit (s ! 0))"

lemma valid_id_not_Nil: "valid_id s \<Longrightarrow> s \<noteq> []"
  by (auto simp: valid_id_def)

lemma not_id_char [simp]:
  "\<not> valid_id_char CHR ''/''" "\<not> valid_id_char CHR ''@''" "\<not> valid_id_char CHR ''~''"
  by (simp_all add: valid_id_char_def is_lower_def is_upper_def is_digit_def char_in_def)

lemma valid_id_no_slash: "valid_id s \<Longrightarrow> CHR ''/'' \<notin> set s"
  by (auto simp: valid_id_def list_all_iff)

text \<open>The login code is four groups of six lower-case letters separated by dashes.\<close>

fun login_code_chars :: "nat \<Rightarrow> string \<Rightarrow> bool" where
  "login_code_chars i [] = True"
| "login_code_chars i (c # cs) =
     ((if i = 6 \<or> i = 13 \<or> i = 20 then c = CHR ''-'' else is_lower c) \<and> login_code_chars (i + 1) cs)"

definition valid_login_code :: "string \<Rightarrow> bool" where
  "valid_login_code code \<longleftrightarrow> length code = 27 \<and> login_code_chars 0 code"

section \<open>Boot material\<close>

record boot_pill =
  bp_sha256 :: string
  bp_bytes :: int

definition max_boot_pill_bytes :: int where
  "max_boot_pill_bytes = 4000000000"

definition valid_boot_pill :: "boot_pill option \<Rightarrow> bool" where
  "valid_boot_pill p = (case p of None \<Rightarrow> False
     | Some b \<Rightarrow> hex_string 64 (bp_sha256 b) \<and> bp_bytes b > 0 \<and> bp_bytes b \<le> max_boot_pill_bytes)"

text \<open>\<open>^0w[0-9a-zA-Z.~-]+$\<close> between 18 and 2048 bytes.\<close>

definition boot_key_char :: "char \<Rightarrow> bool" where
  "boot_key_char c \<longleftrightarrow> is_alnum c \<or> c = CHR ''.'' \<or> c = CHR ''~'' \<or> c = CHR ''-''"

definition valid_boot_key :: "string \<Rightarrow> bool" where
  "valid_boot_key key \<longleftrightarrow> length key \<ge> 18 \<and> length key \<le> 2048
     \<and> has_prefix key ''0w'' \<and> drop 2 key \<noteq> [] \<and> list_all boot_key_char (drop 2 key)"

record bootstrap =
  bs_kind :: string
  bs_pill :: "boot_pill option"

definition valid_bootstrap :: "bootstrap option \<Rightarrow> bool" where
  "valid_bootstrap b = (case b of None \<Rightarrow> False
     | Some v \<Rightarrow> bs_kind v = ''bare'' \<and> bs_pill v = None
         \<or> bs_kind v = ''recommended'' \<and> valid_boot_pill (bs_pill v))"

section \<open>Runtime settings\<close>

abbreviation min_loom :: u8 where "min_loom \<equiv> 30"
abbreviation max_loom :: u8 where "max_loom \<equiv> 34"
abbreviation default_loom :: u8 where "default_loom \<equiv> 31"

record runtime_settings =
  rs_loom :: u8
  rs_native :: bool

definition nondefault :: "runtime_settings \<Rightarrow> bool" where
  "nondefault s \<longleftrightarrow> rs_loom s \<noteq> default_loom \<or> rs_native s"

definition valid_loom :: "u8 \<Rightarrow> bool" where
  "valid_loom l \<longleftrightarrow> l \<ge> min_loom \<and> l \<le> max_loom"

definition valid_recorded_loom :: "u8 \<Rightarrow> bool" where
  "valid_recorded_loom l \<longleftrightarrow> l \<ge> 20 \<and> l \<le> max_loom"

definition effective_loom :: "u8 \<Rightarrow> u8" where
  "effective_loom l = (if l = 0 then default_loom else l)"

lemma valid_loom_recorded: "valid_loom l \<Longrightarrow> valid_recorded_loom l"
  by (auto simp: valid_loom_def valid_recorded_loom_def word_le_nat_alt)

section \<open>Creation replay\<close>

text \<open>A header is a map from canonical names to the list of its values.\<close>

definition creation_replay_only :: "(string \<rightharpoonup> string list) \<Rightarrow> gerr + bool" where
  "creation_replay_only header =
     (case header ''X-Omabit-Replay-Only'' of
        None \<Rightarrow> Inr False
      | Some values \<Rightarrow>
          if length values \<noteq> 1 \<or> values ! 0 \<noteq> ''true''
          then Inl (Err ''X-Omabit-Replay-Only must be a single true value'') else Inr True)"

section \<open>Project actions\<close>

record project_action_request =
  pa_container :: string
  pa_ship :: string
  pa_http_port :: u16
  pa_after :: string
  pa_readiness :: string
  pa_kind :: string
  pa_instance :: string
  pa_request :: string
  pa_revision :: u64
  pa_digest :: string
  pa_confirm :: bool

definition project_action_path :: "string \<Rightarrow> string" where
  "project_action_path i = ''/v1/projects/'' @ i @ ''/operations''"

text \<open>The three resource paths below \<open>/v1/projects/\<close> that end in a fixed word share one reading.\<close>

definition project_resource_id :: "string \<Rightarrow> string \<Rightarrow> string \<times> bool" where
  "project_resource_id suffix p =
     (if \<not> has_prefix p ''/v1/projects/'' \<or> \<not> has_suffix p suffix then ('''', False)
      else let i = trim_suffix (trim_prefix p ''/v1/projects/'') suffix in (i, valid_id i))"

definition project_action_id :: "string \<Rightarrow> string \<times> bool" where
  "project_action_id = project_resource_id ''/operations''"

definition project_status_path :: "string \<Rightarrow> string" where
  "project_status_path i = ''/v1/projects/'' @ i @ ''/status''"

definition project_status_id :: "string \<Rightarrow> string \<times> bool" where
  "project_status_id = project_resource_id ''/status''"

definition project_recovery_source_path :: "string \<Rightarrow> string" where
  "project_recovery_source_path i = ''/v1/projects/'' @ i @ ''/recovery-source''"

definition project_recovery_source_id :: "string \<Rightarrow> string \<times> bool" where
  "project_recovery_source_id = project_resource_id ''/recovery-source''"

text \<open>The capability, the durable operation kind and whether a member must be named.\<close>

definition project_action :: "string \<Rightarrow> string \<times> string \<times> bool" where
  "project_action kind =
     (if kind = ''member-continue'' then (''project-add-member-v1'', ''add-project-member'', True)
      else if kind = ''add-member'' then (''project-add-member-v1'', ''add-project-member'', True)
      else if kind = ''member-start'' then (''project-add-member-v1'', ''start-project-ship'', True)
      else if kind = ''member-stop'' then (''project-add-member-v1'', ''stop-project-ship'', True)
      else if kind = ''prepare'' then (''project-prepare-v1'', ''prepare-project'', False)
      else if kind = ''start-anchor'' then (''project-anchor-start-v1'', ''start-project-anchor'', False)
      else if kind = ''prepare-storage''
        then (''project-member-storage-v1'', ''prepare-project-member-storage'', True)
      else if kind = ''launch'' then (''project-member-launch-v1'', ''launch-project-member'', True)
      else if kind = ''observe'' then (''project-member-observe-v1'', ''observe-project-member'', True)
      else if kind = ''stop'' then (''project-member-stop-v1'', ''stop-project-member'', True)
      else if kind = ''observe-exit''
        then (''project-member-exit-v1'', ''observe-project-member-stop-exit'', True)
      else if kind = ''retire'' then (''project-member-retire-v1'', ''retire-project-member'', True)
      else if kind = ''resume'' then (''project-member-resume-v1'', ''resume-project-member'', True)
      else if kind = ''observe-resumed''
        then (''project-member-resumed-observe-v1'', ''observe-resumed-project-member'', True)
      else if kind = ''observe-current''
        then (''project-member-current-observe-v1'', ''observe-current-project-member'', True)
      else ('''', '''', False))"

definition valid_project_action_request :: "project_action_request \<Rightarrow> bool" where
  "valid_project_action_request req =
     (case project_action (pa_kind req) of (feature, _, member) \<Rightarrow>
       if feature = '''' \<or> \<not> pa_confirm req \<or> \<not> valid_id (pa_request req) \<or> pa_revision req = 0
          \<or> length (pa_digest req) \<noteq> 64 \<or> \<not> hex_decodes (pa_digest req)
          \<or> member \<and> \<not> valid_id (pa_instance req) \<or> \<not> member \<and> pa_instance req \<noteq> ''''
       then False
       else if (if pa_kind req = ''add-member''
                then length (pa_ship req) \<noteq> 4 \<or> \<not> valid_fake_ship (pa_ship req) \<or> pa_http_port req < 1024
                else pa_ship req \<noteq> '''' \<or> pa_http_port req \<noteq> 0)
       then False
       else if (if pa_kind req = ''member-start'' \<or> pa_kind req = ''member-stop''
                then length (pa_container req) \<noteq> 64 \<or> \<not> hex_decodes (pa_container req)
                else pa_container req \<noteq> '''')
       then False
       else let aft = pa_kind req \<in> {''member-continue'', ''stop'', ''observe-exit'', ''retire'',
                                     ''resume'', ''observe-resumed'', ''observe-current''}
       in if aft \<and> \<not> valid_id (pa_after req) \<or> \<not> aft \<and> pa_after req \<noteq> '''' then False
       else if pa_kind req = ''observe-current'' then valid_id (pa_readiness req)
       else pa_readiness req = '''')"

section \<open>Recovery actions and checkpoints\<close>

record recovery_action_request =
  ra_request :: string
  ra_revision :: u64
  ra_review_digest :: string
  ra_history_digest :: string
  ra_sequence :: "u64 option"
  ra_checkpoint :: string
  ra_confirm :: bool

definition project_recovery_action :: "string \<Rightarrow> string \<times> string" where
  "project_recovery_action kind =
     (if kind = ''start'' then (''project-anchor-recovery-v1'', ''recover-project-anchor'')
      else if kind = ''observe'' then (''project-recovery-observe-v1'', ''observe-project-recovery'')
      else if kind = ''continue'' then (''project-recovery-continue-v1'', ''continue-project-recovery'')
      else ('''', ''''))"

definition project_recovery_action_path :: "string \<Rightarrow> string \<Rightarrow> string \<Rightarrow> string" where
  "project_recovery_action_path project parent kind =
     (let base = ''/v1/projects/'' @ project @ ''/recovery''
      in if kind = ''start'' then base
         else if kind = ''observe'' then base @ ''/'' @ parent @ ''/observations''
         else if kind = ''continue'' then base @ ''/'' @ parent @ ''/continuations''
         else '''')"

text \<open>The parse of an action path: project, parent, kind and whether it is one.\<close>

definition project_recovery_action_ids :: "string \<Rightarrow> string \<times> string \<times> string \<times> bool" where
  "project_recovery_action_ids p =
     (if \<not> has_prefix p ''/v1/projects/'' then ('''', '''', '''', False)
      else let parts = split_on CHR ''/'' (trim_prefix p ''/v1/projects/'')
      in if (length parts \<noteq> 2 \<and> length parts \<noteq> 4) \<or> \<not> valid_id (parts ! 0) \<or> parts ! 1 \<noteq> ''recovery''
         then ('''', '''', '''', False)
      else if length parts = 2 then (parts ! 0, '''', ''start'', True)
      else if \<not> valid_id (parts ! 2) then ('''', '''', '''', False)
      else if parts ! 3 = ''observations'' then (parts ! 0, parts ! 2, ''observe'', True)
      else if parts ! 3 = ''continuations'' then (parts ! 0, parts ! 2, ''continue'', True)
      else ('''', '''', '''', False))"

definition valid_project_recovery_action ::
  "string \<Rightarrow> string \<Rightarrow> recovery_action_request \<Rightarrow> bool" where
  "valid_project_recovery_action kind parent r =
     (if fst (project_recovery_action kind) = '''' \<or> \<not> ra_confirm r \<or> \<not> valid_id (ra_request r)
         \<or> ra_revision r = 0 then False
      else if \<not> (length (ra_review_digest r) = 64 \<and> hex_decodes (ra_review_digest r)) then False
      else if \<not> (length (ra_history_digest r) = 64 \<and> hex_decodes (ra_history_digest r)) then False
      else if kind = ''start'' then parent = '''' \<and> ra_sequence r = None \<and> ra_checkpoint r = ''''
      else if \<not> valid_id parent \<or> ra_sequence r = None \<or> length (ra_checkpoint r) \<noteq> 64 then False
      else hex_decodes (ra_checkpoint r))"

definition project_recovery_checkpoint_path :: "string \<Rightarrow> string \<Rightarrow> string" where
  "project_recovery_checkpoint_path project operation =
     ''/v1/projects/'' @ project @ ''/recovery/'' @ operation"

definition project_recovery_checkpoint_ids :: "string \<Rightarrow> string \<times> string \<times> bool" where
  "project_recovery_checkpoint_ids p =
     (if \<not> has_prefix p ''/v1/projects/'' then ('''', '''', False)
      else let parts = split_on CHR ''/'' (trim_prefix p ''/v1/projects/'')
      in if length parts \<noteq> 3 \<or> parts ! 1 \<noteq> ''recovery'' \<or> \<not> valid_id (parts ! 0) \<or> \<not> valid_id (parts ! 2)
         then ('''', '''', False) else (parts ! 0, parts ! 2, True))"

section \<open>Saved operation summaries\<close>

record project_member_reservation =
  pm_instance :: string
  pm_ship :: string
  pm_http_port :: u16
  pm_internal_port :: u16

record project_reservation =
  pr_additional :: "project_member_reservation list"
  pr_id :: string
  pr_revision :: u64
  pr_label :: string
  pr_created :: gotime
  pr_digest :: string
  pr_members :: "project_member_reservation list"

record project_operation_summary =
  op_id :: string
  op_request :: string
  op_instance :: string
  op_kind :: string
  op_actor :: string
  op_status :: string
  op_revision :: u64
  op_created :: gotime
  op_finished :: "gotime option"

definition project_wide_kinds :: "string list" where
  "project_wide_kinds = [''register-project'', ''prepare-project'', ''start-project-anchor'',
     ''recover-project-anchor'', ''observe-project-recovery'', ''continue-project-recovery'']"

definition member_kinds :: "string list" where
  "member_kinds = [''add-project-member'', ''start-project-ship'', ''stop-project-ship'',
     ''prepare-project-member-storage'', ''launch-project-member'', ''observe-project-member'',
     ''stop-project-member'', ''observe-project-member-stop-exit'', ''retire-project-member'',
     ''resume-project-member'', ''observe-resumed-project-member'',
     ''observe-current-project-member'', ''recover-project-member'']"

definition valid_project_operation_summary ::
  "project_operation_summary \<Rightarrow> project_reservation \<Rightarrow> gotime \<Rightarrow> bool" where
  "valid_project_operation_summary op p read_at =
     (if \<not> valid_id (op_id op) \<or> \<not> valid_id (op_request op) \<or> op_actor op = '''' \<or> length (op_actor op) > 512
         \<or> op_revision op \<noteq> pr_revision p \<or> is_zero (op_created op)
         \<or> before (op_created op) (pr_created p) \<or> after (op_created op) read_at then False
      else if op_kind op \<notin> set project_wide_kinds \<and> op_kind op \<notin> set member_kinds then False
      else if (if op_kind op \<in> set member_kinds
               then op_instance op \<notin> set (map pm_instance (pr_members p @ pr_additional p))
               else op_instance op \<noteq> '''') then False
      else if op_status op \<in> {''queued'', ''running''} then op_finished op = None
      else if op_status op \<in> {''succeeded'', ''failed'', ''interrupted''} then
        (case op_finished op of None \<Rightarrow> False
         | Some f \<Rightarrow> \<not> before f (op_created op) \<and> \<not> after f read_at)
      else False)"

section \<open>Round trips of the resource paths\<close>

lemma project_resource_id_path:
  "project_resource_id suffix (''/v1/projects/'' @ i @ suffix) = (i, valid_id i)"
proof -
  have "has_suffix (''/v1/projects/'' @ i @ suffix) suffix"
    by (metis append.assoc has_suffix_append)
  moreover have "has_prefix (''/v1/projects/'' @ i @ suffix) ''/v1/projects/''"
    by (rule has_prefix_append)
  ultimately show ?thesis
    by (simp only: project_resource_id_def trim_prefix_append trim_suffix_append Let_def if_False simp_thms)
qed

text \<open>
  The readings accept exactly the written paths, and one more: the prefix and the suffix
  may overlap in their slash, so the path that holds only the suffix word is read as the
  project of that name.
\<close>

lemma split_at_last_sep:
  "a @ c # t = b @ c # w \<Longrightarrow> c \<notin> set t \<Longrightarrow> c \<notin> set w \<Longrightarrow> w = t"
  by (auto simp: append_eq_append_conv2 append_eq_Cons_conv Cons_eq_append_conv)

lemma project_resource_id_inv:
  assumes "project_resource_id (CHR ''/'' # w) p = (i, True)" "CHR ''/'' \<notin> set w"
  shows "p = ''/v1/projects/'' @ i @ CHR ''/'' # w \<or> p = ''/v1/projects/'' @ w \<and> i = w"
proof -
  from assms have pre: "has_prefix p ''/v1/projects/''" and suf: "has_suffix p (CHR ''/'' # w)"
    and i: "i = trim_suffix (trim_prefix p ''/v1/projects/'') (CHR ''/'' # w)" and v: "valid_id i"
    by (auto simp: project_resource_id_def Let_def split: if_splits)
  from pre obtain t where t: "p = ''/v1/projects/'' @ t" unfolding has_prefix_iff by blast
  have it: "i = trim_suffix t (CHR ''/'' # w)" using i t by (simp only: trim_prefix_append)
  from suf obtain u where u: "p = u @ CHR ''/'' # w" unfolding has_suffix_iff by blast
  show ?thesis
  proof (cases "has_suffix t (CHR ''/'' # w)")
    case True
    then obtain q where "t = q @ CHR ''/'' # w" unfolding has_suffix_iff by blast
    with it t show ?thesis by (simp only: trim_suffix_append simp_thms)
  next
    case False
    then have "i = t" using it by (simp add: trim_suffix_def)
    with v have nos: "CHR ''/'' \<notin> set t" by (simp add: valid_id_no_slash)
    have "''/v1/projects'' @ CHR ''/'' # t = u @ CHR ''/'' # w" using t u by simp
    then have "w = t"
      using split_at_last_sep [OF _ nos assms(2)] by blast
    with \<open>i = t\<close> t show ?thesis by simp
  qed
qed

lemma project_resource_id_iff:
  assumes "CHR ''/'' \<notin> set w" "valid_id w"
  shows "project_resource_id (CHR ''/'' # w) p = (i, True) \<longleftrightarrow>
    valid_id i \<and> p = ''/v1/projects/'' @ i @ CHR ''/'' # w \<or> i = w \<and> p = ''/v1/projects/'' @ w"
proof
  assume l: "project_resource_id (CHR ''/'' # w) p = (i, True)"
  then have "valid_id i" by (auto simp: project_resource_id_def Let_def split: if_splits)
  with project_resource_id_inv [OF l assms(1)]
  show "valid_id i \<and> p = ''/v1/projects/'' @ i @ CHR ''/'' # w \<or> i = w \<and> p = ''/v1/projects/'' @ w"
    by blast
next
  assume "valid_id i \<and> p = ''/v1/projects/'' @ i @ CHR ''/'' # w \<or> i = w \<and> p = ''/v1/projects/'' @ w"
  then show "project_resource_id (CHR ''/'' # w) p = (i, True)"
  proof
    assume "valid_id i \<and> p = ''/v1/projects/'' @ i @ CHR ''/'' # w"
    then show ?thesis using project_resource_id_path [of "CHR ''/'' # w" i] by simp
  next
    assume a: "i = w \<and> p = ''/v1/projects/'' @ w"
    have "''/v1/projects/'' @ w = ''/v1/projects'' @ CHR ''/'' # w" by simp
    then have "has_suffix (''/v1/projects/'' @ w) (CHR ''/'' # w)" by (metis has_suffix_append)
    moreover have "\<not> has_suffix w (CHR ''/'' # w)" by (auto simp: has_suffix_iff)
    ultimately show ?thesis using a assms(2) has_prefix_append [of "''/v1/projects/''" w]
      by (simp only: project_resource_id_def trim_prefix_append Let_def if_False simp_thms trim_suffix_def)
  qed
qed

lemma split_slash_append: "valid_id w \<Longrightarrow> split_on CHR ''/'' (w @ CHR ''/'' # s) = w # split_on CHR ''/'' s"
  by (simp add: split_on_append valid_id_no_slash)

lemma split_slash_single: "valid_id w \<Longrightarrow> split_on CHR ''/'' w = [w]"
  by (simp add: split_on_no_sep valid_id_no_slash)

lemma valid_id_words:
  "valid_id ''recovery''" "valid_id ''observations''" "valid_id ''continuations''"
  "valid_id ''status''" "valid_id ''operations''" "valid_id ''recovery-source''"
  by code_simp+

lemma parts_2: "length xs = 2 \<Longrightarrow> xs = [xs ! 0, xs ! 1]"
  by (auto simp: numeral_2_eq_2 length_Suc_conv)

lemma parts_4: "length xs = 4 \<Longrightarrow> xs = [xs ! 0, xs ! 1, xs ! 2, xs ! 3]"
  by (auto simp: eval_nat_numeral length_Suc_conv)

lemma recovery_ids_read:
  assumes l: "project_recovery_action_ids p = (project, parent, kind, True)"
  shows "p = project_recovery_action_path project parent kind \<and> valid_id project \<and>
     (kind = ''start'' \<and> parent = '''' \<or> kind \<in> {''observe'', ''continue''} \<and> valid_id parent)"
proof -
  from l have "has_prefix p ''/v1/projects/''" by (auto simp: project_recovery_action_ids_def split: if_splits)
  then obtain t where p: "p = ''/v1/projects/'' @ t" unfolding has_prefix_iff by blast
  obtain parts where parts: "split_on CHR ''/'' t = parts" by blast
  have t: "t = join_with CHR ''/'' parts" using join_split [of "CHR ''/''" t] parts by simp
  have p': "has_prefix p ''/v1/projects/''" "trim_prefix p ''/v1/projects/'' = t"
    unfolding p by (rule has_prefix_append, rule trim_prefix_append)
  note l' = l [unfolded project_recovery_action_ids_def p' parts Let_def]
  have "length parts = 2 \<or> length parts = 4" using l' by (auto split: if_splits)
  then show ?thesis
  proof
    assume n: "length parts = 2"
    then have "parts = [parts ! 0, parts ! 1]" by (rule parts_2)
    then have "t = (parts ! 0) @ CHR ''/'' # (parts ! 1)" by (metis t join_with.simps(2,3))
    with l' n show ?thesis
      by (auto simp: p project_recovery_action_path_def Let_def split: if_splits)
  next
    assume n: "length parts = 4"
    then have "parts = [parts ! 0, parts ! 1, parts ! 2, parts ! 3]" by (rule parts_4)
    then have "t = (parts ! 0) @ CHR ''/'' # (parts ! 1) @ CHR ''/'' # (parts ! 2) @ CHR ''/'' # (parts ! 3)"
      by (metis t join_with.simps(2,3))
    with l' n show ?thesis
      by (auto simp: p project_recovery_action_path_def Let_def split: if_splits)
  qed
qed

lemma recovery_ids_written:
  assumes r: "p = project_recovery_action_path project parent kind \<and> valid_id project \<and>
     (kind = ''start'' \<and> parent = '''' \<or> kind \<in> {''observe'', ''continue''} \<and> valid_id parent)"
  shows "project_recovery_action_ids p = (project, parent, kind, True)"
proof -
  from r obtain t where p: "p = ''/v1/projects/'' @ t" and t: "t = project @ CHR ''/'' # ''recovery'' @
      (if kind = ''start'' then '''' else CHR ''/'' # parent @ CHR ''/'' #
         (if kind = ''observe'' then ''observations'' else ''continuations''))"
    by (auto simp: project_recovery_action_path_def Let_def)
  have "split_on CHR ''/'' t = [project, ''recovery''] @
      (if kind = ''start'' then [] else [parent, if kind = ''observe'' then ''observations'' else ''continuations''])"
  proof (cases "kind = ''start''")
    case True
    then have t': "t = project @ CHR ''/'' # ''recovery''" using t by simp
    show ?thesis using True r
      by (simp only: t' split_slash_append split_slash_single valid_id_words) simp
  next
    case False
    then have t': "t = project @ CHR ''/'' # ''recovery'' @ CHR ''/'' # parent @ CHR ''/'' #
      (if kind = ''observe'' then ''observations'' else ''continuations'')" using t by (simp only: if_False)
    have v: "valid_id (if kind = ''observe'' then ''observations'' else ''continuations'')"
      using valid_id_words(2,3) by presburger
    have vp: "valid_id project" "valid_id parent" using r False by blast+
    show ?thesis using False
      by (simp only: t' split_slash_append split_slash_single valid_id_words vp v) simp
  qed
  then have s: "split_on CHR ''/'' (trim_prefix p ''/v1/projects/'') = [project, ''recovery''] @
      (if kind = ''start'' then [] else [parent, if kind = ''observe'' then ''observations'' else ''continuations''])"
    unfolding p by (simp only: trim_prefix_append)
  show "project_recovery_action_ids p = (project, parent, kind, True)"
    using r has_prefix_append [of "''/v1/projects/''" t, folded p]
    unfolding project_recovery_action_ids_def s Let_def by (cases "kind = ''start''") auto
qed

text \<open>
  Parsing a recovery path gives a project, a parent operation and an action exactly when
  the path is the one the client builds for them, so the three routes never overlap.
\<close>

theorem recovery_action_path_exact:
  "project_recovery_action_ids p = (project, parent, kind, True) \<longleftrightarrow>
     p = project_recovery_action_path project parent kind \<and> valid_id project \<and>
     (kind = ''start'' \<and> parent = '''' \<or> kind \<in> {''observe'', ''continue''} \<and> valid_id parent)"
  using recovery_ids_read recovery_ids_written by blast

text \<open>
  C13. The saved-status route accepts the paths the client builds for valid project ids and
  exactly one path more, the prefix followed by the bare suffix word.
\<close>

theorem status_path_reading:
  "project_status_id p = (i, True) \<longleftrightarrow>
     valid_id i \<and> p = project_status_path i \<or> i = ''status'' \<and> p = ''/v1/projects/status''"
  using project_resource_id_iff [of "''status''" p i] valid_id_words(4)
  by (simp add: project_status_id_def project_status_path_def)

end
