(* ===== verification/Epochs.thy ===== *)
theory Epochs
  imports GoText
begin

text \<open>
  Package \<open>internal/epochs\<close>: canonical epoch names (\<open>Number\<close>) and the three retention previews
  (\<open>Plan\<close>, \<open>GenesisPlan\<close>, \<open>PrunePlan\<close>). An \<open>int64\<close> field is an \<open>int\<close>; every value the code adds is
  checked against \<open>math.MaxInt64\<close> first, as the model does. The abstract contract
  \<open>plan_spec\<close> says which prefix of which inventory may be selected.
\<close>

section \<open>The code\<close>

record entry =
  ep_layout :: u8
  ep_vere :: string
  ep_name :: string
  ep_digest :: string
  ep_logical :: int
  ep_allocated :: int
  ep_files :: int
  ep_snapshot :: int
  ep_shared :: bool
  ep_protected :: bool

record inventory =
  iv_source :: string
  iv_pier :: string
  iv_observed :: gotime
  iv_digest :: string
  iv_entries :: "entry list"

record preview =
  pv_digest :: string
  pv_observed :: gotime
  pv_cutoff :: string
  pv_selected :: "entry list"
  pv_retained :: "entry list"
  pv_logical :: int
  pv_allocated :: int
  pv_shared :: bool
  pv_supported :: bool
  pv_revalidate :: bool

definition epoch_source :: string where
  "epoch_source = ''vere-4.6-epoch-v2''"

abbreviation max_epochs :: nat where "max_epochs \<equiv> 128"
abbreviation max_files_per_epoch :: int where "max_files_per_epoch \<equiv> 32"
abbreviation protected_suffix :: int where "protected_suffix \<equiv> 2"

definition epoch_max_age :: int where
  "epoch_max_age = 300 * second"

definition epoch_number :: "string \<Rightarrow> gerr + u64" where
  "epoch_number name =
     (if \<not> has_prefix name ''0i'' \<or> length name < 3 \<or> length name > 22
      then Inl (Err ''require a canonical epoch name such as 0i0 or 0i123'')
      else case parse_uint (drop 2 name) of
        None \<Rightarrow> Inl (Err ''require a canonical decimal epoch number'')
      | Some n \<Rightarrow> if dec n \<noteq> drop 2 name then Inl (Err ''require a canonical decimal epoch number'')
                  else Inr (of_nat n))"

definition valid_epoch_digest :: "string \<Rightarrow> bool" where
  "valid_epoch_digest s = hex_string 64 s"

text \<open>
  The loop of \<open>Plan\<close> over the entries: position \<open>i\<close>, the previous number and the position of
  the cutoff seen so far. The position stays \<open>None\<close> where the code's index stays -1.
\<close>

fun scan_entries ::
  "string \<Rightarrow> nat \<Rightarrow> nat \<Rightarrow> u64 \<Rightarrow> nat option \<Rightarrow> entry list \<Rightarrow> gerr + nat option" where
  "scan_entries cutoff cnt i previous index [] = Inr index"
| "scan_entries cutoff cnt i previous index (e # es) =
     (case epoch_number (ep_name e) of
        Inl _ \<Rightarrow> Inl (Err ''invalid epoch ordering, measurement or protected suffix'')
      | Inr n \<Rightarrow>
          if (i > 0 \<and> n \<le> previous) \<or> ep_logical e < 0 \<or> ep_allocated e < 0 \<or> ep_snapshot e < 0
             \<or> ep_files e < 1 \<or> ep_files e > max_files_per_epoch
             \<or> ep_protected e \<noteq> (int i \<ge> int cnt - protected_suffix)
          then Inl (Err ''invalid epoch ordering, measurement or protected suffix'')
          else scan_entries cutoff cnt (i + 1) n (if ep_name e = cutoff then Some i else index) es)"

fun sum_selected :: "int \<Rightarrow> int \<Rightarrow> bool \<Rightarrow> entry list \<Rightarrow> gerr + (int \<times> int \<times> bool)" where
  "sum_selected l a s [] = Inr (l, a, s)"
| "sum_selected l a s (e # es) =
     (if ep_logical e > max_int64 - l \<or> ep_allocated e > max_int64 - a
      then Inl (Err ''epoch size sum overflow'')
      else sum_selected (l + ep_logical e) (a + ep_allocated e) (s \<or> ep_shared e) es)"

definition plan_preview :: "inventory option \<Rightarrow> string \<Rightarrow> string \<Rightarrow> gotime \<Rightarrow> gerr + preview" where
  "plan_preview ivo cutoff expected now =
     (case ivo of
        None \<Rightarrow> Inl (Err ''epoch inventory is missing or its digest changed; inspect again'')
      | Some v \<Rightarrow>
      if iv_source v \<noteq> epoch_source \<or> \<not> hex_string 32 (iv_pier v) \<or> \<not> valid_epoch_digest expected
         \<or> iv_digest v \<noteq> expected
      then Inl (Err ''epoch inventory is missing or its digest changed; inspect again'')
      else if is_zero (iv_observed v) \<or> time_sub now (iv_observed v) > epoch_max_age
              \<or> after (iv_observed v) (time_add now (5 * second))
      then Inl (Err ''epoch inventory is stale; request a new inspection'')
      else case epoch_number cutoff of Inl err \<Rightarrow> Inl err | Inr _ \<Rightarrow>
      if iv_entries v = [] \<or> length (iv_entries v) > max_epochs
      then Inl (Err ''invalid epoch inventory size'')
      else case scan_entries cutoff (length (iv_entries v)) 0 0 None (iv_entries v) of
        Inl err \<Rightarrow> Inl err
      | Inr None \<Rightarrow> Inl (Err ''cutoff epoch is absent from the inventory'')
      | Inr (Some k) \<Rightarrow>
      if int k \<ge> int (length (iv_entries v)) - protected_suffix
      then Inl (Err ''cutoff includes a protected newest epoch'')
      else case sum_selected 0 0 False (take (k + 1) (iv_entries v)) of
        Inl err \<Rightarrow> Inl err
      | Inr (l, a, s) \<Rightarrow>
          Inr \<lparr>pv_digest = iv_digest v, pv_observed = iv_observed v, pv_cutoff = cutoff,
               pv_selected = take (k + 1) (iv_entries v), pv_retained = drop (k + 1) (iv_entries v),
               pv_logical = l, pv_allocated = a, pv_shared = s,
               pv_supported = False, pv_revalidate = True\<rparr>)"

fun genesis_entries :: "nat \<Rightarrow> entry list \<Rightarrow> bool" where
  "genesis_entries i [] = True"
| "genesis_entries i (e # es) =
     (\<not> (ep_shared e \<or> \<not> valid_epoch_digest (ep_digest e) \<or> (i > 0 \<and> ep_snapshot e \<le> 0))
      \<and> genesis_entries (i + 1) es)"

definition genesis_plan :: "inventory option \<Rightarrow> string \<Rightarrow> string \<Rightarrow> gotime \<Rightarrow> gerr + preview" where
  "genesis_plan ivo cutoff digest now =
     (case plan_preview ivo cutoff digest now of
        Inl err \<Rightarrow> Inl err
      | Inr p \<Rightarrow>
          let entries = iv_entries (the ivo)
          in if cutoff \<noteq> ''0i0'' \<or> length entries \<noteq> 4 \<or> length (pv_selected p) \<noteq> 1
                \<or> length (pv_retained p) \<noteq> 3 \<or> ep_name (pv_selected p ! 0) \<noteq> ''0i0''
                \<or> ep_files (pv_selected p ! 0) \<noteq> 4 \<or> ep_snapshot (pv_selected p ! 0) \<noteq> 0
          then Inl (Err ''only genesis epoch 0i0 in a four-epoch inventory is qualified for deletion'')
          else if \<not> genesis_entries 0 entries
          then Inl (Err ''genesis deletion requires exclusive files, complete fingerprints and retained snapshots'')
          else Inr p)"

definition prunable :: "entry \<Rightarrow> bool" where
  "prunable e =
     (let files = (if ep_name e = ''0i0'' then 4 else 5)
      in \<not> (ep_shared e \<or> \<not> valid_epoch_digest (ep_digest e) \<or> ep_files e \<noteq> files
            \<or> (ep_name e \<noteq> ''0i0'' \<and> ep_snapshot e \<le> 0) \<or> (ep_name e = ''0i0'' \<and> ep_snapshot e \<noteq> 0)))"

definition prune_plan :: "inventory option \<Rightarrow> string \<Rightarrow> string \<Rightarrow> gotime \<Rightarrow> gerr + preview" where
  "prune_plan ivo cutoff digest now =
     (case plan_preview ivo cutoff digest now of
        Inl err \<Rightarrow> Inl err
      | Inr p \<Rightarrow>
          if list_all prunable (iv_entries (the ivo)) then Inr p
          else Inl (Err ''prefix deletion requires complete pinned-layout fingerprints, snapshots and exclusive files''))"

section \<open>Epoch names\<close>

lemma length_dec: "n < 10 ^ k \<Longrightarrow> 0 < k \<Longrightarrow> length (dec n) \<le> k"
proof (induction k arbitrary: n)
  case (Suc k)
  show ?case
  proof (cases "n < 10")
    case True
    then show ?thesis by (simp add: dec.simps [of n])
  next
    case False
    with Suc.prems have "n div 10 < 10 ^ k" "0 < k" by (auto simp: less_mult_imp_div_less intro: gr0I)
    with Suc.IH [of "n div 10"] False show ?thesis by (simp add: dec.simps [of n])
  qed
qed simp

lemma unat_lt_u64: "unat (n :: u64) < 2 ^ 64"
  using unsigned_less [of n] by simp

lemma length_dec_u64: "length (dec (unat (n :: u64))) \<le> 20"
proof (rule length_dec)
  have "unat n < 2 ^ 64" by (rule unat_lt_u64)
  then show "unat n < 10 ^ 20" by simp
qed simp

lemma epoch_number_iff: "epoch_number name = Inr n \<longleftrightarrow> name = ''0i'' @ dec (unat n)"
proof
  assume l: "epoch_number name = Inr n"
  then obtain m where m: "parse_uint (drop 2 name) = Some m" "dec m = drop 2 name" "n = of_nat m"
    and p: "has_prefix name ''0i''"
    by (auto simp: epoch_number_def split: if_splits option.splits)
  from m(1) have "m < 2 ^ 64" by (auto simp: parse_uint_def split: if_splits)
  with m(3) have "unat n = m" by (simp add: unat_of_nat take_bit_nat_eq_self)
  with m(2) p show "name = ''0i'' @ dec (unat n)"
    by (metis append_take_drop_id has_prefix_def list.size(3,4) numeral_2_eq_2 One_nat_def
        add.right_neutral add_Suc_right)
next
  assume r: "name = ''0i'' @ dec (unat n)"
  have "0 < length (dec (unat n))" by simp
  moreover have "has_prefix name ''0i''" unfolding r by (rule has_prefix_append)
  moreover have "unat n < 2 ^ 64" by (rule unat_lt_u64)
  ultimately show "epoch_number name = Inr n"
    using length_dec_u64 [of n] by (auto simp: epoch_number_def r Suc_le_eq)
qed

lemma epoch_number_inj: "epoch_number a = Inr n \<Longrightarrow> epoch_number b = Inr n \<Longrightarrow> a = b"
  by (simp add: epoch_number_iff)

section \<open>The contract of the previews\<close>

text \<open>The number a name spells; only used on canonical names.\<close>

definition epoch_of :: "entry \<Rightarrow> nat" where
  "epoch_of e = (case epoch_number (ep_name e) of Inr n \<Rightarrow> unat n | Inl _ \<Rightarrow> 0)"

definition canonical_name :: "string \<Rightarrow> bool" where
  "canonical_name s \<longleftrightarrow> is_ok (epoch_number s)"

definition measured :: "entry \<Rightarrow> bool" where
  "measured e \<longleftrightarrow> canonical_name (ep_name e) \<and> 0 \<le> ep_logical e \<and> 0 \<le> ep_allocated e
     \<and> 0 \<le> ep_snapshot e \<and> 1 \<le> ep_files e \<and> ep_files e \<le> max_files_per_epoch"

text \<open>Entries oldest first, each measured, and exactly the newest two protected.\<close>

definition well_formed_entries :: "entry list \<Rightarrow> bool" where
  "well_formed_entries es \<longleftrightarrow> list_all measured es \<and> sorted_wrt (\<lambda>a b. epoch_of a < epoch_of b) es
     \<and> map ep_protected es = map (\<lambda>k. length es \<le> k + 2) [0..<length es]"

definition plan_spec :: "inventory \<Rightarrow> string \<Rightarrow> string \<Rightarrow> gotime \<Rightarrow> preview \<Rightarrow> bool" where
  "plan_spec v cutoff expected now p \<longleftrightarrow>
     iv_source v = epoch_source \<and> hex_string 32 (iv_pier v) \<and> hex_string 64 expected \<and> iv_digest v = expected
     \<and> \<not> is_zero (iv_observed v) \<and> inst now - inst (iv_observed v) \<le> 300 * second
     \<and> inst (iv_observed v) \<le> inst now + 5 * second
     \<and> length (iv_entries v) \<le> max_epochs \<and> well_formed_entries (iv_entries v)
     \<and> iv_entries v = pv_selected p @ pv_retained p \<and> pv_selected p \<noteq> []
     \<and> ep_name (last (pv_selected p)) = cutoff \<and> length (pv_retained p) \<ge> 2
     \<and> pv_logical p = sum_list (map ep_logical (pv_selected p)) \<and> pv_logical p \<le> max_int64
     \<and> pv_allocated p = sum_list (map ep_allocated (pv_selected p)) \<and> pv_allocated p \<le> max_int64
     \<and> pv_shared p = list_ex ep_shared (pv_selected p)
     \<and> pv_digest p = expected \<and> pv_observed p = iv_observed v \<and> pv_cutoff p = cutoff
     \<and> \<not> pv_supported p \<and> pv_revalidate p"

section \<open>The loops meet the contract\<close>

definition protect_ok :: "nat \<Rightarrow> nat \<Rightarrow> entry list \<Rightarrow> bool" where
  "protect_ok cnt i es \<longleftrightarrow> map ep_protected es = map (\<lambda>k. cnt \<le> k + 2) [i..<i + length es]"

lemma protect_ok_Cons:
  "protect_ok cnt i (e # es) \<longleftrightarrow> ep_protected e = (cnt \<le> i + 2) \<and> protect_ok cnt (i + 1) es"
  by (simp add: protect_ok_def upt_conv_Cons del: upt_Suc)

definition in_order :: "nat \<Rightarrow> nat \<Rightarrow> entry list \<Rightarrow> bool" where
  "in_order i previous es \<longleftrightarrow> sorted_wrt (\<lambda>a b. epoch_of a < epoch_of b) es
     \<and> (i > 0 \<longrightarrow> list_all (\<lambda>e. previous < epoch_of e) es)"

lemma in_order_Cons:
  "in_order i previous (e # es) \<longleftrightarrow> (i > 0 \<longrightarrow> previous < epoch_of e) \<and> in_order (i + 1) (epoch_of e) es"
  by (auto simp: in_order_def list_all_iff)

lemma measured_number: "measured e \<Longrightarrow> \<exists>n. epoch_number (ep_name e) = Inr n"
  by (auto simp: measured_def canonical_name_def is_ok_iff)

lemma epoch_of_number: "epoch_number (ep_name e) = Inr n \<Longrightarrow> epoch_of e = unat n"
  by (simp add: epoch_of_def)

text \<open>The scan accepts the well-formed inventories and finds the last entry named like the cutoff.\<close>

lemma scan_step:
  "scan_entries cutoff cnt i previous index (e # es) = Inr r \<longleftrightarrow>
     measured e \<and> ep_protected e = (cnt \<le> i + 2) \<and> (i > 0 \<longrightarrow> unat previous < epoch_of e)
     \<and> scan_entries cutoff cnt (i + 1) (of_nat (epoch_of e)) (if ep_name e = cutoff then Some i else index) es = Inr r"
  by (cases "epoch_number (ep_name e)")
     (auto simp: measured_def canonical_name_def epoch_of_number word_le_nat_alt split: if_splits)

lemma epoch_of_u64: "unat (of_nat (epoch_of e) :: u64) = epoch_of e"
proof -
  have "epoch_of e < 2 ^ 64"
    by (cases "epoch_number (ep_name e)") (auto simp: epoch_of_def intro: unat_lt_u64 [simplified])
  then show ?thesis by (simp add: unat_of_nat take_bit_nat_eq_self)
qed

lemma scan_entries_iff:
  "scan_entries cutoff cnt i previous index es = Inr r \<longleftrightarrow>
     list_all measured es \<and> protect_ok cnt i es \<and> in_order i (unat previous) es
     \<and> r = foldl (\<lambda>x k. if ep_name (es ! k) = cutoff then Some (i + k) else x) index [0..<length es]"
proof (induction es arbitrary: i previous index)
  case Nil
  then show ?case by (auto simp: protect_ok_def in_order_def)
next
  case (Cons e es)
  have f: "foldl (\<lambda>x k. if ep_name ((e # es) ! k) = cutoff then Some (i + k) else x) index [0..<length (e # es)]
    = foldl (\<lambda>x k. if ep_name (es ! k) = cutoff then Some (i + 1 + k) else x)
        (if ep_name e = cutoff then Some i else index) [0..<length es]"
    by (simp add: upt_conv_Cons map_Suc_upt [symmetric] foldl_map del: upt_Suc
      cong del: if_weak_cong)
  show ?case
    unfolding scan_step Cons.IH f protect_ok_Cons in_order_Cons epoch_of_u64 by auto
qed

text \<open>In an ordered inventory names are distinct, so the last match is the only one.\<close>

lemma foldl_last_match:
  assumes "\<And>j k. j < n \<Longrightarrow> k < n \<Longrightarrow> P j \<Longrightarrow> P k \<Longrightarrow> j = k"
  shows "foldl (\<lambda>x k. if P k then Some (0 + k) else x) None [0..<n] = Some k \<longleftrightarrow> k < n \<and> P k"
  using assms
proof (induction n)
  case (Suc n)
  show ?case
  proof (cases "P n")
    case True
    then have "k < Suc n \<and> P k \<longleftrightarrow> k = n" using Suc.prems [of n k] by blast
    with True show ?thesis by auto
  next
    case False
    have "foldl (\<lambda>x k. if P k then Some (0 + k) else x) None [0..<n] = Some k \<longleftrightarrow> k < n \<and> P k"
      using Suc.prems by (intro Suc.IH) (meson less_SucI)
    with False show ?thesis by (auto simp: less_Suc_eq)
  qed
qed simp

lemma ordered_names_inj:
  assumes "sorted_wrt (\<lambda>a b. epoch_of a < epoch_of b) es" "j < length es" "k < length es"
    "ep_name (es ! j) = ep_name (es ! k)"
  shows "j = k"
proof -
  have "epoch_of (es ! j) = epoch_of (es ! k)" using assms(4) by (simp add: epoch_of_def)
  then show ?thesis using assms by (metis nat_neq_iff sorted_wrt_nth_less)
qed

lemma scan_entries_found:
  "scan_entries cutoff (length es) 0 0 None es = Inr (Some k) \<longleftrightarrow>
     well_formed_entries es \<and> k < length es \<and> ep_name (es ! k) = cutoff"
proof -
  have eq: "Some k = x \<longleftrightarrow> x = Some k" for x :: "nat option" by blast
  have "sorted_wrt (\<lambda>a b. epoch_of a < epoch_of b) es \<Longrightarrow>
      Some k = foldl (\<lambda>x k. if ep_name (es ! k) = cutoff then Some (0 + k) else x) None [0..<length es]
      \<longleftrightarrow> k < length es \<and> ep_name (es ! k) = cutoff"
    unfolding eq by (rule foldl_last_match) (rule ordered_names_inj, assumption+, simp)
  then show ?thesis
    unfolding scan_entries_iff well_formed_entries_def in_order_def protect_ok_def by auto
qed

lemma sum_selected_iff:
  assumes "\<forall>e\<in>set es. 0 \<le> ep_logical e \<and> 0 \<le> ep_allocated e" "l \<le> max_int64" "a \<le> max_int64"
  shows "sum_selected l a s es = Inr (l', a', s') \<longleftrightarrow>
     l' = l + sum_list (map ep_logical es) \<and> l' \<le> max_int64
     \<and> a' = a + sum_list (map ep_allocated es) \<and> a' \<le> max_int64 \<and> s' = (s \<or> list_ex ep_shared es)"
  using assms
proof (induction es arbitrary: l a s)
  case (Cons e es)
  have nn: "0 \<le> sum_list (map ep_logical es)" "0 \<le> sum_list (map ep_allocated es)"
    using Cons.prems(1) by (auto intro!: sum_list_nonneg)
  show ?case
  proof (cases "ep_logical e > max_int64 - l \<or> ep_allocated e > max_int64 - a")
    case True
    with nn show ?thesis by auto
  next
    case False
    then show ?thesis using Cons.prems Cons.IH [of "l + ep_logical e" "a + ep_allocated e" "s \<or> ep_shared e"]
      by (simp add: add.assoc disj_assoc)
  qed
qed auto

lemma well_formed_nonneg:
  "well_formed_entries es \<Longrightarrow> \<forall>e\<in>set (take n es). 0 \<le> ep_logical e \<and> 0 \<le> ep_allocated e"
  by (auto simp: well_formed_entries_def list_all_iff measured_def dest: in_set_takeD)

lemma plan_sub: "time_sub t u > epoch_max_age \<longleftrightarrow> inst t - inst u > 300 * second"
  by (simp add: epoch_max_age_def time_sub_gt second_def)

section \<open>The previews\<close>

lemma plan_unfold:
  "plan_preview (Some v) cutoff expected now = Inr p \<longleftrightarrow>
     iv_source v = epoch_source \<and> hex_string 32 (iv_pier v) \<and> hex_string 64 expected \<and> iv_digest v = expected
     \<and> \<not> is_zero (iv_observed v) \<and> inst now - inst (iv_observed v) \<le> 300 * second
     \<and> inst (iv_observed v) \<le> inst now + 5 * second
     \<and> canonical_name cutoff \<and> iv_entries v \<noteq> [] \<and> length (iv_entries v) \<le> max_epochs
     \<and> (\<exists>k. scan_entries cutoff (length (iv_entries v)) 0 0 None (iv_entries v) = Inr (Some k)
          \<and> k + 2 < length (iv_entries v)
          \<and> (\<exists>l a s. sum_selected 0 0 False (take (k + 1) (iv_entries v)) = Inr (l, a, s)
               \<and> p = \<lparr>pv_digest = expected, pv_observed = iv_observed v, pv_cutoff = cutoff,
                     pv_selected = take (k + 1) (iv_entries v), pv_retained = drop (k + 1) (iv_entries v),
                     pv_logical = l, pv_allocated = a, pv_shared = s,
                     pv_supported = False, pv_revalidate = True\<rparr>))"
proof -
  have aft: "after (iv_observed v) (time_add now (5 * second)) \<longleftrightarrow> inst now + 5 * second < inst (iv_observed v)"
    by (simp add: after_def time_add_def)
  have lk: "int k \<ge> int n - protected_suffix \<longleftrightarrow> \<not> k + 2 < n" for k n by auto
  show ?thesis
    unfolding plan_preview_def valid_epoch_digest_def canonical_name_def plan_sub aft option.case if_not_P lk
    by (cases "epoch_number cutoff"; cases "is_zero (iv_observed v)")
       (auto simp: not_less split: sum.splits option.splits prod.splits)
qed

lemma canonical_cutoff:
  "well_formed_entries es \<Longrightarrow> k < length es \<Longrightarrow> canonical_name (ep_name (es ! k))"
  by (auto simp: well_formed_entries_def measured_def list_all_length)

lemma plan_meets_spec:
  "plan_preview (Some v) cutoff expected now = Inr p \<longleftrightarrow> plan_spec v cutoff expected now p"
proof
  assume "plan_preview (Some v) cutoff expected now = Inr p"
  then obtain k l a s where k: "well_formed_entries (iv_entries v)" "k + 2 < length (iv_entries v)"
      "ep_name (iv_entries v ! k) = cutoff"
    and sum: "sum_selected 0 0 False (take (k + 1) (iv_entries v)) = Inr (l, a, s)"
    and p: "p = \<lparr>pv_digest = expected, pv_observed = iv_observed v, pv_cutoff = cutoff,
       pv_selected = take (k + 1) (iv_entries v), pv_retained = drop (k + 1) (iv_entries v),
       pv_logical = l, pv_allocated = a, pv_shared = s, pv_supported = False, pv_revalidate = True\<rparr>"
    and rest: "iv_source v = epoch_source" "hex_string 32 (iv_pier v)" "hex_string 64 expected"
      "iv_digest v = expected" "\<not> is_zero (iv_observed v)"
      "inst now - inst (iv_observed v) \<le> 300 * second" "inst (iv_observed v) \<le> inst now + 5 * second"
      "length (iv_entries v) \<le> max_epochs"
    unfolding plan_unfold scan_entries_found by blast
  have "last (take (k + 1) (iv_entries v)) = iv_entries v ! k"
    using k(2) by (simp add: take_Suc_conv_app_nth)
  with k rest sum_selected_iff [OF well_formed_nonneg [OF k(1), of "k + 1"], of 0 0 False l a s] sum
  show "plan_spec v cutoff expected now p" by (auto simp: plan_spec_def p)
next
  assume s: "plan_spec v cutoff expected now p"
  define k where "k = length (pv_selected p) - 1"
  have sel: "pv_selected p \<noteq> []" and es: "iv_entries v = pv_selected p @ pv_retained p"
    and two: "length (pv_retained p) \<ge> 2" and wf: "well_formed_entries (iv_entries v)"
    using s unfolding plan_spec_def by blast+
  from sel have k1: "k + 1 = length (pv_selected p)" by (simp add: k_def)
  then have t: "take (k + 1) (iv_entries v) = pv_selected p" "drop (k + 1) (iv_entries v) = pv_retained p"
    by (simp_all add: es)
  have nth: "iv_entries v ! k = last (pv_selected p)"
    using sel k1 by (simp add: es nth_append last_conv_nth k_def)
  have kl: "k < length (iv_entries v)" using k1 by (simp add: es)
  have sum: "sum_selected 0 0 False (take (k + 1) (iv_entries v)) = Inr (pv_logical p, pv_allocated p, pv_shared p)"
    using s sum_selected_iff [OF well_formed_nonneg [OF wf, of "k + 1"]] unfolding t plan_spec_def by simp
  have name: "ep_name (iv_entries v ! k) = cutoff" using s unfolding nth plan_spec_def by blast
  then have "canonical_name cutoff" using canonical_cutoff [OF wf kl] by simp
  moreover have "scan_entries cutoff (length (iv_entries v)) 0 0 None (iv_entries v) = Inr (Some k)"
    using wf kl name by (simp only: scan_entries_found)
  moreover have "k + 2 < length (iv_entries v)" using two k1 by (simp add: es)
  moreover have "p = \<lparr>pv_digest = expected, pv_observed = iv_observed v, pv_cutoff = cutoff,
      pv_selected = take (k + 1) (iv_entries v), pv_retained = drop (k + 1) (iv_entries v),
      pv_logical = pv_logical p, pv_allocated = pv_allocated p, pv_shared = pv_shared p,
      pv_supported = False, pv_revalidate = True\<rparr>"
    using s unfolding t plan_spec_def by (intro preview.equality) simp_all
  moreover have "iv_entries v \<noteq> []" using kl by auto
  ultimately show "plan_preview (Some v) cutoff expected now = Inr p"
    using s sum unfolding plan_unfold plan_spec_def by blast
qed

text \<open>
  C14. A retention preview is produced exactly for a fresh, intact and well-formed inventory, and
  it selects the entries up to the cutoff with their exact sums, at least the newest two retained.
\<close>

theorem plan_exact:
  "plan_preview (Some v) cutoff expected now = Inr p \<longleftrightarrow> plan_spec v cutoff expected now p"
  by (rule plan_meets_spec)

lemma map_nth_eq: "map f es = map g [0..<length es] \<Longrightarrow> k < length es \<Longrightarrow> f (es ! k) = g k"
  by (drule arg_cong [of _ _ "\<lambda>l. l ! k"]) simp

lemma selected_before_retained:
  "plan_spec v cutoff expected now p \<Longrightarrow> a \<in> set (pv_selected p) \<Longrightarrow> b \<in> set (pv_retained p) \<Longrightarrow>
     epoch_of a < epoch_of b"
  by (auto simp: plan_spec_def well_formed_entries_def sorted_wrt_append)

lemma genesis_number: "epoch_of e > 0 \<Longrightarrow> ep_name e \<noteq> ''0i0''"
proof
  assume "ep_name e = ''0i0''"
  moreover have "epoch_number ''0i0'' = Inr 0"
    by (simp add: epoch_number_iff dec.simps)
  ultimately show "epoch_of e > 0 \<Longrightarrow> False" by (simp add: epoch_of_def)
qed

text \<open>
  C15. A pruning scope never strands a ship: everything it deletes is older than everything it
  keeps, every epoch it keeps carries its own snapshot and exclusive files, and the two protected
  newest epochs are kept.
\<close>

theorem prune_keeps_replayable:
  assumes "prune_plan (Some v) cutoff digest now = Inr p"
  shows "iv_entries v = pv_selected p @ pv_retained p \<and> length (pv_retained p) \<ge> 2
    \<and> list_all (\<lambda>a. list_all (\<lambda>b. epoch_of a < epoch_of b) (pv_retained p)) (pv_selected p)
    \<and> list_all (\<lambda>e. ep_snapshot e > 0 \<and> \<not> ep_shared e \<and> ep_files e = 5) (pv_retained p)
    \<and> list_all (\<lambda>e. \<not> ep_protected e) (pv_selected p)"
proof -
  from assms have p: "plan_preview (Some v) cutoff digest now = Inr p" "list_all prunable (iv_entries v)"
    by (auto simp: prune_plan_def split: sum.splits if_splits)
  then have s: "plan_spec v cutoff digest now p" by (simp add: plan_meets_spec)
  have pos: "epoch_of b > 0" if "b \<in> set (pv_retained p)" for b
    using selected_before_retained [OF s _ that, of "hd (pv_selected p)"] s
    by (fastforce simp: plan_spec_def)
  have prot: "\<not> ep_protected (pv_selected p ! k)" if "k < length (pv_selected p)" for k
  proof -
    have "map ep_protected (iv_entries v) = map (\<lambda>k. length (iv_entries v) \<le> k + 2) [0..<length (iv_entries v)]"
      using s unfolding plan_spec_def well_formed_entries_def by blast
    then have "ep_protected (iv_entries v ! k) \<longleftrightarrow> length (iv_entries v) \<le> k + 2"
      if "k < length (iv_entries v)" using map_nth_eq that by blast
    moreover have "iv_entries v = pv_selected p @ pv_retained p" "length (pv_retained p) \<ge> 2"
      using s unfolding plan_spec_def by blast+
    ultimately show ?thesis using that by (auto simp: nth_append)
  qed
  have es: "iv_entries v = pv_selected p @ pv_retained p" "length (pv_retained p) \<ge> 2"
    using s unfolding plan_spec_def by blast+
  have ret: "ep_snapshot b > 0 \<and> \<not> ep_shared b \<and> ep_files b = 5" if "b \<in> set (pv_retained p)" for b
  proof -
    have "prunable b" using p(2) that by (simp add: es list_all_iff)
    with genesis_number [OF pos [OF that]] show ?thesis by (simp add: prunable_def)
  qed
  have "list_all (\<lambda>e. \<not> ep_protected e) (pv_selected p)" using prot by (simp add: list_all_length)
  then show ?thesis using es ret selected_before_retained [OF s] by (simp add: list_all_iff)
qed

definition sample_inventory :: inventory where
  "sample_inventory = (let e = \<lparr>ep_layout = 2, ep_vere = '''', ep_name = ''0i0'', ep_digest = replicate 64 CHR ''a'',
      ep_logical = 10, ep_allocated = 20, ep_files = 4, ep_snapshot = 0, ep_shared = False, ep_protected = False\<rparr>
    in \<lparr>iv_source = epoch_source, iv_pier = replicate 32 CHR ''0'',
        iv_observed = \<lparr>inst = 1000, meta = 0\<rparr>, iv_digest = replicate 64 CHR ''b'',
        iv_entries = [e, e\<lparr>ep_name := ''0i9'', ep_files := 5, ep_snapshot := 7, ep_protected := True\<rparr>,
          e\<lparr>ep_name := ''0i10'', ep_files := 5, ep_snapshot := 7, ep_protected := True\<rparr>]\<rparr>)"

lemma sample_prune:
  "is_ok (prune_plan (Some sample_inventory) ''0i0'' (replicate 64 CHR ''b'') \<lparr>inst = 2000, meta = 1\<rparr>)"
  
proof -
  have n: "epoch_number ''0i0'' = Inr 0" "epoch_number ''0i9'' = Inr 9" "epoch_number ''0i10'' = Inr 10"
    by (simp_all add: epoch_number_iff dec.simps)
  show ?thesis
    by (simp add: prune_plan_def plan_preview_def sample_inventory_def Let_def n time_defs epoch_max_age_def
        valid_epoch_digest_def prunable_def is_lower_hex_def is_digit_def char_in_def less_eq_char_def)
qed

theorem prune_keeps_replayable_witness:
  "\<exists>p. prune_plan (Some sample_inventory) ''0i0'' (replicate 64 CHR ''b'') \<lparr>inst = 2000, meta = 1\<rparr> = Inr p
     \<and> length (pv_retained p) \<ge> 2"
  using prune_keeps_replayable [of sample_inventory "''0i0''" "replicate 64 CHR ''b''" "\<lparr>inst = 2000, meta = 1\<rparr>"]
    sample_prune by (auto simp: is_ok_iff)

end
