(* ===== verification/Routines.thy ===== *)
theory Routines
  imports Prelude
begin

text \<open>
  Package \<open>internal/routines\<close>: validation of a maintenance calendar (\<open>Validate\<close>), explicit
  consent in an update (\<open>Update.UnmarshalJSON\<close>, after \<open>encoding/json\<close> has filled the pointers of
  its wire struct), the slot that is due (\<open>Due\<close>) and the next one (\<open>Next\<close>). Stored instants are
  in UTC, as \<open>time.Now().UTC()\<close> and \<open>time.Date(..., time.UTC)\<close> make them, so a calendar day is
  \<open>inst div day_ns\<close> and Go's zero time is a Monday. The abstract calendar is the set \<open>is_slot\<close>.
\<close>

section \<open>The code\<close>

record routine_config =
  rc_enabled :: bool
  rc_action :: string
  rc_weekdays :: "int list"
  rc_hour :: int
  rc_minute :: int
  rc_window :: int
  rc_stop :: bool
  rc_resume :: bool

text \<open>The fields \<open>Due\<close> and \<open>Next\<close> read.\<close>

record routine_policy =
  rp_config :: routine_config
  rp_updated :: gotime
  rp_last :: "gotime option"

record config_wire =
  wc_enabled :: "bool option"
  wc_action :: "string option"
  wc_weekdays :: "int list option"
  wc_hour :: "int option"
  wc_minute :: "int option"
  wc_window :: "int option"
  wc_stop :: "bool option"
  wc_resume :: "bool option"

record update_wire =
  wu_revision :: "u64 option"
  wu_instance :: "u64 option"
  wu_config :: "config_wire option"

record routine_update =
  ru_revision :: u64
  ru_instance :: u64
  ru_config :: routine_config

text \<open>\<open>Decode\<close> is the JSON decoder with unknown fields refused: \<open>None\<close> where it fails.\<close>

definition unmarshal_update :: "('d \<Rightarrow> update_wire option) \<Rightarrow> 'd \<Rightarrow> gerr + routine_update" where
  "unmarshal_update decode data =
     (case decode data of
        None \<Rightarrow> Inl (Err ''invalid routine update schema'')
      | Some w \<Rightarrow>
          (case (wu_revision w, wu_instance w, wu_config w) of
             (Some r, Some i, Some c) \<Rightarrow>
               (case (wc_enabled c, wc_action c, wc_weekdays c, wc_hour c, wc_minute c, wc_window c,
                      wc_stop c, wc_resume c) of
                  (Some e, Some a, Some ds, Some h, Some m, Some n, Some s, Some re) \<Rightarrow>
                    Inr \<lparr>ru_revision = r, ru_instance = i, ru_config =
                      \<lparr>rc_enabled = e, rc_action = a, rc_weekdays = ds, rc_hour = h, rc_minute = m,
                       rc_window = n, rc_stop = s, rc_resume = re\<rparr>\<rparr>
                | _ \<Rightarrow> Inl (Err ''routine update requires explicit revisions and every timing/consent field''))
           | _ \<Rightarrow> Inl (Err ''routine update requires explicit revisions and every timing/consent field'')))"

fun weekdays_ok :: "int list \<Rightarrow> int list \<Rightarrow> bool" where
  "weekdays_ok seen [] = True"
| "weekdays_ok seen (d # ds) = (\<not> (d < 0 \<or> d > 6 \<or> d \<in> set seen) \<and> weekdays_ok (d # seen) ds)"

text \<open>On success the caller's configuration has its weekdays sorted.\<close>

definition validate_routine :: "routine_config \<Rightarrow> gerr + routine_config" where
  "validate_routine c =
     (if rc_action c \<noteq> ''pack'' \<and> rc_action c \<noteq> ''meld''
      then Inl (Err ''routine action must be pack or meld'')
      else if length (rc_weekdays c) < 1 \<or> length (rc_weekdays c) > 7 \<or> rc_hour c < 0 \<or> rc_hour c > 23
              \<or> rc_minute c < 0 \<or> rc_minute c > 59 \<or> rc_window c < 5 \<or> rc_window c > 180
              \<or> rc_resume c \<and> \<not> rc_stop c
      then Inl (Err ''require UTC weekdays/time, a 5..180 minute dispatch window, and explicit downtime consent before resume'')
      else if \<not> weekdays_ok [] (rc_weekdays c)
      then Inl (Err ''weekdays must be unique values 0 (Sunday) through 6 (Saturday)'')
      else Inr (c\<lparr>rc_weekdays := sort (rc_weekdays c)\<rparr>))"

definition weekday :: "int \<Rightarrow> int" where
  "weekday day = (day + 1) mod 7"

definition on_day :: "routine_config \<Rightarrow> int \<Rightarrow> bool" where
  "on_day c d \<longleftrightarrow> list_ex (\<lambda>x. x = d) (rc_weekdays c)"

definition slot_on :: "routine_config \<Rightarrow> int \<Rightarrow> gotime" where
  "slot_on c day = \<lparr>inst = day * day_ns + rc_hour c * (3600 * second) + rc_minute c * (60 * second), meta = 0\<rparr>"

text \<open>\<open>now.AddDate(0, 0, k)\<close> in UTC, and the calendar day of an instant.\<close>

definition utc_day :: "gotime \<Rightarrow> int \<Rightarrow> int" where
  "utc_day now k = (inst now + k * day_ns) div day_ns"

fun due_days :: "routine_policy \<Rightarrow> gotime \<Rightarrow> nat list \<Rightarrow> gotime \<times> bool" where
  "due_days p now [] = (zero_time, False)"
| "due_days p now (k # ks) =
     (let d = utc_day now (- int k); slot = slot_on (rp_config p) d
      in if \<not> on_day (rp_config p) (weekday d) then due_days p now ks
         else if after slot now then due_days p now ks
         else if \<not> after slot (rp_updated p)
              \<or> (case rp_last p of None \<Rightarrow> False | Some l \<Rightarrow> \<not> after slot l) then (zero_time, False)
         else (slot, True))"

definition due :: "routine_policy \<Rightarrow> gotime \<Rightarrow> gotime \<times> bool" where
  "due p now = (if \<not> rc_enabled (rp_config p) then (zero_time, False) else due_days p now [0..<8])"

fun next_days :: "routine_policy \<Rightarrow> gotime \<Rightarrow> nat list \<Rightarrow> gotime option" where
  "next_days p now [] = None"
| "next_days p now (k # ks) =
     (let d = utc_day now (int k); slot = slot_on (rp_config p) d
      in if \<not> on_day (rp_config p) (weekday d) then next_days p now ks
         else if after slot now then Some slot else next_days p now ks)"

definition next_slot :: "routine_policy \<Rightarrow> gotime \<Rightarrow> gotime option" where
  "next_slot p now =
     (if \<not> rc_enabled (rp_config p) then None
      else let now = (if after (rp_updated p) now then rp_updated p else now);
               now = (case rp_last p of Some l \<Rightarrow> if after l now then l else now | None \<Rightarrow> now)
           in next_days p now [0..<8])"

section \<open>The calendar\<close>

text \<open>The instants a policy is scheduled at, and the well-formed configurations.\<close>

definition slot_offset :: "routine_config \<Rightarrow> int" where
  "slot_offset c = rc_hour c * (3600 * second) + rc_minute c * (60 * second)"

definition is_slot :: "routine_config \<Rightarrow> gotime \<Rightarrow> bool" where
  "is_slot c t \<longleftrightarrow> meta t = 0 \<and> day_ns dvd inst t - slot_offset c
     \<and> weekday ((inst t - slot_offset c) div day_ns) \<in> set (rc_weekdays c)"

definition calendar_ok :: "routine_config \<Rightarrow> bool" where
  "calendar_ok c \<longleftrightarrow> rc_action c \<in> {''pack'', ''meld''} \<and> rc_weekdays c \<noteq> [] \<and> distinct (rc_weekdays c)
     \<and> set (rc_weekdays c) \<subseteq> {0..6} \<and> 0 \<le> rc_hour c \<and> rc_hour c \<le> 23 \<and> 0 \<le> rc_minute c \<and> rc_minute c \<le> 59
     \<and> 5 \<le> rc_window c \<and> rc_window c \<le> 180 \<and> (\<not> rc_resume c \<or> rc_stop c)"

lemma weekdays_ok_iff: "weekdays_ok seen ds \<longleftrightarrow> distinct ds \<and> set ds \<subseteq> {0..6} \<and> set seen \<inter> set ds = {}"
  by (induction seen ds rule: weekdays_ok.induct) auto

lemma distinct_week: "distinct ds \<Longrightarrow> set ds \<subseteq> {0..6 :: int} \<Longrightarrow> length ds \<le> 7"
  using card_mono [of "{0..6 :: int}" "set ds"] by (simp add: distinct_card)

lemma validate_routine_meets:
  "validate_routine c = Inr d \<longleftrightarrow> calendar_ok c \<and> d = c\<lparr>rc_weekdays := sort (rc_weekdays c)\<rparr>"
  using distinct_week [of "rc_weekdays c"]
  by (auto simp: validate_routine_def calendar_ok_def weekdays_ok_iff Suc_le_eq)

lemma calendar_ok_sorted [simp]: "calendar_ok (c\<lparr>rc_weekdays := sort (rc_weekdays c)\<rparr>) \<longleftrightarrow> calendar_ok c"
  by (auto simp: calendar_ok_def) (metis length_greater_0_conv length_sort)+

lemma offset_range: "calendar_ok c \<Longrightarrow> 0 \<le> slot_offset c \<and> slot_offset c < day_ns"
  by (auto simp: calendar_ok_def slot_offset_def day_ns_def second_def)

lemma utc_day_add: "utc_day now k = inst now div day_ns + k"
  by (simp add: utc_day_def day_ns_def second_def)

lemma slot_on_inst: "inst (slot_on c d) = d * day_ns + slot_offset c"
  by (simp add: slot_on_def slot_offset_def)

lemma is_slot_iff:
  "is_slot c t \<longleftrightarrow> (\<exists>d. t = slot_on c d \<and> weekday d \<in> set (rc_weekdays c))"
proof
  assume s: "is_slot c t"
  define d where "d = (inst t - slot_offset c) div day_ns"
  have s': "meta t = 0" "day_ns dvd inst t - slot_offset c" "weekday d \<in> set (rc_weekdays c)"
    using s unfolding is_slot_def d_def by blast+
  have "inst t - slot_offset c = d * day_ns" unfolding d_def by (rule sym, rule dvd_div_mult_self, rule s'(2))
  then have "inst t = inst (slot_on c d)" unfolding slot_on_inst by linarith
  then have "t = slot_on c d" using s'(1) by (intro gotime.equality) (simp_all add: slot_on_def)
  with s'(3) show "\<exists>d. t = slot_on c d \<and> weekday d \<in> set (rc_weekdays c)" by blast
next
  assume "\<exists>d. t = slot_on c d \<and> weekday d \<in> set (rc_weekdays c)"
  then show "is_slot c t"
    by (auto simp: is_slot_def slot_on_inst day_ns_def second_def) (simp add: slot_on_def)
qed

text \<open>Eight consecutive days hold two of every weekday a week apart, so every window is enough.\<close>

lemma week_hits:
  assumes "calendar_ok c"
  shows "\<exists>k \<in> {0..6}. weekday (n - k) \<in> set (rc_weekdays c)"
proof -
  define w where "w = hd (rc_weekdays c)"
  have "rc_weekdays c \<noteq> []" "set (rc_weekdays c) \<subseteq> {0..6}" using assms by (simp_all add: calendar_ok_def)
  then have w: "w \<in> set (rc_weekdays c)" "0 \<le> w" "w \<le> 6" unfolding w_def by (auto dest: hd_in_set)
  have "weekday (n - (n + 1 - w) mod 7) = w" 
  proof -
    define q where "q = (n + 1 - w) div 7"
    have "(n + 1 - w) mod 7 = n + 1 - w - 7 * q" unfolding q_def by (rule minus_mult_div_eq_mod [symmetric])
    then have "n - (n + 1 - w) mod 7 + 1 = w + 7 * q" by linarith
    with w show ?thesis by (simp add: weekday_def)
  qed
  with w show ?thesis by (intro bexI [of _ "(n + 1 - w) mod 7"]) auto
qed

section \<open>The slot that is due\<close>

definition latest_slot :: "routine_config \<Rightarrow> gotime \<Rightarrow> gotime \<Rightarrow> bool" where
  "latest_slot c now s \<longleftrightarrow> is_slot c s \<and> inst s \<le> inst now
     \<and> (\<forall>t. is_slot c t \<and> inst t \<le> inst now \<longrightarrow> inst t \<le> inst s)"

definition earliest_slot :: "routine_config \<Rightarrow> int \<Rightarrow> gotime \<Rightarrow> bool" where
  "earliest_slot c i s \<longleftrightarrow> is_slot c s \<and> i < inst s \<and> (\<forall>t. is_slot c t \<and> i < inst t \<longrightarrow> inst s \<le> inst t)"

definition unserved :: "routine_policy \<Rightarrow> gotime \<Rightarrow> bool" where
  "unserved p s \<longleftrightarrow> inst (rp_updated p) < inst s
     \<and> (case rp_last p of None \<Rightarrow> True | Some l \<Rightarrow> inst l < inst s)"

definition past_candidate :: "routine_config \<Rightarrow> gotime \<Rightarrow> nat \<Rightarrow> bool" where
  "past_candidate c now k \<longleftrightarrow> weekday (inst now div day_ns - int k) \<in> set (rc_weekdays c)
     \<and> inst (slot_on c (inst now div day_ns - int k)) \<le> inst now"

definition future_candidate :: "routine_config \<Rightarrow> gotime \<Rightarrow> nat \<Rightarrow> bool" where
  "future_candidate c now k \<longleftrightarrow> weekday (inst now div day_ns + int k) \<in> set (rc_weekdays c)
     \<and> inst now < inst (slot_on c (inst now div day_ns + int k))"

lemma on_day_iff: "on_day c d \<longleftrightarrow> d \<in> set (rc_weekdays c)"
  by (auto simp: on_day_def list_ex_iff)

lemma due_days_find:
  "due_days p now ks =
     (case find (past_candidate (rp_config p) now) ks of
        None \<Rightarrow> (zero_time, False)
      | Some k \<Rightarrow> let s = slot_on (rp_config p) (inst now div day_ns - int k)
                  in if unserved p s then (s, True) else (zero_time, False))"
  by (induction ks)
     (auto simp: Let_def on_day_iff utc_day_add past_candidate_def unserved_def after_def not_less
        split: option.splits)

lemma next_days_find:
  "next_days p now ks = map_option (\<lambda>k. slot_on (rp_config p) (inst now div day_ns + int k))
     (find (future_candidate (rp_config p) now) ks)"
  by (induction ks) (auto simp: Let_def on_day_iff utc_day_add future_candidate_def after_def)

lemma find_upt_Some:
  "find P [0..<n] = Some k \<longleftrightarrow> k < n \<and> P k \<and> (\<forall>j<k. \<not> P j)"
  by (auto simp: find_Some_iff)

lemma day_split:
  fixes i :: int
  obtains r where "i = i div day_ns * day_ns + r" "0 \<le> r" "r < day_ns"
  by (rule that [of "i mod day_ns"]) (simp_all add: day_ns_def second_def)

lemma past_candidate_exists:
  assumes "calendar_ok c"
  shows "\<exists>k<8. past_candidate c now k"
proof -
  obtain r where r: "inst now = inst now div day_ns * day_ns + r" "0 \<le> r" "r < day_ns" by (rule day_split)
  from week_hits [OF assms, of "inst now div day_ns - 1"]
  obtain k where k: "0 \<le> k" "k \<le> 6" "weekday (inst now div day_ns - 1 - k) \<in> set (rc_weekdays c)" by auto
  have "past_candidate c now (nat (k + 1))"
    unfolding past_candidate_def slot_on_inst
  proof
    show "weekday (inst now div day_ns - int (nat (k + 1))) \<in> set (rc_weekdays c)"
      using k by (simp add: algebra_simps)
    have "(inst now div day_ns - int (nat (k + 1))) * day_ns \<le> (inst now div day_ns - 1) * day_ns"
      using k(1) by (intro mult_right_mono) (simp_all add: day_ns_def second_def)
    then show "(inst now div day_ns - int (nat (k + 1))) * day_ns + slot_offset c \<le> inst now"
      using r offset_range [OF assms] unfolding left_diff_distrib by linarith
  qed
  with k(2) show ?thesis by (intro exI [of _ "nat (k + 1)"]) simp
qed

lemma future_candidate_exists:
  assumes "calendar_ok c"
  shows "\<exists>k<8. future_candidate c now k"
proof -
  obtain r where r: "inst now = inst now div day_ns * day_ns + r" "0 \<le> r" "r < day_ns" by (rule day_split)
  from week_hits [OF assms, of "inst now div day_ns + 7"]
  obtain j where j: "0 \<le> j" "j \<le> 6" "weekday (inst now div day_ns + 7 - j) \<in> set (rc_weekdays c)" by auto
  have "future_candidate c now (nat (7 - j))"
    unfolding future_candidate_def slot_on_inst
  proof
    show "weekday (inst now div day_ns + int (nat (7 - j))) \<in> set (rc_weekdays c)"
      using j by (simp add: algebra_simps)
    have "(inst now div day_ns + 1) * day_ns \<le> (inst now div day_ns + int (nat (7 - j))) * day_ns"
      using j(2) by (intro mult_right_mono) (simp_all add: day_ns_def second_def)
    then show "inst now < (inst now div day_ns + int (nat (7 - j))) * day_ns + slot_offset c"
      using r offset_range [OF assms] unfolding distrib_right by linarith
  qed
  with j(1) show ?thesis by (intro exI [of _ "nat (7 - j)"]) simp
qed

lemma slot_on_mono: "inst (slot_on c d) \<le> inst (slot_on c e) \<longleftrightarrow> d \<le> e"
  by (simp add: slot_on_inst day_ns_def second_def)

lemma slot_past_day:
  assumes "calendar_ok c" "inst (slot_on c d) \<le> inst now"
  shows "d \<le> inst now div day_ns"
proof -
  obtain r where r: "inst now = inst now div day_ns * day_ns + r" "0 \<le> r" "r < day_ns" by (rule day_split)
  with assms offset_range [OF assms(1)] have "d * day_ns < (inst now div day_ns + 1) * day_ns"
    unfolding slot_on_inst distrib_right by linarith
  then show ?thesis by (simp add: day_ns_def second_def)
qed

lemma slot_future_day:
  assumes "calendar_ok c" "inst now < inst (slot_on c d)"
  shows "inst now div day_ns \<le> d"
proof -
  obtain r where r: "inst now = inst now div day_ns * day_ns + r" "0 \<le> r" "r < day_ns" by (rule day_split)
  with assms offset_range [OF assms(1)] have "inst now div day_ns * day_ns < (d + 1) * day_ns"
    unfolding slot_on_inst distrib_right by linarith
  then show ?thesis by (simp add: day_ns_def second_def)
qed

lemma latest_slot_found:
  assumes "calendar_ok c"
  obtains k where "find (past_candidate c now) [0..<8] = Some k"
    "latest_slot c now (slot_on c (inst now div day_ns - int k))"
proof -
  let ?N = "inst now div day_ns"
  obtain k where f: "find (past_candidate c now) [0..<8] = Some k"
    using past_candidate_exists [OF assms, of now]
    by (cases "find (past_candidate c now) [0..<8]") (auto simp: find_None_iff)
  then have k: "past_candidate c now k" and first: "\<And>j. past_candidate c now j \<Longrightarrow> k \<le> j"
    by (auto simp: find_upt_Some) (meson not_le)
  have "inst t \<le> inst (slot_on c (?N - int k))" if t: "is_slot c t" "inst t \<le> inst now" for t
  proof -
    from t(1) obtain d where d: "t = slot_on c d" "weekday d \<in> set (rc_weekdays c)" by (auto simp: is_slot_iff)
    with t(2) have "d \<le> ?N" using slot_past_day [OF assms] by blast
    with d t(2) have "past_candidate c now (nat (?N - d))" by (simp add: past_candidate_def)
    with first [OF this] \<open>d \<le> ?N\<close> show ?thesis unfolding d(1) slot_on_mono by linarith
  qed
  with k have "latest_slot c now (slot_on c (?N - int k))"
    by (auto simp: latest_slot_def past_candidate_def is_slot_iff)
  with f show thesis by (rule that)
qed

lemma earliest_slot_found:
  assumes "calendar_ok c"
  obtains k where "find (future_candidate c now) [0..<8] = Some k"
    "earliest_slot c (inst now) (slot_on c (inst now div day_ns + int k))"
proof -
  let ?N = "inst now div day_ns"
  obtain k where f: "find (future_candidate c now) [0..<8] = Some k"
    using future_candidate_exists [OF assms, of now]
    by (cases "find (future_candidate c now) [0..<8]") (auto simp: find_None_iff)
  then have k: "future_candidate c now k" and first: "\<And>j. future_candidate c now j \<Longrightarrow> k \<le> j"
    by (auto simp: find_upt_Some) (meson not_le)
  have "inst (slot_on c (?N + int k)) \<le> inst t" if t: "is_slot c t" "inst now < inst t" for t
  proof -
    from t(1) obtain d where d: "t = slot_on c d" "weekday d \<in> set (rc_weekdays c)" by (auto simp: is_slot_iff)
    with t(2) have "?N \<le> d" using slot_future_day [OF assms] by blast
    with d t(2) have "future_candidate c now (nat (d - ?N))" by (simp add: future_candidate_def)
    with first [OF this] \<open>?N \<le> d\<close> show ?thesis unfolding d(1) slot_on_mono by linarith
  qed
  with k have "earliest_slot c (inst now) (slot_on c (?N + int k))"
    by (auto simp: earliest_slot_def future_candidate_def is_slot_iff)
  with f show thesis by (rule that)
qed

lemma latest_slot_unique: "latest_slot c now s \<Longrightarrow> latest_slot c now t \<Longrightarrow> s = t"
  by (intro gotime.equality) (auto simp: latest_slot_def is_slot_def intro: antisym)

lemma due_meets:
  assumes "calendar_ok (rp_config p)"
  shows "due p now = (s, True) \<longleftrightarrow>
    rc_enabled (rp_config p) \<and> latest_slot (rp_config p) now s \<and> unserved p s"
proof -
  from assms obtain k where "find (past_candidate (rp_config p) now) [0..<8] = Some k"
    "latest_slot (rp_config p) now (slot_on (rp_config p) (inst now div day_ns - int k))"
    by (rule latest_slot_found)
  then show ?thesis
    by (auto simp: due_def due_days_find Let_def simp del: upt_Suc split: if_splits dest: latest_slot_unique)
qed

text \<open>The instant a policy's next slot is counted from.\<close>

definition horizon :: "routine_policy \<Rightarrow> gotime \<Rightarrow> int" where
  "horizon p now = max (inst now) (max (inst (rp_updated p))
     (case rp_last p of None \<Rightarrow> inst now | Some l \<Rightarrow> inst l))"

lemma next_meets:
  assumes "calendar_ok (rp_config p)" "rc_enabled (rp_config p)"
  shows "\<exists>s. next_slot p now = Some s \<and> earliest_slot (rp_config p) (horizon p now) s"
proof -
  define base where "base = (let now = (if after (rp_updated p) now then rp_updated p else now)
    in case rp_last p of Some l \<Rightarrow> if after l now then l else now | None \<Rightarrow> now)"
  have "inst base = horizon p now"
    by (auto simp: base_def horizon_def after_def Let_def split: option.splits)
  moreover from assms(1) obtain k where "find (future_candidate (rp_config p) base) [0..<8] = Some k"
    "earliest_slot (rp_config p) (inst base) (slot_on (rp_config p) (inst base div day_ns + int k))"
    by (rule earliest_slot_found)
  moreover have "next_slot p now = next_days p base [0..<8]"
    using assms(2) by (simp add: next_slot_def base_def Let_def)
  ultimately show ?thesis by (simp add: next_days_find del: upt_Suc)
qed

text \<open>
  C16. A slot is due exactly when it is the latest scheduled instant that is not in the future
  and neither the last change of the policy nor the last served slot is as late; so a recorded
  slot is never served again, even when the clock moves backwards.
\<close>

theorem due_exact:
  assumes "validate_routine c = Inr (rp_config p)"
  shows "(due p now = (s, True) \<longleftrightarrow>
      rc_enabled (rp_config p) \<and> latest_slot (rp_config p) now s \<and> unserved p s)
    \<and> (due (p\<lparr>rp_last := Some s\<rparr>) later = (again, True) \<longrightarrow> inst s < inst again)"
proof -
  from assms have ok: "calendar_ok (rp_config p)" by (auto simp: validate_routine_meets)
  then have "calendar_ok (rp_config (p\<lparr>rp_last := Some s\<rparr>))" by simp
  from due_meets [OF ok, of now s] due_meets [OF this, of later again]
  show ?thesis by (auto simp: unserved_def)
qed

text \<open>
  C17. An enabled policy always has a next slot, and it is the first scheduled instant after now,
  the last change and the last served slot.
\<close>

theorem next_exact:
  assumes "validate_routine c = Inr (rp_config p)" "rc_enabled (rp_config p)"
  shows "\<exists>s. next_slot p now = Some s \<and> earliest_slot (rp_config p) (horizon p now) s"
  using assms by (intro next_meets) (auto simp: validate_routine_meets)

definition sample_policy :: routine_policy where
  "sample_policy = \<lparr>rp_config = \<lparr>rc_enabled = True, rc_action = ''pack'', rc_weekdays = [1, 4], rc_hour = 3,
     rc_minute = 30, rc_window = 60, rc_stop = True, rc_resume = True\<rparr>,
     rp_updated = zero_time, rp_last = None\<rparr>"

lemma sample_policy_valid: "validate_routine (rp_config sample_policy) = Inr (rp_config sample_policy)"
  by (simp add: validate_routine_def sample_policy_def)

theorem due_exact_witness:
  "due sample_policy \<lparr>inst = 10 * day_ns, meta = 0\<rparr> = (slot_on (rp_config sample_policy) 7, True)
     \<and> latest_slot (rp_config sample_policy) \<lparr>inst = 10 * day_ns, meta = 0\<rparr> (slot_on (rp_config sample_policy) 7)"
proof -
  have "due sample_policy \<lparr>inst = 10 * day_ns, meta = 0\<rparr> = (slot_on (rp_config sample_policy) 7, True)"
    by code_simp
  then show ?thesis
    using due_exact [OF sample_policy_valid, of "\<lparr>inst = 10 * day_ns, meta = 0\<rparr>"
        "slot_on (rp_config sample_policy) 7" zero_time zero_time] by blast
qed

theorem next_exact_witness:
  "\<exists>s. next_slot sample_policy zero_time = Some s
     \<and> earliest_slot (rp_config sample_policy) (horizon sample_policy zero_time) s"
  by (rule next_exact [OF sample_policy_valid]) (simp add: sample_policy_def)

end
