(* ===== verification/PierStore.thy ===== *)
theory PierStore
  imports GoText
begin

text \<open>
  \<open>internal/pierstore/layout.go\<close>: the paths of the operator-facing pier tree. A path names
  a pier below the default root, or below an additional root with the prefix \<open>@root/\<close>
  (\<open>Split\<close>, \<open>Qualify\<close>); \<open>Kind\<close> and \<open>ValidPath\<close> say which paths name a pier, \<open>Overlap\<close> when one
  tree contains the other, and \<open>SameObject\<close> compares two observations of a directory.
\<close>

section \<open>The code\<close>

definition component_char :: "char \<Rightarrow> bool" where
  "component_char c \<longleftrightarrow> is_alnum c \<or> c = CHR ''_'' \<or> c = CHR ''-''"

text \<open>\<open>^[A-Za-z0-9][A-Za-z0-9_-]{0,63}$\<close>\<close>

definition is_component :: "string \<Rightarrow> bool" where
  "is_component s \<longleftrightarrow> (case s of [] \<Rightarrow> False
     | c # cs \<Rightarrow> is_alnum c \<and> length cs \<le> 63 \<and> list_all component_char cs)"

text \<open>\<open>strings.Cut(s, "/")\<close>\<close>

fun cut_slash :: "string \<Rightarrow> string \<times> string \<times> bool" where
  "cut_slash [] = ([], [], False)"
| "cut_slash (c # cs) =
     (if c = CHR ''/'' then ([], cs, True)
      else case cut_slash cs of (a, b, ok) \<Rightarrow> (c # a, b, ok))"

definition split_path :: "string \<Rightarrow> string \<times> string" where
  "split_path p =
     (if has_prefix p ''@'' then
        (case cut_slash (drop 1 p) of (i, relative, ok) \<Rightarrow>
           if \<not> ok \<or> i = '''' then (''!'', '''') else (i, relative))
      else ('''', p))"

definition relative_path :: "string \<Rightarrow> string" where
  "relative_path p = snd (split_path p)"

definition qualify :: "string \<Rightarrow> string \<Rightarrow> string" where
  "qualify i relative =
     (if i = '''' \<or> i = ''default'' then relative else ''@'' @ i @ ''/'' @ relative)"

definition kind_table :: "(string \<times> string) list" where
  "kind_table = [(''galaxies'', ''galaxy''), (''stars'', ''star''), (''planets'', ''planet''),
     (''moons'', ''moon''), (''comets'', ''comet'')]"

definition kind_relative :: "string \<Rightarrow> string" where
  "kind_relative relative =
     (let p = split_on CHR ''/'' relative
      in if length p < 2 \<or> length p > 8 \<or> path_clean relative \<noteq> relative then ''''
         else if \<not> list_all is_component p then ''''
         else if p ! 0 = ''fakeships'' then ''fake''
         else if length p < 3 \<or> p ! 0 \<noteq> ''livenet'' then ''''
         else lookup_str kind_table (p ! 1))"

definition pier_kind :: "string \<Rightarrow> string" where
  "pier_kind path =
     (case split_path path of (i, relative) \<Rightarrow>
        if i \<noteq> '''' \<and> (\<not> is_component i \<or> i = ''default'') then '''' else kind_relative relative)"

definition mount_path :: "string \<Rightarrow> string" where
  "mount_path relative = path_dir relative"

definition valid_path :: "string \<Rightarrow> bool" where
  "valid_path path =
     (case split_path path of (root, relative) \<Rightarrow>
        (root = '''' \<or> is_component root \<and> root \<noteq> ''default'') \<and> length relative \<le> 384
        \<and> path_clean relative = relative \<and> kind_relative relative \<noteq> ''''
        \<and> kind_relative (mount_path relative) \<noteq> '''' \<and> length (split_on CHR ''/'' relative) \<le> 8)"

definition overlap :: "string \<Rightarrow> string \<Rightarrow> bool" where
  "overlap a b \<longleftrightarrow> a = b \<or> has_prefix a (b @ ''/'') \<or> has_prefix b (a @ ''/'')"

definition inert_docked_file :: "string \<Rightarrow> bool" where
  "inert_docked_file relative \<longleftrightarrow>
     relative = ''.run'' \<or> has_prefix relative ''.bin/'' \<and> path_clean relative = relative"

record directory_identity =
  di_device :: u64
  di_inode :: u64
  di_birth :: string

record pier_identity =
  pi_device :: u64
  pi_inode :: u64
  pi_urb_device :: u64
  pi_urb_inode :: u64
  pi_birth :: string
  pi_urb_birth :: string

definition same_directory :: "directory_identity \<Rightarrow> directory_identity \<Rightarrow> bool" where
  "same_directory d e =
     (if di_birth d = '''' \<or> di_birth e = '''' then d = e
      else di_inode d = di_inode e \<and> di_birth d = di_birth e)"

definition same_pier :: "pier_identity \<Rightarrow> pier_identity \<Rightarrow> bool" where
  "same_pier i j =
     (if pi_birth i = '''' \<or> pi_birth j = '''' \<or> pi_urb_birth i = '''' \<or> pi_urb_birth j = '''' then i = j
      else pi_inode i = pi_inode j \<and> pi_birth i = pi_birth j \<and> pi_urb_inode i = pi_urb_inode j
           \<and> pi_urb_birth i = pi_urb_birth j)"

record location =
  lo_path :: string
  lo_identity :: pier_identity
  lo_mount :: directory_identity
  lo_uncertain :: bool

text \<open>The zero values, of a directory that was not looked at.\<close>

definition no_directory :: directory_identity where
  "no_directory = \<lparr>di_device = 0, di_inode = 0, di_birth = ''''\<rparr>"

definition no_pier :: pier_identity where
  "no_pier = \<lparr>pi_device = 0, pi_inode = 0, pi_urb_device = 0, pi_urb_inode = 0, pi_birth = '''',
     pi_urb_birth = ''''\<rparr>"

section \<open>Words of a path\<close>

lemma component_no_slash: "is_component w \<Longrightarrow> CHR ''/'' \<notin> set w"
  by (auto simp: is_component_def component_char_def is_alnum_def is_lower_def is_upper_def is_digit_def
      char_in_def list_all_iff split: list.splits)

lemma component_plain:
  "is_component w \<Longrightarrow> w \<noteq> '''' \<and> w \<noteq> ''.'' \<and> w \<noteq> ''..'' \<and> hd w \<noteq> CHR ''/'' \<and> hd w \<noteq> CHR ''@''"
  by (auto simp: is_component_def is_alnum_def is_lower_def is_upper_def is_digit_def
      char_in_def less_eq_char_def split: list.splits)

lemma split_join:
  "ws \<noteq> [] \<Longrightarrow> list_all is_component ws \<Longrightarrow> split_on CHR ''/'' (join_with CHR ''/'' ws) = ws"
  by (induction "CHR ''/''" ws rule: join_with.induct)
     (auto simp: split_on_append split_on_no_sep component_no_slash)

lemma clean_words:
  "list_all is_component ws \<Longrightarrow> foldl (clean_step rooted) out ws = out @ ws"
  by (induction ws arbitrary: out) (auto dest: component_plain)

lemma hd_join: "ws \<noteq> [] \<Longrightarrow> list_all is_component ws \<Longrightarrow> hd (join_with c ws) = hd (hd ws) \<and> join_with c ws \<noteq> []"
  by (induction c ws rule: join_with.induct) (auto dest: component_plain)

lemma clean_join:
  assumes "ws \<noteq> []" "list_all is_component ws"
  shows "path_clean (join_with CHR ''/'' ws) = join_with CHR ''/'' ws"
proof -
  have "hd (join_with CHR ''/'' ws) \<noteq> CHR ''/''" "join_with CHR ''/'' ws \<noteq> []"
    using hd_join [OF assms, of "CHR ''/''"] assms component_plain [of "hd ws"] by (auto simp: list_all_iff)
  then show ?thesis
    by (simp add: path_clean_def split_join [OF assms] clean_words [OF assms(2)] Let_def del: clean_step.simps)
qed

lemma kind_of_words:
  assumes "ws \<noteq> []" "list_all is_component ws"
  shows "kind_relative (join_with CHR ''/'' ws) =
    (if length ws < 2 \<or> length ws > 8 then '''' else if ws ! 0 = ''fakeships'' then ''fake''
     else if length ws < 3 \<or> ws ! 0 \<noteq> ''livenet'' then '''' else lookup_str kind_table (ws ! 1))"
  by (simp add: kind_relative_def split_join [OF assms] clean_join [OF assms] assms(2) Let_def)

lemma kind_has_words:
  "kind_relative p \<noteq> '''' \<Longrightarrow> \<exists>ws. p = join_with CHR ''/'' ws \<and> ws \<noteq> [] \<and> list_all is_component ws"
  by (rule exI [of _ "split_on CHR ''/'' p"]) (auto simp: kind_relative_def Let_def split: if_splits)

lemma join_trailing: "vs \<noteq> [] \<Longrightarrow> join_with CHR ''/'' (vs @ ['''']) = join_with CHR ''/'' vs @ ''/''"
  by (induction "CHR ''/''" vs rule: join_with.induct) auto

lemma split_trailing:
  "vs \<noteq> [] \<Longrightarrow> list_all is_component vs \<Longrightarrow> split_on CHR ''/'' (join_with CHR ''/'' vs @ ''/'') = vs @ ['''']"
  by (induction "CHR ''/''" vs rule: join_with.induct)
     (auto simp: split_on_append split_on_no_sep component_no_slash)

lemma clean_trailing:
  assumes "vs \<noteq> []" "list_all is_component vs"
  shows "path_clean (join_with CHR ''/'' vs @ ''/'') = join_with CHR ''/'' vs"
proof -
  have "hd vs \<in> set vs" using assms(1) by simp
  with assms(2) have "hd (hd vs) \<noteq> CHR ''/''" by (auto simp: list_all_iff dest!: component_plain)
  then show ?thesis using hd_join [OF assms, of "CHR ''/''"]
    by (simp add: path_clean_def split_trailing [OF assms] clean_words [OF assms(2)] Let_def)
qed

lemma mount_of_words:
  assumes "2 \<le> length ws" "list_all is_component ws"
  shows "mount_path (join_with CHR ''/'' ws) = join_with CHR ''/'' (butlast ws)"
proof -
  have b: "butlast ws \<noteq> []" "list_all is_component (butlast ws)" "ws \<noteq> []"
    using assms by (auto simp: list_all_iff dest: in_set_butlastD simp flip: length_0_conv)
  then show ?thesis
    by (simp add: mount_path_def path_dir_def split_join [OF b(3) assms(2)] join_trailing clean_trailing)
qed

section \<open>Which paths name a pier\<close>

text \<open>
  The words below a root that may name a pier: between three and eight components (four for
  a live ship), under \<open>fakeships\<close> or one of the five live categories.
\<close>

definition pier_words :: "string list \<Rightarrow> bool" where
  "pier_words ws \<longleftrightarrow> list_all is_component ws \<and> length ws \<le> 8
     \<and> (3 \<le> length ws \<and> ws ! 0 = ''fakeships''
        \<or> 4 \<le> length ws \<and> ws ! 0 = ''livenet'' \<and> ws ! 1 \<in> fst ` set kind_table)"

definition pier_root :: "string \<Rightarrow> bool" where
  "pier_root root \<longleftrightarrow> root = '''' \<or> is_component root \<and> root \<noteq> ''default''"

lemma lookup_kind: "lookup_str kind_table k \<noteq> '''' \<longleftrightarrow> k \<in> fst ` set kind_table"
  by (auto simp: lookup_str_def kind_table_def)

lemma valid_relative:
  "path_clean r = r \<and> kind_relative r \<noteq> '''' \<and> kind_relative (mount_path r) \<noteq> '''' \<and> length (split_on CHR ''/'' r) \<le> 8
     \<longleftrightarrow> (\<exists>ws. r = join_with CHR ''/'' ws \<and> pier_words ws)"
proof
  assume l: "path_clean r = r \<and> kind_relative r \<noteq> '''' \<and> kind_relative (mount_path r) \<noteq> ''''
    \<and> length (split_on CHR ''/'' r) \<le> 8"
  then obtain ws where ws: "r = join_with CHR ''/'' ws" "ws \<noteq> []" "list_all is_component ws"
    using kind_has_words by blast
  have two: "2 \<le> length ws" using l unfolding ws(1) kind_of_words [OF ws(2,3)] by (auto split: if_splits)
  have b: "butlast ws \<noteq> []" "list_all is_component (butlast ws)"
    using ws two by (auto simp: list_all_iff dest: in_set_butlastD simp flip: length_0_conv)
  from l two have "pier_words ws"
    unfolding ws(1) kind_of_words [OF ws(2,3)] mount_of_words [OF two ws(3)] kind_of_words [OF b] pier_words_def
    using ws(3) by (auto simp: nth_butlast lookup_kind split: if_splits)
  with ws(1) show "\<exists>ws. r = join_with CHR ''/'' ws \<and> pier_words ws" by blast
next
  assume "\<exists>ws. r = join_with CHR ''/'' ws \<and> pier_words ws"
  then obtain ws where r: "r = join_with CHR ''/'' ws" and w: "pier_words ws" by blast
  then have ws: "ws \<noteq> []" "list_all is_component ws" and two: "2 \<le> length ws"
    by (auto simp: pier_words_def)
  have b: "butlast ws \<noteq> []" "list_all is_component (butlast ws)"
    using ws two by (auto simp: list_all_iff dest: in_set_butlastD simp flip: length_0_conv)
  from w show "path_clean r = r \<and> kind_relative r \<noteq> '''' \<and> kind_relative (mount_path r) \<noteq> ''''
    \<and> length (split_on CHR ''/'' r) \<le> 8"
    unfolding r clean_join [OF ws] kind_of_words [OF ws] mount_of_words [OF two ws(2)] kind_of_words [OF b]
      split_join [OF ws] pier_words_def
    by (auto simp: nth_butlast lookup_kind)
qed

lemma qualified_split:
  assumes "pier_root root" "pier_words ws"
  shows "split_path (qualify root (join_with CHR ''/'' ws)) = (root, join_with CHR ''/'' ws)"
proof -
  have cut: "CHR ''/'' \<notin> set u \<Longrightarrow> cut_slash (u @ CHR ''/'' # v) = (u, v, True)" for u v
    by (induction u) auto
  have ws: "ws \<noteq> []" "list_all is_component ws" using assms(2) by (auto simp: pier_words_def)
  have "hd (join_with CHR ''/'' ws) \<noteq> CHR ''@''"
    using hd_join [OF ws, of "CHR ''/''"] ws component_plain [of "hd ws"] by (auto simp: list_all_iff)
  then have "\<not> has_prefix (join_with CHR ''/'' ws) ''@''" by (auto simp: has_prefix_iff)
  with assms(1) show ?thesis
    by (auto simp: pier_root_def qualify_def split_path_def has_prefix_def cut component_no_slash dest: component_plain)
qed

lemma split_inverse:
  assumes "split_path p = (root, r)" "root \<noteq> ''!''" "pier_root root"
  shows "p = qualify root r"
proof -
  have cut: "cut_slash s = (a, b, True) \<Longrightarrow> s = a @ CHR ''/'' # b" for s a b
    by (induction s arbitrary: a) (auto split: if_splits prod.splits)
  show ?thesis
    using assms by (auto simp: split_path_def qualify_def pier_root_def has_prefix_iff dest!: cut
        split: if_splits prod.splits)
qed

text \<open>
  C18. A path is accepted as a managed pier exactly when it is built by qualifying a valid root
  with the words of a pier, in the length limit; and reading it back gives that root and those words.
\<close>

theorem valid_path_exact:
  "valid_path p \<longleftrightarrow> (\<exists>root ws. p = qualify root (join_with CHR ''/'' ws) \<and> pier_root root \<and> pier_words ws
     \<and> length (join_with CHR ''/'' ws) \<le> 384 \<and> split_path p = (root, join_with CHR ''/'' ws))"
proof
  assume l: "valid_path p"
  obtain root r where s: "split_path p = (root, r)" by fastforce
  with l have v: "pier_root root" "length r \<le> 384"
      "path_clean r = r \<and> kind_relative r \<noteq> '''' \<and> kind_relative (mount_path r) \<noteq> ''''
       \<and> length (split_on CHR ''/'' r) \<le> 8"
    by (auto simp: valid_path_def pier_root_def)
  from v(3) obtain ws where ws: "r = join_with CHR ''/'' ws" "pier_words ws" unfolding valid_relative by blast
  have "root \<noteq> ''!''" using v(1) by (auto simp: pier_root_def is_component_def is_alnum_def is_lower_def
      is_upper_def is_digit_def char_in_def less_eq_char_def)
  from split_inverse [OF s this v(1)] v ws s
  show "\<exists>root ws. p = qualify root (join_with CHR ''/'' ws) \<and> pier_root root \<and> pier_words ws
     \<and> length (join_with CHR ''/'' ws) \<le> 384 \<and> split_path p = (root, join_with CHR ''/'' ws)" by blast
next
  assume "\<exists>root ws. p = qualify root (join_with CHR ''/'' ws) \<and> pier_root root \<and> pier_words ws
     \<and> length (join_with CHR ''/'' ws) \<le> 384 \<and> split_path p = (root, join_with CHR ''/'' ws)"
  then obtain root ws where w: "pier_root root" "pier_words ws" "length (join_with CHR ''/'' ws) \<le> 384"
    "split_path p = (root, join_with CHR ''/'' ws)" by blast
  then show "valid_path p"
    using valid_relative [of "join_with CHR ''/'' ws"] by (auto simp: valid_path_def pier_root_def)
qed

section \<open>Overlapping trees\<close>

lemma join_append:
  "ws \<noteq> [] \<Longrightarrow> vs \<noteq> [] \<Longrightarrow> join_with c (ws @ vs) = join_with c ws @ c # join_with c vs"
proof (induction c ws rule: join_with.induct)
  case (2 c w)
  then show ?case by (cases vs) auto
qed auto

lemma prefix_words:
  assumes "ws \<noteq> []" "list_all is_component ws" "vs \<noteq> []" "list_all is_component vs"
  shows "has_prefix (join_with CHR ''/'' ws) (join_with CHR ''/'' vs @ ''/'') \<longleftrightarrow>
    (\<exists>us. us \<noteq> [] \<and> ws = vs @ us)"
proof
  assume "has_prefix (join_with CHR ''/'' ws) (join_with CHR ''/'' vs @ ''/'')"
  then obtain t where "join_with CHR ''/'' ws = join_with CHR ''/'' vs @ CHR ''/'' # t"
    unfolding has_prefix_iff by auto
  moreover have "split_on CHR ''/'' (join_with CHR ''/'' vs @ CHR ''/'' # t) = vs @ split_on CHR ''/'' t"
    using assms(3,4) by (induction "CHR ''/''" vs rule: join_with.induct)
      (auto simp: split_on_append component_no_slash)
  ultimately have "ws = vs @ split_on CHR ''/'' t" using split_join [OF assms(1,2)] by simp
  then show "\<exists>us. us \<noteq> [] \<and> ws = vs @ us" by (metis split_on_not_Nil)
next
  assume "\<exists>us. us \<noteq> [] \<and> ws = vs @ us"
  then show "has_prefix (join_with CHR ''/'' ws) (join_with CHR ''/'' vs @ ''/'')"
    using assms(3) by (auto simp: join_append has_prefix_iff)
qed

text \<open>
  C19. Two pier trees overlap exactly when the words of one are a prefix of the words of the other:
  names that merely start alike do not overlap.
\<close>

theorem overlap_exact:
  assumes "pier_words ws" "pier_words vs"
  shows "overlap (join_with CHR ''/'' ws) (join_with CHR ''/'' vs) \<longleftrightarrow>
    take (length vs) ws = vs \<or> take (length ws) vs = ws"
proof -
  have w: "ws \<noteq> []" "list_all is_component ws" and v: "vs \<noteq> []" "list_all is_component vs"
    using assms by (auto simp: pier_words_def)
  have inj: "join_with CHR ''/'' ws = join_with CHR ''/'' vs \<longleftrightarrow> ws = vs"
    using split_join [OF w] split_join [OF v] by metis
  have pre: "take (length b) a = b \<longleftrightarrow> a = b \<or> (\<exists>us. us \<noteq> [] \<and> a = b @ us)" for a b :: "string list"
    by (metis append_eq_conv_conj append_Nil2 append_take_drop_id)
  show ?thesis unfolding overlap_def inj prefix_words [OF w v] prefix_words [OF v w] pre by blast
qed

theorem overlap_exact_witness:
  "overlap (join_with CHR ''/'' [''fakeships'', ''zod'', ''pier'']) (join_with CHR ''/'' [''fakeships'', ''zod'', ''pier-2'']) = False"
  using overlap_exact [of "[''fakeships'', ''zod'', ''pier'']" "[''fakeships'', ''zod'', ''pier-2'']"]
  by (simp add: pier_words_def is_component_def component_char_def is_alnum_def is_lower_def is_upper_def
      is_digit_def char_in_def less_eq_char_def)

section \<open>Directory objects across reboots\<close>

text \<open>
  The comparison of pier observations ignores device numbers as soon as both carry birth
  times and falls back to full equality otherwise.
\<close>

lemma same_pier_sym: "same_pier i j = same_pier j i"
  by (auto simp: same_pier_def)

lemma same_pier_refl [simp]: "same_pier i i"
  by (simp add: same_pier_def)

lemma same_pier_inode: "same_pier i j \<Longrightarrow> pi_inode i = pi_inode j \<and> pi_birth i = pi_birth j"
  by (auto simp: same_pier_def split: if_splits)

end
