(* ===== verification/PierMeta.thy ===== *)
theory PierMeta
  imports ShipName
begin

text \<open>
  \<open>internal/piermeta/lmdb.go\<close>: the bounded reader of a stopped pier's public identity. The
  file is an \<open>io.ReaderAt\<close>, a parameter: \<open>rd off n\<close> reads \<open>n\<close> bytes at \<open>off\<close> from the world, \<open>None\<close>
  for an error; the file may change between two reads. Offsets and sizes are naturals: the
  code's checks keep every product below the file size, an \<open>int64\<close>.
\<close>

section \<open>The code\<close>

record meta_identity =
  mi_ship :: string
  mi_network :: string
  mi_kind :: string

type_synonym 'w reader = "nat \<Rightarrow> nat \<Rightarrow> 'w \<Rightarrow> u8 list option \<times> 'w"

definition meta_invalid :: gerr where
  "meta_invalid = Err ''unsupported or inconsistent Vere identity metadata; source was not changed''"

text \<open>\<open>binary.LittleEndian.Uint16/32/64(data[i:])\<close>\<close>

definition le_at :: "nat \<Rightarrow> nat \<Rightarrow> u8 list \<Rightarrow> nat" where
  "le_at n i data = le_nat (take n (drop i data))"

abbreviation le16 :: "nat \<Rightarrow> u8 list \<Rightarrow> nat" where "le16 \<equiv> le_at 2"
abbreviation le32 :: "nat \<Rightarrow> u8 list \<Rightarrow> nat" where "le32 \<equiv> le_at 4"
abbreviation le64 :: "nat \<Rightarrow> u8 list \<Rightarrow> nat" where "le64 \<equiv> le_at 8"

definition bytes_string :: "u8 list \<Rightarrow> string" where
  "bytes_string bs = map (char_of \<circ> unat) bs"

definition valid_meta :: "nat \<Rightarrow> u8 list \<Rightarrow> nat \<Rightarrow> bool" where
  "valid_meta page_size data page \<longleftrightarrow> le64 0 data = page \<and> le16 10 data = 8
     \<and> le32 16 data = 0xbeefc0de \<and> le32 20 data = 1 \<and> le32 40 data = page_size"

text \<open>
  The loop over the nodes of one page, at the given node indices. A page is refused, holds
  the key (its data and flags), or leaves the page number to continue with (0 for none).
\<close>

datatype page_result = Refused | Held "u8 list" nat | Continue nat

fun scan_nodes :: "u8 list \<Rightarrow> nat \<Rightarrow> nat \<Rightarrow> string \<Rightarrow> nat list \<Rightarrow> string \<Rightarrow> nat \<Rightarrow> page_result" where
  "scan_nodes page flags upper key [] previous next = Continue next"
| "scan_nodes page flags upper key (index # is) previous next =
     (let offset = le16 index page
      in if offset < upper \<or> offset > length page - 8 then Refused
      else let node = drop offset page; len = le16 6 node
      in if len > length node - 8 then Refused
      else let name = bytes_string (take len (drop 8 node))
      in if index > 16 \<and> name \<le> previous then Refused
      else let data_size = le32 0 node; node_flags = le16 4 node
      in if flags = 1 then
           (if index = 16 \<and> name \<noteq> '''' then Refused
            else scan_nodes page flags upper key is name
              (if name \<le> key then data_size + node_flags * 2 ^ 32 else next))
         else if name = key then
           (if data_size > 48 \<or> data_size > length node - 8 - len \<or> (node_flags \<noteq> 0 \<and> node_flags \<noteq> 2)
            then Refused else Held (take data_size (drop (8 + len) node)) node_flags)
         else scan_nodes page flags upper key is name next)"

definition page_indices :: "nat \<Rightarrow> nat list" where
  "page_indices lower = map (\<lambda>k. 16 + 2 * k) [0..<(lower - 15) div 2]"

text \<open>
  \<open>lookup\<close>: at most 16 levels below \<open>root\<close>; \<open>reads\<close> counts the pages read by the whole run. The
  value found with its flags, if any, and the new count.
\<close>

fun lookup_key ::
  "'w reader \<Rightarrow> nat \<Rightarrow> nat \<Rightarrow> string \<Rightarrow> nat \<Rightarrow> nat list \<Rightarrow> nat \<Rightarrow> nat \<Rightarrow> 'w
     \<Rightarrow> ((u8 list \<times> nat) option \<times> nat) \<times> 'w" where
  "lookup_key rd page_size last_page key 0 seen reads root w = ((None, reads), w)"
| "lookup_key rd page_size last_page key (Suc depth) seen reads root w =
     (let reads = reads + 1
      in if reads > 64 \<or> root < 2 \<or> root > last_page \<or> root \<in> set seen then ((None, reads), w)
      else case rd (root * page_size) page_size w of
        (None, w) \<Rightarrow> ((None, reads), w)
      | (Some page, w) \<Rightarrow>
          if le64 0 page \<noteq> root then ((None, reads), w)
          else let flags = le16 10 page; lower = le16 12 page; upper = le16 14 page
          in if (flags \<noteq> 1 \<and> flags \<noteq> 2) \<or> lower < 18 \<or> lower mod 2 \<noteq> 0 \<or> lower > upper \<or> upper > page_size
             then ((None, reads), w)
          else (case scan_nodes page flags upper key (page_indices lower) '''' 0 of
                  Refused \<Rightarrow> ((None, reads), w)
                | Held data node_flags \<Rightarrow> ((Some (data, node_flags), reads), w)
                | Continue next \<Rightarrow>
                    if flags = 2 \<or> next = 0 then ((None, reads), w)
                    else lookup_key rd page_size last_page key depth (root # seen) reads next w))"

text \<open>The loop over the three keys below the \<open>META\<close> root.\<close>

fun lookup_values ::
  "'w reader \<Rightarrow> nat \<Rightarrow> nat \<Rightarrow> nat \<Rightarrow> nat \<Rightarrow> string list \<Rightarrow> 'w \<Rightarrow> u8 list list option \<times> 'w" where
  "lookup_values rd page_size last_page root reads [] w = (Some [], w)"
| "lookup_values rd page_size last_page root reads (k # ks) w =
     (case lookup_key rd page_size last_page k 16 [] reads root w of
        ((None, reads), w) \<Rightarrow> (None, w)
      | ((Some (v, flags), reads), w) \<Rightarrow>
          if flags \<noteq> 0 then (None, w)
          else (case lookup_values rd page_size last_page root reads ks w of
                  (None, w) \<Rightarrow> (None, w)
                | (Some vs, w) \<Rightarrow> (Some (v # vs), w)))"

text \<open>The two meta pages must read the same again.\<close>

fun unchanged :: "'w reader \<Rightarrow> (nat \<times> u8 list) list \<Rightarrow> 'w \<Rightarrow> bool \<times> 'w" where
  "unchanged rd [] w = (True, w)"
| "unchanged rd ((off, was) # ms) w =
     (case rd off (length was) w of
        (None, w) \<Rightarrow> (False, w)
      | (Some now, w) \<Rightarrow> if was \<noteq> now then (False, w) else unchanged rd ms w)"

definition identity_of_values :: "u8 list list \<Rightarrow> gerr + meta_identity" where
  "identity_of_values vs =
     (let version = vs ! 0; who = vs ! 1; fake = vs ! 2
      in if length version \<noteq> 1 then Inl meta_invalid
         else if version ! 0 \<noteq> 3 then Inl (Err (''unsupported Vere disk metadata version ''
           @ [hex_char (unat (version ! 0) div 16), hex_char (unat (version ! 0) mod 16)]
           @ ''; expected Vere 4.6 disk version 3''))
         else if length fake > 1 \<or> length fake = 1 \<and> fake ! 0 > 1 then Inl meta_invalid
         else case ship_from_atom who of
           Inl _ \<Rightarrow> Inl meta_invalid
         | Inr ship \<Rightarrow>
             Inr (if length fake = 0 \<or> fake ! 0 = 0
                  then \<lparr>mi_ship = ship, mi_network = ''fakenet'', mi_kind = ''fake''\<rparr>
                  else \<lparr>mi_ship = ship, mi_network = ''livenet'', mi_kind = ship_class ship\<rparr>))"

text \<open>
  The three stages of \<open>Read\<close>: both meta pages, the choice of the newer one, and the lookups
  below it with the final comparison.
\<close>

definition read_values ::
  "'w reader \<Rightarrow> nat \<Rightarrow> u8 list \<Rightarrow> u8 list \<Rightarrow> u8 list \<Rightarrow> 'w \<Rightarrow> (gerr + meta_identity) \<times> 'w" where
  "read_values rd page_size page0 page1 newest w =
     (let last_page = le64 136 newest
      in case lookup_key rd page_size last_page ''META'' 16 [] 0 (le64 128 newest) w of
        ((None, reads), w) \<Rightarrow> (Inl meta_invalid, w)
      | ((Some (db, flags), reads), w) \<Rightarrow>
          if flags \<noteq> 2 \<or> length db \<noteq> 48 \<or> le16 4 db \<noteq> 0 then (Inl meta_invalid, w)
          else (case lookup_values rd page_size last_page (le64 40 db) reads
                       [''version'', ''who'', ''fake''] w of
                  (None, w) \<Rightarrow> (Inl meta_invalid, w)
                | (Some vs, w) \<Rightarrow>
                    (case identity_of_values vs of
                       Inl e \<Rightarrow> (Inl e, w)
                     | Inr i \<Rightarrow>
                         (case unchanged rd [(0, page0), (page_size, page1)] w of
                            (False, w) \<Rightarrow> (Inl meta_invalid, w)
                          | (True, w) \<Rightarrow> (Inr i, w)))))"

definition read_pages ::
  "'w reader \<Rightarrow> int \<Rightarrow> nat \<Rightarrow> u8 list \<Rightarrow> u8 list \<Rightarrow> 'w \<Rightarrow> (gerr + meta_identity) \<times> 'w" where
  "read_pages rd file_size page_size page0 page1 w =
     (if \<not> valid_meta page_size page0 0 \<or> \<not> valid_meta page_size page1 1 then (Inl meta_invalid, w)
      else let newest = (if le64 144 page1 > le64 144 page0 then page1 else page0);
               last_page = le64 136 newest
      in if int last_page \<ge> file_size div int page_size \<or> last_page < 2 then (Inl meta_invalid, w)
      else if le16 92 newest \<noteq> 0 then (Inl meta_invalid, w)
      else read_values rd page_size page0 page1 newest w)"

definition read_meta :: "'w reader \<Rightarrow> int \<Rightarrow> 'w \<Rightarrow> (gerr + meta_identity) \<times> 'w" where
  "read_meta rd file_size w =
     (case rd 0 152 w of
        (None, w) \<Rightarrow> (Inl meta_invalid, w)
      | (Some page0, w) \<Rightarrow>
          let page_size = le32 40 page0
          in if page_size < 512 \<or> page_size > 32768 \<or> and page_size (page_size - 1) \<noteq> 0
                \<or> file_size < int (2 * page_size)
             then (Inl meta_invalid, w)
             else case rd page_size 152 w of
               (None, w) \<Rightarrow> (Inl meta_invalid, w)
             | (Some page1, w) \<Rightarrow> read_pages rd file_size page_size page0 page1 w)"

section \<open>What the reader asks of the file\<close>

text \<open>A reader that records every request, latest first.\<close>

definition logged :: "'w reader \<Rightarrow> ('w \<times> (nat \<times> nat) list) reader" where
  "logged rd off n wl = (case rd off n (fst wl) of (r, w) \<Rightarrow> (r, (w, (off, n) # snd wl)))"

definition inside :: "int \<Rightarrow> nat \<times> nat \<Rightarrow> bool" where
  "inside file_size req \<longleftrightarrow> int (fst req + snd req) \<le> file_size \<and> snd req \<le> 32768"

lemma logged_apply: "rd off n w = (q, w') \<Longrightarrow> logged rd off n (w, log) = (q, (w', (off, n) # log))"
  by (simp add: logged_def)

lemma div_mult_below: "0 < n \<Longrightarrow> bytes div int n * int n \<le> bytes"
  using minus_mod_eq_div_mult [of bytes "int n"] pos_mod_sign [of "int n" bytes] by linarith

lemma lookup_key_requests:
  assumes "lookup_key (logged rd) ps last_page key depth seen reads root (w, log) = ((r, reads'), (w', log'))"
    "int last_page < bytes div int ps" "0 < ps" "ps \<le> 32768"
  shows "\<exists>new. log' = new @ log \<and> list_all (inside bytes) new \<and> reads + length new \<le> max reads 64
    \<and> (r \<noteq> None \<longrightarrow> reads' = reads + length new)"
  using assms
proof (induction depth arbitrary: seen reads root w log r reads' w' log')
  case (Suc depth)
  let ?n = "reads + 1"
  show ?case
  proof (cases "?n > 64 \<or> root < 2 \<or> root > last_page \<or> root \<in> set seen")
    case True
    then have "lookup_key (logged rd) ps last_page key (Suc depth) seen reads root (w, log) = ((None, ?n), (w, log))"
      by (simp add: Let_def)
    with Suc.prems(1) have "r = None" "log' = log" by (simp_all del: lookup_key.simps)
    then show ?thesis by simp
  next
    case False
    obtain q w2 where q: "rd (root * ps) ps w = (q, w2)" by fastforce
    have "int (root + 1) * int ps \<le> bytes div int ps * int ps"
      using False Suc.prems(2,3) by (intro mult_right_mono) auto
    also have "\<dots> \<le> bytes" by (rule div_mult_below) (rule Suc.prems(3))
    finally have ins: "inside bytes (root * ps, ps)"
      using Suc.prems(4) by (simp add: inside_def distrib_right add.commute)
    show ?thesis
    proof (cases "\<exists>seen' next. lookup_key (logged rd) ps last_page key (Suc depth) seen reads root (w, log) =
        lookup_key (logged rd) ps last_page key depth seen' ?n next (w2, (root * ps, ps) # log)")
      case True
      with Suc.prems obtain seen' "next" where
        "lookup_key (logged rd) ps last_page key depth seen' ?n next (w2, (root * ps, ps) # log) = ((r, reads'), (w', log'))"
        by metis
      from Suc.IH [OF this Suc.prems(2-4)] obtain new where
        "log' = new @ (root * ps, ps) # log" "list_all (inside bytes) new" "?n + length new \<le> max ?n 64"
        "r \<noteq> None \<longrightarrow> reads' = ?n + length new" by blast
      with ins \<open>\<not> (?n > 64 \<or> _)\<close> show ?thesis by (intro exI [of _ "new @ [(root * ps, ps)]"]) auto
    next
      case no: False
      with False q have "\<exists>r. lookup_key (logged rd) ps last_page key (Suc depth) seen reads root (w, log) =
          ((r, ?n), (w2, (root * ps, ps) # log))"
        by (auto simp: Let_def logged_apply [of rd, OF q] split: option.splits page_result.splits) metis
      with Suc.prems(1) have "log' = [(root * ps, ps)] @ log" "reads' = ?n" by auto
      with ins False show ?thesis by (intro exI [of _ "[(root * ps, ps)]"]) auto
    qed
  qed
qed auto

lemma lookup_values_requests:
  assumes "lookup_values (logged rd) ps last_page root reads ks (w, log) = (r, (w', log'))" "reads \<le> 64"
    "int last_page < bytes div int ps" "0 < ps" "ps \<le> 32768"
  shows "\<exists>new. log' = new @ log \<and> list_all (inside bytes) new \<and> reads + length new \<le> 64"
  using assms(1,2)
proof (induction ks arbitrary: reads w log r w' log')
  case (Cons k ks)
  obtain o1 n1 w1 l1 where k: "lookup_key (logged rd) ps last_page k 16 [] reads root (w, log) = ((o1, n1), (w1, l1))"
    by (metis prod.exhaust)
  from lookup_key_requests [OF this assms(3-5)] Cons.prems(2) obtain new where
    new: "l1 = new @ log" "list_all (inside bytes) new" "reads + length new \<le> 64" "o1 \<noteq> None \<longrightarrow> n1 = reads + length new"
    by auto
  show ?case
  proof (cases "\<exists>v. o1 = Some (v, 0)")
    case True
    then obtain v where v: "o1 = Some (v, 0)" by blast
    obtain r2 w2 l2 where rest: "lookup_values (logged rd) ps last_page root n1 ks (w1, l1) = (r2, (w2, l2))"
      by (metis prod.exhaust)
    with new v have "n1 \<le> 64" by simp
    from Cons.IH [OF rest this] obtain new2 where
      "l2 = new2 @ l1" "list_all (inside bytes) new2" "n1 + length new2 \<le> 64" by blast
    moreover have "log' = l2" using Cons.prems(1) k v rest by (auto split: option.splits)
    ultimately show ?thesis using new v by (intro exI [of _ "new2 @ new"]) auto
  next
    case False
    then have "log' = l1" using Cons.prems(1) k by (auto split: option.splits if_splits)
    with new show ?thesis by auto
  qed
qed auto

lemma unchanged_requests:
  assumes "unchanged (logged rd) ms (w, log) = (r, (w', log'))"
    "list_all (\<lambda>(off, was). ok (off, length was)) ms"
  shows "\<exists>new. log' = new @ log \<and> list_all ok new \<and> length new \<le> length ms"
  using assms
proof (induction ms arbitrary: w log r w' log')
  case (Cons m ms)
  obtain off was where m: "m = (off, was)" by fastforce
  obtain q w2 where q: "rd off (length was) w = (q, w2)" by fastforce
  show ?case
  proof (cases "q = Some was")
    case True
    with Cons.prems m q have "unchanged (logged rd) ms (w2, (off, length was) # log) = (r, (w', log'))"
      by (simp add: logged_apply [of rd, OF q])
    from Cons.IH [OF this] Cons.prems(2) obtain new where
      "log' = new @ (off, length was) # log" "list_all ok new" "length new \<le> length ms" by auto
    with Cons.prems(2) m show ?thesis by (intro exI [of _ "new @ [(off, length was)]"]) auto
  next
    case False
    with Cons.prems m q have "log' = (off, length was) # log" by (auto simp: logged_apply [of rd, OF q] split: option.splits if_splits)
    with Cons.prems(2) m show ?thesis by (intro exI [of _ "[(off, length was)]"]) auto
  qed
qed auto

definition requests :: "int \<Rightarrow> nat \<Rightarrow> (nat \<times> nat) list \<Rightarrow> bool" where
  "requests bytes n log \<longleftrightarrow> (\<exists>new. log = new @ [(0, 152)] \<and> list_all (inside bytes) new \<and> length new \<le> n)"

lemma requests_more: "requests bytes n log \<Longrightarrow> list_all (inside bytes) new \<Longrightarrow> n + length new \<le> k \<Longrightarrow> requests bytes k (new @ log)"
  unfolding requests_def by fastforce

lemma requests_le: "requests bytes n log \<Longrightarrow> n \<le> k \<Longrightarrow> requests bytes k log"
  using requests_more [of bytes n log "[]" k] by simp

lemma read_values_requests:
  assumes run: "read_values (logged rd) ps page0 page1 newest (w, log) = (res, (w', log'))"
    and ps: "int (le64 136 newest) < bytes div int ps" "512 \<le> ps" "ps \<le> 32768" "int (2 * ps) \<le> bytes"
    and full: "length page0 = 152" "length page1 = 152"
  shows "\<exists>new. log' = new @ log \<and> list_all (inside bytes) new \<and> length new \<le> 66"
proof -
  have pos: "0 < ps" using ps by simp
  obtain o2 n2 w2 l2 where k: "lookup_key (logged rd) ps (le64 136 newest) ''META'' 16 [] 0 (le64 128 newest)
      (w, log) = ((o2, n2), (w2, l2))" by (metis prod.exhaust)
  from lookup_key_requests [OF k ps(1) pos ps(3)] obtain new where new: "l2 = new @ log"
    "list_all (inside bytes) new" "length new \<le> 64" "o2 \<noteq> None \<longrightarrow> n2 = length new" by auto
  show ?thesis
  proof (cases "\<exists>db. o2 = Some (db, 2) \<and> length db = 48 \<and> le16 4 db = 0")
    case False
    with run k have "log' = l2" by (auto simp: read_values_def Let_def split: option.splits if_splits)
    with new show ?thesis by auto
  next
    case True
    then obtain db where db: "o2 = Some (db, 2)" "length db = 48" "le16 4 db = 0" by blast
    obtain o3 w3 l3 where v: "lookup_values (logged rd) ps (le64 136 newest) (le64 40 db) n2
        [''version'', ''who'', ''fake''] (w2, l2) = (o3, (w3, l3))" by (metis prod.exhaust)
    from db new have n2: "n2 \<le> 64" "n2 = length new" by auto
    from lookup_values_requests [OF v n2(1) ps(1) pos ps(3)] obtain more where more: "l3 = more @ l2"
      "list_all (inside bytes) more" "n2 + length more \<le> 64" by blast
    obtain o4 w4 l4 where u: "unchanged (logged rd) [(0, page0), (ps, page1)] (w3, l3) = (o4, (w4, l4))"
      by (metis prod.exhaust)
    have ins: "inside bytes (0, 152)" "inside bytes (ps, 152)" using ps by (auto simp: inside_def)
    from unchanged_requests [OF u, of "inside bytes"] ins full obtain fin where fin: "l4 = fin @ l3"
      "list_all (inside bytes) fin" "length fin \<le> 2" by auto
    have "log' = l3 \<or> log' = l4"
      using run k db v u
      by (auto simp: read_values_def Let_def simp del: unchanged.simps lookup_values.simps lookup_key.simps
          split: option.splits sum.splits bool.splits)
    then show ?thesis
    proof
      assume "log' = l3"
      with new more n2 show ?thesis by (intro exI [of _ "more @ new"]) auto
    next
      assume "log' = l4"
      with new more n2 fin show ?thesis by (intro exI [of _ "fin @ more @ new"]) auto
    qed
  qed
qed

lemma read_pages_requests:
  assumes "read_pages (logged rd) bytes ps page0 page1 (w, log) = (res, (w', log'))"
    "512 \<le> ps" "ps \<le> 32768" "int (2 * ps) \<le> bytes" "length page0 = 152" "length page1 = 152"
  shows "\<exists>new. log' = new @ log \<and> list_all (inside bytes) new \<and> length new \<le> 66"
proof -
  define newest where "newest = (if le64 144 page1 > le64 144 page0 then page1 else page0)"
  show ?thesis
  proof (cases "int (le64 136 newest) < bytes div int ps
      \<and> read_values (logged rd) ps page0 page1 newest (w, log) = (res, (w', log'))")
    case True
    then show ?thesis by (intro read_values_requests [OF _ _ assms(2-6)]) blast+
  next
    case False
    moreover have "read_pages (logged rd) bytes ps page0 page1 (w, log) =
      (if \<not> valid_meta ps page0 0 \<or> \<not> valid_meta ps page1 1 then (Inl meta_invalid, (w, log))
       else if int (le64 136 newest) \<ge> bytes div int ps \<or> le64 136 newest < 2 then (Inl meta_invalid, (w, log))
       else if le16 92 newest \<noteq> 0 then (Inl meta_invalid, (w, log))
       else read_values (logged rd) ps page0 page1 newest (w, log))"
      unfolding read_pages_def Let_def newest_def by (rule refl)
    ultimately have "log' = log" using assms(1) by (auto simp: not_le split: if_split_asm)
    then show ?thesis by simp
  qed
qed

text \<open>
  The contract of \<open>io.ReaderAt\<close>: a read without an error returns as many bytes as were asked for.
\<close>

definition full_reads :: "'w reader \<Rightarrow> bool" where
  "full_reads rd \<longleftrightarrow> (\<forall>off n w. case rd off n w of (None, _) \<Rightarrow> True | (Some data, _) \<Rightarrow> length data = n)"

text \<open>
  C20. Whatever the file holds, even while it changes, the identity reader asks for at most 68
  pieces of it; all after the first header lie inside the file and hold at most 32 KiB.
\<close>

theorem read_meta_bounded:
  assumes "full_reads rd"
  shows "case read_meta (logged rd) bytes (w, []) of (_, (_, log)) \<Rightarrow>
     length log \<le> 68 \<and> last log = (0, 152) \<and> list_all (inside bytes) (butlast log)"
proof -
  have full: "length data = n" if "rd off n w = (Some data, w')" for off n w data w'
    using assms that unfolding full_reads_def by (metis (mono_tags, lifting) case_prod_conv option.simps(5))
  obtain q0 w0 where q0: "rd 0 152 w = (q0, w0)" by fastforce
  note l0 = logged_apply [of rd, OF q0, of "[]"]
  show ?thesis
  proof (cases "\<exists>page0. q0 = Some page0 \<and> 512 \<le> le32 40 page0 \<and> le32 40 page0 \<le> 32768
      \<and> int (2 * le32 40 page0) \<le> bytes \<and> and (le32 40 page0) (le32 40 page0 - 1) = 0")
    case False
    then show ?thesis using l0 by (cases q0) (auto simp: read_meta_def Let_def)
  next
    case True
    then obtain page0 ps where page0: "q0 = Some page0" and ps: "ps = le32 40 page0" "512 \<le> ps" "ps \<le> 32768"
      "int (2 * ps) \<le> bytes" "and ps (ps - 1) = 0" by auto
    obtain q1 w1 where q1: "rd ps 152 w0 = (q1, w1)" by fastforce
    note l1 = logged_apply [of rd, OF q1, of "[(0, 152)]"]
    have ins: "inside bytes (ps, 152)" using ps by (auto simp: inside_def)
    have eq: "read_meta (logged rd) bytes (w, []) = (case q1 of
        None \<Rightarrow> (Inl meta_invalid, (w1, [(ps, 152), (0, 152)]))
      | Some page1 \<Rightarrow> read_pages (logged rd) bytes ps page0 page1 (w1, [(ps, 152), (0, 152)]))"
      using l0 l1 page0 ps by (auto simp: read_meta_def Let_def split: option.splits)
    show ?thesis
    proof (cases q1)
      case None
      then show ?thesis using eq ins by simp
    next
      case (Some page1)
      obtain res w' log where run: "read_pages (logged rd) bytes ps page0 page1 (w1, [(ps, 152), (0, 152)]) =
        (res, (w', log))" by (metis prod.exhaust)
      from read_pages_requests [OF this ps(2-4) full [OF q0 [unfolded page0]] full [OF q1 [unfolded Some]]]
      obtain new where "log = (new @ [(ps, 152)]) @ [(0, 152)]" "list_all (inside bytes) new" "length new \<le> 66"
        by auto
      then show ?thesis using eq run Some ins by (simp add: butlast_append)
    qed
  qed
qed

definition empty_reader :: "unit reader" where
  "empty_reader off n w = (Some (replicate n 0), w)"

theorem read_meta_bounded_witness:
  "full_reads empty_reader \<and> (case read_meta (logged empty_reader) 4096 ((), []) of (_, (_, log)) \<Rightarrow> length log \<le> 68)"
proof -
  have f: "full_reads empty_reader" by (simp add: full_reads_def empty_reader_def)
  with read_meta_bounded [OF f, of 4096 "()"] show ?thesis by (auto split: prod.splits)
qed

lemma identity_of_values_sound:
  "identity_of_values vs = Inr i \<Longrightarrow> valid_fake_ship (mi_ship i)
     \<and> (mi_network i = ''fakenet'' \<and> mi_kind i = ''fake''
        \<or> mi_network i = ''livenet'' \<and> mi_kind i = ship_class (mi_ship i))"
  using ship_from_atom_valid [of "vs ! 1"]
  by (auto simp: identity_of_values_def Let_def split: if_splits sum.splits)

lemma read_values_found:
  "read_values rd ps page0 page1 newest w = (Inr i, w') \<Longrightarrow> \<exists>vs. identity_of_values vs = Inr i"
  by (auto simp: read_values_def Let_def simp del: lookup_values.simps unchanged.simps lookup_key.simps
      split: option.splits prod.splits sum.splits bool.splits if_splits)

lemma read_pages_found:
  "read_pages rd bytes ps page0 page1 w = (Inr i, w') \<Longrightarrow> \<exists>vs. identity_of_values vs = Inr i"
  by (auto simp: read_pages_def Let_def dest: read_values_found split: if_splits)

lemma read_meta_found: "read_meta rd bytes w = (Inr i, w') \<Longrightarrow> \<exists>vs. identity_of_values vs = Inr i"
  by (auto simp: read_meta_def Let_def dest: read_pages_found split: option.splits prod.splits if_splits)


end
