(* ===== verification/Membership.thy ===== *)
theory Membership
  imports GoText
begin

text \<open>
  \<open>internal/projectnetwork/membership.go\<close>: which containers share the network namespace of an
  anchor, directly or through other containers. Go's maps are read here as the checked
  inventory list; their iteration order does not matter, as the exact contract
  \<open>namespace_spec\<close> shows. The memoised search keeps its \<open>visiting\<close> marks as the list of calls in
  progress and gets fuel for one more call than there are containers, which always suffices.
\<close>

section \<open>The code\<close>

record net_container =
  nc_id :: string
  nc_name :: string
  nc_mode :: string

definition docker_name :: "string \<Rightarrow> bool" where
  "docker_name s \<longleftrightarrow> (case s of [] \<Rightarrow> False
     | c # cs \<Rightarrow> is_alnum c \<and> length cs \<le> 254
         \<and> list_all (\<lambda>d. is_alnum d \<or> d = CHR ''_'' \<or> d = CHR ''.'' \<or> d = CHR ''-'') cs)"

definition short_docker_id :: "string \<Rightarrow> bool" where
  "short_docker_id s \<longleftrightarrow> 1 \<le> length s \<and> length s \<le> 63 \<and> list_all is_lower_hex s"

definition container_name :: "net_container \<Rightarrow> string" where
  "container_name v = trim_prefix (nc_name v) ''/''"

fun inventory_ok :: "string list \<Rightarrow> string list \<Rightarrow> net_container list \<Rightarrow> bool" where
  "inventory_ok by_id by_name [] = True"
| "inventory_ok by_id by_name (v # vs) =
     (\<not> (\<not> hex_string 64 (nc_id v) \<or> \<not> docker_name (container_name v) \<or> nc_mode v = ''''
         \<or> length (nc_mode v) > 512 \<or> any_rune (\<lambda>r. is_control r \<or> is_space r) (nc_mode v))
      \<and> nc_id v \<notin> set by_id \<and> container_name v \<notin> set by_name
      \<and> inventory_ok (nc_id v # by_id) (container_name v # by_name) vs)"

definition resolve_ref :: "net_container list \<Rightarrow> string \<Rightarrow> string option" where
  "resolve_ref ivs ref =
     (let matches = remdups
        ((if ref \<in> set (map nc_id ivs) then [ref] else [])
         @ (case find (\<lambda>v. container_name v = ref) ivs of Some v \<Rightarrow> [nc_id v] | None \<Rightarrow> [])
         @ (if short_docker_id ref then filter (\<lambda>i. has_prefix i ref) (map nc_id ivs) else []))
      in case matches of [i] \<Rightarrow> Some i | _ \<Rightarrow> None)"

fun link_parents :: "net_container list \<Rightarrow> net_container list \<Rightarrow> (string \<rightharpoonup> string) option" where
  "link_parents ivs [] = Some Map.empty"
| "link_parents ivs (v # vs) =
     (case cut_prefix (nc_mode v) ''container:'' of (ref, shared) \<Rightarrow>
        if shared then
          (case resolve_ref ivs ref of
             None \<Rightarrow> None
           | Some p \<Rightarrow> map_option (\<lambda>m. m(nc_id v \<mapsto> p)) (link_parents ivs vs))
        else link_parents ivs vs)"

fun root_of ::
  "(string \<rightharpoonup> string) \<Rightarrow> nat \<Rightarrow> string list \<Rightarrow> (string \<rightharpoonup> string) \<Rightarrow> string
     \<Rightarrow> (string \<times> (string \<rightharpoonup> string)) option" where
  "root_of par 0 visiting roots i = None"
| "root_of par (Suc n) visiting roots i =
     (case roots i of
        Some v \<Rightarrow> Some (v, roots)
      | None \<Rightarrow>
          if i \<in> set visiting then None
          else case par i of
            None \<Rightarrow> Some (i, roots(i \<mapsto> i))
          | Some p \<Rightarrow>
              (case root_of par n (i # visiting) roots p of
                 None \<Rightarrow> None
               | Some (v, roots') \<Rightarrow> Some (v, roots'(i \<mapsto> v))))"

fun collect_members ::
  "(string \<rightharpoonup> string) \<Rightarrow> nat \<Rightarrow> string \<Rightarrow> (string \<rightharpoonup> string) \<Rightarrow> string list \<Rightarrow> string list option" where
  "collect_members par n anchor roots [] = Some []"
| "collect_members par n anchor roots (i # is) =
     (case root_of par n [] roots i of
        None \<Rightarrow> None
      | Some (v, roots') \<Rightarrow>
          map_option (\<lambda>ms. if i \<noteq> anchor \<and> v = anchor then i # ms else ms)
            (collect_members par n anchor roots' is))"

definition namespace_members :: "string \<Rightarrow> net_container list \<Rightarrow> gerr + string list" where
  "namespace_members anchor ivs =
     (let refuse = Inl (Err ''container namespace inventory is incomplete or ambiguous'')
      in if \<not> hex_string 64 anchor then refuse
      else if \<not> inventory_ok [] [] ivs then refuse
      else case find (\<lambda>v. nc_id v = anchor) ivs of
        None \<Rightarrow> refuse
      | Some a \<Rightarrow>
          if has_prefix (nc_mode a) ''container:'' then refuse
          else case link_parents ivs ivs of
            None \<Rightarrow> refuse
          | Some par \<Rightarrow>
              (case collect_members par (Suc (length ivs)) anchor Map.empty (map nc_id ivs) of
                 None \<Rightarrow> refuse
               | Some ms \<Rightarrow> Inr (sort ms)))"

section \<open>The contract\<close>

definition container_ok :: "net_container \<Rightarrow> bool" where
  "container_ok v \<longleftrightarrow> hex_string 64 (nc_id v) \<and> docker_name (container_name v) \<and> nc_mode v \<noteq> ''''
     \<and> length (nc_mode v) \<le> 512 \<and> \<not> any_rune (\<lambda>r. is_control r \<or> is_space r) (nc_mode v)"

text \<open>What a \<open>container:\<close> reference may mean: a whole id, a name, or the prefix of an id.\<close>

definition refers :: "net_container list \<Rightarrow> string \<Rightarrow> string \<Rightarrow> bool" where
  "refers ivs ref i \<longleftrightarrow> (\<exists>v \<in> set ivs. nc_id v = i \<and>
     (ref = i \<or> container_name v = ref \<or> short_docker_id ref \<and> has_prefix i ref))"

text \<open>Container \<open>i\<close> joins the namespace of \<open>j\<close>, its only meaning of the reference.\<close>

definition joins :: "net_container list \<Rightarrow> (string \<times> string) set" where
  "joins ivs = {(i, j). \<exists>v \<in> set ivs. \<exists>ref. nc_id v = i \<and> nc_mode v = ''container:'' @ ref
     \<and> refers ivs ref j \<and> (\<forall>k. refers ivs ref k \<longrightarrow> k = j)}"

definition namespace_spec :: "string \<Rightarrow> net_container list \<Rightarrow> string list \<Rightarrow> bool" where
  "namespace_spec anchor ivs ms \<longleftrightarrow>
     list_all container_ok ivs \<and> distinct (map nc_id ivs) \<and> distinct (map container_name ivs)
     \<and> (\<exists>v \<in> set ivs. nc_id v = anchor \<and> \<not> has_prefix (nc_mode v) ''container:'')
     \<and> (\<forall>v \<in> set ivs. has_prefix (nc_mode v) ''container:'' \<longrightarrow> nc_id v \<in> Domain (joins ivs))
     \<and> acyclic (joins ivs)
     \<and> ms = sorted_list_of_set {i. (i, anchor) \<in> (joins ivs)\<^sup>+}"

lemma inventory_ok_iff:
  "inventory_ok by_id by_name vs \<longleftrightarrow> list_all container_ok vs
     \<and> all_fresh nc_id by_id vs \<and> all_fresh container_name by_name vs"
  by (induction by_id by_name vs rule: inventory_ok.induct) (auto simp: container_ok_def)

lemma remdups_singleton: "remdups xs = [i] \<longleftrightarrow> set xs = {i}"
proof
  assume "set xs = {i}"
  then have "set (remdups xs) = {i}" "length (remdups xs) = 1" by (simp_all add: length_remdups_card_conv)
  then show "remdups xs = [i]" by (cases "remdups xs") auto
qed (metis empty_set list.simps(15) set_remdups)

lemma resolve_ref_iff:
  assumes "distinct (map container_name ivs)"
  shows "resolve_ref ivs ref = Some i \<longleftrightarrow> refers ivs ref i \<and> (\<forall>k. refers ivs ref k \<longrightarrow> k = i)"
proof -
  define ms where "ms = (if ref \<in> set (map nc_id ivs) then [ref] else [])
     @ (case find (\<lambda>v. container_name v = ref) ivs of Some v \<Rightarrow> [nc_id v] | None \<Rightarrow> [])
     @ (if short_docker_id ref then filter (\<lambda>i. has_prefix i ref) (map nc_id ivs) else [])"
  have name: "set (case find (\<lambda>v. container_name v = ref) ivs of Some v \<Rightarrow> [nc_id v] | None \<Rightarrow> [])
      = {nc_id v | v. v \<in> set ivs \<and> container_name v = ref}"
  proof (cases "find (\<lambda>v. container_name v = ref) ivs")
    case None
    then have "\<forall>v\<in>set ivs. container_name v \<noteq> ref" by (simp add: find_None_iff)
    then show ?thesis unfolding None by auto
  next
    case (Some v)
    then have v: "v \<in> set ivs" "container_name v = ref" by (auto simp: find_Some_iff)
    have "w = v" if "w \<in> set ivs" "container_name w = ref" for w
      using assms that v by (auto simp: distinct_map dest: inj_onD)
    then have "{nc_id v | v. v \<in> set ivs \<and> container_name v = ref} = {nc_id v}" using v by blast
    then show ?thesis unfolding Some by simp
  qed
  have "set ms = {k. refers ivs ref k}" unfolding ms_def set_append name by (auto simp: refers_def)
  moreover have "resolve_ref ivs ref = Some i \<longleftrightarrow> remdups ms = [i]"
    unfolding resolve_ref_def Let_def ms_def [symmetric] by (auto split: list.splits)
  ultimately show ?thesis unfolding remdups_singleton by auto
qed

section \<open>The links are the joins\<close>

definition container_ref :: "net_container \<Rightarrow> string option" where
  "container_ref v = (case cut_prefix (nc_mode v) ''container:'' of (ref, shared) \<Rightarrow> if shared then Some ref else None)"

lemma container_ref_iff: "container_ref v = Some ref \<longleftrightarrow> nc_mode v = ''container:'' @ ref"
  by (auto simp: container_ref_def cut_prefix_def has_prefix_def append_eq_conv_conj simp del: append.simps split: if_splits)
     (metis append_take_drop_id)+

lemma container_ref_None: "container_ref v = None \<longleftrightarrow> \<not> has_prefix (nc_mode v) ''container:''"
  by (simp add: container_ref_def cut_prefix_def)

lemma link_parents_iff:
  assumes "distinct (map nc_id vs)"
  shows "link_parents ivs vs = Some par \<longleftrightarrow>
    (\<forall>v\<in>set vs. \<forall>ref. container_ref v = Some ref \<longrightarrow> resolve_ref ivs ref \<noteq> None)
    \<and> par = (\<lambda>i. case find (\<lambda>v. nc_id v = i) vs of None \<Rightarrow> None
        | Some v \<Rightarrow> (case container_ref v of None \<Rightarrow> None | Some ref \<Rightarrow> resolve_ref ivs ref))"
  using assms
proof (induction vs arbitrary: par)
  case (Cons v vs)
  have nf: "find (\<lambda>w. nc_id w = nc_id v) vs = None" using Cons.prems by (auto simp: find_None_iff) (metis imageI)
  have IH: "link_parents ivs vs = Some m \<longleftrightarrow>
    (\<forall>v\<in>set vs. \<forall>ref. container_ref v = Some ref \<longrightarrow> resolve_ref ivs ref \<noteq> None)
    \<and> m = (\<lambda>i. case find (\<lambda>v. nc_id v = i) vs of None \<Rightarrow> None
        | Some v \<Rightarrow> (case container_ref v of None \<Rightarrow> None | Some ref \<Rightarrow> resolve_ref ivs ref))" for m
    using Cons.IH Cons.prems by simp
  show ?case
  proof (cases "container_ref v")
    case None
    then have "link_parents ivs (v # vs) = link_parents ivs vs"
      by (auto simp: container_ref_def split: prod.splits if_splits)
    with None IH [of par] nf show ?thesis by (auto simp: fun_eq_iff)
  next
    case (Some ref)
    then have eq: "link_parents ivs (v # vs) = (case resolve_ref ivs ref of None \<Rightarrow> None
        | Some p \<Rightarrow> map_option (\<lambda>m. m(nc_id v \<mapsto> p)) (link_parents ivs vs))"
      by (auto simp: container_ref_def split: prod.splits if_splits)
    show ?thesis
    proof (cases "resolve_ref ivs ref")
      case None
      with Some eq show ?thesis by auto
    next
      case (Some p)
      have "link_parents ivs (v # vs) = Some par \<longleftrightarrow>
          (\<exists>m. link_parents ivs vs = Some m \<and> par = m(nc_id v \<mapsto> p))" using eq Some by auto
      with Some \<open>container_ref v = Some ref\<close> nf show ?thesis unfolding IH by (auto simp: fun_eq_iff split: if_splits)
    qed
  qed
qed auto

lemma find_by_id:
  assumes "distinct (map nc_id ivs)"
  shows "find (\<lambda>v. nc_id v = i) ivs = Some v \<longleftrightarrow> v \<in> set ivs \<and> nc_id v = i"
proof
  assume v: "v \<in> set ivs \<and> nc_id v = i"
  then obtain w where w: "find (\<lambda>v. nc_id v = i) ivs = Some w"
    by (cases "find (\<lambda>v. nc_id v = i) ivs") (auto simp: find_None_iff)
  then have "w \<in> set ivs" "nc_id w = i" by (auto simp: find_Some_iff)
  with assms v have "w = v" by (auto simp: distinct_map dest: inj_onD)
  with w show "find (\<lambda>v. nc_id v = i) ivs = Some v" by simp
qed (auto simp: find_Some_iff)

lemma links_are_joins:
  assumes "distinct (map nc_id ivs)" "distinct (map container_name ivs)"
    "link_parents ivs ivs = Some par"
  shows "par i = Some j \<longleftrightarrow> (i, j) \<in> joins ivs"
proof -
  note f = find_by_id [OF assms(1)]
  have "par i = Some j \<longleftrightarrow> (\<exists>v ref. find (\<lambda>v. nc_id v = i) ivs = Some v \<and> container_ref v = Some ref
      \<and> resolve_ref ivs ref = Some j)"
    using assms(3) by (auto simp: link_parents_iff [OF assms(1)] split: option.splits)
  then show ?thesis
    unfolding f container_ref_iff resolve_ref_iff [OF assms(2)] by (auto simp: joins_def)
qed

lemma links_complete:
  assumes "distinct (map nc_id ivs)" "distinct (map container_name ivs)"
  shows "(\<exists>par. link_parents ivs ivs = Some par) \<longleftrightarrow>
    (\<forall>v \<in> set ivs. has_prefix (nc_mode v) ''container:'' \<longrightarrow> nc_id v \<in> Domain (joins ivs))"
proof
  assume "\<exists>par. link_parents ivs ivs = Some par"
  then obtain par where par: "link_parents ivs ivs = Some par" by blast
  show "\<forall>v \<in> set ivs. has_prefix (nc_mode v) ''container:'' \<longrightarrow> nc_id v \<in> Domain (joins ivs)"
  proof (intro ballI impI)
    fix v assume v: "v \<in> set ivs" "has_prefix (nc_mode v) ''container:''"
    then obtain ref where "container_ref v = Some ref" using container_ref_None [of v] by auto
    with par v(1) obtain j where "resolve_ref ivs ref = Some j" "nc_mode v = ''container:'' @ ref"
      by (auto simp: link_parents_iff [OF assms(1)] container_ref_iff)
    with v(1) show "nc_id v \<in> Domain (joins ivs)"
      unfolding resolve_ref_iff [OF assms(2)] joins_def by auto
  qed
next
  assume d: "\<forall>v \<in> set ivs. has_prefix (nc_mode v) ''container:'' \<longrightarrow> nc_id v \<in> Domain (joins ivs)"
  have "resolve_ref ivs ref \<noteq> None" if v: "v \<in> set ivs" "container_ref v = Some ref" for v ref
  proof -
    from v have "nc_id v \<in> Domain (joins ivs)" using d container_ref_None [of v] by auto
    then obtain w r j where w: "w \<in> set ivs" "nc_id w = nc_id v" "nc_mode w = ''container:'' @ r"
      "refers ivs r j \<and> (\<forall>k. refers ivs r k \<longrightarrow> k = j)" by (auto simp: joins_def)
    have "w = v" using w v(1) assms(1) by (auto simp: distinct_map dest: inj_onD)
    with v(2) w(3) have "r = ref" by (simp add: container_ref_iff)
    with w(4) show ?thesis using resolve_ref_iff [OF assms(2), of ref j] by simp
  qed
  then show "\<exists>par. link_parents ivs ivs = Some par" unfolding link_parents_iff [OF assms(1)] by blast
qed

section \<open>The search\<close>

definition links :: "(string \<rightharpoonup> string) \<Rightarrow> (string \<times> string) set" where
  "links par = {(a, b). par a = Some b}"

lemma links_iff [simp]: "(a, b) \<in> links par \<longleftrightarrow> par a = Some b"
  by (simp add: links_def)

lemma links_single: "single_valued (links par)"
  by (auto simp: single_valued_def)

lemma terminal_reaches: "(v, x) \<in> (links par)\<^sup>* \<Longrightarrow> par v = None \<Longrightarrow> x = v"
  by (erule converse_rtranclE) auto

lemma terminal_unique:
  assumes "(i, v) \<in> (links par)\<^sup>*" "par v = None" "(i, c) \<in> (links par)\<^sup>*"
  shows "(c, v) \<in> (links par)\<^sup>*"
  using single_valued_confluent [OF links_single assms(1,3)] terminal_reaches [of v c par] assms(2) by auto

lemma terminal_no_cycle:
  assumes "(c, v) \<in> (links par)\<^sup>*" "par v = None"
  shows "(c, c) \<notin> (links par)\<^sup>+"
proof
  assume "(c, c) \<in> (links par)\<^sup>+"
  with assms(1) have "(v, v) \<in> (links par)\<^sup>+"
  proof (induction rule: rtrancl_induct)
    case (step y z)
    from step(3) [OF step(4)] have "(y, y) \<in> (links par)\<^sup>+" .
    then obtain x where "par y = Some x" "(x, y) \<in> (links par)\<^sup>*" by (auto dest: tranclD)
    with step(2) show ?case by (auto intro: rtrancl_into_trancl1)
  qed
  with assms(2) show False by (auto dest: tranclD)
qed

definition sound_roots :: "(string \<rightharpoonup> string) \<Rightarrow> (string \<rightharpoonup> string) \<Rightarrow> bool" where
  "sound_roots par roots \<longleftrightarrow> (\<forall>i v. roots i = Some v \<longrightarrow> (i, v) \<in> (links par)\<^sup>* \<and> par v = None)"

lemma root_of_sound:
  "root_of par n visiting roots i = Some (v, roots') \<Longrightarrow> sound_roots par roots \<Longrightarrow>
     sound_roots par roots' \<and> (i, v) \<in> (links par)\<^sup>* \<and> par v = None"
proof (induction n arbitrary: visiting roots i v roots')
  case (Suc n)
  show ?case
  proof (cases "roots i")
    case (Some w)
    with Suc.prems show ?thesis by (auto simp: sound_roots_def)
  next
    case r0: None
    show ?thesis
    proof (cases "par i")
      case None
      with Suc.prems r0 show ?thesis by (auto simp: sound_roots_def split: if_splits)
    next
      case (Some p)
      with Suc.prems r0 obtain r2 where r: "root_of par n (i # visiting) roots p = Some (v, r2)"
        "roots' = r2(i \<mapsto> v)" by (auto split: if_splits option.splits)
      from Suc.IH [OF r(1) Suc.prems(2)] have s: "sound_roots par r2" "(p, v) \<in> (links par)\<^sup>*" "par v = None"
        by blast+
      have "(i, v) \<in> (links par)\<^sup>*"
        using Some s(2) by (auto intro: converse_rtrancl_into_rtrancl)
      with s r(2) show ?thesis by (auto simp: sound_roots_def)
    qed
  qed
qed simp

text \<open>With fuel for every container, the search only gives up on a cycle.\<close>

lemma root_of_fails:
  assumes "root_of par n visiting roots i = None" "distinct visiting" "set visiting \<subseteq> D" "i \<in> D"
    "\<forall>a b. par a = Some b \<longrightarrow> b \<in> D" "finite D" "card D < n + length visiting"
    "\<forall>a \<in> set visiting. (a, i) \<in> (links par)\<^sup>+"
  shows "\<exists>c. (i, c) \<in> (links par)\<^sup>* \<and> (c, c) \<in> (links par)\<^sup>+"
  using assms
proof (induction n arbitrary: visiting i)
  case 0
  then have "card (set visiting) \<le> card D" by (intro card_mono) auto
  with 0 show ?case by (simp add: distinct_card)
next
  case (Suc n)
  show ?case
  proof (cases "i \<in> set visiting")
    case True
    with Suc.prems(8) have "(i, i) \<in> (links par)\<^sup>+" by blast
    then show ?thesis by blast
  next
    case False
    with Suc.prems(1) obtain p where p: "par i = Some p" "root_of par n (i # visiting) roots p = None"
      by (auto split: option.splits)
    have "\<exists>c. (p, c) \<in> (links par)\<^sup>* \<and> (c, c) \<in> (links par)\<^sup>+"
    proof (rule Suc.IH [OF p(2)])
      show "\<forall>a\<in>set (i # visiting). (a, p) \<in> (links par)\<^sup>+"
        using Suc.prems(8) p(1) by (auto intro: trancl_into_trancl)
    qed (use Suc.prems False p in auto)
    moreover have "(i, p) \<in> links par" using p(1) by simp
    ultimately show ?thesis by (meson converse_rtrancl_into_rtrancl)
  qed
qed

lemma collect_members_iff:
  assumes "\<forall>a b. par a = Some b \<longrightarrow> b \<in> D" "finite D" "card D < n" "set is \<subseteq> D" "sound_roots par roots"
    "par anchor = None"
  shows "collect_members par n anchor roots is = Some ms \<longleftrightarrow>
     (\<forall>i\<in>set is. \<exists>v. (i, v) \<in> (links par)\<^sup>* \<and> par v = None)
     \<and> ms = filter (\<lambda>i. (i, anchor) \<in> (links par)\<^sup>+) is"
  using assms(4,5)
proof (induction "is" arbitrary: roots ms)
  case (Cons i "is")
  show ?case
  proof (cases "root_of par n [] roots i")
    case None
    with root_of_fails [OF None, of D] assms Cons.prems
    obtain c where c: "(i, c) \<in> (links par)\<^sup>*" "(c, c) \<in> (links par)\<^sup>+" by auto
    then have "\<nexists>v. (i, v) \<in> (links par)\<^sup>* \<and> par v = None"
      using terminal_unique terminal_no_cycle by blast
    with None show ?thesis by auto
  next
    case (Some vr)
    then obtain v roots' where vr: "root_of par n [] roots i = Some (v, roots')" by (cases vr) auto
    from root_of_sound [OF this Cons.prems(2)] have s: "sound_roots par roots'" "(i, v) \<in> (links par)\<^sup>*" "par v = None"
      by auto
    have a: "i \<noteq> anchor \<and> v = anchor \<longleftrightarrow> (i, anchor) \<in> (links par)\<^sup>+"
    proof
      assume "i \<noteq> anchor \<and> v = anchor"
      with s(2) show "(i, anchor) \<in> (links par)\<^sup>+" by (auto simp: rtrancl_eq_or_trancl)
    next
      assume t: "(i, anchor) \<in> (links par)\<^sup>+"
      then have "(anchor, v) \<in> (links par)\<^sup>*" by (intro terminal_unique [OF s(2,3)] trancl_into_rtrancl)
      then have "v = anchor" using assms(6) by (rule terminal_reaches)
      moreover have "i \<noteq> anchor" using t assms(6) by (auto dest: tranclD)
      ultimately show "i \<noteq> anchor \<and> v = anchor" by simp
    qed
    have "collect_members par n anchor roots (i # is) =
      map_option (\<lambda>ms. if (i, anchor) \<in> (links par)\<^sup>+ then i # ms else ms) (collect_members par n anchor roots' is)"
      using vr by (simp add: a)
    moreover have "collect_members par n anchor roots' is = Some ms' \<longleftrightarrow>
      (\<forall>i\<in>set is. \<exists>v. (i, v) \<in> (links par)\<^sup>* \<and> par v = None)
        \<and> ms' = filter (\<lambda>i. (i, anchor) \<in> (links par)\<^sup>+) is" for ms'
      using Cons.IH [of roots' ms'] Cons.prems(1) s(1) by simp
    ultimately show ?thesis using s(2,3) by auto
  qed
qed auto

lemma rtrancl_terminal_exists:
  assumes "finite D" "\<forall>a b. par a = Some b \<longrightarrow> a \<in> D \<and> b \<in> D" "acyclic (links par)"
  shows "\<exists>v. (i, v) \<in> (links par)\<^sup>* \<and> par v = None"
proof -
  have "links par \<subseteq> D \<times> D" using assms(2) by auto
  then have "wf ((links par)\<inverse>)" using assms(1,3) by (intro finite_acyclic_wf_converse) (auto intro: finite_subset)
  then show ?thesis
  proof (induction i rule: wf_induct_rule)
    case (less i)
    show ?case
    proof (cases "par i")
      case (Some p)
      then have "(p, i) \<in> (links par)\<inverse>" by simp
      from less [OF this] obtain v where v: "(p, v) \<in> (links par)\<^sup>*" "par v = None" by blast
      have "(i, p) \<in> links par" using Some by simp
      with v show ?thesis by (meson converse_rtrancl_into_rtrancl)
    qed auto
  qed
qed

lemma acyclic_terminal:
  assumes "\<forall>i\<in>D. \<exists>v. (i, v) \<in> (links par)\<^sup>* \<and> par v = None" "\<forall>a b. par a = Some b \<longrightarrow> a \<in> D \<and> b \<in> D"
  shows "acyclic (links par)"
  unfolding acyclic_def
proof (intro allI notI)
  fix c assume c: "(c, c) \<in> (links par)\<^sup>+"
  then obtain b where "par c = Some b" by (auto dest: tranclD)
  with assms obtain v where "(c, v) \<in> (links par)\<^sup>*" "par v = None" by blast
  with terminal_no_cycle c show False by blast
qed

lemma inventory_needed:
  "namespace_members anchor ivs = Inr ms \<Longrightarrow>
     list_all container_ok ivs \<and> distinct (map nc_id ivs) \<and> distinct (map container_name ivs)
     \<and> (\<exists>v \<in> set ivs. nc_id v = anchor \<and> \<not> has_prefix (nc_mode v) ''container:'')
     \<and> (\<exists>par. link_parents ivs ivs = Some par)"
  by (auto simp: namespace_members_def Let_def inventory_ok_iff all_fresh_iff find_Some_iff
      split: option.splits if_splits)

text \<open>The run past the inventory checks, and the members it collects.\<close>

lemma namespace_members_run:
  assumes ok: "list_all container_ok ivs" and d: "distinct (map nc_id ivs)" "distinct (map container_name ivs)"
    and a: "a \<in> set ivs" "nc_id a = anchor" "\<not> has_prefix (nc_mode a) ''container:''"
    and par: "link_parents ivs ivs = Some par"
  shows "namespace_members anchor ivs = Inr ms \<longleftrightarrow>
      (\<exists>ns. collect_members par (Suc (length ivs)) anchor Map.empty (map nc_id ivs) = Some ns \<and> ms = sort ns)"
proof -
  have fnd: "find (\<lambda>v. nc_id v = anchor) ivs = Some a"
    using a find_by_id [OF d(1)] by blast
  have h: "hex_string 64 anchor" using ok a(1,2) unfolding list_all_iff container_ok_def by blast
  have i: "inventory_ok [] [] ivs" using ok d by (simp add: inventory_ok_iff all_fresh_iff)
  have "namespace_members anchor ivs =
    (case collect_members par (Suc (length ivs)) anchor Map.empty (map nc_id ivs) of
       None \<Rightarrow> Inl (Err ''container namespace inventory is incomplete or ambiguous'')
     | Some ms \<Rightarrow> Inr (sort ms))"
    by (simp only: namespace_members_def Let_def h i fnd par a(3) option.case not_True_eq_False if_False)
  then show ?thesis by (simp only:) (auto split: option.splits)
qed

lemma anchor_unlinked:
  assumes d: "distinct (map nc_id ivs)" "distinct (map container_name ivs)"
    and a: "a \<in> set ivs" "nc_id a = anchor" "\<not> has_prefix (nc_mode a) ''container:''"
    and par: "link_parents ivs ivs = Some par"
  shows "par anchor = None"
proof (cases "par anchor")
  case (Some j)
  then have "(anchor, j) \<in> joins ivs" using links_are_joins [OF d par] by blast
  then obtain v where v: "v \<in> set ivs" "nc_id v = anchor" "has_prefix (nc_mode v) ''container:''"
    unfolding joins_def has_prefix_iff by blast
  with a(1,2) d(1) have "v = a" by (auto simp: distinct_map dest: inj_onD)
  with v(3) a(3) show ?thesis by blast
qed

lemma collected_members:
  assumes d: "distinct (map nc_id ivs)" and D: "\<forall>a b. par a = Some b \<longrightarrow> a \<in> set (map nc_id ivs) \<and> b \<in> set (map nc_id ivs)"
    and top: "par anchor = None"
  shows "(\<exists>ns. collect_members par (Suc (length ivs)) anchor Map.empty (map nc_id ivs) = Some ns \<and> ms = sort ns)
    \<longleftrightarrow> acyclic (links par) \<and> ms = sorted_list_of_set {i. (i, anchor) \<in> (links par)\<^sup>+}"
proof -
  let ?D = "set (map nc_id ivs)"
  have card: "card ?D < Suc (length ivs)" using card_length [of "map nc_id ivs"] by simp
  have "i \<in> ?D" if "(i, anchor) \<in> (links par)\<^sup>+" for i
    using tranclD [OF that] D by auto
  then have "set (filter (\<lambda>i. (i, anchor) \<in> (links par)\<^sup>+) (map nc_id ivs)) = {i. (i, anchor) \<in> (links par)\<^sup>+}"
    by auto
  then have s: "sorted_list_of_set {i. (i, anchor) \<in> (links par)\<^sup>+} =
      sort (filter (\<lambda>i. (i, anchor) \<in> (links par)\<^sup>+) (map nc_id ivs))"
    using d by (metis distinct_filter distinct_remdups_id sorted_list_of_set_sort_remdups)
  have t: "(\<forall>i\<in>?D. \<exists>v. (i, v) \<in> (links par)\<^sup>* \<and> par v = None) \<longleftrightarrow> acyclic (links par)"
    using acyclic_terminal [OF _ D] rtrancl_terminal_exists [OF _ D] by blast
  show ?thesis
    using collect_members_iff [of par ?D "Suc (length ivs)" "map nc_id ivs" Map.empty anchor] D card top s t
    by (auto simp: sound_roots_def)
qed

text \<open>
  C24. The members of a namespace are found exactly when the inventory is unambiguous and its
  joins contain no cycle anywhere: they are the containers whose chain of joins ends at the anchor,
  in order, whatever order the code visits them in.
\<close>

theorem namespace_members_exact:
  "namespace_members anchor ivs = Inr ms \<longleftrightarrow> namespace_spec anchor ivs ms"
proof (cases "list_all container_ok ivs \<and> distinct (map nc_id ivs) \<and> distinct (map container_name ivs)
    \<and> (\<exists>v \<in> set ivs. nc_id v = anchor \<and> \<not> has_prefix (nc_mode v) ''container:'')
    \<and> (\<exists>par. link_parents ivs ivs = Some par)")
  case False
  then show ?thesis using inventory_needed [of anchor ivs ms] links_complete [of ivs]
    unfolding namespace_spec_def by blast
next
  case True
  then obtain a par where ok: "list_all container_ok ivs" and d: "distinct (map nc_id ivs)" "distinct (map container_name ivs)"
    and a: "a \<in> set ivs" "nc_id a = anchor" "\<not> has_prefix (nc_mode a) ''container:''"
    and par: "link_parents ivs ivs = Some par" by blast
  have J: "links par = joins ivs" using links_are_joins [OF d par] by auto
  have D: "\<forall>a b. par a = Some b \<longrightarrow> a \<in> set (map nc_id ivs) \<and> b \<in> set (map nc_id ivs)"
    using links_are_joins [OF d par] by (auto simp: joins_def refers_def)
  have "namespace_members anchor ivs = Inr ms \<longleftrightarrow>
      acyclic (joins ivs) \<and> ms = sorted_list_of_set {i. (i, anchor) \<in> (joins ivs)\<^sup>+}"
    using namespace_members_run [OF ok d a par] collected_members [OF d(1) D anchor_unlinked [OF d a par]]
    unfolding J by simp
  then show ?thesis using ok a d par links_complete [OF d] by (auto simp: namespace_spec_def)
qed

end
