(* ===== verification/Sha256.thy ===== *)
theory Sha256
  imports GoText
begin

text \<open>
  \<open>crypto/sha256\<close> and \<open>encoding/hex\<close>, as the plan digests use them: the FIPS 180-4 compression
  function on 32-bit words, the padding of a byte string to 64-byte blocks, and the lowercase
  hexadecimal rendering of the sum.
\<close>

text \<open>
  The constants are the first 32 bits of the fractional parts of the cube roots of the first 64
  primes, the initial state those of the square roots of the first 8: \<open>root_floor e n\<close> is the
  largest number whose \<open>e\<close>-th power is at most \<open>n\<close>, found bit by bit (64 bits are enough here),
  and \<open>of_nat\<close> drops the integral part.
\<close>

definition sha_primes :: "nat list" where
  "sha_primes = filter (\<lambda>n. list_all (\<lambda>d. \<not> d dvd n) [2..<n]) [2..<312]"

definition root_floor :: "nat \<Rightarrow> nat \<Rightarrow> nat" where
  "root_floor e n = foldl (\<lambda>r b. if (r + 2 ^ b) ^ e \<le> n then r + 2 ^ b else r) 0 (rev [0..<64])"

definition sha_k :: "u32 list" where
  "sha_k = map (\<lambda>p. of_nat (root_floor 3 (p * 2 ^ 96))) sha_primes"

definition sha_h0 :: "u32 list" where
  "sha_h0 = map (\<lambda>p. of_nat (root_floor 2 (p * 2 ^ 64))) (take 8 sha_primes)"

definition rotr :: "nat \<Rightarrow> u32 \<Rightarrow> u32" where
  "rotr n w = word_rotr n w"

definition small0 :: "u32 \<Rightarrow> u32" where
  "small0 x = xor (xor (rotr 7 x) (rotr 18 x)) (drop_bit 3 x)"

definition small1 :: "u32 \<Rightarrow> u32" where
  "small1 x = xor (xor (rotr 17 x) (rotr 19 x)) (drop_bit 10 x)"

definition big0 :: "u32 \<Rightarrow> u32" where
  "big0 x = xor (xor (rotr 2 x) (rotr 13 x)) (rotr 22 x)"

definition big1 :: "u32 \<Rightarrow> u32" where
  "big1 x = xor (xor (rotr 6 x) (rotr 11 x)) (rotr 25 x)"

definition choose3 :: "u32 \<Rightarrow> u32 \<Rightarrow> u32 \<Rightarrow> u32" where
  "choose3 x y z = xor (and x y) (and (not x) z)"

definition majority :: "u32 \<Rightarrow> u32 \<Rightarrow> u32 \<Rightarrow> u32" where
  "majority x y z = xor (xor (and x y) (and x z)) (and y z)"

text \<open>The message schedule, extended by \<open>n\<close> words (the list is kept reversed).\<close>

fun schedule :: "nat \<Rightarrow> u32 list \<Rightarrow> u32 list" where
  "schedule 0 ws = ws"
| "schedule (Suc n) ws =
     schedule n ((small1 (ws ! 1) + ws ! 6 + small0 (ws ! 14) + ws ! 15) # ws)"

fun sha_round :: "u32 list \<Rightarrow> u32 \<times> u32 \<Rightarrow> u32 list" where
  "sha_round [a, b, c, d, e, f, g, h] (k, w) =
     (let t1 = h + big1 e + choose3 e f g + k + w; t2 = big0 a + majority a b c
      in [t1 + t2, a, b, c, d + t1, e, f, g])"
| "sha_round s _ = s"

definition sha_block :: "u32 list \<Rightarrow> u32 list \<Rightarrow> u32 list" where
  "sha_block s block =
     map2 (+) s (foldl sha_round s (zip sha_k (rev (schedule 48 (rev block)))))"

definition be32 :: "nat list \<Rightarrow> u32" where
  "be32 bs = of_nat (foldl (\<lambda>a b. 256 * a + b) 0 bs)"

fun chunks :: "nat \<Rightarrow> 'a list \<Rightarrow> 'a list list" where
  "chunks n [] = []"
| "chunks n (x # xs) = (x # take (n - 1) xs) # chunks n (drop (n - 1) xs)"

text \<open>\<open>n\<close> big-endian bytes of \<open>v\<close>.\<close>

fun be_bytes :: "nat \<Rightarrow> nat \<Rightarrow> nat list" where
  "be_bytes 0 v = []"
| "be_bytes (Suc n) v = be_bytes n (v div 256) @ [v mod 256]"

definition sha_pad :: "nat list \<Rightarrow> nat list" where
  "sha_pad bs = bs @ [128] @ replicate ((119 - length bs mod 64) mod 64) 0 @ be_bytes 8 (8 * length bs)"

definition sha256 :: "nat list \<Rightarrow> nat list" where
  "sha256 bs = concat (map (be_bytes 4 \<circ> unat)
     (foldl (\<lambda>s b. sha_block s (map be32 (chunks 4 b))) sha_h0 (chunks 64 (sha_pad bs))))"

text \<open>\<open>hex.EncodeToString(sha256.Sum256(s)[:])\<close>\<close>

definition hex_bytes :: "nat list \<Rightarrow> string" where
  "hex_bytes bs = concat (map (\<lambda>b. [hex_char (b div 16), hex_char (b mod 16)]) bs)"

definition sha256_hex :: "string \<Rightarrow> string" where
  "sha256_hex s = hex_bytes (sha256 (bytes_of s))"

section \<open>The sum is 64 hexadecimal digits\<close>

lemma length_be_bytes [simp]: "length (be_bytes n v) = n"
  by (induction n arbitrary: v) simp_all

lemma be_bytes_bound: "b \<in> set (be_bytes n v) \<Longrightarrow> b < 256"
  by (induction n arbitrary: v) auto

lemma length_sha_round [simp]: "length (sha_round s kw) = length s"
  by (induction s kw rule: sha_round.induct) (simp_all add: Let_def)

lemma length_sha_rounds: "length (foldl sha_round s kws) = length s"
  by (induction kws arbitrary: s) simp_all

lemma length_sha_block [simp]: "length (sha_block s b) = length s"
  by (simp add: sha_block_def length_sha_rounds)

lemma length_sha_blocks: "length (foldl (\<lambda>s b. sha_block s (f b)) s bs) = length s"
  by (induction bs arbitrary: s) simp_all

lemma sha_primes_split: "sha_primes = filter (\<lambda>n. list_all (\<lambda>d. \<not> d dvd n) [2..<n]) [2..<20]
    @ filter (\<lambda>n. list_all (\<lambda>d. \<not> d dvd n) [2..<n]) [20..<312]"
proof -
  have "[2..<20 + 292] = [2..<20] @ [20..<20 + (292 :: nat)]" by (rule upt_add_eq_append) simp
  moreover have "20 + 292 = (312 :: nat)" by simp
  ultimately have "[2..<312] = [2..<20] @ [20..<(312 :: nat)]" by (simp only:)
  then show ?thesis unfolding sha_primes_def by (simp only: filter_append)
qed

lemma small_primes: "length (filter (\<lambda>n. list_all (\<lambda>d. \<not> d dvd n) [2..<n]) [2..<20 :: nat]) = 8"
  by code_simp

lemma length_sha_h0 [simp]: "length sha_h0 = 8"
  unfolding sha_h0_def sha_primes_split by (simp only: length_map length_take length_append small_primes min_absorb2 le_add1)

lemma length_words_bytes: "length (concat (map (be_bytes 4 \<circ> unat) ws)) = 4 * length (ws :: u32 list)"
  by (induction ws) simp_all

lemma length_sha256 [simp]: "length (sha256 bs) = 32"
  by (simp add: sha256_def length_words_bytes length_sha_blocks)

lemma sha256_bytes: "b \<in> set (sha256 bs) \<Longrightarrow> b < 256"
  by (auto simp: sha256_def dest: be_bytes_bound)

lemma hex_char_is_hex: "d < 16 \<Longrightarrow> is_lower_hex (hex_char d)"
  by (auto simp: hex_char_def is_lower_hex_def is_digit_def char_in_def less_eq_char_def)

lemma hex_bytes_hex: "\<forall>b\<in>set bs. b < 256 \<Longrightarrow> hex_string (2 * length bs) (hex_bytes bs)"
  by (induction bs) (auto simp: hex_bytes_def hex_string_def hex_char_is_hex)

lemma sha256_hex_string [simp]: "hex_string 64 (sha256_hex s)"
  using hex_bytes_hex [of "sha256 (bytes_of s)"] by (simp add: sha256_hex_def sha256_bytes)

end
