(* ===== verification/JsonText.thy ===== *)
theory JsonText
  imports GoText
begin

text \<open>
  What \<open>encoding/json\<close> writes determines what was written: quoted strings and decimals can be read
  back from the front of a text, and so can an array of strings, flags, integers and runtime settings
  (\<open>json.Marshal([]any{...})\<close>).
\<close>

section \<open>Strings and decimals\<close>

lemma append_plain_quote:
  "json_body (bytes_of s) @ dquote # x = t @ dquote # y \<Longrightarrow> json_plain t \<Longrightarrow> s = t \<and> x = y"
proof (induction s arbitrary: t)
  case Nil
  then show ?case by (cases t) (auto simp: json_plain_def json_plain_char_def Let_def)
next
  case (Cons c s)
  have pc: "json_plain_char d \<Longrightarrow> d \<noteq> dquote \<and> d \<noteq> backslash \<and> of_char d < (128 :: nat)" for d
    by (auto simp: json_plain_char_def Let_def)
  show ?case
  proof (cases "(of_char c :: nat) < 128")
    case low: True
    show ?thesis
    proof (cases "json_ascii (of_char c) = [c]")
      case True
      with low Cons.prems(1) have e: "c # json_body (bytes_of s) @ dquote # x = t @ dquote # y" by simp
      show ?thesis
      proof (cases t)
        case Nil
        with e have "c = dquote" by simp
        with True show ?thesis by (simp add: json_ascii_def)
      next
        case (Cons d t')
        with e Cons.prems Cons.IH [of t'] show ?thesis by (simp add: json_plain_def)
      qed
    next
      case False
      then have "\<exists>u. json_ascii (of_char c) = backslash # u" by (auto simp: json_ascii_def split: if_splits)
      with low Cons.prems show ?thesis by (cases t) (auto dest: pc simp: json_plain_def)
    qed
  next
    case False
    have "\<exists>d u. json_body (bytes_of (c # s)) = d # u \<and> (d = backslash \<or> d = c)"
      using False by (auto split: prod.splits simp: char_of_nat)
    with False Cons.prems show ?thesis by (cases t) (auto dest!: pc simp: json_plain_def simp del: json_body.simps)
  qed
qed

lemma json_string_plain:
  "json_string s @ x = json_string t @ y \<Longrightarrow> json_plain t \<Longrightarrow> s = t \<and> x = y"
  using append_plain_quote [of s x t y] by (simp add: json_string_def json_body_plain)

definition no_digit :: "string \<Rightarrow> bool" where
  "no_digit x \<longleftrightarrow> x \<noteq> [] \<and> \<not> is_digit (hd x)"

lemma dec_prefix:
  assumes "dec m @ x = dec n @ y" "no_digit x" "no_digit y"
  shows "m = n \<and> x = y"
proof -
  have t: "takeWhile is_digit (dec k @ z) = dec k" if "no_digit z" for k z
    using that dec_digits [of k] by (cases z) (simp_all add: no_digit_def takeWhile_append list_all_iff)
  from arg_cong [OF assms(1), of "takeWhile is_digit"] assms(2,3) have "dec m = dec n" by (simp add: t)
  with assms(1) show ?thesis by simp
qed

lemma no_digit_Cons [simp]: "no_digit (c # x) \<longleftrightarrow> \<not> is_digit c"
  by (simp add: no_digit_def)

lemma not_digit [simp]: "\<not> is_digit CHR '',''" "\<not> is_digit CHR ''}''"
  by (simp_all add: is_digit_def char_in_def less_eq_char_def)

section \<open>Arrays\<close>

text \<open>An element of \<open>[]any\<close>; \<open>JSettings\<close> is \<open>protocol.RuntimeSettings\<close>.\<close>

datatype json_item = JText string | JFlag bool | JInt int | JSettings nat bool

fun json_item_text :: "json_item \<Rightarrow> string" where
  "json_item_text (JText s) = json_string s"
| "json_item_text (JFlag b) = json_bool b"
| "json_item_text (JInt n) = (if n < 0 then CHR ''-'' # dec (nat (- n)) else dec (nat n))"
| "json_item_text (JSettings l b) = ''{'' @ json_string ''loom'' @ '':'' @ dec l @ '','' @ json_string ''native_control''
     @ '':'' @ json_bool b @ ''}''"

definition json_array :: "json_item list \<Rightarrow> string" where
  "json_array js = ''['' @ join_with CHR '','' (map json_item_text js) @ '']''"

fun item_plain :: "json_item \<Rightarrow> bool" where
  "item_plain (JText s) \<longleftrightarrow> json_plain s"
| "item_plain _ \<longleftrightarrow> True"

lemma not_digit_end [simp]: "\<not> is_digit CHR '']''"
  by (simp add: is_digit_def char_in_def less_eq_char_def)

lemma json_text_head: "json_item_text j \<noteq> [] \<and> hd (json_item_text j) \<notin> {CHR '','', CHR '']''}"
proof -
  have "is_digit (hd (dec n))" for n using dec_digits [of n] dec_not_Nil [of n] by (cases "dec n") auto
  then have "dec n \<noteq> [] \<and> hd (dec n) \<noteq> CHR '','' \<and> hd (dec n) \<noteq> CHR '']''" for n
    using not_digit not_digit_end dec_not_Nil by metis
  then show ?thesis by (cases j) (auto simp: json_string_def json_bool_def)
qed

text \<open>The first byte of an element tells its kind.\<close>

fun item_kind :: "json_item \<Rightarrow> nat" where
  "item_kind (JText s) = 0"
| "item_kind (JFlag b) = 1"
| "item_kind (JInt n) = 2"
| "item_kind (JSettings l b) = 3"

definition head_kind :: "char \<Rightarrow> nat" where
  "head_kind c = (if c = dquote then 0 else if c = CHR ''t'' \<or> c = CHR ''f'' then 1 else if c = CHR ''{'' then 3 else 2)"

lemma dec_head: "is_digit (hd (dec n))"
  using dec_digits [of n] by (cases "dec n") auto

lemma head_kind: "head_kind (hd (json_item_text j)) = item_kind j"
proof (cases j)
  case (JInt n)
  have nd: "\<not> is_digit dquote" "\<not> is_digit CHR ''t''" "\<not> is_digit CHR ''f''" "\<not> is_digit CHR ''{''"
    by (simp_all add: is_digit_def char_in_def less_eq_char_def)
  have "is_digit c \<Longrightarrow> head_kind c = 2" for c using nd by (auto simp: head_kind_def)
  from this [OF dec_head] have "head_kind (hd (dec k)) = 2" for k .
  moreover have "head_kind CHR ''-'' = 2" by (simp add: head_kind_def)
  ultimately show ?thesis using JInt by simp
qed (simp_all add: head_kind_def json_string_def json_bool_def)

lemma json_same_kind:
  assumes "json_item_text i @ x = json_item_text j @ y"
  shows "item_kind i = item_kind j"
  using assms json_text_head by (metis hd_append2 head_kind)

lemma json_int_prefix:
  assumes "json_item_text (JInt m) @ x = json_item_text (JInt n) @ y" "no_digit x" "no_digit y"
  shows "m = n \<and> x = y"
proof -
  have "\<not> is_digit CHR ''-''" by (simp add: is_digit_def char_in_def less_eq_char_def)
  then have neg: "CHR ''-'' # u \<noteq> dec k @ w" for u k w
    using dec_digits [of k] dec_not_Nil [of k] by (cases "dec k") auto
  show ?thesis
  proof (cases "m < 0"; cases "n < 0")
    assume "m < 0" "n < 0"
    then show ?thesis using assms dec_prefix [of "nat (- m)" x "nat (- n)" y] by auto
  next
    assume s: "\<not> m < 0" "\<not> n < 0"
    then have "nat m = nat n" "x = y" using assms dec_prefix [of "nat m" x "nat n" y] by simp_all
    then show ?thesis using s by simp
  qed (use assms(1) neg neg [symmetric] in simp_all)
qed

lemma json_settings_prefix:
  assumes "json_item_text (JSettings l b) @ x = json_item_text (JSettings m c) @ y"
  shows "l = m \<and> b = c \<and> x = y"
proof -
  let ?t = "\<lambda>b z. '','' @ json_string ''native_control'' @ '':'' @ json_bool b @ ''}'' @ z"
  have "dec l @ ?t b x = dec m @ ?t c y" using assms by simp
  then have "l = m" "?t b x = ?t c y" using dec_prefix [of l "?t b x" m "?t c y"] by simp_all
  then show ?thesis by (auto simp: json_bool_def split: if_splits)
qed

lemma json_item_prefix:
  assumes "json_item_text i @ x = json_item_text j @ y" "item_plain j" "no_digit x" "no_digit y"
  shows "i = j \<and> x = y"
proof (cases i)
  case (JText s)
  then obtain t where "j = JText t" using json_same_kind [OF assms(1)] by (cases j) simp_all
  then show ?thesis using JText assms json_string_plain [of s x t y] by simp
next
  case (JFlag b)
  then obtain c where "j = JFlag c" using json_same_kind [OF assms(1)] by (cases j) simp_all
  then show ?thesis using JFlag assms(1) by (auto simp: json_bool_def split: if_splits)
next
  case (JInt m)
  then obtain n where "j = JInt n" using json_same_kind [OF assms(1)] by (cases j) simp_all
  then show ?thesis using JInt assms json_int_prefix [of m x n y] by (simp del: json_item_text.simps)
next
  case (JSettings l b)
  then obtain m c where "j = JSettings m c" using json_same_kind [OF assms(1)] by (cases j) simp_all
  then show ?thesis using JSettings assms(1) json_settings_prefix [of l b x m c y] by (simp del: json_item_text.simps)
qed

lemma json_item_not_close: "json_item_text k @ z \<noteq> CHR '']'' # w"
  using json_text_head [of k] by (cases "json_item_text k") auto

lemma json_items_Cons: "join_with CHR '','' (map json_item_text (k # ks)) @ CHR '']'' # z
  = json_item_text k @ (if ks = [] then CHR '']'' # z else CHR '','' # join_with CHR '','' (map json_item_text ks) @ CHR '']'' # z)"
  by (cases ks) simp_all

lemma json_items_inj:
  "join_with CHR '','' (map json_item_text is) @ CHR '']'' # x = join_with CHR '','' (map json_item_text js) @ CHR '']'' # y
    \<Longrightarrow> list_all item_plain js \<Longrightarrow> is = js"
proof (induction "is" arbitrary: js)
  case Nil
  show ?case
  proof (cases js)
    case (Cons j js')
    then show ?thesis using Nil(1) unfolding Cons json_items_Cons by (simp add: json_item_not_close [symmetric])
  qed simp
next
  case (Cons i "is")
  obtain j js' where js: "js = j # js'"
    using Cons.prems(1) unfolding json_items_Cons by (cases js) (simp_all add: json_item_not_close)
  let ?r = "\<lambda>ks z. (if ks = [] then CHR '']'' # z else CHR '','' # join_with CHR '','' (map json_item_text ks) @ CHR '']'' # z)"
  have "json_item_text i @ ?r is x = json_item_text j @ ?r js' y"
    using Cons.prems(1) unfolding js json_items_Cons .
  moreover have "item_plain j" "no_digit (?r is x)" "no_digit (?r js' y)" using Cons.prems(2) js by simp_all
  ultimately have "i = j" "?r is x = ?r js' y" using json_item_prefix [of i "?r is x" j "?r js' y"] by blast+
  then show ?case using Cons.IH [of js'] Cons.prems(2) js by (auto split: if_splits)
qed

theorem json_array_inj: "json_array is = json_array js \<Longrightarrow> list_all item_plain js \<Longrightarrow> is = js"
  using json_items_inj [of "is" "[]" js "[]"] by (simp add: json_array_def)

end
