(* ===== verification/ProjectPlan.thy ===== *)
theory ProjectPlan
  imports Protocol Sha256 JsonText
begin

text \<open>
  \<open>internal/projectnetwork/plan.go\<close>: the reviewed plan of a fake project. \<open>Build\<close> turns a
  request into the canonical plan, \<open>Digest\<close> hashes the JSON of a plan after comparing it with
  the JSON of its own rebuild. \<open>canonical_plan\<close> is the abstract contract of both.

  The embedded struct \<open>MemberRequest\<close> of a \<open>Member\<close> is a record extension. Equal instance ids
  are refused, so the order an unstable sort leaves equal ids in does not matter.
\<close>

section \<open>The code\<close>

record member_request =
  mr_instance :: string
  mr_ship :: string
  mr_http :: u16

record project_member = member_request +
  mb_internal :: u16

record project_request =
  rq_label :: string
  rq_members :: "member_request slice"
  rq_confirm :: bool

text \<open>Nil maps read as false.\<close>

record reservations =
  rv_instances :: "string \<Rightarrow> bool"
  rv_ports :: "u16 \<Rightarrow> bool"

record project_plan =
  pl_mode :: string
  pl_label :: string
  pl_members :: "project_member slice"
  pl_bind :: string
  pl_shared :: bool

definition fake_galaxies :: string where
  "fake_galaxies = ''fake-galaxies-v1''"

fun build_members ::
  "reservations \<Rightarrow> nat \<Rightarrow> string list \<Rightarrow> string list \<Rightarrow> u16 list \<Rightarrow> member_request list
     \<Rightarrow> gerr + project_member list" where
  "build_members res i ids ships ports [] = Inr []"
| "build_members res i ids ships ports (m # ms) =
     (if \<not> valid_id (mr_instance m) \<or> mr_instance m \<in> set ids
      then Inl (Err ''member instance IDs must be valid and unique within the project'')
      else if rv_instances res (mr_instance m)
      then Inl (Err ''member instance ID is already registered or reserved'')
      else if length (mr_ship m) \<noteq> 4 \<or> mr_ship m ! 0 \<noteq> CHR ''~'' \<or> \<not> valid_fake_ship (mr_ship m)
              \<or> mr_ship m \<in> set ships
      then Inl (Err ''member ships must be distinct canonical fake galaxies'')
      else if mr_http m < 1024 \<or> mr_http m \<in> set ports \<or> rv_ports res (mr_http m)
      then Inl (Err ''member HTTP ports must be unprivileged, distinct and unreserved'')
      else case build_members res (i + 1) (mr_instance m # ids) (mr_ship m # ships) (mr_http m # ports) ms of
        Inl e \<Rightarrow> Inl e
      | Inr rest \<Rightarrow> Inr (member_request.extend m (project_member.fields (of_nat (8080 + i))) # rest))"

definition valid_label :: "string \<Rightarrow> bool" where
  "valid_label s \<longleftrightarrow> \<not> (s = '''' \<or> \<not> utf8_valid s \<or> length s > 128 \<or> any_rune is_control s)"

definition build_plan :: "project_request \<Rightarrow> reservations \<Rightarrow> gerr + project_plan" where
  "build_plan req res =
     (if \<not> rq_confirm req
      then Inl (Err ''acknowledge that project members share administrative loopback access'')
      else if \<not> valid_label (rq_label req)
      then Inl (Err ''project label must contain 1..128 UTF-8 bytes without control characters'')
      else if length (items (rq_members req)) > 256
      then Inl (Err ''a fake project allows up to 256 distinct fresh galaxy members'')
      else case build_members res 0 [] [] [] (sort_key mr_instance (items (rq_members req))) of
        Inl e \<Rightarrow> Inl e
      | Inr ms \<Rightarrow> Inr \<lparr>pl_mode = fake_galaxies, pl_label = rq_label req, pl_members = Slice ms,
                      pl_bind = ''127.0.0.1'', pl_shared = True\<rparr>)"

definition json_key :: "string \<Rightarrow> string" where
  "json_key k = dquote # k @ [dquote, CHR '':'']"

definition member_json :: "project_member \<Rightarrow> string" where
  "member_json m = ''{'' @ json_key ''instance_id'' @ json_string (mr_instance m)
     @ '','' @ json_key ''ship'' @ json_string (mr_ship m)
     @ '','' @ json_key ''http_port'' @ dec (unat (mr_http m))
     @ '','' @ json_key ''internal_http_port'' @ dec (unat (mb_internal m)) @ ''}''"

fun members_json :: "project_member slice \<Rightarrow> string" where
  "members_json NilSlice = ''null''"
| "members_json (Slice ms) = ''['' @ join_with CHR '','' (map member_json ms) @ '']''"

definition plan_json :: "project_plan \<Rightarrow> string" where
  "plan_json p = ''{'' @ json_key ''mode'' @ json_string (pl_mode p)
     @ '','' @ json_key ''label'' @ json_string (pl_label p)
     @ '','' @ json_key ''members'' @ members_json (pl_members p)
     @ '','' @ json_key ''bind_address'' @ json_string (pl_bind p)
     @ '','' @ json_key ''shared_administration'' @ json_bool (pl_shared p) @ ''}''"

definition no_reservations :: reservations where
  "no_reservations = \<lparr>rv_instances = (\<lambda>_. False), rv_ports = (\<lambda>_. False)\<rparr>"

definition plan_digest :: "project_plan \<Rightarrow> gerr + string" where
  "plan_digest p =
     (let request = \<lparr>rq_label = pl_label p,
            rq_members = slice_append NilSlice (map member_request.truncate (items (pl_members p))),
            rq_confirm = pl_shared p\<rparr>
      in case build_plan request no_reservations of
        Inl e \<Rightarrow> Inl e
      | Inr rebuilt \<Rightarrow>
          if plan_json p \<noteq> plan_json rebuilt
          then Inl (Err ''project plan does not match its canonical endpoint contract'')
          else Inr (sha256_hex (''omabit-project-plan-v1'' @ CHR 0x00 # plan_json p)))"

section \<open>The contract\<close>

definition member_ok :: "('a) member_request_scheme \<Rightarrow> bool" where
  "member_ok m \<longleftrightarrow> valid_id (mr_instance m) \<and> length (mr_ship m) = 4 \<and> mr_ship m ! 0 = CHR ''~''
     \<and> valid_fake_ship (mr_ship m) \<and> 1024 \<le> mr_http m"

definition members_ok :: "project_member list \<Rightarrow> bool" where
  "members_ok ms \<longleftrightarrow> length ms \<le> 256 \<and> list_all member_ok ms \<and> sorted_wrt (<) (map mr_instance ms)
     \<and> distinct (map mr_ship ms) \<and> distinct (map mr_http ms)
     \<and> map mb_internal ms = map (\<lambda>i. of_nat (8080 + i)) [0..<length ms]"

definition canonical_plan :: "project_plan \<Rightarrow> bool" where
  "canonical_plan p \<longleftrightarrow> pl_mode p = fake_galaxies \<and> valid_label (pl_label p) \<and> pl_bind p = ''127.0.0.1''
     \<and> pl_shared p \<and> pl_members p \<noteq> NilSlice \<and> members_ok (items (pl_members p))"

definition unreserved :: "reservations \<Rightarrow> ('a) member_request_scheme \<Rightarrow> bool" where
  "unreserved res m \<longleftrightarrow> \<not> rv_instances res (mr_instance m) \<and> \<not> rv_ports res (mr_http m)"

lemma truncate_sel [simp]:
  "mr_instance (member_request.truncate m) = mr_instance m" "mr_ship (member_request.truncate m) = mr_ship m"
  "mr_http (member_request.truncate m) = mr_http m"
  by (simp_all add: member_request.truncate_def)

lemma truncate_inject: "member_request.truncate m = member_request.truncate n \<longleftrightarrow>
    mr_instance m = mr_instance n \<and> mr_ship m = mr_ship n \<and> mr_http m = mr_http n"
  by (auto simp: member_request.truncate_def)

lemma extend_sel [simp]:
  fixes m :: member_request
  shows "mr_instance (member_request.extend m x) = mr_instance m" "mr_ship (member_request.extend m x) = mr_ship m"
    "mr_http (member_request.extend m x) = mr_http m"
    "mb_internal (member_request.extend m (project_member.fields p)) = p"
    "member_request.truncate (member_request.extend m x) = m"
  by (simp_all add: member_request.extend_def project_member.fields_def member_request.truncate_def)

lemma build_members_iff:
  "build_members res i ids ships ports ms = Inr out \<longleftrightarrow>
     map member_request.truncate out = ms \<and> map mb_internal out = map (\<lambda>k. of_nat (8080 + k)) [i..<i + length ms]
     \<and> list_all member_ok ms \<and> list_all (unreserved res) ms
     \<and> all_fresh mr_instance ids ms \<and> all_fresh mr_ship ships ms \<and> all_fresh mr_http ports ms"
proof (induction ms arbitrary: i ids ships ports out)
  case (Cons m ms)
  have r: "(case B of Inl e \<Rightarrow> Inl e | Inr rest \<Rightarrow> Inr (z # rest)) = Inr out
      \<longleftrightarrow> (\<exists>ys. out = z # ys \<and> B = Inr ys)" for B :: "gerr + project_member list" and z
    by (cases B) auto
  have y: "y = member_request.extend m (project_member.fields j) \<longleftrightarrow>
      member_request.truncate y = m \<and> mb_internal y = j" for y j
    by (cases y; cases m) (auto simp: member_request.extend_def project_member.fields_def member_request.truncate_def)
  have i: "P (member_request.extend m (project_member.fields j)) \<longleftrightarrow>
      (\<forall>y. member_request.truncate y = m \<and> mb_internal y = j \<longrightarrow> P y)" for P j
    by (simp flip: y)
  show ?case
    unfolding build_members.simps
    by (auto simp: r Cons.IH member_ok_def unreserved_def upt_conv_Cons not_less map_eq_Cons_conv y simp del: upt_Suc)
qed (auto simp: upt_rec)

section \<open>The builder\<close>

lemma sorted_strict: "distinct (map f xs) \<Longrightarrow> sorted (map f xs) \<longleftrightarrow> sorted_wrt (<) (map f xs)"
  by (simp add: strict_sorted_iff)

lemma strict_sort_id:
  "sorted_wrt (<) (map f xs) \<Longrightarrow> mset xs = mset ys \<Longrightarrow> sort_key f ys = xs"
  using sort_key_perm_unique [of xs ys f] by (simp add: strict_sorted_iff sort_key_id_if_sorted)

lemma member_ok_truncate [simp]: "member_ok (member_request.truncate m) = member_ok m"
  by (simp add: member_ok_def)

lemma unreserved_truncate [simp]: "unreserved res (member_request.truncate m) = unreserved res m"
  by (simp add: unreserved_def)

lemma map_truncate [simp]:
  "map mr_instance (map member_request.truncate ms) = map mr_instance ms"
  "map mr_ship (map member_request.truncate ms) = map mr_ship ms"
  "map mr_http (map member_request.truncate ms) = map mr_http ms"
  by simp_all

lemma build_sorted_iff:
  "build_members res 0 [] [] [] (sort_key mr_instance rs) = Inr out \<and> length rs \<le> 256 \<longleftrightarrow>
     members_ok out \<and> mset (map member_request.truncate out) = mset rs \<and> list_all (unreserved res) rs"
  (is "?l \<longleftrightarrow> ?r")
proof
  assume l: ?l
  then have t: "map member_request.truncate out = sort_key mr_instance rs"
    and fresh: "distinct (map mr_instance (sort_key mr_instance rs))" "distinct (map mr_ship (sort_key mr_instance rs))"
      "distinct (map mr_http (sort_key mr_instance rs))"
    and ok: "list_all member_ok (sort_key mr_instance rs)" "list_all (unreserved res) (sort_key mr_instance rs)"
      "map mb_internal out = map (\<lambda>k. of_nat (8080 + k)) [0..<length rs]"
    by (auto simp: build_members_iff all_fresh_iff)
  have len: "length out = length rs" using arg_cong [OF t, of length] by simp
  have "sorted (map mr_instance out)" using arg_cong [OF t, of "map mr_instance"]
    by (metis map_truncate(1) sorted_sort_key)
  moreover have "distinct (map mr_instance out)" "distinct (map mr_ship out)" "distinct (map mr_http out)"
    using fresh unfolding t [symmetric] map_truncate by blast+
  moreover have "list_all member_ok out"
    using ok(1) unfolding t [symmetric] by (simp add: list.pred_map comp_def)
  ultimately have "members_ok out" using ok(3) len l by (simp add: members_ok_def strict_sorted_iff)
  moreover have "mset (map member_request.truncate out) = mset rs" unfolding t by simp
  moreover have "list_all (unreserved res) rs" using ok(2) by (simp add: list_all_iff)
  ultimately show ?r by blast
next
  assume r: ?r
  then have s: "sorted_wrt (<) (map mr_instance (map member_request.truncate out))"
    unfolding map_truncate by (simp add: members_ok_def)
  have t: "sort_key mr_instance rs = map member_request.truncate out"
    using r by (intro strict_sort_id [OF s]) simp
  have len: "length rs = length out" using arg_cong [OF t, of length] by simp
  have "list_all (unreserved res) (sort_key mr_instance rs)" using r by (simp add: list_all_iff)
  moreover have "list_all member_ok (map member_request.truncate out)"
    using r by (simp add: members_ok_def list.pred_map comp_def)
  ultimately show ?l using r s len unfolding t
    by (simp add: build_members_iff all_fresh_iff members_ok_def strict_sorted_iff comp_def)
qed

lemma build_plan_iff:
  "build_plan req res = Inr p \<longleftrightarrow> rq_confirm req \<and> canonical_plan p \<and> pl_label p = rq_label req
     \<and> mset (map member_request.truncate (items (pl_members p))) = mset (items (rq_members req))
     \<and> list_all (unreserved res) (items (rq_members req))"
proof -
  have s: "pl_members p \<noteq> NilSlice \<longleftrightarrow> pl_members p = Slice (items (pl_members p))"
    by (cases "pl_members p") auto
  have "build_plan req res = Inr p \<longleftrightarrow> rq_confirm req \<and> valid_label (rq_label req)
      \<and> (\<exists>ms. (build_members res 0 [] [] [] (sort_key mr_instance (items (rq_members req))) = Inr ms
          \<and> length (items (rq_members req)) \<le> 256)
        \<and> p = \<lparr>pl_mode = fake_galaxies, pl_label = rq_label req, pl_members = Slice ms,
              pl_bind = ''127.0.0.1'', pl_shared = True\<rparr>)"
    by (auto simp: build_plan_def split: sum.splits)
  then show ?thesis unfolding build_sorted_iff canonical_plan_def s
    by (cases p) auto
qed

section \<open>The JSON of a plan determines it\<close>

definition member_plain :: "project_member \<Rightarrow> bool" where
  "member_plain m \<longleftrightarrow> json_plain (mr_instance m) \<and> json_plain (mr_ship m)"

lemma member_json_prefix:
  assumes "member_json a @ x = member_json b @ y" "member_plain b"
  shows "a = b \<and> x = y"
proof -
  have "json_string (mr_instance a) @ '','' @ json_key ''ship'' @ json_string (mr_ship a)
     @ '','' @ json_key ''http_port'' @ dec (unat (mr_http a))
     @ '','' @ json_key ''internal_http_port'' @ dec (unat (mb_internal a)) @ ''}'' @ x
    = json_string (mr_instance b) @ '','' @ json_key ''ship'' @ json_string (mr_ship b)
     @ '','' @ json_key ''http_port'' @ dec (unat (mr_http b))
     @ '','' @ json_key ''internal_http_port'' @ dec (unat (mb_internal b)) @ ''}'' @ y"
    using assms(1) by (simp add: member_json_def)
  from json_string_plain [OF this] assms(2) have i: "mr_instance a = mr_instance b"
    and "json_string (mr_ship a)
     @ '','' @ json_key ''http_port'' @ dec (unat (mr_http a))
     @ '','' @ json_key ''internal_http_port'' @ dec (unat (mb_internal a)) @ ''}'' @ x
    = json_string (mr_ship b)
     @ '','' @ json_key ''http_port'' @ dec (unat (mr_http b))
     @ '','' @ json_key ''internal_http_port'' @ dec (unat (mb_internal b)) @ ''}'' @ y"
    by (simp_all add: member_plain_def)
  from json_string_plain [OF this(2)] assms(2) have s: "mr_ship a = mr_ship b"
    and "dec (unat (mr_http a)) @ '','' @ json_key ''internal_http_port'' @ dec (unat (mb_internal a)) @ ''}'' @ x
    = dec (unat (mr_http b)) @ '','' @ json_key ''internal_http_port'' @ dec (unat (mb_internal b)) @ ''}'' @ y"
    by (simp_all add: member_plain_def)
  from dec_prefix [OF this(2)] have h: "mr_http a = mr_http b"
    and "dec (unat (mb_internal a)) @ ''}'' @ x = dec (unat (mb_internal b)) @ ''}'' @ y"
    by (simp_all add: word_unat_eq_iff)
  from dec_prefix [OF this(2)] have "mb_internal a = mb_internal b" "x = y" by (simp_all add: word_unat_eq_iff)
  with i s h show ?thesis by (cases a; cases b) simp
qed

lemma member_lists_json:
  assumes "join_with CHR '','' (map member_json as) @ x = join_with CHR '','' (map member_json bs) @ y"
    "length as = length bs" "list_all member_plain bs"
  shows "as = bs \<and> x = y"
  using assms
proof (induction as arbitrary: bs)
  case (Cons a as)
  then obtain b bs' where bs: "bs = b # bs'" by (cases bs) auto
  show ?case
  proof (cases as)
    case Nil
    with Cons.prems bs show ?thesis using member_json_prefix [of a x b y] by auto
  next
    case (Cons a2 as2)
    with Cons.prems(2) bs obtain b2 bs2 where b2: "bs' = b2 # bs2" by (cases bs') auto
    have "member_json a @ '','' @ join_with CHR '','' (map member_json as) @ x
      = member_json b @ '','' @ join_with CHR '','' (map member_json bs') @ y"
      using Cons.prems(1) bs Cons b2 by simp
    from member_json_prefix [OF this] Cons.prems(3) bs
    have "a = b" "join_with CHR '','' (map member_json as) @ x = join_with CHR '','' (map member_json bs') @ y"
      by simp_all
    with Cons.IH [of bs'] Cons.prems(2,3) bs show ?thesis by simp
  qed
qed auto

lemma id_char_plain: "valid_id_char c \<Longrightarrow> json_plain_char c"
proof -
  define n where "n = (of_char c :: nat)"
  assume "valid_id_char c"
  then have "97 \<le> n \<and> n \<le> 122 \<or> 65 \<le> n \<and> n \<le> 90 \<or> 48 \<le> n \<and> n \<le> 57 \<or> n = 95 \<or> n = 45"
    by (auto simp: n_def valid_id_char_def is_lower_def is_upper_def is_digit_def char_in_def less_eq_char_def)
  then show ?thesis by (auto simp: json_plain_char_def Let_def simp flip: n_def)
qed

lemma valid_id_plain: "valid_id s \<Longrightarrow> json_plain s"
  by (auto simp: valid_id_def json_plain_def list_all_iff id_char_plain)

definition lower_code :: "int \<Rightarrow> bool" where
  "lower_code n \<longleftrightarrow> 97 \<le> n div 65536 \<and> n div 65536 \<le> 122 \<and> 97 \<le> n div 256 mod 256 \<and> n div 256 mod 256 \<le> 122
     \<and> 97 \<le> n mod 256 \<and> n mod 256 \<le> 122"

lemma syllable_codes_lower: "list_all lower_code (map syllable_code (chunks3 ship_suffixes))"
    "list_all lower_code (map syllable_code (chunks3 ship_prefixes))"
  unfolding suffix_codes prefix_codes by (simp_all add: lower_code_def)

lemma code_bytes:
  fixes x y z :: int
  assumes "0 \<le> x" "x < 256" "0 \<le> y" "y < 256" "0 \<le> z" "z < 256"
  shows "(x * 65536 + y * 256 + z) div 65536 = x" "(x * 65536 + y * 256 + z) div 256 mod 256 = y"
    "(x * 65536 + y * 256 + z) mod 256 = z"
proof -
  have n: "x * 65536 + y * 256 + z = z + (x * 256 + y) * 256" by simp
  have d: "(x * 65536 + y * 256 + z) div 256 = y + x * 256" unfolding n by (subst div_mult_self1) (use assms in simp_all)
  show "(x * 65536 + y * 256 + z) mod 256 = z" unfolding n by (subst mod_mult_self1) (use assms in simp)
  show "(x * 65536 + y * 256 + z) div 256 mod 256 = y" unfolding d using assms by simp
  have "(x * 65536 + y * 256 + z) div 65536 = (x * 65536 + y * 256 + z) div 256 div 256"
    using zdiv_zmult2_eq [of 256 "x * 65536 + y * 256 + z" 256] by simp
  then show "(x * 65536 + y * 256 + z) div 65536 = x" unfolding d using assms by simp
qed

lemma lower_plain:
  assumes "97 \<le> (of_char c :: int)" "(of_char c :: int) \<le> 122"
  shows "json_plain_char c"
proof -
  define n where "n = (of_char c :: nat)"
  have "int n = of_char c" unfolding n_def by (rule of_nat_of_char)
  with assms have "97 \<le> n" "n \<le> 122" by linarith+
  then show ?thesis by (simp add: json_plain_char_def Let_def flip: n_def)
qed

lemma syllable_plain:
  assumes "w \<in> set (chunks3 ship_suffixes) \<or> w \<in> set (chunks3 ship_prefixes)"
  shows "json_plain w"
proof -
  have b: "of_char (c :: char) < (256 :: int)" "0 \<le> (of_char c :: int)" for c
    using of_char_mod_256 [of c, where 'a = int] pos_mod_bound [of 256 "of_char c :: int"]
      pos_mod_sign [of 256 "of_char c :: int"] by linarith+
  from assms have "length w = 3" by (auto simp: chunks3_sets)
  then obtain x y z where w: "w = [x, y, z]"
    by (auto simp: numeral_3_eq_3 length_Suc_conv)
  from assms syllable_codes_lower have "lower_code (syllable_code w)" by (auto simp: list_all_iff)
  then have "97 \<le> (of_char x :: int) \<and> (of_char x :: int) \<le> 122 \<and> 97 \<le> (of_char y :: int) \<and> (of_char y :: int) \<le> 122
      \<and> 97 \<le> (of_char z :: int) \<and> (of_char z :: int) \<le> 122"
    using code_bytes [of "of_char x" "of_char y" "of_char z"] b unfolding lower_code_def syllable_code_def w
    by simp
  then have "json_plain_char x \<and> json_plain_char y \<and> json_plain_char z"
    by (simp add: lower_plain)
  then show ?thesis by (simp add: json_plain_def w)
qed

lemma json_plain_append [simp]: "json_plain (s @ t) \<longleftrightarrow> json_plain s \<and> json_plain t"
  by (simp add: json_plain_def)

lemma ship_words_plain: "ship_words n i ws = Some s \<Longrightarrow> json_plain s"
proof (induction n i ws arbitrary: s rule: ship_words.induct)
  case (2 n i w ws)
  then obtain r where r: "ship_words n (i + 1) ws = Some r" "has_syllable ship_prefixes (take 3 w)" "has_syllable ship_suffixes (drop 3 w)"
    and s: "s = (if i > 0 then (if (n - i) mod 4 = 0 then ''--'' else ''-'') else '''') @ w @ r"
    by (auto split: if_splits)
  have "json_plain (take 3 w @ drop 3 w)" using r(2,3) unfolding json_plain_append by (simp add: has_syllable_def syllable_plain)
  moreover have "json_plain ''--''" "json_plain ''-''" "json_plain ''''" by (simp_all add: json_plain_def json_plain_char_def)
  moreover have "json_plain r" using 2 r(1) by (auto split: if_splits)
  ultimately show ?case unfolding s by simp
qed (simp add: json_plain_def)

lemma ship_plain:
  assumes "valid_fake_ship s"
  shows "json_plain s"
proof -
  have "s ! 0 = CHR ''~''" "s \<noteq> []" using assms unfolding valid_fake_ship_def by (auto split: if_splits)
  then have s: "s = CHR ''~'' # drop 1 s" by (cases s) simp_all
  have "has_syllable ship_suffixes (drop 1 s) \<or> (\<exists>n ws. ship_words n 0 ws = Some (drop 1 s))"
    using assms unfolding valid_fake_ship_def Let_def by (auto split: if_splits)
  then have "json_plain (drop 1 s)" using ship_words_plain by (auto simp: has_syllable_def syllable_plain)
  moreover have "json_plain_char CHR ''~''" by (simp add: json_plain_char_def)
  ultimately show ?thesis using s by (metis json_plain_def list.pred_inject(2))
qed

lemma member_ok_plain: "member_ok m \<Longrightarrow> member_plain m"
  by (simp add: member_ok_def member_plain_def valid_id_plain ship_plain)

lemma plain_words: "json_plain fake_galaxies" "json_plain ''127.0.0.1''"
  by (simp_all add: json_plain_def json_plain_char_def fake_galaxies_def)

text \<open>A plan with the JSON of a canonical plan of the same label and size is that plan.\<close>

lemma plan_json_inj:
  assumes "plan_json p = plan_json q" "canonical_plan q" "pl_label p = pl_label q"
    "length (items (pl_members p)) = length (items (pl_members q))"
    "pl_shared p = pl_shared q"
  shows "p = q"
proof -
  obtain qs where q: "pl_members q = Slice qs" "list_all member_plain qs" "pl_mode q = fake_galaxies" "pl_bind q = ''127.0.0.1''"
    using assms(2) by (cases "pl_members q")
      (auto simp: canonical_plan_def members_ok_def list_all_iff member_ok_plain)
  from assms(1) have "json_string (pl_mode p) @ '','' @ json_key ''label'' @ json_string (pl_label p)
     @ '','' @ json_key ''members'' @ members_json (pl_members p)
     @ '','' @ json_key ''bind_address'' @ json_string (pl_bind p)
     @ '','' @ json_key ''shared_administration'' @ json_bool (pl_shared p) @ ''}''
    = json_string (pl_mode q) @ '','' @ json_key ''label'' @ json_string (pl_label q)
     @ '','' @ json_key ''members'' @ members_json (pl_members q)
     @ '','' @ json_key ''bind_address'' @ json_string (pl_bind q)
     @ '','' @ json_key ''shared_administration'' @ json_bool (pl_shared q) @ ''}''"
    by (simp add: plan_json_def)
  from json_string_plain [OF this] plain_words q(3) assms(3)
  have mode: "pl_mode p = pl_mode q" and rest: "members_json (pl_members p)
     @ '','' @ json_key ''bind_address'' @ json_string (pl_bind p)
     @ '','' @ json_key ''shared_administration'' @ json_bool (pl_shared p) @ ''}''
    = members_json (pl_members q)
     @ '','' @ json_key ''bind_address'' @ json_string (pl_bind q)
     @ '','' @ json_key ''shared_administration'' @ json_bool (pl_shared q) @ ''}''"
    by simp_all
  obtain ps where p: "pl_members p = Slice ps"
    using rest q(1) by (cases "pl_members p") simp_all
  have "join_with CHR '','' (map member_json ps) @ CHR '']'' # '','' @ json_key ''bind_address'' @ json_string (pl_bind p)
     @ '','' @ json_key ''shared_administration'' @ json_bool (pl_shared p) @ ''}''
   = join_with CHR '','' (map member_json qs) @ CHR '']'' # '','' @ json_key ''bind_address'' @ json_string (pl_bind q)
     @ '','' @ json_key ''shared_administration'' @ json_bool (pl_shared q) @ ''}''"
    using rest unfolding p q(1) by simp
  from member_lists_json [OF this] assms(4) p q(1,2) have ms: "ps = qs"
    and "json_string (pl_bind p) @ '','' @ json_key ''shared_administration'' @ json_bool (pl_shared p) @ ''}''
      = json_string (pl_bind q) @ '','' @ json_key ''shared_administration'' @ json_bool (pl_shared q) @ ''}''"
    by simp_all
  from json_string_plain [OF this(2)] plain_words q(4) have "pl_bind p = pl_bind q" by simp
  with mode ms p q(1) assms(3,5) show ?thesis by (cases p; cases q) simp
qed

definition digest_of :: "project_plan \<Rightarrow> string" where
  "digest_of p = sha256_hex (''omabit-project-plan-v1'' @ CHR 0x00 # plan_json p)"

lemma plan_digest_iff: "plan_digest p = Inr d \<longleftrightarrow> canonical_plan p \<and> d = digest_of p"
proof -
  define req where "req = \<lparr>rq_label = pl_label p,
    rq_members = slice_append NilSlice (map member_request.truncate (items (pl_members p))), rq_confirm = pl_shared p\<rparr>"
  have none: "list_all (unreserved no_reservations) ms" for ms :: "member_request list"
    by (simp add: list_all_iff unreserved_def no_reservations_def)
  have un: "plan_digest p = (case build_plan req no_reservations of Inl e \<Rightarrow> Inl e
    | Inr r \<Rightarrow> if plan_json p \<noteq> plan_json r then Inl (Err ''project plan does not match its canonical endpoint contract'')
        else Inr (digest_of p))"
    unfolding plan_digest_def req_def digest_of_def Let_def by (rule refl)
  show ?thesis
  proof
    assume "plan_digest p = Inr d"
    then obtain r where r: "build_plan req no_reservations = Inr r" "plan_json p = plan_json r" "d = digest_of p"
      unfolding un by (auto split: sum.splits if_splits)
    from r(1) have c: "canonical_plan r" "pl_label p = pl_label r" "pl_shared p"
      and m: "mset (map member_request.truncate (items (pl_members r))) = mset (map member_request.truncate (items (pl_members p)))"
      by (auto simp: build_plan_iff req_def)
    have "p = r" using plan_json_inj [OF r(2) c(1,2)] arg_cong [OF m, of size] c
      by (simp add: canonical_plan_def)
    with c r(3) show "canonical_plan p \<and> d = digest_of p" by simp
  next
    assume c: "canonical_plan p \<and> d = digest_of p"
    then have "build_plan req no_reservations = Inr p"
      by (auto simp: build_plan_iff req_def none canonical_plan_def)
    with c show "plan_digest p = Inr d" unfolding un by simp
  qed
qed

lemma digest_of_hex [simp]: "hex_string 64 (digest_of p)"
  by (simp add: digest_of_def)

section \<open>Properties\<close>

text \<open>
  C22. A plan is built exactly when the request is confirmed, its label is valid, no member is
  reserved and its members can be ordered into a canonical plan: the result holds exactly the
  requested members, in the order of their ids, on the internal ports from 8080.
\<close>

theorem build_exact:
  "build_plan req res = Inr p \<longleftrightarrow> rq_confirm req \<and> canonical_plan p \<and> pl_label p = rq_label req
     \<and> mset (map member_request.truncate (items (pl_members p))) = mset (items (rq_members req))
     \<and> list_all (unreserved res) (items (rq_members req))"
  by (rule build_plan_iff)

text \<open>
  C23. Only canonical plans have a digest, and it is the hash of their JSON: comparing the JSON of
  a plan with that of its rebuild is as strong as comparing the plans.
\<close>

theorem digest_exact: "plan_digest p = Inr d \<longleftrightarrow> canonical_plan p \<and> d = digest_of p"
  by (rule plan_digest_iff)

end
