(* ===== verification/Runtime.thy ===== *)
theory Runtime
  imports ProjectPlan
begin

text \<open>
  \<open>internal/projectnetwork/runtime.go\<close>: the recorded runtime binding of a project and the
  assessment of one observation of its containers against it. Embedded Go structs are record
  extensions; slices keep nil and empty apart because later code compares them by
  \<open>reflect.DeepEqual\<close>.
\<close>

section \<open>Data\<close>

record resource_identity =
  ri_id :: string
  ri_contract :: string

record namespace_identity =
  ni_boot :: string
  ni_device :: u64
  ni_inode :: u64

record runtime_member =
  rm_instance :: string
  rm_runtime :: string
  rm_container :: resource_identity

record runtime_binding =
  rb_project :: string
  rb_revision :: u64
  rb_generation :: u64
  rb_digest :: string
  rb_engine :: string
  rb_bridge :: resource_identity
  rb_anchor :: resource_identity
  rb_namespace :: namespace_identity
  rb_members :: "runtime_member slice"

record resource_observation =
  ro_resource :: resource_identity
  ro_present :: bool

record publication =
  pb_internal :: u16
  pb_address :: string
  pb_port :: u16
  pb_protocol :: string

record anchor_observation = resource_observation +
  ao_running :: bool
  ao_namespace :: namespace_identity
  ao_bridge :: string
  ao_requested :: "publication slice"
  ao_active :: "publication slice"

record member_observation = resource_observation +
  mo_instance :: string
  mo_running :: bool
  mo_anchor :: string
  mo_namespace :: namespace_identity

record observation =
  ob_project :: string
  ob_revision :: u64
  ob_generation :: u64
  ob_engine :: string
  ob_time :: gotime
  ob_complete :: bool
  ob_bridge :: resource_observation
  ob_attachments :: "string slice"
  ob_anchor :: anchor_observation
  ob_members :: "member_observation slice"

record assessment =
  as_state :: string
  as_recovery :: bool
  as_running :: "string slice"
  as_stopped :: "string slice"
  as_recorded :: namespace_identity
  as_observed :: namespace_identity

section \<open>The code\<close>

definition runtime_error :: "string \<Rightarrow> gerr" where
  "runtime_error reason =
     Err (''project runtime observation cannot establish ownership and readiness: '' @ reason)"

definition no_namespace :: namespace_identity where
  "no_namespace = \<lparr>ni_boot = '''', ni_device = 0, ni_inode = 0\<rparr>"

text \<open>\<open>^[0-9a-f]{8}-[0-9a-f]{4}-[0-9a-f]{4}-[0-9a-f]{4}-[0-9a-f]{12}$\<close>\<close>

definition boot_pattern :: "string \<Rightarrow> bool" where
  "boot_pattern s \<longleftrightarrow> length s = 36
     \<and> hex_string 8 (take 8 s) \<and> s ! 8 = CHR ''-'' \<and> hex_string 4 (take 4 (drop 9 s)) \<and> s ! 13 = CHR ''-''
     \<and> hex_string 4 (take 4 (drop 14 s)) \<and> s ! 18 = CHR ''-'' \<and> hex_string 4 (take 4 (drop 19 s))
     \<and> s ! 23 = CHR ''-'' \<and> hex_string 12 (drop 24 s)"

definition valid_resource :: "resource_identity \<Rightarrow> bool" where
  "valid_resource r \<longleftrightarrow> hex_string 64 (ri_id r) \<and> hex_string 64 (ri_contract r)"

definition valid_namespace :: "namespace_identity \<Rightarrow> bool" where
  "valid_namespace n \<longleftrightarrow> boot_pattern (ni_boot n) \<and> ni_device n \<noteq> 0 \<and> ni_inode n \<noteq> 0"

definition valid_engine :: "string \<Rightarrow> bool" where
  "valid_engine i \<longleftrightarrow> i \<noteq> '''' \<and> length i \<le> 256 \<and> \<not> any_rune is_space i \<and> \<not> any_rune is_control i"

definition plan_members :: "project_plan \<Rightarrow> project_member list" where
  "plan_members p = items (pl_members p)"

fun binding_members_ok ::
  "string list \<Rightarrow> string list \<Rightarrow> (runtime_member \<times> project_member) list \<Rightarrow> bool" where
  "binding_members_ok ids runtimes [] = True"
| "binding_members_ok ids runtimes ((m, p) # ms) =
     (\<not> (rm_instance m \<noteq> mr_instance p \<or> \<not> hex_string 32 (rm_runtime m) \<or> rm_runtime m \<in> set runtimes
         \<or> \<not> valid_resource (rm_container m) \<or> ri_id (rm_container m) \<in> set ids)
      \<and> binding_members_ok (ri_id (rm_container m) # ids) (rm_runtime m # runtimes) ms)"

definition binding_validate :: "runtime_binding \<Rightarrow> project_plan \<Rightarrow> gerr option" where
  "binding_validate b plan =
     (if (case plan_digest plan of Inl _ \<Rightarrow> True | Inr digest \<Rightarrow> digest \<noteq> rb_digest b)
         \<or> \<not> valid_id (rb_project b) \<or> rb_revision b = 0 \<or> rb_generation b = 0
         \<or> \<not> valid_engine (rb_engine b) \<or> \<not> valid_resource (rb_bridge b) \<or> \<not> valid_resource (rb_anchor b)
         \<or> \<not> valid_namespace (rb_namespace b)
         \<or> length (items (rb_members b)) \<noteq> length (plan_members plan)
      then Some (runtime_error ''invalid recorded binding'')
      else if ri_id (rb_bridge b) = ri_id (rb_anchor b) then Some (runtime_error ''duplicate resource'')
      else if \<not> binding_members_ok [ri_id (rb_bridge b), ri_id (rb_anchor b)] []
                (zip (items (rb_members b)) (plan_members plan))
      then Some (runtime_error ''invalid recorded membership'') else None)"

definition member_publication :: "project_plan \<Rightarrow> project_member \<Rightarrow> publication" where
  "member_publication plan m = \<lparr>pb_internal = mb_internal m, pb_address = pl_bind plan,
     pb_port = mr_http m, pb_protocol = ''tcp''\<rparr>"

text \<open>The loop deletes every expected publication it has seen.\<close>

fun publications_match :: "publication set \<Rightarrow> publication list \<Rightarrow> bool" where
  "publications_match expected [] = (expected = {})"
| "publications_match expected (p # ps) = (p \<in> expected \<and> publications_match (expected - {p}) ps)"

definition same_publications :: "project_plan \<Rightarrow> publication slice \<Rightarrow> bool" where
  "same_publications plan actual \<longleftrightarrow> length (items actual) = length (plan_members plan)
     \<and> publications_match (set (map (member_publication plan) (plan_members plan))) (items actual)"

definition exact_resource :: "resource_identity \<Rightarrow> ('a) resource_observation_scheme \<Rightarrow> bool" where
  "exact_resource want got =
     (if \<not> ro_present got then ri_id (ro_resource got) = ri_id want \<and> ri_contract (ro_resource got) = ''''
      else ro_resource got = want)"

record member_scan =
  sc_expected :: "runtime_member list"
  sc_running :: "string slice"
  sc_stopped :: "string slice"
  sc_missing :: bool
  sc_other :: bool

fun scan_members :: "runtime_binding \<Rightarrow> member_observation list \<Rightarrow> member_scan \<Rightarrow> gerr + member_scan" where
  "scan_members b [] st = Inr st"
| "scan_members b (m # ms) st =
     (case find (\<lambda>w. rm_instance w = mo_instance m) (sc_expected st) of
        None \<Rightarrow> Inl (runtime_error ''unexpected member or container'')
      | Some want \<Rightarrow>
          if \<not> exact_resource (rm_container want) m
          then Inl (runtime_error ''unexpected member or container'')
          else let st = st\<lparr>sc_expected := filter (\<lambda>w. rm_instance w \<noteq> mo_instance m) (sc_expected st)\<rparr>
          in if \<not> ro_present m then
               (if mo_running m \<or> mo_namespace m \<noteq> no_namespace \<or> mo_anchor m \<noteq> ''''
                then Inl (runtime_error ''inconsistent missing member'')
                else scan_members b ms (st\<lparr>sc_missing := True\<rparr>))
             else if mo_anchor m \<noteq> ri_id (rb_anchor b)
             then Inl (runtime_error ''member attached to another anchor'')
             else if mo_running m then
               (if \<not> valid_namespace (mo_namespace m)
                then Inl (runtime_error ''running member lacks namespace identity'')
                else scan_members b ms
                  (st\<lparr>sc_running := slice_append (sc_running st) [mo_instance m],
                      sc_other := sc_other st \<or> mo_namespace m \<noteq> rb_namespace b\<rparr>))
             else
               (if mo_namespace m \<noteq> no_namespace
                then Inl (runtime_error ''stopped member has live namespace'')
                else scan_members b ms (st\<lparr>sc_stopped := slice_append (sc_stopped st) [mo_instance m]\<rparr>)))"

text \<open>The state of a consistent observation, from its bridge and anchor and the member scan.\<close>

definition assess_state ::
  "project_plan \<Rightarrow> runtime_binding \<Rightarrow> observation \<Rightarrow> member_scan \<Rightarrow> gerr + string" where
  "assess_state plan b obs st =
     (let anchor = ob_anchor obs; attached = items (ob_attachments obs)
      in if \<not> ro_present (ob_bridge obs) then
           (if attached \<noteq> [] \<or> ao_running anchor then Inl (runtime_error ''inconsistent missing bridge'')
            else Inr ''bridge-unavailable'')
         else if \<not> ro_present anchor \<or> \<not> ao_running anchor then Inr ''anchor-unavailable''
         else if ao_bridge anchor \<noteq> ri_id (rb_bridge b) \<or> length attached \<noteq> 1
                 \<or> \<not> valid_namespace (ao_namespace anchor) \<or> \<not> same_publications plan (ao_requested anchor)
         then Inl (runtime_error ''anchor topology or requested publications changed'')
         else Inr (if ao_namespace anchor \<noteq> rb_namespace b then ''namespace-changed''
                   else if sc_other st then ''member-namespace-changed''
                   else if \<not> same_publications plan (ao_active anchor) then ''publication-unavailable''
                   else if sc_missing st then ''member-unavailable''
                   else if items (sc_stopped st) \<noteq> [] then ''member-stopped'' else ''ready''))"

text \<open>What an absent or stopped anchor may still report.\<close>

definition anchor_remains :: "project_plan \<Rightarrow> runtime_binding \<Rightarrow> observation \<Rightarrow> gerr option" where
  "anchor_remains plan b obs =
     (let anchor = ob_anchor obs; attached = items (ob_attachments obs)
      in if \<not> ro_present anchor then
           check (\<not> (ao_running anchor \<or> ao_namespace anchor \<noteq> no_namespace \<or> ao_bridge anchor \<noteq> ''''
                     \<or> items (ao_requested anchor) \<noteq> [] \<or> items (ao_active anchor) \<noteq> [] \<or> attached \<noteq> []))
             (''project runtime observation cannot establish ownership and readiness: ''
              @ ''inconsistent missing anchor'')
         else if \<not> ao_running anchor then
           check (\<not> (ao_namespace anchor \<noteq> no_namespace \<or> items (ao_active anchor) \<noteq> [] \<or> attached \<noteq> []
                     \<or> ao_bridge anchor \<noteq> ri_id (rb_bridge b) \<or> \<not> same_publications plan (ao_requested anchor)))
             (''project runtime observation cannot establish ownership and readiness: ''
              @ ''inconsistent stopped anchor'')
         else None)"

definition assess_runtime ::
  "project_plan \<Rightarrow> runtime_binding \<Rightarrow> observation \<Rightarrow> gotime \<Rightarrow> gerr + assessment" where
  "assess_runtime plan b obs now =
     (case binding_validate b plan of Some e \<Rightarrow> Inl e | None \<Rightarrow>
      if is_zero now \<or> \<not> ob_complete obs \<or> is_zero (ob_time obs) \<or> \<not> in_window now (ob_time obs)
         \<or> ob_project obs \<noteq> rb_project b \<or> ob_revision obs \<noteq> rb_revision b
         \<or> ob_generation obs \<noteq> rb_generation b \<or> ob_engine obs \<noteq> rb_engine b
      then Inl (runtime_error ''incomplete, stale or different generation'')
      else if \<not> exact_resource (rb_bridge b) (ob_bridge obs) \<or> \<not> exact_resource (rb_anchor b) (ob_anchor obs)
      then Inl (runtime_error ''resource identity or contract changed'')
      else if length (items (ob_members obs)) \<noteq> length (items (rb_members b))
      then Inl (runtime_error ''incomplete member inventory'')
      else case scan_members b (items (ob_members obs))
             \<lparr>sc_expected = items (rb_members b), sc_running = NilSlice, sc_stopped = NilSlice,
              sc_missing = False, sc_other = False\<rparr> of Inl e \<Rightarrow> Inl e | Inr st \<Rightarrow>
      if sc_expected st \<noteq> [] then Inl (runtime_error ''missing member inventory'')
      else if length (items (ob_attachments obs)) > 1
              \<or> length (items (ob_attachments obs)) = 1 \<and> items (ob_attachments obs) ! 0 \<noteq> ri_id (rb_anchor b)
      then Inl (runtime_error ''unknown bridge attachment'')
      else case assess_state plan b obs st of Inl e \<Rightarrow> Inl e | Inr state \<Rightarrow>
      (case anchor_remains plan b obs of Some e \<Rightarrow> Inl e | None \<Rightarrow>
        Inr \<lparr>as_state = state, as_recovery = (state \<noteq> ''ready'' \<and> state \<noteq> ''member-stopped''),
             as_running = slice_map sort (sc_running st), as_stopped = slice_map sort (sc_stopped st),
             as_recorded = rb_namespace b, as_observed = ao_namespace (ob_anchor obs)\<rparr>))"

section \<open>Recorded bindings\<close>

definition binding_ok :: "runtime_binding \<Rightarrow> project_plan \<Rightarrow> bool" where
  "binding_ok b plan \<longleftrightarrow> canonical_plan plan \<and> rb_digest b = digest_of plan \<and> valid_id (rb_project b)
     \<and> rb_revision b \<noteq> 0 \<and> rb_generation b \<noteq> 0 \<and> valid_engine (rb_engine b)
     \<and> valid_resource (rb_bridge b) \<and> valid_resource (rb_anchor b) \<and> valid_namespace (rb_namespace b)
     \<and> map rm_instance (items (rb_members b)) = map mr_instance (plan_members plan)
     \<and> list_all (\<lambda>m. hex_string 32 (rm_runtime m) \<and> valid_resource (rm_container m)) (items (rb_members b))
     \<and> distinct (map rm_runtime (items (rb_members b)))
     \<and> distinct (ri_id (rb_bridge b) # ri_id (rb_anchor b) # map (ri_id \<circ> rm_container) (items (rb_members b)))"

lemma binding_members_ok_iff:
  "length ms = length ps \<Longrightarrow> binding_members_ok ids runtimes (zip ms ps) \<longleftrightarrow>
     map rm_instance ms = map mr_instance ps
     \<and> list_all (\<lambda>m. hex_string 32 (rm_runtime m) \<and> valid_resource (rm_container m)) ms
     \<and> all_fresh rm_runtime runtimes ms \<and> all_fresh (ri_id \<circ> rm_container) ids ms"
  by (induction ms ps arbitrary: ids runtimes rule: list_induct2) auto

lemma binding_validate_iff: "binding_validate b plan = None \<longleftrightarrow> binding_ok b plan"
proof -
  have d: "(case plan_digest plan of Inl _ \<Rightarrow> True | Inr digest \<Rightarrow> digest \<noteq> rb_digest b)
      \<longleftrightarrow> \<not> (canonical_plan plan \<and> rb_digest b = digest_of plan)"
    using plan_digest_iff [of plan] by (cases "plan_digest plan") auto
  have l: "map rm_instance (items (rb_members b)) = map mr_instance (plan_members plan)
      \<Longrightarrow> length (items (rb_members b)) = length (plan_members plan)" by (rule map_eq_imp_length_eq)
  show ?thesis
    unfolding binding_validate_def d
    using l by (auto simp: binding_ok_def binding_members_ok_iff all_fresh_iff comp_def)
qed

lemma binding_plan_members:
  assumes "canonical_plan plan"
  shows "distinct (map mr_instance (plan_members plan))" "distinct (map (member_publication plan) (plan_members plan))"
proof -
  have "members_ok (plan_members plan)" using assms by (simp add: canonical_plan_def plan_members_def)
  then show "distinct (map mr_instance (plan_members plan))"
    "distinct (map (member_publication plan) (plan_members plan))"
    by (auto simp: members_ok_def strict_sorted_iff distinct_map inj_on_def member_publication_def)
qed

lemma binding_distinct: "binding_ok b plan \<Longrightarrow> distinct (map rm_instance (items (rb_members b)))"
  by (simp add: binding_ok_def binding_plan_members)

section \<open>Publications and member scans\<close>

lemma publications_match_iff: "publications_match expected ps \<longleftrightarrow> distinct ps \<and> set ps = expected"
  by (induction ps arbitrary: expected) auto

lemma mset_distinct_iff:
  assumes "distinct ys"
  shows "length xs = length ys \<and> distinct xs \<and> set xs = set ys \<longleftrightarrow> mset xs = mset ys"
proof
  assume "mset xs = mset ys"
  then show "length xs = length ys \<and> distinct xs \<and> set xs = set ys"
    using assms mset_eq_length mset_eq_setD mset_eq_imp_distinct_iff by metis
qed (use assms set_eq_iff_mset_eq_distinct in blast)

lemma same_publications_iff:
  assumes "canonical_plan plan"
  shows "same_publications plan ps \<longleftrightarrow>
    mset (items ps) = mset (map (member_publication plan) (plan_members plan))"
  unfolding same_publications_def publications_match_iff
  using mset_distinct_iff [OF binding_plan_members(2) [OF assms], of "items ps"] by simp

definition member_matches :: "runtime_binding \<Rightarrow> runtime_member list \<Rightarrow> member_observation \<Rightarrow> bool" where
  "member_matches b ws m \<longleftrightarrow> (\<exists>w \<in> set ws. rm_instance w = mo_instance m \<and> exact_resource (rm_container w) m)
     \<and> (if \<not> ro_present m then \<not> mo_running m \<and> mo_namespace m = no_namespace \<and> mo_anchor m = ''''
        else mo_anchor m = ri_id (rb_anchor b)
          \<and> (if mo_running m then valid_namespace (mo_namespace m) else mo_namespace m = no_namespace))"

definition scan_result :: "runtime_binding \<Rightarrow> member_observation list \<Rightarrow> member_scan \<Rightarrow> member_scan" where
  "scan_result b ms st = \<lparr>
     sc_expected = filter (\<lambda>w. rm_instance w \<notin> mo_instance ` set ms) (sc_expected st),
     sc_running = slice_append (sc_running st) (map mo_instance (filter (\<lambda>m. ro_present m \<and> mo_running m) ms)),
     sc_stopped = slice_append (sc_stopped st) (map mo_instance (filter (\<lambda>m. ro_present m \<and> \<not> mo_running m) ms)),
     sc_missing = (sc_missing st \<or> list_ex (\<lambda>m. \<not> ro_present m) ms),
     sc_other = (sc_other st \<or> list_ex (\<lambda>m. ro_present m \<and> mo_running m \<and> mo_namespace m \<noteq> rb_namespace b) ms)\<rparr>"

lemma slice_append_twice [simp]: "slice_append (slice_append s xs) ys = slice_append s (xs @ ys)"
  by (cases s) (auto simp: slice_append_def)

lemma find_instance:
  "distinct (map rm_instance ws) \<Longrightarrow> find (\<lambda>w. rm_instance w = i) ws = Some w \<longleftrightarrow> w \<in> set ws \<and> rm_instance w = i"
  by (induction ws) (auto simp: image_iff)

lemma member_matches_step:
  "member_matches b (filter (\<lambda>w. rm_instance w \<noteq> i) ws) m \<longleftrightarrow> member_matches b ws m \<and> mo_instance m \<noteq> i"
  by (auto simp: member_matches_def)

lemma scan_members_iff:
  "distinct (map rm_instance (sc_expected st)) \<Longrightarrow>
     scan_members b ms st = Inr st' \<longleftrightarrow>
       list_all (member_matches b (sc_expected st)) ms \<and> distinct (map mo_instance ms) \<and> st' = scan_result b ms st"
proof (induction ms arbitrary: st)
  case Nil
  then show ?case by (auto simp: scan_result_def)
next
  case (Cons m ms)
  define st1 where "st1 = st\<lparr>sc_expected := filter (\<lambda>w. rm_instance w \<noteq> mo_instance m) (sc_expected st)\<rparr>"
  define st2 where "st2 = (if \<not> ro_present m then st1\<lparr>sc_missing := True\<rparr>
    else if mo_running m then st1\<lparr>sc_running := slice_append (sc_running st) [mo_instance m],
                  sc_other := sc_other st \<or> mo_namespace m \<noteq> rb_namespace b\<rparr>
    else st1\<lparr>sc_stopped := slice_append (sc_stopped st) [mo_instance m]\<rparr>)"
  have step: "scan_members b (m # ms) st = Inr st' \<longleftrightarrow>
      member_matches b (sc_expected st) m \<and> scan_members b ms st2 = Inr st'"
  proof (cases "find (\<lambda>w. rm_instance w = mo_instance m) (sc_expected st)")
    case None
    then have "\<forall>w\<in>set (sc_expected st). rm_instance w \<noteq> mo_instance m" by (simp add: find_None_iff)
    then have "\<not> member_matches b (sc_expected st) m" by (auto simp: member_matches_def)
    moreover have "scan_members b (m # ms) st \<noteq> Inr st'" by (simp add: None)
    ultimately show ?thesis by blast
  next
    case (Some want)
    then have want: "want \<in> set (sc_expected st)" "rm_instance want = mo_instance m"
      using find_instance [OF Cons.prems] by blast+
    then have "w = want" if "w \<in> set (sc_expected st)" "rm_instance w = mo_instance m" for w
      using Cons.prems that want by (metis distinct_map inj_onD)
    with want have ex: "(\<exists>w \<in> set (sc_expected st). rm_instance w = mo_instance m \<and> exact_resource (rm_container w) m)
        \<longleftrightarrow> exact_resource (rm_container want) m" by blast
    show ?thesis
      unfolding member_matches_def ex scan_members.simps Some option.case Let_def
      by (auto simp: st1_def st2_def)
  qed
  have d: "distinct (map rm_instance (sc_expected st2))"
    using Cons.prems by (auto simp: st2_def st1_def distinct_map inj_on_def)
  have e: "sc_expected st2 = filter (\<lambda>w. rm_instance w \<noteq> mo_instance m) (sc_expected st)"
    by (simp add: st2_def st1_def)
  have r: "scan_result b ms st2 = scan_result b (m # ms) st"
    by (auto simp: scan_result_def st2_def st1_def intro!: filter_cong)
  show ?case
    unfolding step Cons.IH [OF d] e r member_matches_step by (auto simp: list_all_iff intro: rev_image_eqI)
qed

section \<open>When a project is ready\<close>

definition same_generation :: "runtime_binding \<Rightarrow> observation \<Rightarrow> bool" where
  "same_generation b obs \<longleftrightarrow> ob_project obs = rb_project b \<and> ob_revision obs = rb_revision b
     \<and> ob_generation obs = rb_generation b \<and> ob_engine obs = rb_engine b"

definition fresh_observation :: "observation \<Rightarrow> gotime \<Rightarrow> bool" where
  "fresh_observation obs now \<longleftrightarrow> ob_complete obs \<and> \<not> is_zero now \<and> \<not> is_zero (ob_time obs)
     \<and> inst now - 30 * second \<le> inst (ob_time obs) \<and> inst (ob_time obs) \<le> inst now + 5 * second"

definition anchor_serving :: "project_plan \<Rightarrow> runtime_binding \<Rightarrow> observation \<Rightarrow> bool" where
  "anchor_serving plan b obs \<longleftrightarrow>
     ro_present (ob_bridge obs) \<and> ro_resource (ob_bridge obs) = rb_bridge b
     \<and> ro_present (ob_anchor obs) \<and> ro_resource (ob_anchor obs) = rb_anchor b
     \<and> ao_running (ob_anchor obs) \<and> ao_namespace (ob_anchor obs) = rb_namespace b
     \<and> ao_bridge (ob_anchor obs) = ri_id (rb_bridge b) \<and> items (ob_attachments obs) = [ri_id (rb_anchor b)]
     \<and> mset (items (ao_requested (ob_anchor obs))) = mset (map (member_publication plan) (plan_members plan))
     \<and> mset (items (ao_active (ob_anchor obs))) = mset (map (member_publication plan) (plan_members plan))"

definition member_serving :: "runtime_binding \<Rightarrow> member_observation \<Rightarrow> bool" where
  "member_serving b m \<longleftrightarrow> (\<exists>w \<in> set (items (rb_members b)). rm_instance w = mo_instance m \<and> ro_resource m = rm_container w)
     \<and> ro_present m \<and> mo_running m \<and> mo_anchor m = ri_id (rb_anchor b) \<and> mo_namespace m = rb_namespace b"

text \<open>Everything a ready project promises, and the exact assessment it gives.\<close>

definition ready_spec :: "project_plan \<Rightarrow> runtime_binding \<Rightarrow> observation \<Rightarrow> gotime \<Rightarrow> bool" where
  "ready_spec plan b obs now \<longleftrightarrow> binding_ok b plan \<and> fresh_observation obs now \<and> same_generation b obs
     \<and> anchor_serving plan b obs
     \<and> mset (map mo_instance (items (ob_members obs))) = mset (map rm_instance (items (rb_members b)))
     \<and> list_all (member_serving b) (items (ob_members obs))"

definition first_scan :: "runtime_binding \<Rightarrow> member_scan" where
  "first_scan b = \<lparr>sc_expected = items (rb_members b), sc_running = NilSlice, sc_stopped = NilSlice,
     sc_missing = False, sc_other = False\<rparr>"

lemma all_observed:
  assumes "distinct (map rm_instance ws)" "length ms = length ws" "distinct (map mo_instance ms)"
    "list_all (member_matches b ws) ms"
  shows "filter (\<lambda>w. rm_instance w \<notin> mo_instance ` set ms) ws = []
    \<and> mset (map mo_instance ms) = mset (map rm_instance ws)"
proof -
  have "set (map mo_instance ms) \<subseteq> set (map rm_instance ws)"
  proof -
    have "mo_instance m \<in> set (map rm_instance ws)" if "m \<in> set ms" for m
    proof -
      have "member_matches b ws m" using assms(4) that by (simp add: list_all_iff)
      then obtain w where "w \<in> set ws" "rm_instance w = mo_instance m" unfolding member_matches_def by blast
      then show ?thesis by force
    qed
    then show ?thesis by auto
  qed
  moreover have "card (set (map mo_instance ms)) = card (set (map rm_instance ws))"
    using assms(1-3) by (simp only: distinct_card length_map)
  ultimately have "set (map mo_instance ms) = set (map rm_instance ws)"
    by (intro card_subset_eq) simp_all
  moreover from this have "mset (map mo_instance ms) = mset (map rm_instance ws)"
    using mset_distinct_iff [OF assms(1), of "map mo_instance ms"] assms(2,3) by simp
  ultimately show ?thesis by (auto simp: filter_empty_conv)
qed

text \<open>The assessment after the checks that do not depend on the members.\<close>

lemma assess_unfold:
  "assess_runtime plan b obs now = Inr a \<longleftrightarrow>
     binding_ok b plan \<and> fresh_observation obs now \<and> same_generation b obs
     \<and> exact_resource (rb_bridge b) (ob_bridge obs) \<and> exact_resource (rb_anchor b) (ob_anchor obs)
     \<and> length (items (ob_members obs)) = length (items (rb_members b))
     \<and> list_all (member_matches b (items (rb_members b))) (items (ob_members obs))
     \<and> distinct (map mo_instance (items (ob_members obs)))
     \<and> (items (ob_attachments obs) = [] \<or> items (ob_attachments obs) = [ri_id (rb_anchor b)])
     \<and> anchor_remains plan b obs = None
     \<and> (\<exists>state. assess_state plan b obs (scan_result b (items (ob_members obs)) (first_scan b)) = Inr state
          \<and> a = \<lparr>as_state = state, as_recovery = (state \<noteq> ''ready'' \<and> state \<noteq> ''member-stopped''),
             as_running = slice_map sort (sc_running (scan_result b (items (ob_members obs)) (first_scan b))),
             as_stopped = slice_map sort (sc_stopped (scan_result b (items (ob_members obs)) (first_scan b))),
             as_recorded = rb_namespace b, as_observed = ao_namespace (ob_anchor obs)\<rparr>)"
proof (cases "binding_ok b plan")
  case False
  then show ?thesis using binding_validate_iff [of b plan]
    by (auto simp: assess_runtime_def split: option.splits)
next
  case True
  then have d: "distinct (map rm_instance (sc_expected (first_scan b)))"
    by (simp add: binding_distinct first_scan_def)
  have v: "binding_validate b plan = None" using True by (simp add: binding_validate_iff)
  have f: "\<not> (is_zero now \<or> \<not> ob_complete obs \<or> is_zero (ob_time obs) \<or> \<not> in_window now (ob_time obs)
         \<or> ob_project obs \<noteq> rb_project b \<or> ob_revision obs \<noteq> rb_revision b
         \<or> ob_generation obs \<noteq> rb_generation b \<or> ob_engine obs \<noteq> rb_engine b)
      \<longleftrightarrow> fresh_observation obs now \<and> same_generation b obs"
    by (auto simp: fresh_observation_def same_generation_def in_window_iff)
  have att: "\<not> (length (items (ob_attachments obs)) > 1
        \<or> length (items (ob_attachments obs)) = 1 \<and> items (ob_attachments obs) ! 0 \<noteq> ri_id (rb_anchor b))
      \<longleftrightarrow> items (ob_attachments obs) = [] \<or> items (ob_attachments obs) = [ri_id (rb_anchor b)]"
    by (cases "items (ob_attachments obs)" rule: remdups_adj.cases) auto
  have obsd: "sc_expected (scan_result b (items (ob_members obs)) (first_scan b)) = []"
    if "length (items (ob_members obs)) = length (items (rb_members b))"
       "list_all (member_matches b (items (rb_members b))) (items (ob_members obs))"
       "distinct (map mo_instance (items (ob_members obs)))"
    using all_observed [OF binding_distinct [OF True] that(1,3,2)] by (simp add: scan_result_def first_scan_def)
  have scan: "scan_members b (items (ob_members obs)) (first_scan b) = Inr st \<longleftrightarrow>
      list_all (member_matches b (items (rb_members b))) (items (ob_members obs))
      \<and> distinct (map mo_instance (items (ob_members obs)))
      \<and> st = scan_result b (items (ob_members obs)) (first_scan b)" for st
    using scan_members_iff [OF d] by (simp add: first_scan_def)
  show ?thesis
  proof (cases "scan_members b (items (ob_members obs)) (first_scan b)")
    case (Inl e)
    with scan have "\<not> (list_all (member_matches b (items (rb_members b))) (items (ob_members obs))
      \<and> distinct (map mo_instance (items (ob_members obs))))" by auto
    then show ?thesis
      unfolding assess_runtime_def v option.case first_scan_def [symmetric] Inl sum.case by auto
  next
    case (Inr st)
    with scan have st: "list_all (member_matches b (items (rb_members b))) (items (ob_members obs))"
      "distinct (map mo_instance (items (ob_members obs)))"
      "st = scan_result b (items (ob_members obs)) (first_scan b)" by blast+
    show ?thesis unfolding assess_runtime_def v option.case first_scan_def [symmetric] Inr sum.case
      using True f att obsd st by (auto split: sum.splits option.splits)
  qed
qed

lemma state_ready:
  "assess_state plan b obs st = Inr ''ready'' \<longleftrightarrow>
     ro_present (ob_bridge obs) \<and> ro_present (ob_anchor obs) \<and> ao_running (ob_anchor obs)
     \<and> ao_bridge (ob_anchor obs) = ri_id (rb_bridge b) \<and> length (items (ob_attachments obs)) = 1
     \<and> valid_namespace (ao_namespace (ob_anchor obs)) \<and> same_publications plan (ao_requested (ob_anchor obs))
     \<and> ao_namespace (ob_anchor obs) = rb_namespace b \<and> \<not> sc_other st
     \<and> same_publications plan (ao_active (ob_anchor obs)) \<and> \<not> sc_missing st \<and> items (sc_stopped st) = []"
  by (auto simp: assess_state_def Let_def)

lemma anchor_remains_running: "ro_present (ob_anchor obs) \<Longrightarrow> ao_running (ob_anchor obs) \<Longrightarrow> anchor_remains plan b obs = None"
  by (simp add: anchor_remains_def Let_def)

lemma serving_iff:
  assumes "valid_namespace (rb_namespace b)"
  shows "member_serving b m \<longleftrightarrow> member_matches b (items (rb_members b)) m
    \<and> ro_present m \<and> mo_running m \<and> mo_namespace m = rb_namespace b"
  using assms by (auto simp: member_serving_def member_matches_def exact_resource_def)

lemma all_serving_iff:
  assumes "valid_namespace (rb_namespace b)"
  shows "list_all (member_serving b) ms \<longleftrightarrow> list_all (member_matches b (items (rb_members b))) ms
    \<and> (let st = scan_result b ms (first_scan b) in \<not> sc_other st \<and> \<not> sc_missing st \<and> items (sc_stopped st) = [])"
  using serving_iff [OF assms] 
  by (auto simp: scan_result_def first_scan_def list_all_iff list_ex_iff filter_empty_conv)

lemma mset_distinct_map: "distinct (map g ys) \<Longrightarrow> mset (map f xs) = mset (map g ys) \<Longrightarrow> distinct (map f xs) \<and> length xs = length ys"
  by (metis length_map mset_eq_imp_distinct_iff mset_eq_length)

lemma running_all:
  assumes "valid_namespace (rb_namespace b)" "list_all (member_serving b) ms"
  shows "items (slice_map sort (sc_running (scan_result b ms (first_scan b)))) = sort (map mo_instance ms)"
proof -
  have "filter (\<lambda>m. ro_present m \<and> mo_running m) ms = ms"
    using assms by (auto simp: filter_id_conv list_all_iff serving_iff)
  then show ?thesis by (simp add: items_slice_map scan_result_def first_scan_def)
qed

lemma ready_sound:
  assumes "assess_runtime plan b obs now = Inr a" "as_state a = ''ready''"
  shows "ready_spec plan b obs now"
proof -
  define ms where "ms = items (ob_members obs)"
  define st where "st = scan_result b ms (first_scan b)"
  from assms have u: "binding_ok b plan" "fresh_observation obs now" "same_generation b obs"
    "exact_resource (rb_bridge b) (ob_bridge obs)" "exact_resource (rb_anchor b) (ob_anchor obs)"
    "length ms = length (items (rb_members b))" "list_all (member_matches b (items (rb_members b))) ms"
    "distinct (map mo_instance ms)"
    "items (ob_attachments obs) = [] \<or> items (ob_attachments obs) = [ri_id (rb_anchor b)]"
    "assess_state plan b obs st = Inr ''ready''"
    unfolding assess_unfold ms_def [symmetric] st_def [symmetric] by auto
  then have s: "canonical_plan plan" "valid_namespace (rb_namespace b)" by (simp_all add: binding_ok_def)
  note r = u(10) [unfolded state_ready]
  have "list_all (member_serving b) ms" unfolding all_serving_iff [OF s(2)] using u(7) r by (simp add: st_def Let_def)
  moreover have "mset (map mo_instance ms) = mset (map rm_instance (items (rb_members b)))"
    using all_observed [OF binding_distinct [OF u(1)] u(6,8,7)] by blast
  moreover have "anchor_serving plan b obs"
    using r u(4,5,9) unfolding same_publications_iff [OF s(1)] by (auto simp: anchor_serving_def exact_resource_def)
  ultimately show ?thesis using u by (simp add: ready_spec_def ms_def)
qed

lemma ready_complete:
  assumes r: "ready_spec plan b obs now"
  shows "\<exists>a. assess_runtime plan b obs now = Inr a \<and> as_state a = ''ready''
      \<and> items (as_running a) = sort (map rm_instance (items (rb_members b))) \<and> items (as_stopped a) = []
      \<and> \<not> as_recovery a"
proof -
  define ms where "ms = items (ob_members obs)"
  define st where "st = scan_result b ms (first_scan b)"
  from r have b: "binding_ok b plan" and sv: "list_all (member_serving b) ms" and an: "anchor_serving plan b obs"
    and m: "mset (map mo_instance ms) = mset (map rm_instance (items (rb_members b)))"
    by (simp_all add: ready_spec_def ms_def)
  from b have s: "canonical_plan plan" "valid_namespace (rb_namespace b)" by (simp_all add: binding_ok_def)
  have l: "list_all (member_matches b (items (rb_members b))) ms" "\<not> sc_other st" "\<not> sc_missing st" "items (sc_stopped st) = []"
    using sv unfolding all_serving_iff [OF s(2)] by (simp_all add: st_def Let_def)
  have state: "assess_state plan b obs st = Inr ''ready''"
    using an l s by (simp add: state_ready anchor_serving_def same_publications_iff)
  have d: "distinct (map mo_instance ms)" "length ms = length (items (rb_members b))"
    using mset_distinct_map [OF binding_distinct [OF b] m] by blast+
  have "anchor_remains plan b obs = None" using an by (simp add: anchor_serving_def anchor_remains_running)
  then have a: "assess_runtime plan b obs now = Inr \<lparr>as_state = ''ready'', as_recovery = False,
           as_running = slice_map sort (sc_running st), as_stopped = slice_map sort (sc_stopped st),
           as_recorded = rb_namespace b, as_observed = ao_namespace (ob_anchor obs)\<rparr>"
    unfolding assess_unfold ms_def [symmetric] st_def [symmetric]
    using r b l d state an by (auto simp: ready_spec_def anchor_serving_def exact_resource_def)
  have "sort (map mo_instance ms) = sort (map rm_instance (items (rb_members b)))"
    using m by (metis sorted_list_of_multiset_mset)
  then show ?thesis using a running_all [OF s(2) sv] l(4) by (simp add: items_slice_map st_def)
qed

text \<open>
  C25. A project is reported ready exactly when one complete, fresh observation of this generation
  shows its bridge and anchor unchanged and serving precisely the planned publications, and every
  recorded member, and no other, running in the recorded namespace; then it is reported as running
  all of them.
\<close>

theorem ready_exact:
  "(\<exists>a. assess_runtime plan b obs now = Inr a \<and> as_state a = ''ready''
      \<and> items (as_running a) = sort (map rm_instance (items (rb_members b))) \<and> items (as_stopped a) = []
      \<and> \<not> as_recovery a)
   \<longleftrightarrow> ready_spec plan b obs now"
  using ready_sound ready_complete by blast

section \<open>A concrete project\<close>

definition sample_member :: project_member where
  "sample_member = \<lparr>mr_instance = ''zod'', mr_ship = ''~zod'', mr_http = 9000, mb_internal = 8080\<rparr>"

definition sample_plan :: project_plan where
  "sample_plan = \<lparr>pl_mode = fake_galaxies, pl_label = ''demo'', pl_members = Slice [sample_member],
     pl_bind = ''127.0.0.1'', pl_shared = True\<rparr>"

lemma sample_label: "valid_label ''demo''"
  by (simp add: valid_label_def utf8_valid_def any_rune_def decode_rune_def is_control_def)

lemma sample_ship: "valid_fake_ship ''~zod''"
proof -
  have "''zod'' \<in> set (chunks3 ship_suffixes)" by (simp add: ship_suffixes_def)
  then show ?thesis by (simp add: valid_fake_ship_def has_syllable_def)
qed

lemma valid_zod: "valid_id ''zod''"
  by (simp add: valid_id_def valid_id_char_def is_lower_def char_in_def less_eq_char_def)

lemma sample_plan_canonical [simp]: "canonical_plan sample_plan"
  using sample_label sample_ship valid_zod
  by (simp add: canonical_plan_def sample_plan_def members_ok_def sample_member_def member_ok_def)

definition hex64 :: "char \<Rightarrow> string" where
  "hex64 c = replicate 64 c"

lemma hex64 [simp]: "is_lower_hex c \<Longrightarrow> hex_string 64 (hex64 c)"
  by (simp add: hex64_def)

lemma hex_chars [simp]:
  "is_lower_hex CHR ''a''" "is_lower_hex CHR ''b''" "is_lower_hex CHR ''c''" "is_lower_hex CHR ''d''"
  "is_lower_hex CHR ''e''" "is_lower_hex CHR ''f''" "is_lower_hex CHR ''0''" "is_lower_hex CHR ''1''"
  by (simp_all add: is_lower_hex_def is_digit_def char_in_def less_eq_char_def)

lemma hex64_inject [simp]: "hex64 c = hex64 d \<longleftrightarrow> c = d"
  by (simp add: hex64_def)

definition sample_namespace :: namespace_identity where
  "sample_namespace = \<lparr>ni_boot = ''00000000-0000-0000-0000-000000000000'', ni_device = 4, ni_inode = 7\<rparr>"

lemma sample_namespace_valid [simp]: "valid_namespace sample_namespace"
proof -
  have "boot_pattern ''00000000-0000-0000-0000-000000000000''" by code_simp
  then show ?thesis by (simp add: valid_namespace_def sample_namespace_def)
qed

definition sample_binding :: runtime_binding where
  "sample_binding = \<lparr>rb_project = ''zod'', rb_revision = 1, rb_generation = 1, rb_digest = digest_of sample_plan,
     rb_engine = ''engine'', rb_bridge = \<lparr>ri_id = hex64 CHR ''a'', ri_contract = hex64 CHR ''b''\<rparr>,
     rb_anchor = \<lparr>ri_id = hex64 CHR ''c'', ri_contract = hex64 CHR ''d''\<rparr>, rb_namespace = sample_namespace,
     rb_members = Slice [\<lparr>rm_instance = ''zod'', rm_runtime = replicate 32 CHR ''e'',
        rm_container = \<lparr>ri_id = hex64 CHR ''e'', ri_contract = hex64 CHR ''f''\<rparr>\<rparr>]\<rparr>"

lemma sample_engine [simp]: "valid_engine ''engine''"
  by (simp add: valid_engine_def any_rune_def decode_rune_def is_space_def is_control_def)

lemma sample_binding_ok [simp]: "binding_ok sample_binding sample_plan"
  by (simp add: binding_ok_def sample_binding_def valid_zod valid_resource_def plan_members_def)
     (simp add: sample_plan_def sample_member_def)

end
