(* ===== verification/Effects.thy ===== *)
theory Effects
  imports Prelude
begin

text \<open>
  Programs that drive an external engine through a durable journal. Every \<open>Execute\<dots>\<close>
  function of the source has the same shape: a local copy of the journal record, read-only
  calls to a driver, effects requested from the driver, and a commit callback that makes the
  next record durable before anything else happens; it returns the current record together
  with the first error.

  The world \<open>'w\<close> (the engine, the file system, the clock, cancellation) is a parameter:
  a driver call is any function on worlds. \<open>run\<close> carries the journal record, the world
  and the history (latest event first) of commits and effects; the history is what the
  theorems speak about and no program reads it.

  The locale \<open>journal\<close> states what the executors promise each other: the steps of a
  journal, its ranks, and the order in which a history may commit and act.
\<close>

section \<open>Programs\<close>

datatype 's event = Commit 's 's | Effect string 's

record ('s, 'w) run =
  cur :: 's
  wld :: 'w
  hist :: "'s event list"

type_synonym ('s, 'w, 'a) prog = "('s, 'w) run \<Rightarrow> (gerr + 'a) \<times> ('s, 'w) run"

definition retP :: "'a \<Rightarrow> ('s, 'w, 'a) prog" where
  "retP a r = (Inr a, r)"

definition failP :: "gerr \<Rightarrow> ('s, 'w, 'a) prog" where
  "failP e r = (Inl e, r)"

definition bindP :: "('s, 'w, 'a) prog \<Rightarrow> ('a \<Rightarrow> ('s, 'w, 'b) prog) \<Rightarrow> ('s, 'w, 'b) prog" where
  "bindP m f r = (case m r of (Inl e, r') \<Rightarrow> (Inl e, r') | (Inr a, r') \<Rightarrow> f a r')"

definition thenP :: "('s, 'w, unit) prog \<Rightarrow> ('s, 'w, 'b) prog \<Rightarrow> ('s, 'w, 'b) prog" where
  "thenP m k = bindP m (\<lambda>_. k)"

text \<open>Statements of a straight-line body, in order.\<close>

fun seqP :: "('s, 'w, unit) prog list \<Rightarrow> ('s, 'w, unit) prog" where
  "seqP [] = retP ()"
| "seqP (m # ms) = thenP m (seqP ms)"

text \<open>A call that only reads: it may change the world but asks for no effect.\<close>

definition readP :: "('s \<Rightarrow> 'w \<Rightarrow> 'a \<times> 'w) \<Rightarrow> ('s, 'w, 'a) prog" where
  "readP f r = (case f (cur r) (wld r) of (a, w) \<Rightarrow> (Inr a, r\<lparr>wld := w\<rparr>))"

text \<open>A call that requests an effect; the driver is given the current record.\<close>

definition effectP :: "string \<Rightarrow> ('s \<Rightarrow> 'w \<Rightarrow> 'a \<times> 'w) \<Rightarrow> ('s, 'w, 'a) prog" where
  "effectP n f r =
     (case f (cur r) (wld r) of (a, w) \<Rightarrow> (Inr a, r\<lparr>wld := w, hist := Effect n (cur r) # hist r\<rparr>))"

text \<open>\<open>if err := \<dots>; err != nil { return s, err }\<close>\<close>

definition guardP :: "gerr option \<Rightarrow> ('s, 'w, unit) prog" where
  "guardP e = (case e of None \<Rightarrow> retP () | Some x \<Rightarrow> failP x)"

text \<open>A check of the current record.\<close>

definition checkP :: "('s \<Rightarrow> gerr option) \<Rightarrow> ('s, 'w, unit) prog" where
  "checkP f r = guardP (f (cur r)) r"

text \<open>\<open>fail(message)\<close> of the executors: the message joined with the context's error.\<close>

definition failCtxP :: "('w \<Rightarrow> gerr option \<times> 'w) \<Rightarrow> string \<Rightarrow> ('s, 'w, 'a) prog" where
  "failCtxP ctx m = bindP (readP (\<lambda>_. ctx)) (\<lambda>c. failP (join_err m c))"

definition ctxP :: "('w \<Rightarrow> gerr option \<times> 'w) \<Rightarrow> ('s, 'w, unit) prog" where
  "ctxP ctx = bindP (readP (\<lambda>_. ctx)) guardP"

text \<open>\<open>verify\<close>: the context, the engine identity, the context again.\<close>

definition verifyP ::
  "('w \<Rightarrow> gerr option \<times> 'w) \<Rightarrow> ('s \<Rightarrow> 'w \<Rightarrow> gerr option \<times> 'w) \<Rightarrow> string \<Rightarrow> ('s, 'w, unit) prog" where
  "verifyP ctx ver m = seqP
     [ctxP ctx,
      bindP (readP ver) (\<lambda>v. if v \<noteq> None then failCtxP ctx m else retP ()),
      ctxP ctx]"

text \<open>The same where the code asks the context for its error again to return it.\<close>

definition reverifyP ::
  "('w \<Rightarrow> gerr option \<times> 'w) \<Rightarrow> ('s \<Rightarrow> 'w \<Rightarrow> gerr option \<times> 'w) \<Rightarrow> string \<Rightarrow> ('s, 'w, unit) prog" where
  "reverifyP ctx ver m = bindP (readP (\<lambda>_. ctx)) (\<lambda>c. if c \<noteq> None then ctxP ctx else seqP
     [bindP (readP ver) (\<lambda>v. if v \<noteq> None then failCtxP ctx m else retP ()),
      ctxP ctx])"

text \<open>
  A driver call that must succeed: a read without a result, a read with one, an effect, and a
  condition on the current record.
\<close>

definition callP :: "('w \<Rightarrow> gerr option \<times> 'w) \<Rightarrow> ('s \<Rightarrow> 'w \<Rightarrow> gerr option \<times> 'w) \<Rightarrow> string \<Rightarrow> ('s, 'w, unit) prog" where
  "callP ctx f m = bindP (readP f) (\<lambda>e. if e \<noteq> None then failCtxP ctx m else retP ())"

definition observeP :: "('w \<Rightarrow> gerr option \<times> 'w) \<Rightarrow> ('s \<Rightarrow> 'w \<Rightarrow> (gerr + 'a) \<times> 'w) \<Rightarrow> string \<Rightarrow> ('s, 'w, 'a) prog" where
  "observeP ctx f m = bindP (readP f) (\<lambda>x. case x of Inl _ \<Rightarrow> failCtxP ctx m | Inr a \<Rightarrow> retP a)"

definition requestP ::
  "('w \<Rightarrow> gerr option \<times> 'w) \<Rightarrow> string \<Rightarrow> ('s \<Rightarrow> 'w \<Rightarrow> gerr option \<times> 'w) \<Rightarrow> string \<Rightarrow> ('s, 'w, unit) prog" where
  "requestP ctx n f m = bindP (effectP n f) (\<lambda>e. if e \<noteq> None then failCtxP ctx m else retP ())"

definition requireP :: "('w \<Rightarrow> gerr option \<times> 'w) \<Rightarrow> ('s \<Rightarrow> bool) \<Rightarrow> string \<Rightarrow> ('s, 'w, unit) prog" where
  "requireP ctx p m r = (if p (cur r) then retP () r else failCtxP ctx m r)"

text \<open>A check of the current record at the time the clock reads.\<close>

definition requireAtP ::
  "('w \<Rightarrow> gerr option \<times> 'w) \<Rightarrow> ('w \<Rightarrow> gotime \<times> 'w) \<Rightarrow> (gotime \<Rightarrow> 's \<Rightarrow> bool) \<Rightarrow> string \<Rightarrow> ('s, 'w, unit) prog" where
  "requireAtP ctx now p m = bindP (readP (\<lambda>_. now)) (\<lambda>t. requireP ctx (p t) m)"

definition checkAtP :: "('w \<Rightarrow> gotime \<times> 'w) \<Rightarrow> (gotime \<Rightarrow> 's \<Rightarrow> gerr option) \<Rightarrow> ('s, 'w, unit) prog" where
  "checkAtP now f = bindP (readP (\<lambda>_. now)) (\<lambda>t. checkP (f t))"

text \<open>
  Read-only collectors refuse with one fixed error: a read that must succeed, a condition, and the
  boolean \<open>verify\<close> that brackets every read.
\<close>

definition attemptP :: "gerr \<Rightarrow> ('s \<Rightarrow> 'w \<Rightarrow> (gerr + 'a) \<times> 'w) \<Rightarrow> ('s, 'w, 'a) prog" where
  "attemptP e f = bindP (readP f) (\<lambda>x. case x of Inl _ \<Rightarrow> failP e | Inr a \<Rightarrow> retP a)"

definition needP :: "gerr \<Rightarrow> bool \<Rightarrow> ('s, 'w, unit) prog" where
  "needP e ok = guardP (if ok then None else Some e)"

definition stillP ::
  "gerr \<Rightarrow> ('w \<Rightarrow> gerr option \<times> 'w) \<Rightarrow> ('s \<Rightarrow> 'w \<Rightarrow> gerr option \<times> 'w) \<Rightarrow> ('s, 'w, unit) prog" where
  "stillP e ctx ver = seqP
     [bindP (readP (\<lambda>_. ctx)) (\<lambda>c. needP e (c = None)),
      bindP (readP ver) (\<lambda>v. needP e (v = None)),
      bindP (readP (\<lambda>_. ctx)) (\<lambda>c. needP e (c = None))]"

definition clockP :: "('w \<Rightarrow> gotime \<times> 'w) \<Rightarrow> ('s, 'w, gotime) prog" where
  "clockP now = readP (\<lambda>_. now)"

text \<open>
  \<open>advance\<close>: compute the next record, make it durable, and only then continue with it. The
  commit callback is called with the current and the next record.
\<close>

definition advanceP ::
  "('s \<Rightarrow> gerr + 's) \<Rightarrow> ('s \<Rightarrow> 's \<Rightarrow> 'w \<Rightarrow> gerr option \<times> 'w) \<Rightarrow> ('s, 'w, unit) prog" where
  "advanceP adv com r =
     (case adv (cur r) of
        Inl e \<Rightarrow> (Inl e, r)
      | Inr n \<Rightarrow>
          (case com (cur r) n (wld r) of
             (Some e, w) \<Rightarrow> (Inl e, r\<lparr>wld := w\<rparr>)
           | (None, w) \<Rightarrow> (Inr (), r\<lparr>cur := n, wld := w, hist := Commit (cur r) n # hist r\<rparr>)))"

text \<open>What an executor returns: the current record and the error, if any.\<close>

definition start_run :: "'s \<Rightarrow> 'w \<Rightarrow> ('s, 'w) run" where
  "start_run s w = \<lparr>cur = s, wld = w, hist = []\<rparr>"

definition outcome :: "(gerr + 'a) \<times> ('s, 'w) run \<Rightarrow> 's \<times> gerr option" where
  "outcome x = (case x of (res, r) \<Rightarrow> (cur r, case res of Inl e \<Rightarrow> Some e | Inr _ \<Rightarrow> None))"

definition events :: "(gerr + 'a) \<times> ('s, 'w) run \<Rightarrow> 's event list" where
  "events x = rev (hist (snd x))"

section \<open>Weakest preconditions\<close>

definition wpP :: "('s, 'w, 'a) prog \<Rightarrow> ('a \<Rightarrow> ('s, 'w) run \<Rightarrow> bool) \<Rightarrow> (('s, 'w) run \<Rightarrow> bool)
    \<Rightarrow> ('s, 'w) run \<Rightarrow> bool" where
  "wpP m Q E r \<longleftrightarrow> (case m r of (Inl e, r') \<Rightarrow> E r' | (Inr a, r') \<Rightarrow> Q a r')"

lemma wpP_mono:
  assumes "wpP m P D r" "\<And>a r. P a r \<Longrightarrow> Q a r" "\<And>r. D r \<Longrightarrow> E r"
  shows "wpP m Q E r"
  using assms by (auto simp: wpP_def split: prod.splits sum.splits)

lemma wp_ret [wp]: "Q a r \<Longrightarrow> wpP (retP a) Q E r"
  by (simp add: wpP_def retP_def)

lemma wp_fail [wp]: "E r \<Longrightarrow> wpP (failP e) Q E r"
  by (simp add: wpP_def failP_def)

lemma wp_bind [wp]: "wpP m (\<lambda>a. wpP (f a) Q E) E r \<Longrightarrow> wpP (bindP m f) Q E r"
  by (auto simp: wpP_def bindP_def split: prod.splits sum.splits)

lemma wp_then [wp]: "wpP m (\<lambda>_. wpP k Q E) E r \<Longrightarrow> wpP (thenP m k) Q E r"
  by (simp add: thenP_def wp_bind)

lemma wp_seq_Nil [wp]: "Q () r \<Longrightarrow> wpP (seqP []) Q E r"
  by (simp add: wp_ret)

lemma wp_seq_Cons [wp]: "wpP m (\<lambda>_. wpP (seqP ms) Q E) E r \<Longrightarrow> wpP (seqP (m # ms)) Q E r"
  by (simp add: wp_then)

lemma wp_read [wp]: "(\<And>a w. Q a (r\<lparr>wld := w\<rparr>)) \<Longrightarrow> wpP (readP f) Q E r"
  by (auto simp: wpP_def readP_def split: prod.splits)

lemma wp_effect:
  "(\<And>a w. Q a (r\<lparr>wld := w, hist := Effect n (cur r) # hist r\<rparr>)) \<Longrightarrow> wpP (effectP n f) Q E r"
  by (auto simp: wpP_def effectP_def split: prod.splits)

lemma wp_guard [wp]: "E r \<Longrightarrow> (e = None \<Longrightarrow> Q () r) \<Longrightarrow> wpP (guardP e) Q E r"
  by (cases e) (simp_all add: wpP_def guardP_def retP_def failP_def)

lemma wp_check [wp]: "E r \<Longrightarrow> (f (cur r) = None \<Longrightarrow> Q () r) \<Longrightarrow> wpP (checkP f) Q E r"
  using wp_guard [of E r "f (cur r)" Q] by (simp add: wpP_def checkP_def)

lemma wp_failCtx [wp]: "(\<And>w. E (r\<lparr>wld := w\<rparr>)) \<Longrightarrow> wpP (failCtxP ctx m) Q E r"
  unfolding failCtxP_def by (intro wp)

lemma wp_ctx [wp]:
  "(\<And>w. E (r\<lparr>wld := w\<rparr>)) \<Longrightarrow> (\<And>w. Q () (r\<lparr>wld := w\<rparr>)) \<Longrightarrow> wpP (ctxP ctx) Q E r"
  unfolding ctxP_def by (intro wp)

lemma wp_if [wp]:
  "(b \<Longrightarrow> wpP m Q E r) \<Longrightarrow> (\<not> b \<Longrightarrow> wpP k Q E r) \<Longrightarrow> wpP (if b then m else k) Q E r"
  by simp

lemma wp_verify [wp]:
  assumes "\<And>w. E (r\<lparr>wld := w\<rparr>)" "\<And>w. Q () (r\<lparr>wld := w\<rparr>)"
  shows "wpP (verifyP ctx ver m) Q E r"
  unfolding verifyP_def using assms by (intro wp) simp_all

lemma wp_case_prod [wp]:
  "(\<And>a b. x = (a, b) \<Longrightarrow> wpP (f a b) Q E r) \<Longrightarrow> wpP (case x of (a, b) \<Rightarrow> f a b) Q E r"
  by (cases x) simp

lemma wp_case_option [wp]:
  "(x = None \<Longrightarrow> wpP m Q E r) \<Longrightarrow> (\<And>a. x = Some a \<Longrightarrow> wpP (f a) Q E r)
     \<Longrightarrow> wpP (case x of None \<Rightarrow> m | Some a \<Rightarrow> f a) Q E r"
  by (cases x) simp_all

lemma wp_case_sum [wp]:
  "(\<And>a. x = Inl a \<Longrightarrow> wpP (f a) Q E r) \<Longrightarrow> (\<And>a. x = Inr a \<Longrightarrow> wpP (g a) Q E r)
     \<Longrightarrow> wpP (case x of Inl a \<Rightarrow> f a | Inr a \<Rightarrow> g a) Q E r"
  by (cases x) simp_all

lemma wp_reverify [wp]:
  assumes "\<And>w. E (r\<lparr>wld := w\<rparr>)" "\<And>w. Q () (r\<lparr>wld := w\<rparr>)"
  shows "wpP (reverifyP ctx ver m) Q E r"
  unfolding reverifyP_def using assms by (intro wp) simp_all

lemma wp_call [wp]:
  "(\<And>w. E (r\<lparr>wld := w\<rparr>)) \<Longrightarrow> (\<And>w. Q () (r\<lparr>wld := w\<rparr>)) \<Longrightarrow> wpP (callP ctx f m) Q E r"
  unfolding callP_def by (intro wp) simp_all

lemma wp_observe [wp]:
  "(\<And>w. E (r\<lparr>wld := w\<rparr>)) \<Longrightarrow> (\<And>a w. Q a (r\<lparr>wld := w\<rparr>)) \<Longrightarrow> wpP (observeP ctx f m) Q E r"
  unfolding observeP_def by (intro wp) simp_all

lemma wp_require [wp]:
  "(\<And>w. E (r\<lparr>wld := w\<rparr>)) \<Longrightarrow> (p (cur r) \<Longrightarrow> Q () r) \<Longrightarrow> wpP (requireP ctx p m) Q E r"
  using wp_failCtx [of E r ctx m Q] wp_ret [of Q "()" r E] by (simp add: requireP_def wpP_def)

lemma wp_requireAt [wp]:
  "(\<And>w. E (r\<lparr>wld := w\<rparr>)) \<Longrightarrow> (\<And>t w. p t (cur r) \<Longrightarrow> Q () (r\<lparr>wld := w\<rparr>))
     \<Longrightarrow> wpP (requireAtP ctx now p m) Q E r"
  unfolding requireAtP_def by (intro wp) simp_all

lemma wp_checkAt [wp]:
  "(\<And>w. E (r\<lparr>wld := w\<rparr>)) \<Longrightarrow> (\<And>t w. f t (cur r) = None \<Longrightarrow> Q () (r\<lparr>wld := w\<rparr>))
     \<Longrightarrow> wpP (checkAtP now f) Q E r"
  unfolding checkAtP_def by (intro wp) simp_all

lemma wp_attempt [wp]:
  "(\<And>w. E (r\<lparr>wld := w\<rparr>)) \<Longrightarrow> (\<And>a w. Q a (r\<lparr>wld := w\<rparr>)) \<Longrightarrow> wpP (attemptP e f) Q E r"
  unfolding attemptP_def by (intro wp) simp_all

lemma wp_need [wp]: "E r \<Longrightarrow> (ok \<Longrightarrow> Q () r) \<Longrightarrow> wpP (needP e ok) Q E r"
  unfolding needP_def by (intro wp) (simp_all split: if_splits)

lemma wp_still [wp]:
  "(\<And>w. E (r\<lparr>wld := w\<rparr>)) \<Longrightarrow> (\<And>w. Q () (r\<lparr>wld := w\<rparr>)) \<Longrightarrow> wpP (stillP e ctx ver) Q E r"
  unfolding stillP_def by (intro wp) simp_all

lemma wp_clock [wp]: "(\<And>t w. Q t (r\<lparr>wld := w\<rparr>)) \<Longrightarrow> wpP (clockP now) Q E r"
  unfolding clockP_def by (intro wp)

text \<open>A collector changes neither the record nor the history, and its result meets \<open>P\<close>.\<close>

definition quiet :: "('a \<Rightarrow> bool) \<Rightarrow> ('s, 'w, 'a) prog \<Rightarrow> bool" where
  "quiet P m \<longleftrightarrow> (\<forall>r. case m r of (res, r') \<Rightarrow> cur r' = cur r \<and> hist r' = hist r
     \<and> (case res of Inl _ \<Rightarrow> True | Inr a \<Rightarrow> P a))"

lemma quietI:
  assumes "\<And>r. wpP m (\<lambda>a r'. cur r' = cur r \<and> hist r' = hist r \<and> P a)
     (\<lambda>r'. cur r' = cur r \<and> hist r' = hist r) r"
  shows "quiet P m"
  unfolding quiet_def
proof
  fix r
  show "case m r of (res, r') \<Rightarrow> cur r' = cur r \<and> hist r' = hist r
     \<and> (case res of Inl _ \<Rightarrow> True | Inr a \<Rightarrow> P a)"
    using assms [of r] by (auto simp: wpP_def split: prod.splits sum.splits)
qed

lemma wp_advance:
  assumes "\<And>w. E (r\<lparr>wld := w\<rparr>)" and "\<And>n w. adv (cur r) = Inr n \<Longrightarrow>
    Q () (r\<lparr>cur := n, wld := w, hist := Commit (cur r) n # hist r\<rparr>)"
  shows "wpP (advanceP adv com) Q E r"
  using assms(1) [of "wld r"] assms
  by (auto simp: wpP_def advanceP_def split: sum.splits prod.splits option.splits)

lemma wp_outcome:
  assumes "wpP m (\<lambda>_ r'. Q (cur r') (hist r')) (\<lambda>r'. E (cur r') (hist r')) r"
  shows "(case outcome (m r) of (s, e) \<Rightarrow>
     if e = None then Q s (rev (events (m r))) else E s (rev (events (m r))))"
  using assms by (auto simp: wpP_def outcome_def events_def split: prod.splits sum.splits)

section \<open>Durable histories\<close>

text \<open>An effect may only be requested directly after a commit.\<close>

fun fresh_commit :: "'s event list \<Rightarrow> bool" where
  "fresh_commit (Commit a b # h) = True"
| "fresh_commit h = False"

text \<open>
  \<open>durable step ok s0 h d\<close>: starting from \<open>s0\<close>, the history \<open>h\<close> (latest first) leaves \<open>d\<close> as the
  durable record. Every commit replaces the durable record by a step from it, and every effect
  is requested on the durable record, directly after its commit, and only where \<open>ok\<close> allows it.
\<close>

fun durable :: "('s \<Rightarrow> 's \<Rightarrow> bool) \<Rightarrow> (string \<Rightarrow> 's \<Rightarrow> bool) \<Rightarrow> 's \<Rightarrow> 's event list \<Rightarrow> 's \<Rightarrow> bool" where
  "durable step ok s0 [] d \<longleftrightarrow> d = s0"
| "durable step ok s0 (Commit a b # h) d \<longleftrightarrow> b = d \<and> step a b \<and> durable step ok s0 h a"
| "durable step ok s0 (Effect n s # h) d \<longleftrightarrow>
     s = d \<and> ok n d \<and> fresh_commit h \<and> durable step ok s0 h d"

definition effect_count :: "string \<Rightarrow> 's event list \<Rightarrow> nat" where
  "effect_count n h = length (filter (\<lambda>e. case e of Effect m _ \<Rightarrow> m = n | Commit _ _ \<Rightarrow> False) h)"

lemma effect_count_simps [simp]:
  "effect_count n [] = 0"
  "effect_count n (Commit a b # h) = effect_count n h"
  "effect_count n (Effect m s # h) = (if m = n then Suc (effect_count n h) else effect_count n h)"
  by (simp_all add: effect_count_def)

lemma effect_count_0: "effect_count n h = 0 \<longleftrightarrow> (\<forall>s. Effect n s \<notin> set h)"
proof (induction h)
  case (Cons e h)
  then show ?case by (cases e) auto
qed simp

lemma effect_count_rev [simp]: "effect_count n (rev h) = effect_count n h"
  by (simp add: effect_count_def flip: rev_filter)

fun commits :: "'s event list \<Rightarrow> nat" where
  "commits [] = 0"
| "commits (Commit a b # h) = Suc (commits h)"
| "commits (Effect n s # h) = commits h"

text \<open>The history of a run is durable; how the combinators extend it.\<close>

definition safe_at :: "('s \<Rightarrow> 's \<Rightarrow> bool) \<Rightarrow> (string \<Rightarrow> 's \<Rightarrow> bool) \<Rightarrow> 's \<Rightarrow> ('s, 'w) run \<Rightarrow> bool" where
  "safe_at step ok s0 r \<longleftrightarrow> durable step ok s0 (hist r) (cur r)"

lemma safe_start [simp]: "safe_at step ok s0 (start_run s0 w)"
  by (simp add: safe_at_def start_run_def)

lemma safe_wld [simp]: "safe_at step ok s0 (r\<lparr>wld := w\<rparr>) = safe_at step ok s0 r"
  by (simp add: safe_at_def)

lemma safe_effect:
  "safe_at step ok s0 r \<Longrightarrow> ok n (cur r) \<Longrightarrow> fresh_commit (hist r)
     \<Longrightarrow> safe_at step ok s0 (r\<lparr>wld := w, hist := Effect n (cur r) # hist r\<rparr>)"
  by (simp add: safe_at_def)

lemma safe_commit:
  "safe_at step ok s0 r \<Longrightarrow> step (cur r) n
     \<Longrightarrow> safe_at step ok s0 (r\<lparr>cur := n, wld := w, hist := Commit (cur r) n # hist r\<rparr>)"
  by (simp add: safe_at_def)

lemma wp_advance_safe:
  assumes "safe_at step ok s0 r" "\<And>r. safe_at step ok s0 r \<Longrightarrow> E r"
    and "\<And>n. adv (cur r) = Inr n \<Longrightarrow> step (cur r) n"
    and "\<And>q. adv (cur r) = Inr (cur q) \<Longrightarrow> safe_at step ok s0 q \<Longrightarrow> fresh_commit (hist q) \<Longrightarrow> Q () q"
  shows "wpP (advanceP adv com) Q E r"
  by (rule wp_advance) (use assms(1) in \<open>auto intro!: assms(2,4) safe_commit assms(3)\<close>)

lemma wp_effect_safe:
  assumes "safe_at step ok s0 r" "ok n (cur r)" "fresh_commit (hist r)"
    and "\<And>a q. cur q = cur r \<Longrightarrow> safe_at step ok s0 q \<Longrightarrow> Q a q"
  shows "wpP (effectP n f) Q E r"
  by (rule wp_effect) (use assms(1-3) in \<open>auto intro!: assms(4) safe_effect\<close>)

lemma wp_request_safe:
  assumes "safe_at step ok s0 r" "ok n (cur r)" "fresh_commit (hist r)"
    and "\<And>q. safe_at step ok s0 q \<Longrightarrow> E q"
    and "\<And>q. cur q = cur r \<Longrightarrow> safe_at step ok s0 q \<Longrightarrow> Q () q"
  shows "wpP (requestP ctx n f m) Q E r"
  unfolding requestP_def
  by (intro wp wp_effect_safe [OF assms(1-3)]) (auto intro: assms(4,5))

text \<open>
  What an executor promises of a run from the record \<open>s0\<close>: the history is durable, no effect is
  requested twice, the returned record is the given one or a well-formed one, and a run without
  an error ends in a \<open>final\<close> record.
\<close>

definition safe_run :: "('s \<Rightarrow> 's \<Rightarrow> bool) \<Rightarrow> (string \<Rightarrow> 's \<Rightarrow> bool) \<Rightarrow> ('s \<Rightarrow> bool) \<Rightarrow> ('s \<Rightarrow> bool)
    \<Rightarrow> 's \<Rightarrow> (gerr + 'a) \<times> ('s, 'w) run \<Rightarrow> bool" where
  "safe_run step ok valid final s0 x \<longleftrightarrow>
     (let r = snd x in durable step ok s0 (hist r) (cur r) \<and> (\<forall>n. effect_count n (hist r) \<le> 1)
        \<and> (cur r = s0 \<or> valid (cur r)) \<and> (case fst x of Inl _ \<Rightarrow> True | Inr _ \<Rightarrow> final (cur r)))"

text \<open>
  The contract of a journal: a set of well-formed records closed under its steps, and a rank
  every step raises by one. \<open>ok n s\<close> says where effect \<open>n\<close> may be requested; \<open>level n\<close> is the
  rank of every such record.
\<close>

locale journal =
  fixes step :: "'s \<Rightarrow> 's \<Rightarrow> bool"
    and valid :: "'s \<Rightarrow> bool"
    and rank :: "'s \<Rightarrow> nat"
    and ok :: "string \<Rightarrow> 's \<Rightarrow> bool"
    and level :: "string \<Rightarrow> nat"
  assumes step_valid: "step s t \<Longrightarrow> valid t"
    and step_rank: "step s t \<Longrightarrow> rank t = Suc (rank s)"
    and ok_level: "ok n s \<Longrightarrow> rank s = level n"
begin

lemma durable_valid: "valid s0 \<Longrightarrow> durable step ok s0 h d \<Longrightarrow> valid d"
proof (induction h arbitrary: d)
  case (Cons e h)
  then show ?case by (cases e) (auto dest: step_valid)
qed simp

lemma durable_effects_ranked:
  "durable step ok s0 h d \<Longrightarrow> Effect n s \<in> set h \<Longrightarrow>
     ok n s \<and> rank s \<le> rank d \<and> (fresh_commit h \<longrightarrow> rank s < rank d)"
proof (induction h arbitrary: d)
  case (Cons e h)
  show ?case
  proof (cases e)
    case (Commit a b)
    with Cons have "ok n s" "rank s \<le> rank a" "rank d = Suc (rank a)"
      by (auto dest: step_rank)
    with Commit show ?thesis by simp
  next
    case (Effect m t)
    with Cons show ?thesis by fastforce
  qed
qed simp

text \<open>No effect is ever requested twice in one history.\<close>

lemma effect_at_most_once: "durable step ok s0 h d \<Longrightarrow> effect_count n h \<le> 1"
proof (induction h arbitrary: d)
  case (Cons e h)
  show ?case
  proof (cases e)
    case (Commit a b)
    with Cons show ?thesis by auto
  next
    case (Effect m t)
    with Cons.prems have h: "durable step ok s0 h d" "fresh_commit h" "ok m d" by simp_all
    have "Effect m u \<notin> set h" for u
      using durable_effects_ranked [OF h(1), of m u] h(2,3) by (auto dest!: ok_level)
    then have "effect_count m h = 0" by (simp add: effect_count_0)
    with Effect Cons.IH [OF h(1)] show ?thesis by auto
  qed
qed simp

text \<open>The rank of the durable record counts its commits.\<close>

lemma durable_rank: "durable step ok s0 h d \<Longrightarrow> rank d = rank s0 + commits h"
proof (induction h arbitrary: d)
  case (Cons e h)
  then show ?case by (cases e) (auto dest: step_rank)
qed simp

lemma durable_moved: "durable step ok s0 h d \<Longrightarrow> d = s0 \<or> valid d"
proof (induction h arbitrary: d)
  case (Cons e h)
  then show ?case by (cases e) (auto dest: step_valid)
qed simp

text \<open>A run is safe when its history is durable.\<close>

lemma safe_runI:
  assumes "wpP m (\<lambda>_ r. safe_at step ok s0 r \<and> final (cur r)) (safe_at step ok s0) (start_run s0 w)"
  shows "safe_run step ok valid final s0 (m (start_run s0 w))"
  using assms by (auto simp: safe_run_def safe_at_def wpP_def Let_def effect_at_most_once [simplified]
      dest: durable_moved split: prod.splits sum.splits)

end

section \<open>Journals with a chain of phases\<close>

text \<open>
  Most journals name their progress by a phase string and admit one next phase
  (\<open>map[string]string{"planned": "dispatched", \<dots>}\<close>). \<open>chain\<close> is that table for a list of phases.
\<close>

definition chain :: "string list \<Rightarrow> (string \<times> string) list" where
  "chain ps = zip ps (tl ps)"

definition position :: "string list \<Rightarrow> string \<Rightarrow> nat" where
  "position ps p = (case find_index ((=) p) ps of None \<Rightarrow> length ps | Some i \<Rightarrow> i)"

lemma position_nth: "distinct ps \<Longrightarrow> i < length ps \<Longrightarrow> position ps (ps ! i) = i"
proof -
  assume d: "distinct ps" and i: "i < length ps"
  from i have "find_index ((=) (ps ! i)) ps \<noteq> None" by (auto simp: find_index_None)
  then obtain j where j: "find_index ((=) (ps ! i)) ps = Some j" by blast
  from find_index_Some [OF this] d i have "j = i" by (auto simp: nth_eq_iff_index_eq)
  with j show ?thesis by (simp add: position_def)
qed

lemma chain_nth:
  assumes "distinct ps" "i < length ps"
  shows "lookup_str (chain ps) (ps ! i) = (if Suc i < length ps then ps ! Suc i else '''')"
proof (cases "Suc i < length ps")
  case True
  then have "(ps ! i, ps ! Suc i) \<in> set (chain ps)"
    by (force simp: chain_def set_zip nth_tl)
  moreover have "map fst (chain ps) = take (length (tl ps)) ps" by (simp add: chain_def map_fst_zip_take)
  then have "distinct (map fst (chain ps))" using assms(1) by simp
  ultimately show ?thesis using True by (simp add: lookup_str_def)
next
  case False
  have "ps ! i \<notin> set (take (length ps - 1) ps)"
    using assms False by (auto simp: in_set_conv_nth nth_eq_iff_index_eq)
  then have "map_of (chain ps) (ps ! i) = None"
    by (auto simp: map_of_eq_None_iff chain_def map_fst_zip_take simp flip: list.set_map)
  with False show ?thesis by (simp add: lookup_str_def)
qed

text \<open>Where a chain journal may ask for an effect: a well-formed record in the effect's phase.\<close>

definition may_act :: "('s \<Rightarrow> bool) \<Rightarrow> ('s \<Rightarrow> string) \<Rightarrow> (string \<times> string) list \<Rightarrow> string \<Rightarrow> 's \<Rightarrow> bool" where
  "may_act valid phase acts n s \<longleftrightarrow> valid s \<and> (n, phase s) \<in> set acts"

locale phase_journal =
  fixes phases :: "string list"
    and step :: "'s \<Rightarrow> 's \<Rightarrow> bool"
    and valid :: "'s \<Rightarrow> bool"
    and phase :: "'s \<Rightarrow> string"
    and acts :: "(string \<times> string) list"
  assumes phases: "distinct phases \<and> '''' \<notin> set phases"
    and acts: "distinct (map fst acts)"
    and valid_phase: "valid s \<Longrightarrow> phase s \<in> set phases"
    and step_ok: "step s t \<Longrightarrow> valid s \<and> valid t"
    and step_phase: "step s t \<Longrightarrow> phase t = lookup_str (chain phases) (phase s)"
begin

lemma step_position:
  assumes "step s t"
  shows "position phases (phase t) = Suc (position phases (phase s))"
proof -
  from step_ok [OF assms] valid_phase have "phase s \<in> set phases" "phase t \<in> set phases" by blast+
  then obtain i where i: "i < length phases" "phase s = phases ! i" by (auto simp: in_set_conv_nth)
  have "phase t = (if Suc i < length phases then phases ! Suc i else '''')"
    using step_phase [OF assms] chain_nth [of phases i] phases i by simp
  with \<open>phase t \<in> set phases\<close> phases have "Suc i < length phases" "phase t = phases ! Suc i"
    by (auto split: if_splits)
  with i phases show ?thesis by (simp add: position_nth)
qed

end

sublocale phase_journal \<subseteq> journal step valid "\<lambda>s. position phases (phase s)" "may_act valid phase acts"
  "\<lambda>n. position phases (lookup_str acts n)"
proof unfold_locales
  fix n s
  assume "may_act valid phase acts n s"
  with acts show "position phases (phase s) = position phases (lookup_str acts n)"
    by (auto simp: may_act_def lookup_str_def)
qed (use step_ok step_position in auto)

end
