(* ===== verification/Preparation.thy ===== *)
theory Preparation
  imports Runtime Effects
begin

text \<open>
  \<open>internal/projectnetwork/journal.go\<close> and \<open>execute.go\<close>: the write-ahead journal of a
  project's bridge and anchor, and the executor that creates both. The context, the engine and
  the commit callback act on a world \<open>'w\<close>; a nil engine or callback is \<open>None\<close>.
\<close>

section \<open>The journal\<close>

record creation =
  cr_name :: string
  cr_contract :: string
  cr_phase :: string
  cr_id :: string

record preparation =
  pp_project :: string
  pp_revision :: u64
  pp_generation :: u64
  pp_operation :: string
  pp_digest :: string
  pp_engine :: string
  pp_sequence :: u64
  pp_bridge :: creation
  pp_anchor :: creation

definition creation_valid :: "creation \<Rightarrow> bool" where
  "creation_valid c =
     (if \<not> valid_id (cr_name c) \<or> \<not> hex_string 64 (cr_contract c) then False
      else if cr_phase c = ''planned'' \<or> cr_phase c = ''dispatched'' then cr_id c = ''''
      else if cr_phase c = ''created'' \<or> cr_phase c = ''observed'' then hex_string 64 (cr_id c)
      else False)"

definition phase_number :: "string \<Rightarrow> u64" where
  "phase_number phase = (if phase = ''dispatched'' then 1 else if phase = ''created'' then 2
     else if phase = ''observed'' then 3 else 0)"

definition preparation_validate :: "preparation \<Rightarrow> project_plan \<Rightarrow> gerr option" where
  "preparation_validate p plan =
     (if (case plan_digest plan of Inl _ \<Rightarrow> True | Inr digest \<Rightarrow> digest \<noteq> pp_digest p)
         \<or> \<not> valid_id (pp_project p) \<or> \<not> valid_id (pp_operation p) \<or> pp_revision p = 0 \<or> pp_generation p = 0
         \<or> \<not> valid_engine (pp_engine p) \<or> \<not> creation_valid (pp_bridge p) \<or> \<not> creation_valid (pp_anchor p)
         \<or> cr_name (pp_bridge p) = cr_name (pp_anchor p)
         \<or> cr_id (pp_bridge p) \<noteq> '''' \<and> cr_id (pp_bridge p) = cr_id (pp_anchor p)
      then Some (runtime_error ''invalid preparation journal'')
      else let bridge = phase_number (cr_phase (pp_bridge p)); anchor = phase_number (cr_phase (pp_anchor p))
      in if anchor \<noteq> 0 \<and> bridge \<noteq> 3 \<or> pp_sequence p \<noteq> bridge + anchor
      then Some (runtime_error ''skipped preparation phase'') else None)"

definition creation_advance :: "creation \<Rightarrow> string \<Rightarrow> string \<Rightarrow> creation option" where
  "creation_advance c phase i =
     (if cr_phase c = ''planned'' \<and> phase = ''dispatched'' \<and> i = ''''
         \<or> cr_phase c = ''dispatched'' \<and> phase = ''created'' \<and> hex_string 64 i
         \<or> cr_phase c = ''created'' \<and> phase = ''observed'' \<and> i = cr_id c
      then Some (c\<lparr>cr_phase := phase, cr_id := i\<rparr>) else None)"

definition preparation_advance ::
  "project_plan \<Rightarrow> u64 \<Rightarrow> string \<Rightarrow> string \<Rightarrow> string \<Rightarrow> preparation \<Rightarrow> gerr + preparation" where
  "preparation_advance plan expected kind phase i p =
     (let refuse = Inl (runtime_error ''stale or invalid preparation transition'')
      in case preparation_validate p plan of Some e \<Rightarrow> Inl e | None \<Rightarrow>
      if expected \<noteq> pp_sequence p then refuse
      else if kind \<noteq> ''bridge'' \<and> kind \<noteq> ''anchor'' then refuse
      else if kind = ''anchor'' \<and> cr_phase (pp_bridge p) \<noteq> ''observed'' then refuse
      else case creation_advance (if kind = ''bridge'' then pp_bridge p else pp_anchor p) phase i of
        None \<Rightarrow> refuse
      | Some c \<Rightarrow>
          let q = (if kind = ''bridge'' then p\<lparr>pp_bridge := c\<rparr> else p\<lparr>pp_anchor := c\<rparr>)\<lparr>pp_sequence := pp_sequence p + 1\<rparr>
          in case preparation_validate q plan of Some e \<Rightarrow> Inl e | None \<Rightarrow> Inr q)"

section \<open>The executor\<close>

record 'w preparation_engine =
  pe_verify :: "string \<Rightarrow> 'w \<Rightarrow> gerr option \<times> 'w"
  pe_create :: "string \<Rightarrow> creation \<Rightarrow> string \<Rightarrow> 'w \<Rightarrow> (string \<times> gerr option) \<times> 'w"
  pe_inspect :: "string \<Rightarrow> creation \<Rightarrow> string \<Rightarrow> 'w \<Rightarrow> (gerr + resource_identity) \<times> 'w"

definition prep_resource :: "string \<Rightarrow> preparation \<Rightarrow> creation" where
  "prep_resource kind p = (if kind = ''anchor'' then pp_anchor p else pp_bridge p)"

definition prep_bridge_id :: "string \<Rightarrow> preparation \<Rightarrow> string" where
  "prep_bridge_id kind p = (if kind = ''anchor'' then cr_id (pp_bridge p) else '''')"

type_synonym 'w prep_commit = "u64 \<Rightarrow> string \<Rightarrow> string \<Rightarrow> string \<Rightarrow> 'w \<Rightarrow> gerr option \<times> 'w"

definition prep_advanceP ::
  "project_plan \<Rightarrow> 'w prep_commit \<Rightarrow> string \<Rightarrow> string \<Rightarrow> string \<Rightarrow> (preparation, 'w, unit) prog" where
  "prep_advanceP plan commit kind phase i =
     advanceP (\<lambda>p. preparation_advance plan (pp_sequence p) kind phase i p)
              (\<lambda>p _. commit (pp_sequence p) kind phase i)"

text \<open>One round of the loop over the bridge and the anchor.\<close>

definition prepare_resource ::
  "('w \<Rightarrow> gerr option \<times> 'w) \<Rightarrow> project_plan \<Rightarrow> 'w preparation_engine \<Rightarrow> 'w prep_commit \<Rightarrow> string
     \<Rightarrow> (preparation, 'w, unit) prog" where
  "prepare_resource ctx plan engine commit kind =
     (let verify = verifyP ctx (\<lambda>p. pe_verify engine (pp_engine p)) ''project engine binding could not be verified''
      in seqP
       [verify,
        prep_advanceP plan commit kind ''dispatched'' '''',
        ctxP ctx,
        bindP (effectP (''create-'' @ kind) (\<lambda>p. pe_create engine kind (prep_resource kind p) (prep_bridge_id kind p)))
          (\<lambda>(i, create_err).
             if \<not> hex_string 64 i
             then failCtxP ctx ''project creation outcome is unresolved; retain the original journal''
             else seqP
               [prep_advanceP plan commit kind ''created'' i,
                (if create_err \<noteq> None
                 then failCtxP ctx ''project creation returned an uncertain outcome; retain its resource ID''
                 else retP ()),
                verify,
                bindP (readP (\<lambda>p w. case pe_inspect engine kind (prep_resource kind p) (prep_bridge_id kind p) w of
                         (Inl _, w) \<Rightarrow> (False, w)
                       | (Inr actual, w) \<Rightarrow>
                           (ri_id actual = cr_id (prep_resource kind p)
                            \<and> ri_contract actual = cr_contract (prep_resource kind p), w)))
                  (\<lambda>matches. if \<not> matches
                     then failCtxP ctx ''created project resource did not match its recorded contract''
                     else retP ()),
                verify,
                prep_advanceP plan commit kind ''observed'' i])])"

definition execute_preparation ::
  "('w \<Rightarrow> gerr option \<times> 'w) \<Rightarrow> project_plan \<Rightarrow> 'w preparation_engine option \<Rightarrow> 'w prep_commit option
     \<Rightarrow> (preparation, 'w, unit) prog" where
  "execute_preparation ctx plan engine commit = seqP
     [checkP (\<lambda>p. preparation_validate p plan),
      checkP (\<lambda>p. check (pp_sequence p = 0 \<and> engine \<noteq> None \<and> commit \<noteq> None)
        ''project preparation requires a fresh owned journal and driver''),
      seqP (map (prepare_resource ctx plan (the engine) (the commit)) [''bridge'', ''anchor''])]"

section \<open>Steps of the journal\<close>

definition preparation_ok :: "project_plan \<Rightarrow> preparation \<Rightarrow> bool" where
  "preparation_ok plan p \<longleftrightarrow> preparation_validate p plan = None"

inductive preparation_step :: "project_plan \<Rightarrow> preparation \<Rightarrow> preparation \<Rightarrow> bool" for plan where
  advance: "preparation_advance plan expected kind phase i p = Inr q \<Longrightarrow> preparation_step plan p q"

inductive_cases preparation_stepE: "preparation_step plan p q"

text \<open>Where the executor may create a resource: the journal says dispatched, nothing more.\<close>

definition may_create :: "project_plan \<Rightarrow> string \<Rightarrow> preparation \<Rightarrow> bool" where
  "may_create plan n p \<longleftrightarrow> preparation_ok plan p
     \<and> (n = ''create-bridge'' \<and> cr_phase (pp_bridge p) = ''dispatched''
        \<or> n = ''create-anchor'' \<and> cr_phase (pp_anchor p) = ''dispatched'')"

definition prep_rank :: "preparation \<Rightarrow> nat" where
  "prep_rank p = unat (pp_sequence p)"

definition prep_level :: "string \<Rightarrow> nat" where
  "prep_level n = (if n = ''create-bridge'' then 1 else 4)"

lemma preparation_ok_parts:
  "preparation_ok plan p \<Longrightarrow> canonical_plan plan \<and> creation_valid (pp_bridge p) \<and> creation_valid (pp_anchor p)
     \<and> (phase_number (cr_phase (pp_anchor p)) = 0 \<or> cr_phase (pp_bridge p) = ''observed'')
     \<and> pp_sequence p = phase_number (cr_phase (pp_bridge p)) + phase_number (cr_phase (pp_anchor p))"
  using plan_digest_iff [of plan]
  by (cases "plan_digest plan")
     (auto simp: preparation_ok_def preparation_validate_def Let_def phase_number_def split: if_splits)

lemma creation_phases: "creation_valid c \<Longrightarrow> cr_phase c \<in> {''planned'', ''dispatched'', ''created'', ''observed''}"
  by (auto simp: creation_valid_def split: if_splits)

lemma preparation_step_ok: "preparation_step plan p q \<Longrightarrow> preparation_ok plan q"
  by (auto elim!: preparation_stepE simp: preparation_advance_def preparation_ok_def Let_def
      split: option.splits if_splits)

lemma preparation_step_sequence: "preparation_step plan p q \<Longrightarrow> preparation_ok plan p \<and> pp_sequence q = pp_sequence p + 1"
  by (auto elim!: preparation_stepE simp: preparation_advance_def preparation_ok_def Let_def
      split: option.splits if_splits)

lemma preparation_sequence_small:
  assumes "preparation_ok plan p"
  shows "unat (pp_sequence p) \<le> 6"
proof -
  have "creation_valid (pp_bridge p)" "creation_valid (pp_anchor p)"
    "pp_sequence p = phase_number (cr_phase (pp_bridge p)) + phase_number (cr_phase (pp_anchor p))"
    using preparation_ok_parts [OF assms] by blast+
  then show ?thesis using creation_phases [of "pp_bridge p"] creation_phases [of "pp_anchor p"]
    by (auto simp: phase_number_def)
qed

lemma unat_add_one: "unat (x :: u64) \<le> 6 \<Longrightarrow> unat (x + 1) = Suc (unat x)"
  by (simp add: unat_word_ariths take_bit_nat_eq_self)

lemma preparation_step_rank: "preparation_step plan p q \<Longrightarrow> prep_rank q = Suc (prep_rank p)"
  using preparation_step_sequence [of plan p q] preparation_sequence_small [of plan p]
  by (auto simp: prep_rank_def unat_add_one)

lemma may_create_level: "may_create plan n p \<Longrightarrow> prep_rank p = prep_level n"
  using preparation_ok_parts [of plan p] creation_phases [of "pp_anchor p"]
  by (auto simp: may_create_def prep_rank_def prep_level_def phase_number_def)

interpretation prep: journal "preparation_step plan" "preparation_ok plan" prep_rank "may_create plan" prep_level for plan
  by unfold_locales (auto intro: preparation_step_ok preparation_step_rank may_create_level)

section \<open>The executor is safe\<close>

definition preparation_done :: "preparation \<Rightarrow> bool" where
  "preparation_done p \<longleftrightarrow> cr_phase (pp_bridge p) = ''observed'' \<and> cr_phase (pp_anchor p) = ''observed''
     \<and> pp_sequence p = 6"

lemma preparation_advance_iff:
  "preparation_advance plan expected kind phase i p = Inr q \<longleftrightarrow>
     preparation_ok plan p \<and> expected = pp_sequence p \<and> kind \<in> {''bridge'', ''anchor''}
     \<and> (kind = ''anchor'' \<longrightarrow> cr_phase (pp_bridge p) = ''observed'')
     \<and> (\<exists>c. creation_advance (prep_resource kind p) phase i = Some c
          \<and> q = (if kind = ''bridge'' then p\<lparr>pp_bridge := c\<rparr> else p\<lparr>pp_anchor := c\<rparr>)\<lparr>pp_sequence := pp_sequence p + 1\<rparr>)
     \<and> preparation_ok plan q"
  by (auto simp: preparation_advance_def preparation_ok_def prep_resource_def Let_def
      split: option.splits if_splits)

definition prep_at :: "project_plan \<Rightarrow> string \<Rightarrow> string \<Rightarrow> preparation \<Rightarrow> bool" where
  "prep_at plan kind phase p \<longleftrightarrow> preparation_ok plan p \<and> cr_phase (prep_resource kind p) = phase
     \<and> (kind = ''anchor'' \<longrightarrow> cr_phase (pp_bridge p) = ''observed'')"

lemma creation_advance_phase: "creation_advance c phase i = Some d \<Longrightarrow> cr_phase d = phase"
  by (auto simp: creation_advance_def split: if_splits)

lemma preparation_advance_at:
  assumes "preparation_advance plan e kind phase i p = Inr q"
  shows "kind \<in> {''bridge'', ''anchor''} \<and> prep_at plan kind phase q"
proof -
  note a = assms [unfolded preparation_advance_iff]
  from a obtain c where c: "creation_advance (prep_resource kind p) phase i = Some c"
    and q: "q = (if kind = ''bridge'' then p\<lparr>pp_bridge := c\<rparr> else p\<lparr>pp_anchor := c\<rparr>)\<lparr>pp_sequence := pp_sequence p + 1\<rparr>"
    by blast
  from a have k: "kind \<in> {''bridge'', ''anchor''}" and ok: "preparation_ok plan q"
    and b: "kind = ''anchor'' \<longrightarrow> cr_phase (pp_bridge p) = ''observed''" by blast+
  from k have "cr_phase (prep_resource kind q) = phase \<and> (kind = ''anchor'' \<longrightarrow> cr_phase (pp_bridge q) = ''observed'')"
    using b creation_advance_phase [OF c] by (auto simp: q prep_resource_def)
  with k ok show ?thesis by (simp add: prep_at_def)
qed

lemma prep_may_create:
  "prep_at plan kind ''dispatched'' p \<Longrightarrow> kind \<in> {''bridge'', ''anchor''} \<Longrightarrow> may_create plan (''create-'' @ kind) p"
  by (auto simp: prep_at_def may_create_def prep_resource_def)


abbreviation "prep_safe plan \<equiv> safe_at (preparation_step plan) (may_create plan)"

lemma prep_advance_wp:
  assumes "prep_safe plan s0 r" "\<And>r. prep_safe plan s0 r \<Longrightarrow> E r"
    "\<And>r. prep_safe plan s0 r \<Longrightarrow> kind \<in> {''bridge'', ''anchor''} \<Longrightarrow> prep_at plan kind phase (cur r)
       \<Longrightarrow> fresh_commit (hist r) \<Longrightarrow> Q () r"
  shows "wpP (prep_advanceP plan commit kind phase i) Q E r"
  unfolding prep_advanceP_def using assms(1)
  by (rule wp_advance_safe)
     (auto intro!: assms(2,3) intro: preparation_step.advance dest: preparation_advance_at)


lemmas prep_wp = wp prep_advance_wp
  wp_effect_safe [where step = "preparation_step plan" and ok = "may_create plan" for plan]

lemma prepare_resource_wp:
  assumes "prep_safe plan s0 r" "\<And>r. prep_safe plan s0 r \<Longrightarrow> E r"
    "\<And>r. prep_safe plan s0 r \<Longrightarrow> prep_at plan kind ''observed'' (cur r) \<Longrightarrow> Q () r"
  shows "wpP (prepare_resource ctx plan engine commit kind) Q E r"
  unfolding prepare_resource_def Let_def
  by (intro prep_wp prep_may_create assms(2,3)) (use assms(1) in simp_all)

lemma preparation_done_at:
  "prep_at plan ''anchor'' ''observed'' p \<Longrightarrow> preparation_done p"
  using preparation_ok_parts [of plan p] by (auto simp: prep_at_def prep_resource_def preparation_done_def phase_number_def)

lemma execute_preparation_wp:
  "wpP (execute_preparation ctx plan engine commit) (\<lambda>_ r. prep_safe plan p r \<and> preparation_done (cur r))
     (prep_safe plan p) (start_run p w)"
  unfolding execute_preparation_def list.map
  by (intro wp prepare_resource_wp conjI preparation_done_at) simp_all

text \<open>
  C26. Creating a project's bridge and anchor is safe: each creation is requested at most once, only
  when the journal durably says it was dispatched and has recorded nothing later, every recorded
  step follows from the previous one, and a run without an error has observed both resources.
\<close>

theorem preparation_safe:
  "safe_run (preparation_step plan) (may_create plan) (preparation_ok plan) preparation_done p
     (execute_preparation ctx plan engine commit (start_run p w))"
  by (rule prep.safe_runI [OF execute_preparation_wp])

end
