(* ===== verification/AnchorStart.thy ===== *)
theory AnchorStart
  imports Preparation
begin

text \<open>
  \<open>internal/projectnetwork/anchor_start.go\<close>: starting the prepared anchor, from the fresh journal
  to its boot-bound namespace, and the observation of an anchor without members.
\<close>

record anchor_start =
  an_prepared :: preparation
  an_operation :: string
  an_phase :: string
  an_namespace :: "namespace_identity option"

definition err_observation :: gerr where
  "err_observation = Err ''project runtime observation cannot establish ownership and readiness''"

definition anchor_start_validate :: "anchor_start \<Rightarrow> project_plan \<Rightarrow> gerr option" where
  "anchor_start_validate s plan =
     (if preparation_validate (an_prepared s) plan \<noteq> None \<or> pp_sequence (an_prepared s) \<noteq> 6
         \<or> cr_phase (pp_anchor (an_prepared s)) \<noteq> ''observed'' \<or> \<not> valid_id (an_operation s)
         \<or> an_operation s = pp_operation (an_prepared s)
      then Some (Err ''anchor start requires a distinct operation and completed resource preparation'')
      else if an_phase s = ''planned'' \<or> an_phase s = ''dispatched'' \<or> an_phase s = ''started'' then
        check (an_namespace s = None) ''unobserved anchor start cannot claim a namespace''
      else if an_phase s = ''observed'' then
        check (case an_namespace s of None \<Rightarrow> False | Some n \<Rightarrow> valid_namespace n)
          ''observed anchor lacks a boot-bound namespace''
      else Some (Err ''unsupported anchor start phase''))"

definition new_anchor_start ::
  "project_plan \<Rightarrow> preparation \<Rightarrow> string \<Rightarrow> anchor_start \<times> gerr option" where
  "new_anchor_start plan p operation =
     (let s = \<lparr>an_prepared = p, an_operation = operation, an_phase = ''planned'', an_namespace = None\<rparr>
      in (s, anchor_start_validate s plan))"

definition anchor_start_next :: "(string \<times> string) list" where
  "anchor_start_next = [(''planned'', ''dispatched''), (''dispatched'', ''started''), (''started'', ''observed'')]"

definition anchor_start_advance ::
  "project_plan \<Rightarrow> string \<Rightarrow> string \<Rightarrow> namespace_identity option \<Rightarrow> anchor_start \<Rightarrow> gerr + anchor_start" where
  "anchor_start_advance plan expected phase namespace s =
     (if anchor_start_validate s plan \<noteq> None \<or> an_phase s \<noteq> expected
      then Inl (Err ''stale or invalid anchor start'')
      else if lookup_str anchor_start_next (an_phase s) \<noteq> phase
      then Inl (Err ''anchor start cannot skip or replay a phase'')
      else let s = s\<lparr>an_phase := phase, an_namespace := namespace\<rparr>
      in case anchor_start_validate s plan of Some e \<Rightarrow> Inl e | None \<Rightarrow> Inr s)"

text \<open>\<open>inspect\<close>: one observation of the anchor with no members launched.\<close>

definition bridge_identity :: "preparation \<Rightarrow> resource_identity" where
  "bridge_identity p = \<lparr>ri_id = cr_id (pp_bridge p), ri_contract = cr_contract (pp_bridge p)\<rparr>"

definition anchor_identity :: "preparation \<Rightarrow> resource_identity" where
  "anchor_identity p = \<lparr>ri_id = cr_id (pp_anchor p), ri_contract = cr_contract (pp_anchor p)\<rparr>"

definition anchor_start_inspect ::
  "project_plan \<Rightarrow> anchor_start \<Rightarrow> observation \<Rightarrow> gotime \<Rightarrow> bool \<Rightarrow> gerr option" where
  "anchor_start_inspect plan s ob now running =
     (let p = an_prepared s; bridge = bridge_identity p; anchor = anchor_identity p; a = ob_anchor ob;
          attached = items (ob_attachments ob)
      in if is_zero now \<or> \<not> ob_complete ob \<or> is_zero (ob_time ob) \<or> \<not> in_window now (ob_time ob)
            \<or> ob_project ob \<noteq> pp_project p \<or> ob_revision ob \<noteq> pp_revision p
            \<or> ob_generation ob \<noteq> pp_generation p \<or> ob_engine ob \<noteq> pp_engine p
            \<or> items (ob_members ob) \<noteq> [] \<or> \<not> ro_present (ob_bridge ob) \<or> \<not> ro_present a
            \<or> \<not> exact_resource bridge (ob_bridge ob) \<or> \<not> exact_resource anchor a
            \<or> ao_bridge a \<noteq> ri_id bridge \<or> ao_running a \<noteq> running \<or> \<not> same_publications plan (ao_requested a)
         then Some err_observation
         else if length attached > 1 \<or> length attached = 1 \<and> attached ! 0 \<noteq> ri_id anchor
         then Some err_observation
         else if running then
           (if length attached \<noteq> 1 \<or> \<not> valid_namespace (ao_namespace a) \<or> \<not> same_publications plan (ao_active a)
            then Some err_observation else None)
         else if ao_namespace a \<noteq> no_namespace \<or> items (ao_active a) \<noteq> [] then Some err_observation else None)"

section \<open>The executor\<close>

record 'w anchor_start_engine =
  ae_verify :: "string \<Rightarrow> 'w \<Rightarrow> gerr option \<times> 'w"
  ae_inspect :: "preparation \<Rightarrow> 'w \<Rightarrow> (gerr + observation) \<times> 'w"
  ae_start :: "preparation \<Rightarrow> 'w \<Rightarrow> gerr option \<times> 'w"

type_synonym 'w anchor_start_commit = "string \<Rightarrow> string \<Rightarrow> namespace_identity option \<Rightarrow> 'w \<Rightarrow> gerr option \<times> 'w"

definition anchor_start_verifyP ::
  "('w \<Rightarrow> gerr option \<times> 'w) \<Rightarrow> 'w anchor_start_engine \<Rightarrow> (anchor_start, 'w, unit) prog" where
  "anchor_start_verifyP ctx engine =
     verifyP ctx (\<lambda>s. ae_verify engine (pp_engine (an_prepared s))) ''anchor engine identity could not be verified''"

definition anchor_start_inspectP ::
  "('w \<Rightarrow> gerr option \<times> 'w) \<Rightarrow> project_plan \<Rightarrow> 'w anchor_start_engine \<Rightarrow> ('w \<Rightarrow> gotime \<times> 'w) \<Rightarrow> bool
     \<Rightarrow> (anchor_start, 'w, observation) prog" where
  "anchor_start_inspectP ctx plan engine now running =
     thenP (anchor_start_verifyP ctx engine)
       (bindP (readP (\<lambda>s. ae_inspect engine (an_prepared s)))
         (\<lambda>inspected. case inspected of
            Inl _ \<Rightarrow> failCtxP ctx ''anchor inspection did not establish its recorded ownership''
          | Inr ob \<Rightarrow> thenP (anchor_start_verifyP ctx engine)
              (bindP (readP (\<lambda>_. now))
                (\<lambda>t. thenP (checkP (\<lambda>s. anchor_start_inspect plan s ob t running)) (retP ob)))))"

definition anchor_start_advanceP ::
  "project_plan \<Rightarrow> 'w anchor_start_commit \<Rightarrow> string \<Rightarrow> namespace_identity option \<Rightarrow> (anchor_start, 'w, unit) prog" where
  "anchor_start_advanceP plan commit phase namespace =
     advanceP (\<lambda>s. anchor_start_advance plan (an_phase s) phase namespace s)
              (\<lambda>s n. commit (an_phase s) phase (an_namespace n))"

definition execute_anchor_start ::
  "('w \<Rightarrow> gerr option \<times> 'w) \<Rightarrow> project_plan \<Rightarrow> 'w anchor_start_engine option \<Rightarrow> 'w anchor_start_commit option
     \<Rightarrow> ('w \<Rightarrow> gotime \<times> 'w) option \<Rightarrow> (anchor_start, 'w, unit) prog" where
  "execute_anchor_start ctx plan engine commit now = seqP
     [checkP (\<lambda>s. anchor_start_validate s plan),
      checkP (\<lambda>s. check (an_phase s = ''planned'' \<and> engine \<noteq> None \<and> commit \<noteq> None \<and> now \<noteq> None)
        ''anchor start requires a fresh journal, driver and durable callback''),
      bindP (anchor_start_inspectP ctx plan (the engine) (the now) False) (\<lambda>_. retP ()),
      anchor_start_advanceP plan (the commit) ''dispatched'' None,
      ctxP ctx,
      requestP ctx ''start-anchor'' (\<lambda>s. ae_start (the engine) (an_prepared s))
        ''anchor Start outcome is unresolved; retain its original receipt'',
      anchor_start_advanceP plan (the commit) ''started'' None,
      bindP (anchor_start_inspectP ctx plan (the engine) (the now) True)
        (\<lambda>ob. anchor_start_advanceP plan (the commit) ''observed'' (Some (ao_namespace (ob_anchor ob))))]"

section \<open>Steps of the journal\<close>

definition anchor_start_ok :: "project_plan \<Rightarrow> anchor_start \<Rightarrow> bool" where
  "anchor_start_ok plan s \<longleftrightarrow> anchor_start_validate s plan = None"

inductive anchor_start_step :: "project_plan \<Rightarrow> anchor_start \<Rightarrow> anchor_start \<Rightarrow> bool" for plan where
  advance: "anchor_start_advance plan expected phase namespace s = Inr t \<Longrightarrow> anchor_start_step plan s t"

inductive_cases anchor_start_stepE: "anchor_start_step plan s t"

definition anchor_start_phases :: "string list" where
  "anchor_start_phases = [''planned'', ''dispatched'', ''started'', ''observed'']"

definition anchor_start_acts :: "(string \<times> string) list" where
  "anchor_start_acts = [(''start-anchor'', ''dispatched'')]"

lemma anchor_start_chain: "anchor_start_next = chain anchor_start_phases"
  by (simp add: anchor_start_next_def chain_def anchor_start_phases_def)

lemma anchor_start_phase: "anchor_start_ok plan s \<Longrightarrow> an_phase s \<in> set anchor_start_phases"
  by (auto simp: anchor_start_ok_def anchor_start_validate_def anchor_start_phases_def split: if_splits)

lemma anchor_start_advance_iff:
  "anchor_start_advance plan e phase ns s = Inr t \<longleftrightarrow>
     anchor_start_ok plan s \<and> an_phase s = e \<and> phase = lookup_str anchor_start_next e
     \<and> t = s\<lparr>an_phase := phase, an_namespace := ns\<rparr> \<and> anchor_start_ok plan t"
  by (auto simp: anchor_start_advance_def anchor_start_ok_def Let_def split: option.splits if_splits)

interpretation ans: phase_journal anchor_start_phases "anchor_start_step plan" "anchor_start_ok plan" an_phase
  anchor_start_acts for plan
proof
  show "distinct anchor_start_phases \<and> '''' \<notin> set anchor_start_phases" by (simp add: anchor_start_phases_def)
qed (auto simp: anchor_start_acts_def anchor_start_phase anchor_start_chain anchor_start_advance_iff
      elim!: anchor_start_stepE)

abbreviation "an_may plan \<equiv> may_act (anchor_start_ok plan) an_phase anchor_start_acts"
abbreviation "an_safe plan \<equiv> safe_at (anchor_start_step plan) (an_may plan)"

lemma anchor_start_advance_wp:
  assumes "an_safe plan s0 r" "\<And>r. an_safe plan s0 r \<Longrightarrow> E r"
    "\<And>r. an_safe plan s0 r \<Longrightarrow> anchor_start_ok plan (cur r) \<Longrightarrow> an_phase (cur r) = phase
       \<Longrightarrow> fresh_commit (hist r) \<Longrightarrow> Q () r"
  shows "wpP (anchor_start_advanceP plan commit phase ns) Q E r"
  unfolding anchor_start_advanceP_def using assms(1)
  by (rule wp_advance_safe)
     (auto intro!: assms(2,3) intro: anchor_start_step.advance simp: anchor_start_advance_iff)

lemma anchor_start_inspect_wp:
  assumes "an_safe plan s0 r" "\<And>r. an_safe plan s0 r \<Longrightarrow> E r" "\<And>ob r. an_safe plan s0 r \<Longrightarrow> Q ob r"
  shows "wpP (anchor_start_inspectP ctx plan engine now running) Q E r"
  unfolding anchor_start_inspectP_def anchor_start_verifyP_def
  by (intro wp assms(2,3)) (use assms(1) in simp_all)

lemmas anchor_start_wp = wp anchor_start_advance_wp anchor_start_inspect_wp
  wp_request_safe [where step = "anchor_start_step plan" and ok = "an_may plan" for plan]

lemma execute_anchor_start_wp:
  "wpP (execute_anchor_start ctx plan engine commit now)
     (\<lambda>_ r. an_safe plan s r \<and> an_phase (cur r) = ''observed'') (an_safe plan s) (start_run s w)"
  unfolding execute_anchor_start_def
  by (intro anchor_start_wp) (simp_all add: may_act_def anchor_start_acts_def)

text \<open>
  C27. Starting the anchor is safe: the start is requested at most once, only when the journal durably
  says it was dispatched, and a run without an error has recorded an observed namespace.
\<close>

theorem anchor_start_safe:
  "safe_run (anchor_start_step plan) (an_may plan) (anchor_start_ok plan) (\<lambda>s. an_phase s = ''observed'') s
     (execute_anchor_start ctx plan engine commit now (start_run s w))"
  by (rule ans.safe_runI [OF execute_anchor_start_wp])

end
