(* ===== verification/MemberStorage.thy ===== *)
theory MemberStorage
  imports Runtime Effects PierStore
begin

text \<open>
  \<open>internal/projectnetwork/member_storage.go\<close>: the exclusive mount directory of a new member,
  from the planned intent to the directory observed on disk.
\<close>

record member_storage =
  ms_project :: string
  ms_instance :: string
  ms_runtime :: string
  ms_operation :: string
  ms_revision :: u64
  ms_digest :: string
  ms_phase :: string
  ms_location :: location

text \<open>\<open>"fakeships/" + m.InstanceID + "/" + strings.TrimPrefix(m.Ship, "~")\<close>\<close>

definition member_leaf :: "project_member \<Rightarrow> string" where
  "member_leaf m = ''fakeships/'' @ mr_instance m @ ''/'' @ trim_prefix (mr_ship m) ''~''"

definition valid_member_directory :: "directory_identity \<Rightarrow> bool" where
  "valid_member_directory v \<longleftrightarrow> di_device v \<noteq> 0 \<and> di_inode v \<noteq> 0 \<and> di_birth v \<noteq> ''''"

definition member_storage_validate :: "member_storage \<Rightarrow> project_plan \<Rightarrow> gerr option" where
  "member_storage_validate s plan =
     (if (case plan_digest plan of Inl _ \<Rightarrow> True | Inr digest \<Rightarrow> digest \<noteq> ms_digest s)
         \<or> \<not> valid_id (ms_project s) \<or> ms_revision s = 0 \<or> \<not> hex_string 32 (ms_runtime s)
         \<or> \<not> valid_id (ms_operation s) \<or> \<not> valid_path (lo_path (ms_location s))
         \<or> lo_uncertain (ms_location s) \<or> lo_identity (ms_location s) \<noteq> no_pier
      then Some (Err ''invalid project member storage intent'')
      else if \<not> foldl (\<lambda>found m. if mr_instance m = ms_instance s then lo_path (ms_location s) = member_leaf m else found)
                  False (plan_members plan)
      then Some (Err ''member storage must use its reviewed instance and ship-named leaf'')
      else if ms_phase s = ''planned'' \<or> ms_phase s = ''dispatched'' then
        check (lo_mount (ms_location s) = no_directory) ''uncreated member storage claims a filesystem identity''
      else if ms_phase s = ''created'' \<or> ms_phase s = ''observed'' then
        check (valid_member_directory (lo_mount (ms_location s)))
          ''created member storage lacks its filesystem identity''
      else Some (Err ''unsupported member storage phase''))"

definition new_member_storage ::
  "project_plan \<Rightarrow> string \<Rightarrow> u64 \<Rightarrow> string \<Rightarrow> string \<Rightarrow> string \<Rightarrow> (gerr + member_storage)" where
  "new_member_storage plan project revision member runtime operation =
     (case plan_digest plan of Inl e \<Rightarrow> Inl e | Inr digest \<Rightarrow>
       let path = foldl (\<lambda>path m. if mr_instance m = member then member_leaf m else path) '''' (plan_members plan);
           s = \<lparr>ms_project = project, ms_instance = member, ms_runtime = runtime, ms_operation = operation,
                ms_revision = revision, ms_digest = digest, ms_phase = ''planned'',
                ms_location = \<lparr>lo_path = path, lo_identity = no_pier, lo_mount = no_directory,
                  lo_uncertain = False\<rparr>\<rparr>
       in case member_storage_validate s plan of Some e \<Rightarrow> Inl e | None \<Rightarrow> Inr s)"

definition member_storage_next :: "(string \<times> string) list" where
  "member_storage_next = [(''planned'', ''dispatched''), (''dispatched'', ''created''), (''created'', ''observed'')]"

definition member_storage_advance ::
  "project_plan \<Rightarrow> string \<Rightarrow> string \<Rightarrow> directory_identity \<Rightarrow> member_storage \<Rightarrow> gerr + member_storage" where
  "member_storage_advance plan expected phase identity s =
     (if member_storage_validate s plan \<noteq> None \<or> ms_phase s \<noteq> expected
      then Inl (Err ''stale or invalid member storage phase'')
      else if lookup_str member_storage_next (ms_phase s) \<noteq> phase
      then Inl (Err ''member storage cannot skip or replay a phase'')
      else if phase = ''observed'' \<and> identity \<noteq> lo_mount (ms_location s)
      then Inl (Err ''member storage identity changed before observation'')
      else let s = s\<lparr>ms_phase := phase, ms_location := (ms_location s)\<lparr>lo_mount := identity\<rparr>\<rparr>
      in case member_storage_validate s plan of Some e \<Rightarrow> Inl e | None \<Rightarrow> Inr s)"

section \<open>The executor\<close>

record 'w member_storage_driver =
  md_create :: "member_storage \<Rightarrow> 'w \<Rightarrow> (directory_identity \<times> gerr option) \<times> 'w"
  md_inspect :: "member_storage \<Rightarrow> 'w \<Rightarrow> gerr option \<times> 'w"

type_synonym 'w member_storage_commit = "string \<Rightarrow> string \<Rightarrow> directory_identity \<Rightarrow> 'w \<Rightarrow> gerr option \<times> 'w"

definition member_storage_advanceP ::
  "project_plan \<Rightarrow> 'w member_storage_commit \<Rightarrow> string \<Rightarrow> directory_identity \<Rightarrow> (member_storage, 'w, unit) prog" where
  "member_storage_advanceP plan commit phase i =
     advanceP (\<lambda>s. member_storage_advance plan (ms_phase s) phase i s) (\<lambda>s _. commit (ms_phase s) phase i)"

definition execute_member_storage ::
  "('w \<Rightarrow> gerr option \<times> 'w) \<Rightarrow> project_plan \<Rightarrow> 'w member_storage_driver option \<Rightarrow> 'w member_storage_commit option
     \<Rightarrow> (member_storage, 'w, unit) prog" where
  "execute_member_storage ctx plan d commit = seqP
     [checkP (\<lambda>s. check (member_storage_validate s plan = None \<and> ms_phase s = ''planned'' \<and> d \<noteq> None \<and> commit \<noteq> None)
        ''member storage requires fresh intent and durable dispatch''),
      ctxP ctx,
      member_storage_advanceP plan (the commit) ''dispatched'' no_directory,
      ctxP ctx,
      bindP (effectP ''create-mount'' (md_create (the d)))
        (\<lambda>(i, create_err). seqP
          [(if i \<noteq> no_directory then member_storage_advanceP plan (the commit) ''created'' i else retP ()),
           (if create_err \<noteq> None
            then failCtxP ctx ''member mount creation did not complete; retain its original receipt'' else retP ()),
           checkP (\<lambda>s. check (ms_phase s = ''created'') ''member mount creation returned no filesystem identity''),
           ctxP ctx,
           callP ctx (md_inspect (the d)) ''member mount observation failed; retain its original receipt'',
           ctxP ctx,
           member_storage_advanceP plan (the commit) ''observed'' i])]"

section \<open>Steps of the journal\<close>

definition member_storage_ok :: "project_plan \<Rightarrow> member_storage \<Rightarrow> bool" where
  "member_storage_ok plan s \<longleftrightarrow> member_storage_validate s plan = None"

inductive member_storage_step :: "project_plan \<Rightarrow> member_storage \<Rightarrow> member_storage \<Rightarrow> bool" for plan where
  advance: "member_storage_advance plan expected phase i s = Inr t \<Longrightarrow> member_storage_step plan s t"

inductive_cases member_storage_stepE: "member_storage_step plan s t"

definition member_storage_phases :: "string list" where
  "member_storage_phases = [''planned'', ''dispatched'', ''created'', ''observed'']"

definition member_storage_acts :: "(string \<times> string) list" where
  "member_storage_acts = [(''create-mount'', ''dispatched'')]"

lemma member_storage_chain: "member_storage_next = chain member_storage_phases"
  by (simp add: member_storage_next_def chain_def member_storage_phases_def)

lemma member_storage_phase: "member_storage_ok plan s \<Longrightarrow> ms_phase s \<in> set member_storage_phases"
  by (auto simp: member_storage_ok_def member_storage_validate_def member_storage_phases_def split: if_splits)

lemma member_storage_advance_iff:
  "member_storage_advance plan e phase i s = Inr t \<longleftrightarrow>
     member_storage_ok plan s \<and> ms_phase s = e \<and> phase = lookup_str member_storage_next e
     \<and> (phase = ''observed'' \<longrightarrow> i = lo_mount (ms_location s))
     \<and> t = s\<lparr>ms_phase := phase, ms_location := (ms_location s)\<lparr>lo_mount := i\<rparr>\<rparr> \<and> member_storage_ok plan t"
  by (auto simp: member_storage_advance_def member_storage_ok_def Let_def split: option.splits if_splits)

lemma member_storage_advance_ok:
  "member_storage_advance plan e phase i s = Inr t \<Longrightarrow> member_storage_ok plan t \<and> ms_phase t = phase"
  by (auto simp: member_storage_advance_iff)

interpretation mst: phase_journal member_storage_phases "member_storage_step plan" "member_storage_ok plan" ms_phase
  member_storage_acts for plan
proof
  show "distinct member_storage_phases \<and> '''' \<notin> set member_storage_phases" by (simp add: member_storage_phases_def)
qed (auto simp: member_storage_acts_def member_storage_phase member_storage_chain member_storage_advance_iff
      elim!: member_storage_stepE)

abbreviation "ms_may plan \<equiv> may_act (member_storage_ok plan) ms_phase member_storage_acts"
abbreviation "ms_safe plan \<equiv> safe_at (member_storage_step plan) (ms_may plan)"

lemma member_storage_advance_wp:
  assumes "ms_safe plan s0 r" "\<And>r. ms_safe plan s0 r \<Longrightarrow> E r"
    "\<And>r. ms_safe plan s0 r \<Longrightarrow> member_storage_ok plan (cur r) \<Longrightarrow> ms_phase (cur r) = phase
       \<Longrightarrow> fresh_commit (hist r) \<Longrightarrow> Q () r"
  shows "wpP (member_storage_advanceP plan commit phase i) Q E r"
  unfolding member_storage_advanceP_def using assms(1)
  by (rule wp_advance_safe)
     (auto intro!: assms(2,3) intro: member_storage_step.advance dest: member_storage_advance_ok)

lemmas member_storage_wp = wp member_storage_advance_wp
  wp_effect_safe [where step = "member_storage_step plan" and ok = "ms_may plan" for plan]

lemma execute_member_storage_wp:
  "wpP (execute_member_storage ctx plan d commit)
     (\<lambda>_ r. ms_safe plan s r \<and> ms_phase (cur r) = ''observed'') (ms_safe plan s) (start_run s w)"
  unfolding execute_member_storage_def
  by (intro member_storage_wp) (simp_all add: may_act_def member_storage_acts_def)

text \<open>
  C28. Creating a member's mount directory is safe: it is requested at most once, only when the journal
  durably says it was dispatched, and a run without an error has recorded the observed directory.
\<close>

theorem member_storage_safe:
  "safe_run (member_storage_step plan) (ms_may plan) (member_storage_ok plan) (\<lambda>s. ms_phase s = ''observed'') s
     (execute_member_storage ctx plan d commit (start_run s w))"
  by (rule mst.safe_runI [OF execute_member_storage_wp])

text \<open>A location that was observed is the planned leaf of its member.\<close>

lemma member_storage_located:
  assumes "member_storage_ok plan s"
  shows "\<exists>m \<in> set (plan_members plan). mr_instance m = ms_instance s \<and> lo_path (ms_location s) = member_leaf m"
proof -
  have "case find (\<lambda>m. mr_instance m = ms_instance s) (rev (plan_members plan)) of
      None \<Rightarrow> False | Some m \<Rightarrow> lo_path (ms_location s) = member_leaf m"
    using assms unfolding member_storage_ok_def member_storage_validate_def foldl_matching
    by (auto split: if_splits)
  then show ?thesis by (auto simp: find_Some_iff in_set_conv_nth split: option.splits)
     (metis length_rev nth_mem set_rev in_set_conv_nth)
qed

end
