(* ===== verification/MemberLaunch.thy ===== *)
theory MemberLaunch
  imports AnchorStart MemberStorage "HOL-Library.AList"
begin

text \<open>
  \<open>internal/projectnetwork/member_launch.go\<close>: the first container of a member, from the fresh
  intent through its workspace, creation and start to the observed running container. Its peers
  are the members launched before it.
\<close>

record member_launch =
  ml_anchor :: anchor_start
  ml_storage :: member_storage
  ml_operation :: string
  ml_phase :: string
  ml_workspace :: directory_identity
  ml_container :: resource_identity
  ml_peers :: "runtime_member slice"
  ml_namespace :: "namespace_identity option"

definition launch_peer_ok :: "project_plan \<Rightarrow> runtime_member \<Rightarrow> bool" where
  "launch_peer_ok plan m \<longleftrightarrow> list_ex (\<lambda>p. mr_instance p = rm_instance m) (plan_members plan)
     \<and> valid_resource (rm_container m) \<and> hex_string 32 (rm_runtime m)"

text \<open>The loop over the peers; it returns the container ids it has recorded.\<close>

fun launch_peers ::
  "project_plan \<Rightarrow> string list \<Rightarrow> string list \<Rightarrow> string list \<Rightarrow> string option \<Rightarrow> runtime_member list
     \<Rightarrow> string list option" where
  "launch_peers plan ids instances runtimes previous [] = Some ids"
| "launch_peers plan ids instances runtimes previous (m # ms) =
     (if \<not> launch_peer_ok plan m \<or> ri_id (rm_container m) \<in> set ids \<or> rm_instance m \<in> set instances
         \<or> rm_runtime m \<in> set runtimes
         \<or> (case previous of None \<Rightarrow> False | Some p \<Rightarrow> p \<ge> rm_instance m)
      then None
      else launch_peers plan (ri_id (rm_container m) # ids) (rm_instance m # instances)
             (rm_runtime m # runtimes) (Some (rm_instance m)) ms)"

definition launch_stages :: "(string \<times> nat) list" where
  "launch_stages = [(''planned'', 0), (''workspace-dispatched'', 1), (''workspace-created'', 2),
     (''create-dispatched'', 3), (''created'', 4), (''start-dispatched'', 5), (''started'', 6), (''running'', 7)]"

definition member_launch_validate :: "member_launch \<Rightarrow> project_plan \<Rightarrow> gerr option" where
  "member_launch_validate s plan =
     (let fail = Some (Err ''invalid initial member launch binding'');
          p = an_prepared (ml_anchor s); st = ml_storage s
      in if anchor_start_validate (ml_anchor s) plan \<noteq> None \<or> an_phase (ml_anchor s) \<noteq> ''observed''
            \<or> member_storage_validate st plan \<noteq> None \<or> ms_phase st \<noteq> ''observed''
            \<or> ms_project st \<noteq> pp_project p \<or> ms_revision st \<noteq> pp_revision p \<or> ms_digest st \<noteq> pp_digest p
            \<or> \<not> valid_id (ml_operation s) \<or> ml_operation s = ms_operation st
            \<or> ml_operation s = an_operation (ml_anchor s) \<or> ml_operation s = pp_operation p
            \<or> \<not> hex_string 64 (ri_contract (ml_container s))
         then fail
         else case launch_peers plan [cr_id (pp_anchor p), cr_id (pp_bridge p)] [ms_instance st] [ms_runtime st] None
                     (items (ml_peers s)) of None \<Rightarrow> fail | Some ids \<Rightarrow>
           (case map_of launch_stages (ml_phase s) of None \<Rightarrow> fail | Some stage \<Rightarrow>
             if (if stage < 2 then ml_workspace s \<noteq> no_directory else \<not> valid_member_directory (ml_workspace s))
             then fail
             else if (if stage < 4 then ri_id (ml_container s) \<noteq> ''''
                      else \<not> valid_resource (ml_container s) \<or> ri_id (ml_container s) \<in> set ids)
             then fail
             else if (if stage < 7 then ml_namespace s \<noteq> None
                      else ml_namespace s = None \<or> ml_namespace s \<noteq> an_namespace (ml_anchor s))
             then fail else None))"

definition new_member_launch ::
  "project_plan \<Rightarrow> anchor_start \<Rightarrow> member_storage \<Rightarrow> string \<Rightarrow> string \<Rightarrow> runtime_member slice
     \<Rightarrow> member_launch \<times> gerr option" where
  "new_member_launch plan anchor storage operation contract peers =
     (let s = \<lparr>ml_anchor = anchor, ml_storage = storage, ml_operation = operation, ml_phase = ''planned'',
               ml_workspace = no_directory, ml_container = \<lparr>ri_id = '''', ri_contract = contract\<rparr>,
               ml_peers = peers, ml_namespace = None\<rparr>
      in (s, member_launch_validate s plan))"

record launch_result =
  lr_workspace :: directory_identity
  lr_container :: string
  lr_namespace :: "namespace_identity option"

definition no_launch_result :: launch_result where
  "no_launch_result = \<lparr>lr_workspace = no_directory, lr_container = '''', lr_namespace = None\<rparr>"

definition member_launch_next :: "(string \<times> string) list" where
  "member_launch_next = [(''planned'', ''workspace-dispatched''), (''workspace-dispatched'', ''workspace-created''),
     (''workspace-created'', ''create-dispatched''), (''create-dispatched'', ''created''),
     (''created'', ''start-dispatched''), (''start-dispatched'', ''started''), (''started'', ''running'')]"

text \<open>The payload of each phase: what a transition may carry and where it is recorded.\<close>

definition launch_payload :: "string \<Rightarrow> launch_result \<Rightarrow> member_launch \<Rightarrow> member_launch option" where
  "launch_payload phase result s =
     (if phase = ''workspace-created'' then
        (if \<not> valid_member_directory (lr_workspace result) \<or> lr_container result \<noteq> '''' \<or> lr_namespace result \<noteq> None
         then None else Some (s\<lparr>ml_workspace := lr_workspace result\<rparr>))
      else if phase = ''created'' then
        (if \<not> hex_string 64 (lr_container result) \<or> lr_workspace result \<noteq> no_directory \<or> lr_namespace result \<noteq> None
         then None else Some (s\<lparr>ml_container := (ml_container s)\<lparr>ri_id := lr_container result\<rparr>\<rparr>))
      else if phase = ''running'' then
        (if lr_namespace result = None \<or> lr_workspace result \<noteq> no_directory \<or> lr_container result \<noteq> ''''
         then None else Some (s\<lparr>ml_namespace := lr_namespace result\<rparr>))
      else if lr_workspace result \<noteq> no_directory \<or> lr_container result \<noteq> '''' \<or> lr_namespace result \<noteq> None
      then None else Some s)"

definition member_launch_advance ::
  "project_plan \<Rightarrow> string \<Rightarrow> string \<Rightarrow> launch_result \<Rightarrow> member_launch \<Rightarrow> gerr + member_launch" where
  "member_launch_advance plan expected phase result s =
     (let refuse = Inl (Err ''stale or invalid member launch transition'')
      in if member_launch_validate s plan \<noteq> None \<or> ml_phase s \<noteq> expected
            \<or> lookup_str member_launch_next expected \<noteq> phase
      then refuse
      else case launch_payload phase result s of None \<Rightarrow> refuse | Some s \<Rightarrow>
        let s = s\<lparr>ml_phase := phase\<rparr>
        in case member_launch_validate s plan of Some e \<Rightarrow> Inl e | None \<Rightarrow> Inr s)"

text \<open>\<open>inspect\<close>: the anchor, then exactly the expected members on it.\<close>

fun launch_scan :: "member_launch \<Rightarrow> bool \<Rightarrow> (string \<times> resource_identity) list \<Rightarrow> member_observation list \<Rightarrow> bool" where
  "launch_scan s running expected [] = True"
| "launch_scan s running expected (m # ms) =
     (case map_of expected (mo_instance m) of None \<Rightarrow> False | Some want \<Rightarrow>
       ro_present m \<and> exact_resource want m \<and> mo_anchor m = cr_id (pp_anchor (an_prepared (ml_anchor s)))
       \<and> (if mo_running m then Some (mo_namespace m) = an_namespace (ml_anchor s) else mo_namespace m = no_namespace)
       \<and> \<not> (mo_instance m = ms_instance (ml_storage s) \<and> mo_running m \<noteq> running)
       \<and> launch_scan s running (AList.delete (mo_instance m) expected) ms)"

definition launch_expected :: "member_launch \<Rightarrow> bool \<Rightarrow> (string \<times> resource_identity) list" where
  "launch_expected s present =
     (let peers = fold (\<lambda>m. AList.update (rm_instance m) (rm_container m)) (items (ml_peers s)) []
      in if present then AList.update (ms_instance (ml_storage s)) (ml_container s) peers else peers)"

definition member_launch_inspect ::
  "project_plan \<Rightarrow> member_launch \<Rightarrow> observation \<Rightarrow> gotime \<Rightarrow> bool \<Rightarrow> bool \<Rightarrow> gerr option" where
  "member_launch_inspect plan s ob now present running =
     (if anchor_start_inspect plan (ml_anchor s) (ob\<lparr>ob_members := NilSlice\<rparr>) now True \<noteq> None
         \<or> Some (ao_namespace (ob_anchor ob)) \<noteq> an_namespace (ml_anchor s)
      then Some err_observation
      else if length (items (ob_members ob)) \<noteq> length (launch_expected s present)
      then Some err_observation
      else if \<not> launch_scan s running (launch_expected s present) (items (ob_members ob))
      then Some err_observation else None)"

section \<open>The executor\<close>

record 'w member_launch_driver =
  ld_verify :: "string \<Rightarrow> 'w \<Rightarrow> gerr option \<times> 'w"
  ld_workspace :: "member_launch \<Rightarrow> 'w \<Rightarrow> (directory_identity \<times> gerr option) \<times> 'w"
  ld_preflight :: "member_launch \<Rightarrow> 'w \<Rightarrow> gerr option \<times> 'w"
  ld_inspect :: "member_launch \<Rightarrow> 'w \<Rightarrow> (gerr + observation) \<times> 'w"
  ld_create :: "member_launch \<Rightarrow> 'w \<Rightarrow> (string \<times> gerr option) \<times> 'w"
  ld_start :: "member_launch \<Rightarrow> 'w \<Rightarrow> gerr option \<times> 'w"

type_synonym 'w member_launch_commit = "string \<Rightarrow> string \<Rightarrow> launch_result \<Rightarrow> 'w \<Rightarrow> gerr option \<times> 'w"

definition launch_verifyP ::
  "('w \<Rightarrow> gerr option \<times> 'w) \<Rightarrow> 'w member_launch_driver \<Rightarrow> (member_launch, 'w, unit) prog" where
  "launch_verifyP ctx d = verifyP ctx (\<lambda>s. ld_verify d (pp_engine (an_prepared (ml_anchor s))))
     ''member launch engine identity could not be verified''"

definition launch_advanceP ::
  "project_plan \<Rightarrow> 'w member_launch_commit \<Rightarrow> string \<Rightarrow> (member_launch \<Rightarrow> launch_result)
     \<Rightarrow> (member_launch, 'w, unit) prog" where
  "launch_advanceP plan commit phase result =
     advanceP (\<lambda>s. member_launch_advance plan (ml_phase s) phase (result s) s)
              (\<lambda>s _. commit (ml_phase s) phase (result s))"

definition launch_inspectP ::
  "('w \<Rightarrow> gerr option \<times> 'w) \<Rightarrow> project_plan \<Rightarrow> 'w member_launch_driver \<Rightarrow> ('w \<Rightarrow> gotime \<times> 'w) \<Rightarrow> bool \<Rightarrow> bool
     \<Rightarrow> (member_launch, 'w, unit) prog" where
  "launch_inspectP ctx plan d now present running =
     thenP (launch_verifyP ctx d)
       (bindP (observeP ctx (ld_inspect d) ''member launch ownership observation failed'')
         (\<lambda>ob. thenP (launch_verifyP ctx d)
            (checkAtP now (\<lambda>t s. member_launch_inspect plan s ob t present running))))"

definition launch_preflightP ::
  "('w \<Rightarrow> gerr option \<times> 'w) \<Rightarrow> 'w member_launch_driver \<Rightarrow> (member_launch, 'w, unit) prog" where
  "launch_preflightP ctx d = seqP
     [launch_verifyP ctx d,
      callP ctx (ld_preflight d) ''member launch storage or artifact preflight failed'',
      launch_verifyP ctx d]"

definition launch_workspaceP ::
  "('w \<Rightarrow> gerr option \<times> 'w) \<Rightarrow> project_plan \<Rightarrow> 'w member_launch_driver \<Rightarrow> 'w member_launch_commit
     \<Rightarrow> (member_launch, 'w, unit) prog" where
  "launch_workspaceP ctx plan d commit =
     bindP (effectP ''prepare-workspace'' (ld_workspace d))
       (\<lambda>(workspace, prepare_err). seqP
         [(if workspace \<noteq> no_directory
           then launch_advanceP plan commit ''workspace-created'' (\<lambda>_. no_launch_result\<lparr>lr_workspace := workspace\<rparr>)
           else retP ()),
          (if prepare_err \<noteq> None
           then failCtxP ctx ''member workspace preparation is unresolved; retain its receipt'' else retP ()),
          requireP ctx (\<lambda>s. ml_phase s = ''workspace-created'') ''member workspace returned no exact identity''])"

definition launch_createP ::
  "('w \<Rightarrow> gerr option \<times> 'w) \<Rightarrow> project_plan \<Rightarrow> 'w member_launch_driver \<Rightarrow> 'w member_launch_commit
     \<Rightarrow> (member_launch, 'w, unit) prog" where
  "launch_createP ctx plan d commit =
     bindP (effectP ''create-member'' (ld_create d))
       (\<lambda>(i, create_err). seqP
         [(if i \<noteq> '''' then launch_advanceP plan commit ''created'' (\<lambda>_. no_launch_result\<lparr>lr_container := i\<rparr>)
           else retP ()),
          (if create_err \<noteq> None
           then failCtxP ctx ''member container creation is unresolved; retain its receipt'' else retP ()),
          requireP ctx (\<lambda>s. ml_phase s = ''created'') ''member creation returned no exact container ID''])"

definition execute_member_launch ::
  "('w \<Rightarrow> gerr option \<times> 'w) \<Rightarrow> project_plan \<Rightarrow> 'w member_launch_driver option \<Rightarrow> 'w member_launch_commit option
     \<Rightarrow> ('w \<Rightarrow> gotime \<times> 'w) option \<Rightarrow> (member_launch, 'w, unit) prog" where
  "execute_member_launch ctx plan driver com clock =
     (let d = the driver; commit = the com; now = the clock in seqP
     [checkP (\<lambda>s. check (member_launch_validate s plan = None \<and> ml_phase s = ''planned''
          \<and> driver \<noteq> None \<and> com \<noteq> None \<and> clock \<noteq> None)
        ''member launch requires fresh intent and durable dispatch''),
      launch_inspectP ctx plan d now False False,
      launch_advanceP plan commit ''workspace-dispatched'' (\<lambda>_. no_launch_result),
      launch_verifyP ctx d,
      launch_workspaceP ctx plan d commit,
      launch_preflightP ctx d,
      launch_inspectP ctx plan d now False False,
      launch_advanceP plan commit ''create-dispatched'' (\<lambda>_. no_launch_result),
      launch_verifyP ctx d,
      launch_createP ctx plan d commit,
      launch_preflightP ctx d,
      launch_inspectP ctx plan d now True False,
      launch_advanceP plan commit ''start-dispatched'' (\<lambda>_. no_launch_result),
      launch_verifyP ctx d,
      requestP ctx ''start-member'' (ld_start d) ''member Start outcome is unresolved; retain its receipt'',
      launch_advanceP plan commit ''started'' (\<lambda>_. no_launch_result),
      launch_inspectP ctx plan d now True True,
      launch_advanceP plan commit ''running'' (\<lambda>s. no_launch_result\<lparr>lr_namespace := an_namespace (ml_anchor s)\<rparr>)])"

section \<open>Steps of the journal\<close>

definition member_launch_ok :: "project_plan \<Rightarrow> member_launch \<Rightarrow> bool" where
  "member_launch_ok plan s \<longleftrightarrow> member_launch_validate s plan = None"

inductive member_launch_step :: "project_plan \<Rightarrow> member_launch \<Rightarrow> member_launch \<Rightarrow> bool" for plan where
  advance: "member_launch_advance plan expected phase result s = Inr t \<Longrightarrow> member_launch_step plan s t"

inductive_cases member_launch_stepE: "member_launch_step plan s t"

definition member_launch_phases :: "string list" where
  "member_launch_phases = map fst launch_stages"

definition member_launch_acts :: "(string \<times> string) list" where
  "member_launch_acts = [(''prepare-workspace'', ''workspace-dispatched''), (''create-member'', ''create-dispatched''),
     (''start-member'', ''start-dispatched'')]"

lemma member_launch_chain: "member_launch_next = chain member_launch_phases"
  by (simp add: member_launch_next_def chain_def member_launch_phases_def launch_stages_def)

lemma member_launch_parts:
  assumes "member_launch_ok plan s"
  shows "anchor_start_ok plan (ml_anchor s) \<and> an_phase (ml_anchor s) = ''observed''
    \<and> member_storage_ok plan (ml_storage s) \<and> ms_phase (ml_storage s) = ''observed''
    \<and> (\<exists>stage. map_of launch_stages (ml_phase s) = Some stage
        \<and> (4 \<le> stage \<longrightarrow> valid_resource (ml_container s)) 
        \<and> (7 \<le> stage \<longrightarrow> ml_namespace s = an_namespace (ml_anchor s)))"
  using assms unfolding member_launch_ok_def member_launch_validate_def Let_def anchor_start_ok_def member_storage_ok_def
  by (auto cong del: if_weak_cong split: option.splits if_splits)

lemma member_launch_phase: "member_launch_ok plan s \<Longrightarrow> ml_phase s \<in> set member_launch_phases"
  using member_launch_parts [of plan s] unfolding member_launch_phases_def
  by (metis map_of_eq_None_iff option.distinct(1) list.set_map)

lemma launch_payload_phase [simp]: "launch_payload phase r s = Some t \<Longrightarrow> ml_phase t = ml_phase s"
  by (auto simp: launch_payload_def split: if_splits)

lemma member_launch_advance_iff:
  "member_launch_advance plan e phase x s = Inr t \<longleftrightarrow>
     member_launch_ok plan s \<and> ml_phase s = e \<and> phase = lookup_str member_launch_next e
     \<and> (\<exists>u. launch_payload phase x s = Some u \<and> t = u\<lparr>ml_phase := phase\<rparr>) \<and> member_launch_ok plan t"
  by (auto simp: member_launch_advance_def member_launch_ok_def Let_def split: option.splits if_splits)

lemma member_launch_advance_ok:
  "member_launch_advance plan e phase x s = Inr t \<Longrightarrow> member_launch_ok plan t \<and> ml_phase t = phase"
  by (auto simp: member_launch_advance_iff)

interpretation mla: phase_journal member_launch_phases "member_launch_step plan" "member_launch_ok plan" ml_phase
  member_launch_acts for plan
proof
  show "distinct member_launch_phases \<and> '''' \<notin> set member_launch_phases"
    by (simp add: member_launch_phases_def launch_stages_def)
qed (auto simp: member_launch_acts_def member_launch_phase member_launch_chain member_launch_advance_iff
      elim!: member_launch_stepE)

abbreviation "ml_may plan \<equiv> may_act (member_launch_ok plan) ml_phase member_launch_acts"
abbreviation "ml_safe plan \<equiv> safe_at (member_launch_step plan) (ml_may plan)"

lemma launch_advance_wp:
  assumes "ml_safe plan s0 r" "\<And>r. ml_safe plan s0 r \<Longrightarrow> E r"
    "\<And>r. ml_safe plan s0 r \<Longrightarrow> member_launch_ok plan (cur r) \<Longrightarrow> ml_phase (cur r) = phase
       \<Longrightarrow> fresh_commit (hist r) \<Longrightarrow> Q () r"
  shows "wpP (launch_advanceP plan commit phase f) Q E r"
  unfolding launch_advanceP_def using assms(1)
  by (rule wp_advance_safe)
     (auto intro!: assms(2,3) intro: member_launch_step.advance dest: member_launch_advance_ok)

lemmas launch_wp = wp launch_advance_wp
  wp_effect_safe [where step = "member_launch_step plan" and ok = "ml_may plan" for plan]
  wp_request_safe [where step = "member_launch_step plan" and ok = "ml_may plan" for plan]

lemma launch_inspect_wp:
  assumes "ml_safe plan s0 r" "\<And>r. ml_safe plan s0 r \<Longrightarrow> E r"
    "\<And>q. ml_safe plan s0 q \<Longrightarrow> cur q = cur r \<Longrightarrow> Q () q"
  shows "wpP (launch_inspectP ctx plan d now present running) Q E r"
  unfolding launch_inspectP_def launch_verifyP_def
  by (intro wp assms(2,3)) (use assms(1) in simp_all)

lemma launch_preflight_wp:
  assumes "ml_safe plan s0 r" "\<And>r. ml_safe plan s0 r \<Longrightarrow> E r"
    "\<And>q. ml_safe plan s0 q \<Longrightarrow> cur q = cur r \<Longrightarrow> Q () q"
  shows "wpP (launch_preflightP ctx d) Q E r"
  unfolding launch_preflightP_def launch_verifyP_def
  by (intro wp assms(2,3)) (use assms(1) in simp_all)

lemma launch_workspace_wp:
  assumes "ml_safe plan s0 r" "member_launch_ok plan (cur r)" "ml_phase (cur r) = ''workspace-dispatched''"
    "fresh_commit (hist r)" "\<And>r. ml_safe plan s0 r \<Longrightarrow> E r"
    "\<And>q. ml_safe plan s0 q \<Longrightarrow> Q () q"
  shows "wpP (launch_workspaceP ctx plan d commit) Q E r"
  unfolding launch_workspaceP_def
  by (intro launch_wp assms(5,6)) (use assms(1-4) in \<open>simp_all add: may_act_def member_launch_acts_def\<close>)

lemma launch_create_wp:
  assumes "ml_safe plan s0 r" "member_launch_ok plan (cur r)" "ml_phase (cur r) = ''create-dispatched''"
    "fresh_commit (hist r)" "\<And>r. ml_safe plan s0 r \<Longrightarrow> E r"
    "\<And>q. ml_safe plan s0 q \<Longrightarrow> Q () q"
  shows "wpP (launch_createP ctx plan d commit) Q E r"
  unfolding launch_createP_def
  by (intro launch_wp assms(5,6)) (use assms(1-4) in \<open>simp_all add: may_act_def member_launch_acts_def\<close>)

lemma execute_member_launch_wp:
  "wpP (execute_member_launch ctx plan d commit now)
     (\<lambda>_ r. ml_safe plan s r \<and> ml_phase (cur r) = ''running'' \<and> member_launch_ok plan (cur r)) (ml_safe plan s) (start_run s w)"
  unfolding execute_member_launch_def Let_def launch_verifyP_def
  by (intro launch_inspect_wp launch_preflight_wp launch_workspace_wp launch_create_wp launch_wp conjI)
    (simp_all add: may_act_def member_launch_acts_def)

text \<open>
  C29. Launching a member is safe: its workspace, its container and its start are each requested at most
  once, each only when the journal durably says it was dispatched, and a run without an error has
  recorded the running container in the anchor's namespace.
\<close>

theorem member_launch_safe:
  "safe_run (member_launch_step plan) (ml_may plan) (member_launch_ok plan)
     (\<lambda>s. ml_phase s = ''running'' \<and> ml_namespace s = an_namespace (ml_anchor s)) s
     (execute_member_launch ctx plan d commit now (start_run s w))"
proof (rule mla.safe_runI, rule wpP_mono [OF execute_member_launch_wp])
  fix r :: "(member_launch, 'a) run"
  assume "ml_safe plan s r \<and> ml_phase (cur r) = ''running'' \<and> member_launch_ok plan (cur r)"
  then show "ml_safe plan s r \<and> ml_phase (cur r) = ''running'' \<and> ml_namespace (cur r) = an_namespace (ml_anchor (cur r))"
    using member_launch_parts [of plan "cur r"] by (auto simp: launch_stages_def)
qed

end
