(* ===== verification/MemberReadiness.thy ===== *)
theory MemberReadiness
  imports MemberLaunch
begin

text \<open>
  \<open>internal/projectnetwork/member_readiness.go\<close>: the runtime binding reconstructed from the
  launch receipts of all members, and the evidence that one member was ready. The copies the code
  makes of slices and pointers are the identity here: values are not shared.
\<close>

section \<open>The initial binding\<close>

definition launched_member :: "member_launch \<Rightarrow> runtime_member" where
  "launched_member s = \<lparr>rm_instance = ms_instance (ml_storage s), rm_runtime = ms_runtime (ml_storage s),
     rm_container = ml_container s\<rparr>"

text \<open>The loop over the receipts ordered by their number of peers.\<close>

fun initial_members ::
  "project_plan \<Rightarrow> anchor_start \<Rightarrow> nat \<Rightarrow> string list \<Rightarrow> runtime_member list \<Rightarrow> member_launch list
     \<Rightarrow> runtime_member list option" where
  "initial_members plan anchor i operations previous [] = Some previous"
| "initial_members plan anchor i operations previous (s # ss) =
     (if member_launch_validate s plan \<noteq> None \<or> ml_phase s \<noteq> ''running'' \<or> ml_anchor s \<noteq> anchor
         \<or> length (items (ml_peers s)) \<noteq> i then None
      else if ml_operation s \<in> set operations \<or> ms_operation (ml_storage s) \<in> set operations
              \<or> ml_operation s = ms_operation (ml_storage s) then None
      else if take (length previous) (items (ml_peers s)) \<noteq> previous then None
      else initial_members plan anchor (Suc i) (ml_operation s # ms_operation (ml_storage s) # operations)
             (sort_key rm_instance (previous @ [launched_member s])) ss)"

definition anchor_binding :: "anchor_start \<Rightarrow> runtime_member list \<Rightarrow> runtime_binding" where
  "anchor_binding anchor members =
     (let p = an_prepared anchor in
      \<lparr>rb_project = pp_project p, rb_revision = pp_revision p, rb_generation = pp_generation p,
       rb_digest = pp_digest p, rb_engine = pp_engine p, rb_bridge = bridge_identity p,
       rb_anchor = anchor_identity p,
       rb_namespace = (case an_namespace anchor of None \<Rightarrow> no_namespace | Some n \<Rightarrow> n),
       rb_members = Slice members\<rparr>)"

definition initial_runtime_binding :: "project_plan \<Rightarrow> member_launch list \<Rightarrow> gerr + runtime_binding" where
  "initial_runtime_binding plan launches =
     (let fail = Inl (Err ''complete consistent initial member launch receipts are required'')
      in if length launches \<noteq> length (plan_members plan) \<or> length launches = 0 then fail
      else let ordered = sort_key (\<lambda>s. length (items (ml_peers s))) launches; anchor = ml_anchor (hd ordered)
      in case initial_members plan anchor 0 [an_operation anchor, pp_operation (an_prepared anchor)] [] ordered of
           None \<Rightarrow> fail
         | Some members \<Rightarrow>
             let b = anchor_binding anchor members
             in if binding_validate b plan \<noteq> None then fail else Inr b)"

section \<open>Readiness evidence\<close>

record member_readiness =
  rd_instance :: string
  rd_launch :: string
  rd_binding :: runtime_binding
  rd_storage :: location
  rd_ship :: string
  rd_endpoint :: string
  rd_before :: observation
  rd_after :: observation
  rd_captured :: gotime

definition initial_member ::
  "project_plan \<Rightarrow> member_launch list \<Rightarrow> string \<Rightarrow> (member_launch \<times> project_member) option" where
  "initial_member plan launches member =
     (case find (\<lambda>m. mr_instance m = member) (plan_members plan) of None \<Rightarrow> None | Some m \<Rightarrow>
       map_option (\<lambda>s. (s, m)) (find (\<lambda>s. ms_instance (ml_storage s) = member) launches))"

definition valid_pier_identity :: "pier_identity \<Rightarrow> bool" where
  "valid_pier_identity i \<longleftrightarrow> pi_device i \<noteq> 0 \<and> pi_inode i \<noteq> 0 \<and> pi_birth i \<noteq> '''' \<and> pi_urb_device i \<noteq> 0
     \<and> pi_urb_inode i \<noteq> 0 \<and> pi_urb_birth i \<noteq> ''''"

definition distinct_places :: "pier_identity \<Rightarrow> directory_identity \<Rightarrow> bool" where
  "distinct_places i parent \<longleftrightarrow> (pi_device i \<noteq> pi_urb_device i \<or> pi_inode i \<noteq> pi_urb_inode i)
     \<and> (pi_device i \<noteq> di_device parent \<or> pi_inode i \<noteq> di_inode parent)
     \<and> (pi_urb_device i \<noteq> di_device parent \<or> pi_urb_inode i \<noteq> di_inode parent)"

definition readiness_storage :: "member_launch \<Rightarrow> location \<Rightarrow> bool" where
  "readiness_storage s l \<longleftrightarrow> lo_path l = lo_path (ms_location (ml_storage s))
     \<and> lo_mount l = lo_mount (ms_location (ml_storage s)) \<and> \<not> lo_uncertain l
     \<and> valid_pier_identity (lo_identity l) \<and> distinct_places (lo_identity l) (lo_mount l)"

text \<open>\<open>fmt.Sprintf("http://127.0.0.1:%d/~/host", m.HTTPPort)\<close>\<close>

definition host_endpoint :: "project_member \<Rightarrow> string" where
  "host_endpoint m = ''http://127.0.0.1:'' @ dec (unat (mr_http m)) @ ''/~/host''"

definition fully_ready :: "project_plan \<Rightarrow> runtime_binding \<Rightarrow> observation \<Rightarrow> gotime \<Rightarrow> bool" where
  "fully_ready plan b ob now =
     (case assess_runtime plan b ob now of Inl _ \<Rightarrow> False | Inr a \<Rightarrow>
       \<not> (as_state a \<noteq> ''ready'' \<or> as_recovery a \<or> length (items (as_running a)) \<noteq> length (plan_members plan)
          \<or> length (items (as_stopped a)) \<noteq> 0))"

definition member_readiness_validate ::
  "project_plan \<Rightarrow> member_launch list \<Rightarrow> member_readiness \<Rightarrow> gerr option" where
  "member_readiness_validate plan launches r =
     (let fail = Some (Err ''initial member readiness evidence is incomplete or changed'')
      in case initial_runtime_binding plan launches of Inl _ \<Rightarrow> fail | Inr b \<Rightarrow>
         if b \<noteq> rd_binding r \<or> is_zero (rd_captured r) then fail
         else case initial_member plan launches (rd_instance r) of None \<Rightarrow> fail | Some (s, m) \<Rightarrow>
         if rd_launch r \<noteq> ml_operation s \<or> rd_ship r \<noteq> mr_ship m \<or> rd_endpoint r \<noteq> host_endpoint m
            \<or> \<not> readiness_storage s (rd_storage r) then fail
         else if \<not> list_all (\<lambda>ob. fully_ready plan b ob (rd_captured r)) [rd_before r, rd_after r] then fail
         else if before (ob_time (rd_after r)) (ob_time (rd_before r)) then fail
         else if (rd_before r)\<lparr>ob_time := ob_time (rd_after r)\<rparr> \<noteq> rd_after r then fail
         else None)"

section \<open>Collecting it\<close>

record 'w initial_readiness_driver =
  id_verify :: "string \<Rightarrow> 'w \<Rightarrow> gerr option \<times> 'w"
  id_project :: "'w \<Rightarrow> (gerr + observation) \<times> 'w"
  id_pier :: "member_launch \<Rightarrow> 'w \<Rightarrow> (gerr + location) \<times> 'w"
  id_host :: "string \<Rightarrow> 'w \<Rightarrow> (gerr + string) \<times> 'w"

definition collect_initial_readiness ::
  "('w \<Rightarrow> gerr option \<times> 'w) \<Rightarrow> project_plan \<Rightarrow> member_launch list \<Rightarrow> string
     \<Rightarrow> 'w initial_readiness_driver option \<Rightarrow> ('w \<Rightarrow> gotime \<times> 'w) option \<Rightarrow> ('s, 'w, member_readiness) prog" where
  "collect_initial_readiness ctx plan launches member driver clock =
     (let refuse = Err ''initial member readiness could not be established''
      in case (initial_runtime_binding plan launches, driver, clock) of
        (Inr b, Some d, Some now) \<Rightarrow>
         (case initial_member plan launches member of None \<Rightarrow> failP refuse | Some (s, m) \<Rightarrow>
          let verify = stillP refuse ctx (\<lambda>_. id_verify d (rb_engine b)); endpoint = host_endpoint m in
          thenP verify
          (bindP (attemptP refuse (\<lambda>_. id_project d)) (\<lambda>before.
           thenP verify
          (bindP (clockP now) (\<lambda>t.
           thenP (needP refuse (fully_ready plan b before t))
          (bindP (attemptP refuse (\<lambda>_. id_pier d s)) (\<lambda>first.
           thenP (needP refuse (readiness_storage s first))
          (thenP verify
          (bindP (attemptP refuse (\<lambda>_. id_host d endpoint)) (\<lambda>ship.
           thenP (needP refuse (ship = mr_ship m))
          (thenP verify
          (bindP (attemptP refuse (\<lambda>_. id_pier d s)) (\<lambda>second.
           thenP (needP refuse (first = second))
          (thenP verify
          (bindP (attemptP refuse (\<lambda>_. id_project d)) (\<lambda>after.
           thenP verify
          (bindP (clockP now) (\<lambda>captured.
           let r = \<lparr>rd_instance = member, rd_launch = ml_operation s, rd_binding = b, rd_storage = first,
                    rd_ship = ship, rd_endpoint = endpoint, rd_before = before, rd_after = after,
                    rd_captured = captured\<rparr>
           in thenP (needP refuse (member_readiness_validate plan launches r = None))
             (thenP (bindP (readP (\<lambda>_. ctx)) (\<lambda>c. needP refuse (c = None)))
               (retP r))))))))))))))))))))
      | _ \<Rightarrow> failP refuse)"

section \<open>What a complete set of receipts says\<close>

definition launch_operations :: "member_launch \<Rightarrow> string list" where
  "launch_operations s = [ml_operation s, ms_operation (ml_storage s)]"

text \<open>The next receipt of a serial history: its peers are exactly the members before it.\<close>

definition launch_link :: "project_plan \<Rightarrow> anchor_start \<Rightarrow> runtime_member list \<Rightarrow> member_launch \<Rightarrow> bool" where
  "launch_link plan anchor earlier s \<longleftrightarrow> member_launch_ok plan s \<and> ml_phase s = ''running''
     \<and> ml_anchor s = anchor \<and> items (ml_peers s) = sort_key rm_instance earlier"

definition serial_launches :: "project_plan \<Rightarrow> member_launch list \<Rightarrow> bool" where
  "serial_launches plan ordered \<longleftrightarrow> ordered \<noteq> []
     \<and> (\<forall>k<length ordered. launch_link plan (ml_anchor (hd ordered)) (map launched_member (take k ordered)) (ordered ! k))
     \<and> distinct (concat (map launch_operations ordered))
     \<and> an_operation (ml_anchor (hd ordered)) \<notin> set (concat (map launch_operations ordered))
     \<and> pp_operation (an_prepared (ml_anchor (hd ordered))) \<notin> set (concat (map launch_operations ordered))"

lemma sort_key_sort_append: "sort_key f (sort_key f xs @ ys) = sort_key f (xs @ ys)"
proof (rule properties_for_sort_key)
  fix k
  show "filter (\<lambda>x. f k = f x) (sort_key f (xs @ ys)) = filter (\<lambda>x. f k = f x) (sort_key f xs @ ys)"
    using sort_key_stable [of f "f k" "xs @ ys"] sort_key_stable [of f "f k" xs]
    by (simp add: eq_commute [of "f k"])
qed simp_all

lemma initial_members_iff:
  "initial_members plan anchor (length prev) ops (sort_key rm_instance prev) ss = Some out \<longleftrightarrow>
     (\<forall>k<length ss. launch_link plan anchor (prev @ map launched_member (take k ss)) (ss ! k))
     \<and> distinct (concat (map launch_operations ss)) \<and> set ops \<inter> set (concat (map launch_operations ss)) = {}
     \<and> out = sort_key rm_instance (prev @ map launched_member ss)"
proof (induction ss arbitrary: prev ops)
  case (Cons s ss)
  have link: "launch_link plan anchor prev s \<longleftrightarrow> member_launch_validate s plan = None \<and> ml_phase s = ''running''
     \<and> ml_anchor s = anchor \<and> length (items (ml_peers s)) = length prev
     \<and> take (length prev) (items (ml_peers s)) = sort_key rm_instance prev"
    by (auto simp: launch_link_def member_launch_ok_def)
  show ?case
    using Cons.IH [of "prev @ [launched_member s]" "ml_operation s # ms_operation (ml_storage s) # ops"]
    by (simp add: All_less_Suc2 link sort_key_sort_append launch_operations_def cong: conj_cong) blast
qed auto

lemma initial_members_lengths:
  "initial_members plan anchor i ops prev ss = Some out
     \<Longrightarrow> map (\<lambda>s. length (items (ml_peers s))) ss = [i..<i + length ss]"
proof (induction ss arbitrary: i ops prev)
  case (Cons s ss)
  then obtain ops' prev' where "length (items (ml_peers s)) = i" "initial_members plan anchor (Suc i) ops' prev' ss = Some out"
    by (auto simp del: not_None_eq split: if_splits)
  with Cons.IH show ?case by (simp add: upt_conv_Cons del: upt_Suc)
qed simp

lemma initial_members_sound:
  assumes "initial_members plan anchor 0 ops [] ss = Some out"
  shows "distinct (map (\<lambda>s. length (items (ml_peers s))) ss)"
  using initial_members_lengths [OF assms] by simp

lemma initial_members_serial:
  assumes "ordered \<noteq> []"
  shows "initial_members plan (ml_anchor (hd ordered)) 0
      [an_operation (ml_anchor (hd ordered)), pp_operation (an_prepared (ml_anchor (hd ordered)))] [] ordered = Some out
    \<longleftrightarrow> serial_launches plan ordered \<and> out = sort_key rm_instance (map launched_member ordered)"
  using initial_members_iff [of plan "ml_anchor (hd ordered)" "[]"
      "[an_operation (ml_anchor (hd ordered)), pp_operation (an_prepared (ml_anchor (hd ordered)))]" ordered out] assms
  by (auto simp: serial_launches_def)

lemma initial_binding_iff:
  "initial_runtime_binding plan ls = Inr b \<longleftrightarrow>
     length ls = length (plan_members plan)
     \<and> (let ordered = sort_key (\<lambda>s. length (items (ml_peers s))) ls in serial_launches plan ordered
          \<and> b = anchor_binding (ml_anchor (hd ordered)) (sort_key rm_instance (map launched_member ordered)))
     \<and> binding_ok b plan"
proof -
  define ordered where "ordered = sort_key (\<lambda>s. length (items (ml_peers s))) ls"
  have n: "ordered = [] \<longleftrightarrow> ls = []" by (metis length_0_conv length_sort ordered_def)
  show ?thesis
  proof (cases "ls = []")
    case True
    then show ?thesis by (simp add: initial_runtime_binding_def serial_launches_def)
  next
    case False
    with n have "ordered \<noteq> []" by simp
    note serial = initial_members_serial [OF this, of plan]
    show ?thesis
    proof (cases "serial_launches plan ordered")
      case False
      with serial have "initial_members plan (ml_anchor (hd ordered)) 0
          [an_operation (ml_anchor (hd ordered)), pp_operation (an_prepared (ml_anchor (hd ordered)))] [] ordered = None"
        by (meson not_Some_eq)
      with False show ?thesis
        unfolding initial_runtime_binding_def Let_def ordered_def [symmetric] by simp
    next
      case True
      with serial [of "sort_key rm_instance (map launched_member ordered)"] \<open>ls \<noteq> []\<close> show ?thesis
        unfolding initial_runtime_binding_def Let_def ordered_def [symmetric] 
        by (auto simp flip: binding_validate_iff)
    qed
  qed
qed

text \<open>
  C30. The initial binding is reconstructed exactly from a serial launch history: it succeeds when the
  receipts, ordered by their number of peers, are completed launches of one anchor whose peers are
  the members launched before and whose operations are all different; it then holds every launched
  member with its container, in instance order.
\<close>

theorem initial_binding_exact:
  "initial_runtime_binding plan ls = Inr b \<longleftrightarrow>
     length ls = length (plan_members plan)
     \<and> (let ordered = sort_key (\<lambda>s. length (items (ml_peers s))) ls in serial_launches plan ordered
          \<and> b = anchor_binding (ml_anchor (hd ordered)) (sort_key rm_instance (map launched_member ordered)))
     \<and> binding_ok b plan"
  by (rule initial_binding_iff)

lemma initial_binding_ok: "initial_runtime_binding plan ls = Inr b \<Longrightarrow> binding_ok b plan"
  by (simp add: initial_binding_iff)

lemma initial_members_none:
  assumes "mset ls = mset ls'" "initial_runtime_binding plan ls = Inr b"
  shows "initial_runtime_binding plan ls' = Inr b"
proof -
  define key where "key = (\<lambda>s :: member_launch. length (items (ml_peers s)))"
  from assms(2) obtain out where
    "initial_members plan (ml_anchor (hd (sort_key key ls))) 0 [an_operation (ml_anchor (hd (sort_key key ls))),
       pp_operation (an_prepared (ml_anchor (hd (sort_key key ls))))] [] (sort_key key ls) = Some out"
    unfolding initial_runtime_binding_def Let_def key_def [symmetric] by (auto split: if_splits option.splits)
  from initial_members_sound [OF this] have "distinct (map key (sort_key key ls))" by (simp add: key_def)
  then have "distinct (map key ls)" by (simp add: distinct_map distinct_sort)
  then have "sort_key key ls = sort_key key ls'" by (rule sort_key_perm_unique [OF assms(1)])
  then show ?thesis using assms(2) mset_eq_length [OF assms(1)]
    unfolding initial_runtime_binding_def Let_def key_def [symmetric] by (simp only:)
qed

lemma initial_binding_refused: "initial_runtime_binding plan ls = Inl e \<Longrightarrow>
   e = Err ''complete consistent initial member launch receipts are required''"
  by (auto simp: initial_runtime_binding_def Let_def split: if_splits option.splits)

text \<open>
  The order in which the receipts are handed over does not matter, although the code sorts them
  with an unstable sort.
\<close>

theorem initial_binding_order:
  "mset ls = mset ls' \<Longrightarrow> initial_runtime_binding plan ls = initial_runtime_binding plan ls'"
  using initial_members_none [of ls ls' plan] initial_members_none [of ls' ls plan]
    initial_binding_refused [of plan ls] initial_binding_refused [of plan ls']
  by (cases "initial_runtime_binding plan ls"; cases "initial_runtime_binding plan ls'") force+

section \<open>What readiness evidence says\<close>

lemma fully_ready_iff: "fully_ready plan b ob now \<longleftrightarrow> ready_spec plan b ob now"
proof
  assume "fully_ready plan b ob now"
  then show "ready_spec plan b ob now"
    by (auto simp: fully_ready_def intro: ready_sound split: sum.splits)
next
  assume r: "ready_spec plan b ob now"
  then have "length (items (rb_members b)) = length (plan_members plan)"
    by (auto simp: ready_spec_def binding_ok_def dest: map_eq_imp_length_eq)
  with ready_complete [OF r] show "fully_ready plan b ob now"
    by (auto simp: fully_ready_def)
qed


text \<open>
  Collecting readiness evidence never commits a record nor asks for an effect, and what it returns
  is valid evidence about the requested member.
\<close>

theorem collect_readiness_quiet:
  "quiet (\<lambda>r. member_readiness_validate plan ls r = None \<and> rd_instance r = member)
     (collect_initial_readiness ctx plan ls member driver clock)"
  unfolding collect_initial_readiness_def Let_def
  by (rule quietI) (simp split: sum.splits option.splits prod.splits, intro conjI impI allI wp; simp)

section \<open>A concrete launch history\<close>

definition sample_preparation :: preparation where
  "sample_preparation = \<lparr>pp_project = ''zod'', pp_revision = 1, pp_generation = 1, pp_operation = ''prepare'',
     pp_digest = digest_of sample_plan, pp_engine = ''engine'', pp_sequence = 6,
     pp_bridge = \<lparr>cr_name = ''bridge'', cr_contract = hex64 CHR ''b'', cr_phase = ''observed'', cr_id = hex64 CHR ''a''\<rparr>,
     pp_anchor = \<lparr>cr_name = ''anchor'', cr_contract = hex64 CHR ''d'', cr_phase = ''observed'', cr_id = hex64 CHR ''c''\<rparr>\<rparr>"

definition sample_anchor :: anchor_start where
  "sample_anchor = \<lparr>an_prepared = sample_preparation, an_operation = ''start'', an_phase = ''observed'',
     an_namespace = Some sample_namespace\<rparr>"

definition sample_directory :: directory_identity where
  "sample_directory = \<lparr>di_device = 4, di_inode = 8, di_birth = ''1''\<rparr>"

definition sample_storage :: member_storage where
  "sample_storage = \<lparr>ms_project = ''zod'', ms_instance = ''zod'', ms_runtime = replicate 32 CHR ''e'',
     ms_operation = ''store'', ms_revision = 1, ms_digest = digest_of sample_plan, ms_phase = ''observed'',
     ms_location = \<lparr>lo_path = ''fakeships/zod/zod'', lo_identity = no_pier, lo_mount = sample_directory,
       lo_uncertain = False\<rparr>\<rparr>"

definition sample_launch :: member_launch where
  "sample_launch = \<lparr>ml_anchor = sample_anchor, ml_storage = sample_storage, ml_operation = ''launch'',
     ml_phase = ''running'', ml_workspace = sample_directory,
     ml_container = \<lparr>ri_id = hex64 CHR ''e'', ri_contract = hex64 CHR ''f''\<rparr>, ml_peers = NilSlice,
     ml_namespace = Some sample_namespace\<rparr>"

lemma sample_ids: "valid_id ''prepare''" "valid_id ''bridge''" "valid_id ''anchor''" "valid_id ''start''"
  "valid_id ''store''" "valid_id ''launch''"
  by (simp_all add: valid_id_def valid_id_char_def is_lower_def char_in_def less_eq_char_def)

lemma sample_digest: "plan_digest sample_plan = Inr (digest_of sample_plan)"
  by (simp add: plan_digest_iff)

lemma sample_preparation_ok [simp]: "preparation_validate sample_preparation sample_plan = None"
  by (simp add: preparation_validate_def sample_preparation_def sample_digest valid_zod sample_ids creation_valid_def
      phase_number_def)

lemma sample_anchor_ok [simp]: "anchor_start_validate sample_anchor sample_plan = None"
  by (simp add: anchor_start_validate_def sample_anchor_def sample_ids)
    (simp add: sample_preparation_def)

lemma sample_path: "valid_path ''fakeships/zod/zod''"
  by code_simp

lemma sample_storage_ok [simp]: "member_storage_validate sample_storage sample_plan = None"
  by (simp add: member_storage_validate_def sample_storage_def sample_digest valid_zod sample_ids sample_path
      plan_members_def)
    (simp add: sample_plan_def sample_member_def member_leaf_def sample_directory_def valid_member_directory_def
      trim_prefix_def has_prefix_def)

lemma sample_launch_ok [simp]: "member_launch_validate sample_launch sample_plan = None"
  by (simp add: member_launch_validate_def sample_launch_def Let_def sample_ids launch_stages_def valid_resource_def)
    (simp add: sample_anchor_def sample_storage_def sample_preparation_def sample_ids sample_directory_def
      valid_member_directory_def)

lemma sample_binding_initial: "initial_runtime_binding sample_plan [sample_launch] = Inr sample_binding"
proof -
  have "serial_launches sample_plan [sample_launch]"
    by (simp add: serial_launches_def launch_link_def member_launch_ok_def launch_operations_def)
      (simp add: sample_launch_def sample_anchor_def sample_storage_def sample_preparation_def)
  moreover have "anchor_binding (ml_anchor sample_launch) (sort_key rm_instance [launched_member sample_launch]) = sample_binding"
    by (simp add: anchor_binding_def launched_member_def sample_launch_def sample_anchor_def sample_storage_def
        sample_preparation_def sample_binding_def bridge_identity_def anchor_identity_def)
  moreover have "length [sample_launch] = length (plan_members sample_plan)"
    by (simp add: plan_members_def sample_plan_def)
  ultimately show ?thesis by (simp add: initial_binding_iff)
qed

text \<open>A second receipt makes the history incomplete; its order does not matter.\<close>

end
