(* ===== verification/MemberStop.thy ===== *)
theory MemberStop
  imports MemberReadiness
begin

text \<open>
  \<open>internal/projectnetwork/member_stop.go\<close> and \<open>member_stop_exit.go\<close>: the graceful stop of one
  member, from the fresh intent through a single signal to its recorded exit, and the separate
  read-only evidence of such an exit. Exit codes are Go's \<open>int\<close>, kept as integers.
\<close>

record stop_observation =
  so_runtime :: observation
  so_storage :: location
  so_started :: gotime
  so_finished :: gotime
  so_exit :: int
  so_oom :: bool
  so_captured :: gotime

record member_stop =
  sp_operation :: string
  sp_launch :: string
  sp_readiness :: string
  sp_instance :: string
  sp_binding :: runtime_binding
  sp_storage :: location
  sp_phase :: string
  sp_before :: "stop_observation option"
  sp_after :: "stop_observation option"

text \<open>The member of the stop as it must appear once it has exited: stopped, without a namespace.\<close>

definition stopped_members :: "string \<Rightarrow> member_observation slice \<Rightarrow> member_observation slice" where
  "stopped_members member = slice_map (map (\<lambda>m. if mo_instance m = member
     then m\<lparr>mo_running := False, mo_namespace := no_namespace\<rparr> else m))"

text \<open>Only the exited member and the observation time may have changed.\<close>

definition exited_only :: "string \<Rightarrow> observation \<Rightarrow> observation \<Rightarrow> bool" where
  "exited_only member b x \<longleftrightarrow>
     b\<lparr>ob_time := ob_time x, ob_members := stopped_members member (ob_members b)\<rparr> = x"

definition member_stop_check ::
  "project_plan \<Rightarrow> member_stop \<Rightarrow> stop_observation \<Rightarrow> bool \<Rightarrow> gotime \<Rightarrow> gerr option" where
  "member_stop_check plan s x stopped now =
     (let fail = Some (Err ''member Stop ownership, storage or process observation changed'')
      in if is_zero (so_captured x) \<or> is_zero now \<or> \<not> in_window now (so_captured x) \<or> so_storage x \<noteq> sp_storage s
            \<or> is_zero (so_started x) \<or> after (so_started x) (time_add (so_captured x) (5 * second)) then fail
      else case assess_runtime plan (sp_binding s) (so_runtime x) now of Inl _ \<Rightarrow> fail | Inr a \<Rightarrow>
        if as_recovery a \<or> as_state a \<noteq> ''ready'' \<and> as_state a \<noteq> ''member-stopped'' then fail
        else if \<not> is_ok (assess_runtime plan (sp_binding s) (so_runtime x) (so_captured x)) then fail
        else if \<not> list_all (\<lambda>m. mo_instance m = sp_instance s \<longrightarrow> \<not> (\<not> ro_present m \<or> mo_running m = stopped))
                  (items (ob_members (so_runtime x))) then fail
        else if \<not> list_ex (\<lambda>m. mo_instance m = sp_instance s) (items (ob_members (so_runtime x))) then fail
        else if \<not> stopped then
          (if \<not> is_zero (so_finished x) \<or> so_exit x \<noteq> 0 \<or> so_oom x then fail else None)
        else case sp_before s of None \<Rightarrow> fail | Some b \<Rightarrow>
          if \<not> same_instant (so_started x) (so_started b) \<or> is_zero (so_finished x)
             \<or> before (so_finished x) (so_started x) \<or> before (so_finished x) (time_add (so_captured b) (- 5 * second))
             \<or> after (so_finished x) (time_add (so_captured x) (5 * second)) \<or> so_exit x < 0 \<or> so_exit x > 255
             \<or> before (so_captured x) (so_captured b) \<or> before (ob_time (so_runtime x)) (ob_time (so_runtime b))
          then fail
          else if \<not> exited_only (sp_instance s) (so_runtime b) (so_runtime x) then fail else None)"

definition member_stop_validate :: "member_stop \<Rightarrow> project_plan \<Rightarrow> gerr option" where
  "member_stop_validate s plan =
     (let fail = Some (Err ''invalid initial member Stop binding'');
          holds = (\<lambda>x stopped. case x of None \<Rightarrow> False | Some x \<Rightarrow>
            member_stop_check plan s x stopped (so_captured x) = None)
      in if binding_validate (sp_binding s) plan \<noteq> None \<or> \<not> valid_id (sp_operation s) \<or> \<not> valid_id (sp_launch s)
            \<or> \<not> valid_id (sp_readiness s) \<or> sp_operation s = sp_launch s \<or> sp_operation s = sp_readiness s
            \<or> sp_readiness s = sp_launch s then fail
      else if \<not> list_all (\<lambda>m. mr_instance m = sp_instance s \<longrightarrow> lo_path (sp_storage s) = member_leaf m) (plan_members plan)
      then fail
      else if \<not> list_ex (\<lambda>m. mr_instance m = sp_instance s) (plan_members plan) \<or> lo_uncertain (sp_storage s)
            \<or> \<not> valid_member_directory (lo_mount (sp_storage s)) \<or> \<not> valid_pier_identity (lo_identity (sp_storage s))
            \<or> \<not> distinct_places (lo_identity (sp_storage s)) (lo_mount (sp_storage s)) then fail
      else if sp_phase s = ''planned'' then
        (if sp_before s \<noteq> None \<or> sp_after s \<noteq> None then fail else None)
      else if sp_phase s = ''stop-dispatched'' \<or> sp_phase s = ''stop-signalled'' then
        (if \<not> holds (sp_before s) False \<or> sp_after s \<noteq> None then fail else None)
      else if sp_phase s = ''stopped'' then
        (if \<not> holds (sp_before s) False \<or> \<not> holds (sp_after s) True then fail else None)
      else fail)"

definition new_initial_member_stop ::
  "project_plan \<Rightarrow> member_launch list \<Rightarrow> member_readiness \<Rightarrow> string \<Rightarrow> string \<Rightarrow> gerr + member_stop" where
  "new_initial_member_stop plan launches ready readiness operation =
     (if member_readiness_validate plan launches ready \<noteq> None
      then Inl (Err ''member Stop requires complete original readiness evidence'')
      else let s = \<lparr>sp_operation = operation, sp_launch = rd_launch ready, sp_readiness = readiness,
                    sp_instance = rd_instance ready, sp_binding = rd_binding ready, sp_storage = rd_storage ready,
                    sp_phase = ''planned'', sp_before = None, sp_after = None\<rparr>
      in case member_stop_validate s plan of Some e \<Rightarrow> Inl e | None \<Rightarrow> Inr s)"

definition member_stop_next :: "(string \<times> string) list" where
  "member_stop_next = [(''planned'', ''stop-dispatched''), (''stop-dispatched'', ''stop-signalled''),
     (''stop-signalled'', ''stopped'')]"

definition stop_payload :: "string \<Rightarrow> stop_observation option \<Rightarrow> member_stop \<Rightarrow> member_stop option" where
  "stop_payload phase x s =
     (if phase = ''stop-dispatched'' then (if x = None then None else Some (s\<lparr>sp_before := x\<rparr>))
      else if phase = ''stop-signalled'' then (if x \<noteq> None then None else Some s)
      else if phase = ''stopped'' then (if x = None then None else Some (s\<lparr>sp_after := x\<rparr>))
      else Some s)"

definition member_stop_advance ::
  "project_plan \<Rightarrow> string \<Rightarrow> string \<Rightarrow> stop_observation option \<Rightarrow> member_stop \<Rightarrow> gerr + member_stop" where
  "member_stop_advance plan expected phase x s =
     (let fail = Inl (Err ''stale or invalid member Stop transition'')
      in if member_stop_validate s plan \<noteq> None \<or> sp_phase s \<noteq> expected \<or> lookup_str member_stop_next expected \<noteq> phase
      then fail
      else case stop_payload phase x s of None \<Rightarrow> fail | Some s \<Rightarrow>
        let s = s\<lparr>sp_phase := phase\<rparr> in if member_stop_validate s plan \<noteq> None then fail else Inr s)"

definition member_stop_clean :: "member_stop \<Rightarrow> bool" where
  "member_stop_clean s \<longleftrightarrow> sp_phase s = ''stopped''
     \<and> (case sp_after s of None \<Rightarrow> False | Some x \<Rightarrow> so_exit x = 0 \<and> \<not> so_oom x)"

section \<open>The executor\<close>

record 'w member_stop_driver =
  sd_verify :: "string \<Rightarrow> 'w \<Rightarrow> gerr option \<times> 'w"
  sd_inspect :: "member_stop \<Rightarrow> 'w \<Rightarrow> (gerr + stop_observation) \<times> 'w"
  sd_signal :: "member_stop \<Rightarrow> 'w \<Rightarrow> gerr option \<times> 'w"
  sd_await :: "member_stop \<Rightarrow> 'w \<Rightarrow> (stop_observation \<times> gerr option) \<times> 'w"

type_synonym 'w member_stop_commit = "string \<Rightarrow> member_stop \<Rightarrow> 'w \<Rightarrow> gerr option \<times> 'w"

definition stop_verifyP ::
  "('w \<Rightarrow> gerr option \<times> 'w) \<Rightarrow> 'w member_stop_driver \<Rightarrow> (member_stop, 'w, unit) prog" where
  "stop_verifyP ctx d = reverifyP ctx (\<lambda>s. sd_verify d (rb_engine (sp_binding s)))
     ''member Stop engine could not be verified''"

definition stop_advanceP ::
  "project_plan \<Rightarrow> 'w member_stop_commit \<Rightarrow> string \<Rightarrow> stop_observation option \<Rightarrow> (member_stop, 'w, unit) prog" where
  "stop_advanceP plan commit phase x =
     advanceP (\<lambda>s. member_stop_advance plan (sp_phase s) phase x s) (\<lambda>s n. commit (sp_phase s) n)"

definition exit_error :: "member_stop \<Rightarrow> gerr" where
  "exit_error s = Err (''member stopped with exit '' @ dec (nat (so_exit (the (sp_after s))))
     @ '' or OOM; preserve its pier for review'')"

definition stop_awaitP ::
  "('w \<Rightarrow> gerr option \<times> 'w) \<Rightarrow> project_plan \<Rightarrow> 'w member_stop_driver \<Rightarrow> 'w member_stop_commit
     \<Rightarrow> ('w \<Rightarrow> gotime \<times> 'w) \<Rightarrow> (member_stop, 'w, unit) prog" where
  "stop_awaitP ctx plan d commit now =
     bindP (readP (sd_await d))
       (\<lambda>(x, wait_err). seqP
         [stop_verifyP ctx d,
          requireAtP ctx now (\<lambda>t s. member_stop_check plan s x True t = None)
            ''member Stop has no complete unchanged exit evidence'',
          stop_advanceP plan commit ''stopped'' (Some x),
          (if wait_err \<noteq> None
           then failCtxP ctx ''member Stop retained exit evidence with an unresolved observation result'' else retP ()),
          checkP (\<lambda>s. if \<not> member_stop_clean s then Some (exit_error s) else None)])"

definition execute_member_stop ::
  "('w \<Rightarrow> gerr option \<times> 'w) \<Rightarrow> project_plan \<Rightarrow> 'w member_stop_driver option \<Rightarrow> 'w member_stop_commit option
     \<Rightarrow> ('w \<Rightarrow> gotime \<times> 'w) option \<Rightarrow> (member_stop, 'w, unit) prog" where
  "execute_member_stop ctx plan driver com clock =
     (let d = the driver; commit = the com; now = the clock in seqP
     [checkP (\<lambda>s. check (member_stop_validate s plan = None \<and> sp_phase s = ''planned''
          \<and> driver \<noteq> None \<and> com \<noteq> None \<and> clock \<noteq> None)
        ''member Stop requires fresh intent and durable dispatch''),
      stop_verifyP ctx d,
      bindP (observeP ctx (sd_inspect d) ''member Stop initial observation failed'')
        (\<lambda>x. seqP
          [stop_verifyP ctx d,
           checkAtP now (\<lambda>t s. member_stop_check plan s x False t),
           stop_advanceP plan commit ''stop-dispatched'' (Some x)]),
      stop_verifyP ctx d,
      checkAtP now (\<lambda>t s. member_stop_check plan s (the (sp_before s)) False t),
      requestP ctx ''signal-stop'' (sd_signal d)
        ''member Stop signal outcome is unresolved; retain dispatch intent'',
      stop_advanceP plan commit ''stop-signalled'' None,
      stop_verifyP ctx d,
      stop_awaitP ctx plan d commit now])"

section \<open>Exit evidence\<close>

record stop_exit =
  se_operation :: string
  se_stop :: member_stop
  se_observation :: stop_observation

definition stop_exit_operation :: "string \<Rightarrow> member_stop \<Rightarrow> bool" where
  "stop_exit_operation i s \<longleftrightarrow> \<not> (\<not> valid_id i \<or> i = sp_operation s \<or> i = sp_launch s \<or> i = sp_readiness s)"

text \<open>The same exit seen again: only the times of the observation may differ.\<close>

definition reobserved :: "stop_observation \<Rightarrow> stop_observation \<Rightarrow> bool" where
  "reobserved old x \<longleftrightarrow> old\<lparr>so_captured := so_captured x,
     so_runtime := (so_runtime old)\<lparr>ob_time := ob_time (so_runtime x)\<rparr>\<rparr> = x"

definition stop_exit_validate :: "stop_exit \<Rightarrow> project_plan \<Rightarrow> gerr option" where
  "stop_exit_validate e plan =
     (let fail = Some (Err ''invalid retained Stop exit observation''); s = se_stop e; x = se_observation e
      in if \<not> stop_exit_operation (se_operation e) s \<or> member_stop_validate s plan \<noteq> None \<or> sp_before s = None
         then fail
         else if sp_phase s \<noteq> ''stop-dispatched'' \<and> sp_phase s \<noteq> ''stop-signalled'' \<and> sp_phase s \<noteq> ''stopped'' then fail
         else if member_stop_check plan s x True (so_captured x) \<noteq> None then fail
         else case sp_after s of None \<Rightarrow> None | Some old \<Rightarrow>
           if before (so_captured x) (so_captured old) \<or> before (ob_time (so_runtime x)) (ob_time (so_runtime old))
           then fail
           else if \<not> reobserved old x then fail else None)"

definition stop_exit_clean :: "stop_exit \<Rightarrow> bool" where
  "stop_exit_clean e \<longleftrightarrow> so_exit (se_observation e) = 0 \<and> \<not> so_oom (se_observation e)
     \<and> \<not> is_zero (so_finished (se_observation e))"

record 'w stop_exit_driver =
  ed_verify :: "string \<Rightarrow> 'w \<Rightarrow> gerr option \<times> 'w"
  ed_inspect :: "member_stop \<Rightarrow> 'w \<Rightarrow> (gerr + stop_observation) \<times> 'w"

text \<open>The inner \<open>verify\<close>: any error is replaced by the caller's message.\<close>

definition exit_verifyP ::
  "('w \<Rightarrow> gerr option \<times> 'w) \<Rightarrow> 'w stop_exit_driver \<Rightarrow> member_stop \<Rightarrow> string \<Rightarrow> ('s, 'w, unit) prog" where
  "exit_verifyP ctx d s m =
     bindP (readP (\<lambda>_. ctx)) (\<lambda>c. if c \<noteq> None then failCtxP ctx m else
     bindP (readP (\<lambda>_. ed_verify d (rb_engine (sp_binding s)))) (\<lambda>v. if v \<noteq> None then failCtxP ctx m else
     callP ctx (\<lambda>_. ctx) m))"

definition collect_stop_exit ::
  "('w \<Rightarrow> gerr option \<times> 'w) \<Rightarrow> project_plan \<Rightarrow> member_stop \<Rightarrow> string \<Rightarrow> 'w stop_exit_driver option
     \<Rightarrow> ('w \<Rightarrow> gotime \<times> 'w) option \<Rightarrow> ('s, 'w, stop_exit) prog" where
  "collect_stop_exit ctx plan s operation driver clock =
     (if driver = None \<or> clock = None \<or> member_stop_validate s plan \<noteq> None \<or> sp_before s = None
         \<or> \<not> stop_exit_operation operation s
      then failCtxP ctx ''exit observation requires its own intent and a retained process binding''
      else let d = the driver; now = the clock in
      thenP (exit_verifyP ctx d s ''exit observation engine is unavailable'')
        (bindP (observeP ctx (\<lambda>_. ed_inspect d s) ''retained Stop has no complete current exit observation'')
          (\<lambda>x. thenP (exit_verifyP ctx d s ''exit observation engine changed'')
            (let e = \<lparr>se_operation = operation, se_stop = s, se_observation = x\<rparr> in
             thenP (if stop_exit_validate e plan \<noteq> None
                    then failCtxP ctx ''retained Stop exit observation is stale or changed''
                    else requireAtP ctx now (\<lambda>t _. member_stop_check plan s x True t = None)
                           ''retained Stop exit observation is stale or changed'')
               (thenP (callP ctx (\<lambda>_. ctx) ''exit observation was cancelled'') (retP e))))))"

section \<open>Steps of the journal\<close>

definition member_stop_ok :: "project_plan \<Rightarrow> member_stop \<Rightarrow> bool" where
  "member_stop_ok plan s \<longleftrightarrow> member_stop_validate s plan = None"

inductive member_stop_step :: "project_plan \<Rightarrow> member_stop \<Rightarrow> member_stop \<Rightarrow> bool" for plan where
  advance: "member_stop_advance plan expected phase x s = Inr t \<Longrightarrow> member_stop_step plan s t"

inductive_cases member_stop_stepE: "member_stop_step plan s t"

definition member_stop_phases :: "string list" where
  "member_stop_phases = [''planned'', ''stop-dispatched'', ''stop-signalled'', ''stopped'']"

definition member_stop_acts :: "(string \<times> string) list" where
  "member_stop_acts = [(''signal-stop'', ''stop-dispatched'')]"

lemma member_stop_chain: "member_stop_next = chain member_stop_phases"
  by (simp add: member_stop_next_def chain_def member_stop_phases_def)

lemma member_stop_phase: "member_stop_ok plan s \<Longrightarrow> sp_phase s \<in> set member_stop_phases"
  unfolding member_stop_ok_def member_stop_validate_def Let_def member_stop_phases_def
  by (auto cong del: if_weak_cong split: if_splits)

lemma stop_payload_phase [simp]: "stop_payload phase x s = Some t \<Longrightarrow> sp_phase t = sp_phase s"
  by (auto simp: stop_payload_def split: if_splits)

lemma member_stop_advance_iff:
  "member_stop_advance plan e phase x s = Inr t \<longleftrightarrow>
     member_stop_ok plan s \<and> sp_phase s = e \<and> phase = lookup_str member_stop_next e
     \<and> (\<exists>u. stop_payload phase x s = Some u \<and> t = u\<lparr>sp_phase := phase\<rparr>) \<and> member_stop_ok plan t"
  by (auto simp: member_stop_advance_def member_stop_ok_def Let_def split: option.splits if_splits)

lemma member_stop_advance_ok:
  "member_stop_advance plan e phase x s = Inr t \<Longrightarrow> member_stop_ok plan t \<and> sp_phase t = phase"
  by (auto simp: member_stop_advance_iff)

interpretation msp: phase_journal member_stop_phases "member_stop_step plan" "member_stop_ok plan" sp_phase
  member_stop_acts for plan
proof
  show "distinct member_stop_phases \<and> '''' \<notin> set member_stop_phases" by (simp add: member_stop_phases_def)
qed (auto simp: member_stop_acts_def member_stop_phase member_stop_chain member_stop_advance_iff
      elim!: member_stop_stepE)

abbreviation "sp_may plan \<equiv> may_act (member_stop_ok plan) sp_phase member_stop_acts"
abbreviation "sp_safe plan \<equiv> safe_at (member_stop_step plan) (sp_may plan)"

lemma stop_advance_wp:
  assumes "sp_safe plan s0 r" "\<And>r. sp_safe plan s0 r \<Longrightarrow> E r"
    "\<And>r. sp_safe plan s0 r \<Longrightarrow> member_stop_ok plan (cur r) \<Longrightarrow> sp_phase (cur r) = phase
       \<Longrightarrow> fresh_commit (hist r) \<Longrightarrow> Q () r"
  shows "wpP (stop_advanceP plan commit phase x) Q E r"
  unfolding stop_advanceP_def using assms(1)
  by (rule wp_advance_safe)
     (auto intro!: assms(2,3) intro: member_stop_step.advance dest: member_stop_advance_ok)

lemmas stop_wp = wp stop_advance_wp
  wp_request_safe [where step = "member_stop_step plan" and ok = "sp_may plan" for plan]

lemma stop_await_wp:
  assumes "sp_safe plan s0 r" "\<And>r. sp_safe plan s0 r \<Longrightarrow> E r"
    "\<And>q. sp_safe plan s0 q \<Longrightarrow> member_stop_ok plan (cur q) \<Longrightarrow> member_stop_clean (cur q) \<Longrightarrow> Q () q"
  shows "wpP (stop_awaitP ctx plan d commit now) Q E r"
  unfolding stop_awaitP_def stop_verifyP_def
  by (intro stop_wp assms(2,3)) (use assms(1) in \<open>simp_all split: if_splits\<close>)

lemma execute_member_stop_wp:
  "wpP (execute_member_stop ctx plan d commit now)
     (\<lambda>_ r. sp_safe plan s r \<and> member_stop_clean (cur r)) (sp_safe plan s) (start_run s w)"
  unfolding execute_member_stop_def stop_verifyP_def Let_def
  by (intro stop_await_wp stop_wp conjI) (simp_all add: may_act_def member_stop_acts_def)

text \<open>
  C32. Stopping a member is safe: the signal is requested at most once, only when the journal durably
  holds the observation it is based on, and a run without an error has recorded a clean exit. A run
  that recorded an unclean exit returns an error.
\<close>

theorem member_stop_safe:
  "safe_run (member_stop_step plan) (sp_may plan) (member_stop_ok plan) member_stop_clean s
     (execute_member_stop ctx plan d commit now (start_run s w))"
  by (rule msp.safe_runI [OF execute_member_stop_wp])

section \<open>What an exit says\<close>

text \<open>
  The two observations of a recorded exit: the same process, started before and finished after the
  signal was dispatched, and a project in which only the stopped member has changed.
\<close>

definition exit_of :: "member_stop \<Rightarrow> stop_observation \<Rightarrow> stop_observation \<Rightarrow> bool" where
  "exit_of s b x \<longleftrightarrow> inst (so_started x) = inst (so_started b) \<and> inst (so_started x) \<le> inst (so_finished x)
     \<and> 0 \<le> so_exit x \<and> so_exit x \<le> 255 \<and> inst (so_captured b) \<le> inst (so_captured x)
     \<and> inst (ob_time (so_runtime b)) \<le> inst (ob_time (so_runtime x))
     \<and> so_storage x = sp_storage s \<and> so_storage b = sp_storage s
     \<and> ob_bridge (so_runtime x) = ob_bridge (so_runtime b) \<and> ob_anchor (so_runtime x) = ob_anchor (so_runtime b)
     \<and> items (ob_members (so_runtime x)) = map (\<lambda>m. if mo_instance m = sp_instance s
          then m\<lparr>mo_running := False, mo_namespace := no_namespace\<rparr> else m) (items (ob_members (so_runtime b)))"

lemma stop_check_stopped:
  assumes "member_stop_check plan s x True now = None"
  shows "\<exists>b. sp_before s = Some b \<and> inst (so_started x) = inst (so_started b) \<and> inst (so_started x) \<le> inst (so_finished x)
     \<and> 0 \<le> so_exit x \<and> so_exit x \<le> 255 \<and> inst (so_captured b) \<le> inst (so_captured x)
     \<and> inst (ob_time (so_runtime b)) \<le> inst (ob_time (so_runtime x)) \<and> so_storage x = sp_storage s
     \<and> exited_only (sp_instance s) (so_runtime b) (so_runtime x)"
  using assms unfolding member_stop_check_def Let_def
  by (simp add: same_instant_def before_def after_def cong del: if_weak_cong
      split: if_split_asm sum.splits option.splits)

lemma stop_check_storage: "member_stop_check plan s x stopped now = None \<Longrightarrow> so_storage x = sp_storage s"
  unfolding member_stop_check_def Let_def by (auto split: if_splits)

lemma exited_only_parts:
  "exited_only member b x \<Longrightarrow> ob_bridge x = ob_bridge b \<and> ob_anchor x = ob_anchor b
     \<and> ob_members x = stopped_members member (ob_members b)"
  by (cases b; cases x) (simp add: exited_only_def)

lemma stop_exit_of:
  assumes "member_stop_check plan s x True now = None" "member_stop_check plan s b False t = None" "sp_before s = Some b"
  shows "exit_of s b x"
proof -
  note c = stop_check_stopped [OF assms(1)]
  with assms(3) have "exited_only (sp_instance s) (so_runtime b) (so_runtime x)" by auto
  note exited_only_parts [OF this]
  then show ?thesis using c assms(3) stop_check_storage [OF assms(2)]
    by (simp add: exit_of_def stopped_members_def items_slice_map)
qed

lemma member_stop_stopped:
  assumes "member_stop_ok plan s" "sp_phase s = ''stopped''"
  shows "\<exists>b x. sp_before s = Some b \<and> sp_after s = Some x
     \<and> member_stop_check plan s b False (so_captured b) = None \<and> member_stop_check plan s x True (so_captured x) = None"
  using assms unfolding member_stop_ok_def member_stop_validate_def Let_def
  by (simp cong del: if_weak_cong split: if_split_asm option.splits)

lemma member_stop_exit: "member_stop_ok plan s \<Longrightarrow> sp_phase s = ''stopped'' \<Longrightarrow>
   \<exists>b x. sp_before s = Some b \<and> sp_after s = Some x \<and> exit_of s b x"
  using member_stop_stopped [of plan s] stop_exit_of [of plan s] by blast


section \<open>A concrete stop\<close>

definition at_second :: "int \<Rightarrow> gotime" where
  "at_second n = \<lparr>inst = n * second, meta = 0\<rparr>"

lemma inst_at [simp]: "inst (at_second n) = n * 1000000000"
  by (simp add: at_second_def second_def)

definition sample_publication :: publication where
  "sample_publication = \<lparr>pb_internal = 8080, pb_address = ''127.0.0.1'', pb_port = 9000, pb_protocol = ''tcp''\<rparr>"

definition sample_member_seen :: "bool \<Rightarrow> member_observation" where
  "sample_member_seen running = \<lparr>ro_resource = \<lparr>ri_id = hex64 CHR ''e'', ri_contract = hex64 CHR ''f''\<rparr>,
     ro_present = True, mo_instance = ''zod'', mo_running = running, mo_anchor = hex64 CHR ''c'',
     mo_namespace = (if running then sample_namespace else no_namespace)\<rparr>"

definition sample_seen :: "int \<Rightarrow> member_observation list \<Rightarrow> observation" where
  "sample_seen n ms = \<lparr>ob_project = ''zod'', ob_revision = 1, ob_generation = 1, ob_engine = ''engine'',
     ob_time = at_second n, ob_complete = True,
     ob_bridge = \<lparr>ro_resource = \<lparr>ri_id = hex64 CHR ''a'', ri_contract = hex64 CHR ''b''\<rparr>, ro_present = True\<rparr>,
     ob_attachments = Slice [hex64 CHR ''c''],
     ob_anchor = \<lparr>ro_resource = \<lparr>ri_id = hex64 CHR ''c'', ri_contract = hex64 CHR ''d''\<rparr>, ro_present = True,
       ao_running = True, ao_namespace = sample_namespace, ao_bridge = hex64 CHR ''a'',
       ao_requested = Slice [sample_publication], ao_active = Slice [sample_publication]\<rparr>,
     ob_members = Slice ms\<rparr>"

lemma sample_publications: "same_publications sample_plan (Slice [sample_publication])"
  by (simp add: same_publications_def plan_members_def sample_plan_def member_publication_def sample_member_def
      sample_publication_def)

lemma sample_assessed:
  assumes "0 < n" "0 < t" "n - 5 \<le> t" "t \<le> n + 30"
  shows "assess_runtime sample_plan sample_binding (sample_seen n [sample_member_seen running]) (at_second t) = Inr
    \<lparr>as_state = (if running then ''ready'' else ''member-stopped''), as_recovery = False,
     as_running = (if running then Slice [''zod''] else NilSlice),
     as_stopped = (if running then NilSlice else Slice [''zod'']),
     as_recorded = sample_namespace, as_observed = sample_namespace\<rparr>"
proof -
  have v: "binding_validate sample_binding sample_plan = None" by (simp add: binding_validate_iff)
  have w: "in_window (at_second t) (at_second n)" "\<not> is_zero (at_second t)" "\<not> is_zero (at_second n)"
    using assms by (auto simp: in_window_iff is_zero_def second_def)
  show ?thesis using w unfolding assess_runtime_def v option.case
    by (cases running)
      (simp_all add: sample_seen_def sample_binding_def sample_member_seen_def exact_resource_def slice_append_def
        assess_state_def anchor_remains_def Let_def sample_publications)
qed

definition sample_location :: location where
  "sample_location = \<lparr>lo_path = ''fakeships/zod/zod'', lo_identity = \<lparr>pi_device = 4, pi_inode = 9, pi_urb_device = 4,
     pi_urb_inode = 10, pi_birth = ''2'', pi_urb_birth = ''3''\<rparr>, lo_mount = sample_directory, lo_uncertain = False\<rparr>"

definition sample_running :: stop_observation where
  "sample_running = \<lparr>so_runtime = sample_seen 100 [sample_member_seen True], so_storage = sample_location,
     so_started = at_second 50, so_finished = zero_time, so_exit = 0, so_oom = False, so_captured = at_second 100\<rparr>"

definition sample_exited :: "int \<Rightarrow> stop_observation" where
  "sample_exited n = \<lparr>so_runtime = sample_seen n [sample_member_seen False], so_storage = sample_location,
     so_started = at_second 50, so_finished = at_second 105, so_exit = 0, so_oom = False, so_captured = at_second n\<rparr>"

definition sample_stop :: member_stop where
  "sample_stop = \<lparr>sp_operation = ''stop'', sp_launch = ''launch'', sp_readiness = ''ready'', sp_instance = ''zod'',
     sp_binding = sample_binding, sp_storage = sample_location, sp_phase = ''stopped'',
     sp_before = Some sample_running, sp_after = Some (sample_exited 110)\<rparr>"

lemma sample_running_ok: "member_stop_check sample_plan sample_stop sample_running False (at_second 100) = None"
  by (simp add: member_stop_check_def Let_def sample_running_def sample_assessed sample_stop_def in_window_iff
      is_zero_def after_def time_add_def second_def zero_time_def)
    (simp add: sample_seen_def sample_member_seen_def)

lemma sample_exited_ok:
  assumes "105 \<le> n"
  shows "member_stop_check sample_plan sample_stop (sample_exited n) True (at_second n) = None"
  using assms
  by (simp add: member_stop_check_def Let_def sample_exited_def sample_assessed sample_stop_def in_window_iff
      is_zero_def after_def before_def time_add_def second_def same_instant_def sample_running_def exited_only_def
      stopped_members_def)
    (simp add: sample_seen_def sample_member_seen_def)

lemma sample_members [simp]: "plan_members sample_plan = [sample_member]"
  by (simp add: plan_members_def sample_plan_def)

lemma sample_leaf [simp]: "member_leaf sample_member = ''fakeships/zod/zod''" "mr_instance sample_member = ''zod''"
  by (simp_all add: sample_member_def member_leaf_def trim_prefix_def has_prefix_def)

lemma sample_stop_ok [simp]: "member_stop_ok sample_plan sample_stop"
proof -
  have "valid_id ''stop''" "valid_id ''launch''" "valid_id ''ready''"
    by (simp_all add: valid_id_def valid_id_char_def is_lower_def char_in_def less_eq_char_def)
  moreover have "so_captured sample_running = at_second 100" "so_captured (sample_exited 110) = at_second 110"
    by (simp_all add: sample_running_def sample_exited_def)
  ultimately show ?thesis using sample_running_ok sample_exited_ok [of 110]
    unfolding member_stop_ok_def member_stop_validate_def Let_def
    by (simp add: binding_validate_iff sample_stop_def sample_location_def sample_directory_def
      valid_member_directory_def valid_pier_identity_def distinct_places_def)
qed


end
