(* ===== verification/MemberRetirement.thy ===== *)
theory MemberRetirement
  imports MemberStop
begin

text \<open>
  \<open>internal/projectnetwork/member_retirement.go\<close>: removing the container of a cleanly exited
  member, and the observation that it is gone while its pier and peers are unchanged.
\<close>

record member_absence =
  ma_runtime :: observation
  ma_storage :: location
  ma_captured :: gotime

record member_retirement =
  re_operation :: string
  re_phase :: string
  re_exit :: stop_exit
  re_before :: "stop_observation option"
  re_after :: "member_absence option"

definition retirement_check_before ::
  "project_plan \<Rightarrow> member_retirement \<Rightarrow> stop_observation \<Rightarrow> gotime \<Rightarrow> gerr option" where
  "retirement_check_before plan s x now =
     (let fail = Some (Err ''retirement lost exact clean exit or project ownership''); e = se_observation (re_exit s)
      in if member_stop_check plan (se_stop (re_exit s)) x True now \<noteq> None
            \<or> before (so_captured x) (so_captured e) \<or> before (ob_time (so_runtime x)) (ob_time (so_runtime e))
      then fail else if \<not> reobserved e x then fail else None)"

text \<open>\<open>if len(o.Members) == 0 { o.Members = nil }\<close>\<close>

definition nil_if_empty :: "'a slice \<Rightarrow> 'a slice" where
  "nil_if_empty s = (if items s = [] then NilSlice else s)"

text \<open>Only the retired member is missing; the observation time may differ.\<close>

definition absent_only :: "string \<Rightarrow> observation \<Rightarrow> observation \<Rightarrow> bool" where
  "absent_only member b x \<longleftrightarrow> b\<lparr>ob_time := ob_time x,
     ob_members := slice_append NilSlice (filter (\<lambda>m. mo_instance m \<noteq> member) (items (ob_members b)))\<rparr>
     = x\<lparr>ob_members := nil_if_empty (ob_members x)\<rparr>"

definition retirement_check_absent :: "member_retirement \<Rightarrow> member_absence \<Rightarrow> gotime \<Rightarrow> gerr option" where
  "retirement_check_absent s x now =
     (let fail = Some (Err ''retirement has no complete unchanged absence and pier proof''); stop = se_stop (re_exit s)
      in case re_before s of None \<Rightarrow> fail | Some b \<Rightarrow>
        if is_zero now \<or> is_zero (ma_captured x) \<or> \<not> in_window now (ma_captured x)
           \<or> before (ma_captured x) (so_captured b) \<or> ma_storage x \<noteq> sp_storage stop
           \<or> before (ob_time (ma_runtime x)) (ob_time (so_runtime b))
           \<or> \<not> in_window (ma_captured x) (ob_time (ma_runtime x)) \<or> \<not> in_window now (ob_time (ma_runtime x))
        then fail
        else if \<not> absent_only (sp_instance stop) (so_runtime b) (ma_runtime x) then fail else None)"

definition retirement_validate :: "member_retirement \<Rightarrow> project_plan \<Rightarrow> gerr option" where
  "retirement_validate s plan =
     (let fail = Some (Err ''invalid stopped member retirement''); e = re_exit s; stop = se_stop e;
          held = (case re_before s of None \<Rightarrow> False | Some b \<Rightarrow> retirement_check_before plan s b (so_captured b) = None);
          gone = (case re_after s of None \<Rightarrow> False | Some a \<Rightarrow> retirement_check_absent s a (ma_captured a) = None)
      in if \<not> valid_id (re_operation s) \<or> re_operation s = se_operation e \<or> re_operation s = sp_operation stop
            \<or> re_operation s = sp_launch stop \<or> re_operation s = sp_readiness stop
            \<or> stop_exit_validate e plan \<noteq> None \<or> \<not> stop_exit_clean e then fail
      else if re_phase s = ''planned'' then (if re_before s \<noteq> None \<or> re_after s \<noteq> None then fail else None)
      else if re_phase s = ''remove-dispatched'' \<or> re_phase s = ''removed'' then
        (if \<not> held \<or> re_after s \<noteq> None then fail else None)
      else if re_phase s = ''absent'' then (if \<not> held \<or> \<not> gone then fail else None)
      else fail)"

definition new_member_retirement ::
  "project_plan \<Rightarrow> stop_exit \<Rightarrow> string \<Rightarrow> member_retirement \<times> gerr option" where
  "new_member_retirement plan e operation =
     (let s = \<lparr>re_operation = operation, re_phase = ''planned'', re_exit = e, re_before = None, re_after = None\<rparr>
      in (s, retirement_validate s plan))"

definition retirement_next :: "(string \<times> string) list" where
  "retirement_next = [(''planned'', ''remove-dispatched''), (''remove-dispatched'', ''removed''), (''removed'', ''absent'')]"

definition retirement_payload ::
  "string \<Rightarrow> stop_observation option \<Rightarrow> member_absence option \<Rightarrow> member_retirement \<Rightarrow> member_retirement option" where
  "retirement_payload phase b a s =
     (if phase = ''remove-dispatched'' then (if b = None \<or> a \<noteq> None then None else Some (s\<lparr>re_before := b\<rparr>))
      else if phase = ''removed'' then (if b \<noteq> None \<or> a \<noteq> None then None else Some s)
      else if phase = ''absent'' then (if b \<noteq> None \<or> a = None then None else Some (s\<lparr>re_after := a\<rparr>))
      else Some s)"

definition retirement_advance ::
  "project_plan \<Rightarrow> string \<Rightarrow> string \<Rightarrow> stop_observation option \<Rightarrow> member_absence option \<Rightarrow> member_retirement
     \<Rightarrow> gerr + member_retirement" where
  "retirement_advance plan expected phase b a s =
     (let fail = Inl (Err ''stale or invalid member retirement transition'')
      in if retirement_validate s plan \<noteq> None \<or> re_phase s \<noteq> expected \<or> lookup_str retirement_next expected \<noteq> phase
      then fail
      else case retirement_payload phase b a s of None \<Rightarrow> fail | Some s \<Rightarrow>
        let s = s\<lparr>re_phase := phase\<rparr> in if retirement_validate s plan \<noteq> None then fail else Inr s)"

section \<open>The executor\<close>

record 'w retirement_driver =
  rt_verify :: "string \<Rightarrow> 'w \<Rightarrow> gerr option \<times> 'w"
  rt_stopped :: "member_retirement \<Rightarrow> 'w \<Rightarrow> (gerr + stop_observation) \<times> 'w"
  rt_remove :: "member_retirement \<Rightarrow> 'w \<Rightarrow> gerr option \<times> 'w"
  rt_absent :: "member_retirement \<Rightarrow> 'w \<Rightarrow> (gerr + member_absence) \<times> 'w"

type_synonym 'w retirement_commit = "string \<Rightarrow> member_retirement \<Rightarrow> 'w \<Rightarrow> gerr option \<times> 'w"

definition retirement_verifyP ::
  "('w \<Rightarrow> gerr option \<times> 'w) \<Rightarrow> 'w retirement_driver \<Rightarrow> (member_retirement, 'w, unit) prog" where
  "retirement_verifyP ctx d = reverifyP ctx (\<lambda>s. rt_verify d (rb_engine (sp_binding (se_stop (re_exit s)))))
     ''retirement engine verification failed''"

definition retirement_advanceP ::
  "project_plan \<Rightarrow> 'w retirement_commit \<Rightarrow> string \<Rightarrow> stop_observation option \<Rightarrow> member_absence option
     \<Rightarrow> (member_retirement, 'w, unit) prog" where
  "retirement_advanceP plan commit phase b a =
     advanceP (\<lambda>s. retirement_advance plan (re_phase s) phase b a s) (\<lambda>s n. commit (re_phase s) n)"

definition execute_member_retirement ::
  "('w \<Rightarrow> gerr option \<times> 'w) \<Rightarrow> project_plan \<Rightarrow> 'w retirement_driver option \<Rightarrow> 'w retirement_commit option
     \<Rightarrow> ('w \<Rightarrow> gotime \<times> 'w) option \<Rightarrow> (member_retirement, 'w, unit) prog" where
  "execute_member_retirement ctx plan driver com clock =
     (let d = the driver; commit = the com; now = the clock; verify = retirement_verifyP ctx d in seqP
     [checkP (\<lambda>s. check (retirement_validate s plan = None \<and> re_phase s = ''planned''
          \<and> driver \<noteq> None \<and> com \<noteq> None \<and> clock \<noteq> None)
        ''retirement requires new explicit intent and durable dispatch''),
      verify,
      bindP (observeP ctx (rt_stopped d) ''retirement stopped-process observation failed'')
        (\<lambda>x. seqP
          [verify,
           checkAtP now (\<lambda>t s. retirement_check_before plan s x t),
           retirement_advanceP plan commit ''remove-dispatched'' (Some x) None]),
      verify,
      checkAtP now (\<lambda>t s. retirement_check_before plan s (the (re_before s)) t),
      requestP ctx ''remove-member'' (rt_remove d) ''retirement removal outcome is unresolved'',
      retirement_advanceP plan commit ''removed'' None None,
      verify,
      bindP (observeP ctx (rt_absent d) ''retirement absence observation failed'')
        (\<lambda>x. seqP
          [verify,
           checkAtP now (\<lambda>t s. retirement_check_absent s x t),
           retirement_advanceP plan commit ''absent'' None (Some x)])])"

section \<open>Steps of the journal\<close>

definition retirement_ok :: "project_plan \<Rightarrow> member_retirement \<Rightarrow> bool" where
  "retirement_ok plan s \<longleftrightarrow> retirement_validate s plan = None"

inductive retirement_step :: "project_plan \<Rightarrow> member_retirement \<Rightarrow> member_retirement \<Rightarrow> bool" for plan where
  advance: "retirement_advance plan expected phase b a s = Inr t \<Longrightarrow> retirement_step plan s t"

inductive_cases retirement_stepE: "retirement_step plan s t"

definition retirement_phases :: "string list" where
  "retirement_phases = [''planned'', ''remove-dispatched'', ''removed'', ''absent'']"

definition retirement_acts :: "(string \<times> string) list" where
  "retirement_acts = [(''remove-member'', ''remove-dispatched'')]"

lemma retirement_chain: "retirement_next = chain retirement_phases"
  by (simp add: retirement_next_def chain_def retirement_phases_def)

lemma retirement_parts:
  "retirement_ok plan s \<Longrightarrow> stop_exit_validate (re_exit s) plan = None \<and> stop_exit_clean (re_exit s)
     \<and> re_phase s \<in> set retirement_phases
     \<and> (re_phase s = ''absent'' \<longrightarrow> (\<exists>a. re_after s = Some a \<and> retirement_check_absent s a (ma_captured a) = None))"
  unfolding retirement_ok_def retirement_validate_def Let_def retirement_phases_def
  by (simp cong del: if_weak_cong split: if_split_asm option.splits; auto)

lemma retirement_payload_phase [simp]: "retirement_payload phase b a s = Some t \<Longrightarrow> re_phase t = re_phase s"
  by (auto simp: retirement_payload_def split: if_splits)

lemma retirement_advance_iff:
  "retirement_advance plan e phase b a s = Inr t \<longleftrightarrow>
     retirement_ok plan s \<and> re_phase s = e \<and> phase = lookup_str retirement_next e
     \<and> (\<exists>u. retirement_payload phase b a s = Some u \<and> t = u\<lparr>re_phase := phase\<rparr>) \<and> retirement_ok plan t"
  by (auto simp: retirement_advance_def retirement_ok_def Let_def split: option.splits if_splits)

lemma retirement_advance_ok:
  "retirement_advance plan e phase b a s = Inr t \<Longrightarrow> retirement_ok plan t \<and> re_phase t = phase"
  by (auto simp: retirement_advance_iff)

interpretation ret: phase_journal retirement_phases "retirement_step plan" "retirement_ok plan" re_phase
  retirement_acts for plan
proof
  show "distinct retirement_phases \<and> '''' \<notin> set retirement_phases" by (simp add: retirement_phases_def)
qed (auto simp: retirement_acts_def retirement_parts retirement_chain retirement_advance_iff
      elim!: retirement_stepE)

abbreviation "re_may plan \<equiv> may_act (retirement_ok plan) re_phase retirement_acts"
abbreviation "re_safe plan \<equiv> safe_at (retirement_step plan) (re_may plan)"

lemma retirement_advance_wp:
  assumes "re_safe plan s0 r" "\<And>r. re_safe plan s0 r \<Longrightarrow> E r"
    "\<And>r. re_safe plan s0 r \<Longrightarrow> retirement_ok plan (cur r) \<Longrightarrow> re_phase (cur r) = phase
       \<Longrightarrow> fresh_commit (hist r) \<Longrightarrow> Q () r"
  shows "wpP (retirement_advanceP plan commit phase b a) Q E r"
  unfolding retirement_advanceP_def using assms(1)
  by (rule wp_advance_safe)
     (auto intro!: assms(2,3) intro: retirement_step.advance dest: retirement_advance_ok)

lemmas retirement_wp = wp retirement_advance_wp
  wp_request_safe [where step = "retirement_step plan" and ok = "re_may plan" for plan]

lemma execute_member_retirement_wp:
  "wpP (execute_member_retirement ctx plan d commit now)
     (\<lambda>_ r. re_safe plan s r \<and> re_phase (cur r) = ''absent'') (re_safe plan s) (start_run s w)"
  unfolding execute_member_retirement_def retirement_verifyP_def Let_def
  by (intro retirement_wp conjI) (simp_all add: may_act_def retirement_acts_def)

text \<open>
  C34. Retiring a member is safe: its container's removal is requested at most once, only when the
  journal durably holds a clean exit that was just seen again, and a run without an error has
  recorded its absence.
\<close>

theorem member_retirement_safe:
  "safe_run (retirement_step plan) (re_may plan) (retirement_ok plan) (\<lambda>s. re_phase s = ''absent'') s
     (execute_member_retirement ctx plan d commit now (start_run s w))"
  by (rule ret.safe_runI [OF execute_member_retirement_wp])

end
