(* ===== verification/MemberResume.thy ===== *)
theory MemberResume
  imports MemberRetirement
begin

text \<open>
  \<open>internal/projectnetwork/member_resume.go\<close>: a new container over the pier of a retired member,
  created, observed stopped, started and observed running, with every peer unchanged.
\<close>

record resume_observation =
  us_runtime :: observation
  us_storage :: location
  us_started :: gotime
  us_captured :: gotime

record member_resume =
  rs_retirement :: member_retirement
  rs_previous :: u64
  rs_operation :: string
  rs_phase :: string
  rs_container :: resource_identity
  rs_before :: "member_absence option"
  rs_created :: "resume_observation option"
  rs_after :: "resume_observation option"

abbreviation rs_stop :: "member_resume \<Rightarrow> member_stop" where
  "rs_stop s \<equiv> se_stop (re_exit (rs_retirement s))"

text \<open>\<open>math.MaxUint64\<close>\<close>

definition max_uint64 :: u64 where
  "max_uint64 = 18446744073709551615"

text \<open>The same absence seen again, with an empty member list read as a nil one.\<close>

definition same_absence :: "member_absence \<Rightarrow> member_absence \<Rightarrow> bool" where
  "same_absence old x \<longleftrightarrow>
     old\<lparr>ma_captured := ma_captured x, ma_runtime := (ma_runtime old)\<lparr>ob_time := ob_time (ma_runtime x),
           ob_members := nil_if_empty (ob_members (ma_runtime old))\<rparr>\<rparr>
     = x\<lparr>ma_runtime := (ma_runtime x)\<lparr>ob_members := nil_if_empty (ob_members (ma_runtime x))\<rparr>\<rparr>"

definition resume_check_before :: "member_resume \<Rightarrow> member_absence \<Rightarrow> gotime \<Rightarrow> gerr option" where
  "resume_check_before s x now =
     (let lost = Some (Err ''resume lost fresh retirement absence'')
      in case re_after (rs_retirement s) of None \<Rightarrow> lost | Some a \<Rightarrow>
        if retirement_check_absent (rs_retirement s) x now \<noteq> None \<or> before (ma_captured x) (ma_captured a)
           \<or> before (ob_time (ma_runtime x)) (ob_time (ma_runtime a)) then lost
        else check (same_absence a x) ''resume project or storage changed'')"

text \<open>The observation of the project with the new container back in its place.\<close>

definition resume_target :: "member_resume \<Rightarrow> bool \<Rightarrow> member_observation" where
  "resume_target s running = (let b = sp_binding (rs_stop s) in
     \<lparr>ro_resource = rs_container s, ro_present = True, mo_instance = sp_instance (rs_stop s), mo_running = running,
      mo_anchor = ri_id (rb_anchor b), mo_namespace = (if running then rb_namespace b else no_namespace)\<rparr>)"

definition with_target :: "observation \<Rightarrow> member_observation \<Rightarrow> observation \<Rightarrow> bool" where
  "with_target b target x \<longleftrightarrow> b\<lparr>ob_time := ob_time x,
     ob_members := slice_map (sort_key mo_instance) (slice_append (ob_members b) [target])\<rparr> = x"

definition resume_check :: "member_resume \<Rightarrow> resume_observation \<Rightarrow> gotime \<Rightarrow> bool \<Rightarrow> gerr option" where
  "resume_check s x now running =
     (let fail = Some (Err ''resume lacks exact fresh container, peer and pier observation'');
          seen = ob_time (us_runtime x)
      in case rs_before s of None \<Rightarrow> fail | Some b \<Rightarrow>
        if is_zero now \<or> is_zero (us_captured x) \<or> \<not> in_window now (us_captured x)
           \<or> before (us_captured x) (ma_captured b) \<or> before seen (ob_time (ma_runtime b))
           \<or> \<not> in_window now seen \<or> \<not> in_window (us_captured x) seen
           \<or> us_storage x \<noteq> sp_storage (rs_stop s) then fail
        else if \<not> with_target (ma_runtime b) (resume_target s running) (us_runtime x) then fail
        else if \<not> running then (if \<not> is_zero (us_started x) then fail else None)
        else case rs_created s of None \<Rightarrow> fail | Some c \<Rightarrow>
          if is_zero (us_started x) \<or> before (us_started x) (time_add (us_captured c) (- 5 * second))
             \<or> after (us_started x) (time_add (us_captured x) (5 * second))
             \<or> before (us_captured x) (us_captured c) \<or> before seen (ob_time (us_runtime c))
          then fail else None)"

definition resume_stages :: "(string \<times> nat) list" where
  "resume_stages = [(''planned'', 0), (''create-dispatched'', 1), (''created'', 2), (''start-dispatched'', 3),
     (''started'', 4), (''running'', 5)]"

definition resume_container_ok :: "member_resume \<Rightarrow> bool" where
  "resume_container_ok s \<longleftrightarrow> (let b = sp_binding (rs_stop s); i = ri_id (rs_container s)
     in valid_resource (rs_container s) \<and> i \<noteq> ri_id (rb_bridge b) \<and> i \<noteq> ri_id (rb_anchor b)
        \<and> list_all (\<lambda>m. i \<noteq> ri_id (rm_container m)) (items (rb_members b)))"

definition resume_validate :: "member_resume \<Rightarrow> project_plan \<Rightarrow> gerr option" where
  "resume_validate s plan =
     (let fail = Some (Err ''invalid retained-pier member resume''); r = rs_retirement s; old = rs_stop s;
          holds = (\<lambda>x running. case x of None \<Rightarrow> False | Some x \<Rightarrow> resume_check s x (us_captured x) running = None)
      in if retirement_validate r plan \<noteq> None \<or> re_phase r \<noteq> ''absent'' \<or> rs_previous s = 0 \<or> rs_previous s = max_uint64
            \<or> \<not> valid_id (rs_operation s) \<or> \<not> hex_string 64 (ri_contract (rs_container s)) then fail
      else if list_ex (\<lambda>i. rs_operation s = i)
                [re_operation r, se_operation (re_exit r), sp_operation old, sp_launch old, sp_readiness old] then fail
      else case map_of resume_stages (rs_phase s) of None \<Rightarrow> fail | Some n \<Rightarrow>
        if (if n = 0 then rs_before s \<noteq> None
            else case rs_before s of None \<Rightarrow> True | Some b \<Rightarrow> resume_check_before s b (ma_captured b) \<noteq> None) then fail
        else if (if n < 2 then ri_id (rs_container s) \<noteq> '''' else \<not> resume_container_ok s) then fail
        else if (if n < 3 then rs_created s \<noteq> None else \<not> holds (rs_created s) False) then fail
        else if (if n < 5 then rs_after s \<noteq> None else \<not> holds (rs_after s) True) then fail
        else None)"

definition new_member_resume ::
  "project_plan \<Rightarrow> member_retirement \<Rightarrow> u64 \<Rightarrow> string \<Rightarrow> string \<Rightarrow> member_resume \<times> gerr option" where
  "new_member_resume plan retired previous operation contract =
     (let s = \<lparr>rs_retirement = retired, rs_previous = previous, rs_operation = operation, rs_phase = ''planned'',
               rs_container = \<lparr>ri_id = '''', ri_contract = contract\<rparr>, rs_before = None, rs_created = None,
               rs_after = None\<rparr>
      in (s, resume_validate s plan))"

record resume_result =
  ur_before :: "member_absence option"
  ur_container :: string
  ur_observation :: "resume_observation option"

definition no_resume_result :: resume_result where
  "no_resume_result = \<lparr>ur_before = None, ur_container = '''', ur_observation = None\<rparr>"

definition resume_next :: "(string \<times> string) list" where
  "resume_next = [(''planned'', ''create-dispatched''), (''create-dispatched'', ''created''),
     (''created'', ''start-dispatched''), (''start-dispatched'', ''started''), (''started'', ''running'')]"

definition resume_payload :: "string \<Rightarrow> resume_result \<Rightarrow> member_resume \<Rightarrow> member_resume option" where
  "resume_payload phase x s =
     (if phase = ''create-dispatched'' then
        (if ur_before x = None \<or> ur_container x \<noteq> '''' \<or> ur_observation x \<noteq> None then None
         else Some (s\<lparr>rs_before := ur_before x\<rparr>))
      else if phase = ''created'' then
        (if ur_before x \<noteq> None \<or> ur_observation x \<noteq> None \<or> \<not> hex_string 64 (ur_container x) then None
         else Some (s\<lparr>rs_container := (rs_container s)\<lparr>ri_id := ur_container x\<rparr>\<rparr>))
      else if phase = ''start-dispatched'' \<or> phase = ''running'' then
        (if ur_before x \<noteq> None \<or> ur_container x \<noteq> '''' \<or> ur_observation x = None then None
         else if phase = ''running'' then Some (s\<lparr>rs_after := ur_observation x\<rparr>)
         else Some (s\<lparr>rs_created := ur_observation x\<rparr>))
      else if phase = ''started'' then
        (if ur_before x \<noteq> None \<or> ur_container x \<noteq> '''' \<or> ur_observation x \<noteq> None then None else Some s)
      else Some s)"

definition resume_advance ::
  "project_plan \<Rightarrow> string \<Rightarrow> string \<Rightarrow> resume_result \<Rightarrow> member_resume \<Rightarrow> gerr + member_resume" where
  "resume_advance plan expected phase x s =
     (let fail = Inl (Err ''stale or invalid member resume transition'')
      in if resume_validate s plan \<noteq> None \<or> rs_phase s \<noteq> expected \<or> lookup_str resume_next expected \<noteq> phase
      then fail
      else case resume_payload phase x s of None \<Rightarrow> fail | Some s \<Rightarrow>
        let s = s\<lparr>rs_phase := phase\<rparr> in if resume_validate s plan \<noteq> None then fail else Inr s)"

section \<open>The executor\<close>

record 'w resume_driver =
  ud_verify :: "string \<Rightarrow> 'w \<Rightarrow> gerr option \<times> 'w"
  ud_absent :: "member_resume \<Rightarrow> 'w \<Rightarrow> (gerr + member_absence) \<times> 'w"
  ud_create :: "member_resume \<Rightarrow> 'w \<Rightarrow> (string \<times> gerr option) \<times> 'w"
  ud_inspect :: "member_resume \<Rightarrow> 'w \<Rightarrow> (gerr + resume_observation) \<times> 'w"
  ud_start :: "member_resume \<Rightarrow> 'w \<Rightarrow> gerr option \<times> 'w"

type_synonym 'w resume_commit = "string \<Rightarrow> member_resume \<Rightarrow> 'w \<Rightarrow> gerr option \<times> 'w"

definition resume_verifyP ::
  "('w \<Rightarrow> gerr option \<times> 'w) \<Rightarrow> 'w resume_driver \<Rightarrow> (member_resume, 'w, unit) prog" where
  "resume_verifyP ctx d = reverifyP ctx (\<lambda>s. ud_verify d (rb_engine (sp_binding (rs_stop s))))
     ''resume engine verification failed''"

definition resume_advanceP ::
  "project_plan \<Rightarrow> 'w resume_commit \<Rightarrow> string \<Rightarrow> resume_result \<Rightarrow> (member_resume, 'w, unit) prog" where
  "resume_advanceP plan commit phase x =
     advanceP (\<lambda>s. resume_advance plan (rs_phase s) phase x s) (\<lambda>s n. commit (rs_phase s) n)"

definition resume_createP ::
  "('w \<Rightarrow> gerr option \<times> 'w) \<Rightarrow> project_plan \<Rightarrow> 'w resume_driver \<Rightarrow> 'w resume_commit
     \<Rightarrow> (member_resume, 'w, unit) prog" where
  "resume_createP ctx plan d commit =
     bindP (effectP ''create-member'' (ud_create d))
       (\<lambda>(i, create_err). seqP
         [(if i \<noteq> '''' then resume_advanceP plan commit ''created'' (no_resume_result\<lparr>ur_container := i\<rparr>) else retP ()),
          (if create_err \<noteq> None
           then failCtxP ctx ''resume Create outcome unresolved; retain its receipt'' else retP ()),
          requireP ctx (\<lambda>s. rs_phase s = ''created'') ''resume Create returned no exact ID''])"

definition execute_member_resume ::
  "('w \<Rightarrow> gerr option \<times> 'w) \<Rightarrow> project_plan \<Rightarrow> 'w resume_driver option \<Rightarrow> 'w resume_commit option
     \<Rightarrow> ('w \<Rightarrow> gotime \<times> 'w) option \<Rightarrow> (member_resume, 'w, unit) prog" where
  "execute_member_resume ctx plan driver com clock =
     (let d = the driver; commit = the com; now = the clock; verify = resume_verifyP ctx d in seqP
     [checkP (\<lambda>s. check (resume_validate s plan = None \<and> rs_phase s = ''planned''
          \<and> driver \<noteq> None \<and> com \<noteq> None \<and> clock \<noteq> None)
        ''member resume requires fresh intent and durable dispatch''),
      verify,
      bindP (observeP ctx (ud_absent d) ''resume absence observation failed'')
        (\<lambda>x. seqP
          [verify,
           checkAtP now (\<lambda>t s. resume_check_before s x t),
           resume_advanceP plan commit ''create-dispatched'' (no_resume_result\<lparr>ur_before := Some x\<rparr>)]),
      verify,
      checkAtP now (\<lambda>t s. resume_check_before s (the (rs_before s)) t),
      resume_createP ctx plan d commit,
      verify,
      bindP (observeP ctx (ud_inspect d) ''resume created-container observation failed'')
        (\<lambda>x. seqP
          [verify,
           checkAtP now (\<lambda>t s. resume_check s x t False),
           resume_advanceP plan commit ''start-dispatched'' (no_resume_result\<lparr>ur_observation := Some x\<rparr>)]),
      verify,
      checkAtP now (\<lambda>t s. resume_check s (the (rs_created s)) t False),
      requestP ctx ''start-member'' (ud_start d) ''resume Start outcome unresolved; retain its receipt'',
      resume_advanceP plan commit ''started'' no_resume_result,
      verify,
      bindP (observeP ctx (ud_inspect d) ''resume running-container observation failed'')
        (\<lambda>x. seqP
          [verify,
           checkAtP now (\<lambda>t s. resume_check s x t True),
           resume_advanceP plan commit ''running'' (no_resume_result\<lparr>ur_observation := Some x\<rparr>)])])"

section \<open>Steps of the journal\<close>

definition resume_ok :: "project_plan \<Rightarrow> member_resume \<Rightarrow> bool" where
  "resume_ok plan s \<longleftrightarrow> resume_validate s plan = None"

inductive resume_step :: "project_plan \<Rightarrow> member_resume \<Rightarrow> member_resume \<Rightarrow> bool" for plan where
  advance: "resume_advance plan expected phase x s = Inr t \<Longrightarrow> resume_step plan s t"

inductive_cases resume_stepE: "resume_step plan s t"

definition resume_phases :: "string list" where
  "resume_phases = map fst resume_stages"

definition resume_acts :: "(string \<times> string) list" where
  "resume_acts = [(''create-member'', ''create-dispatched''), (''start-member'', ''start-dispatched'')]"

lemma resume_chain: "resume_next = chain resume_phases"
  by (simp add: resume_next_def chain_def resume_phases_def resume_stages_def)

lemma resume_parts:
  assumes "resume_ok plan s"
  shows "retirement_ok plan (rs_retirement s) \<and> re_phase (rs_retirement s) = ''absent'' \<and> rs_previous s \<noteq> 0
    \<and> rs_previous s \<noteq> max_uint64 \<and> valid_id (rs_operation s)
    \<and> (\<exists>n. map_of resume_stages (rs_phase s) = Some n \<and> (2 \<le> n \<longrightarrow> resume_container_ok s)
         \<and> (1 \<le> n \<longrightarrow> (\<exists>b. rs_before s = Some b \<and> resume_check_before s b (ma_captured b) = None))
         \<and> (3 \<le> n \<longrightarrow> (\<exists>x. rs_created s = Some x \<and> resume_check s x (us_captured x) False = None))
         \<and> (5 \<le> n \<longrightarrow> (\<exists>x. rs_after s = Some x \<and> resume_check s x (us_captured x) True = None)))"
  using assms unfolding resume_ok_def resume_validate_def Let_def retirement_ok_def
  by (simp cong del: if_weak_cong split: if_split_asm option.splits; auto)

lemma resume_phase: "resume_ok plan s \<Longrightarrow> rs_phase s \<in> set resume_phases"
  using resume_parts [of plan s] unfolding resume_phases_def
  by (metis map_of_eq_None_iff option.distinct(1) list.set_map)

lemma resume_payload_phase [simp]: "resume_payload phase x s = Some t \<Longrightarrow> rs_phase t = rs_phase s"
  by (auto simp: resume_payload_def split: if_splits)

lemma resume_advance_iff:
  "resume_advance plan e phase x s = Inr t \<longleftrightarrow>
     resume_ok plan s \<and> rs_phase s = e \<and> phase = lookup_str resume_next e
     \<and> (\<exists>u. resume_payload phase x s = Some u \<and> t = u\<lparr>rs_phase := phase\<rparr>) \<and> resume_ok plan t"
  by (auto simp: resume_advance_def resume_ok_def Let_def split: option.splits if_splits)

lemma resume_advance_ok:
  "resume_advance plan e phase x s = Inr t \<Longrightarrow> resume_ok plan t \<and> rs_phase t = phase"
  by (auto simp: resume_advance_iff)

interpretation res: phase_journal resume_phases "resume_step plan" "resume_ok plan" rs_phase resume_acts for plan
proof
  show "distinct resume_phases \<and> '''' \<notin> set resume_phases" by (simp add: resume_phases_def resume_stages_def)
qed (auto simp: resume_acts_def resume_phase resume_chain resume_advance_iff elim!: resume_stepE)

abbreviation "rs_may plan \<equiv> may_act (resume_ok plan) rs_phase resume_acts"
abbreviation "rs_safe plan \<equiv> safe_at (resume_step plan) (rs_may plan)"

lemma resume_advance_wp:
  assumes "rs_safe plan s0 r" "\<And>r. rs_safe plan s0 r \<Longrightarrow> E r"
    "\<And>r. rs_safe plan s0 r \<Longrightarrow> resume_ok plan (cur r) \<Longrightarrow> rs_phase (cur r) = phase
       \<Longrightarrow> fresh_commit (hist r) \<Longrightarrow> Q () r"
  shows "wpP (resume_advanceP plan commit phase x) Q E r"
  unfolding resume_advanceP_def using assms(1)
  by (rule wp_advance_safe)
     (auto intro!: assms(2,3) intro: resume_step.advance dest: resume_advance_ok)

lemmas resume_wp = wp resume_advance_wp
  wp_effect_safe [where step = "resume_step plan" and ok = "rs_may plan" for plan]
  wp_request_safe [where step = "resume_step plan" and ok = "rs_may plan" for plan]

lemma resume_create_wp:
  assumes "rs_safe plan s0 r" "resume_ok plan (cur r)" "rs_phase (cur r) = ''create-dispatched''"
    "fresh_commit (hist r)" "\<And>r. rs_safe plan s0 r \<Longrightarrow> E r" "\<And>q. rs_safe plan s0 q \<Longrightarrow> Q () q"
  shows "wpP (resume_createP ctx plan d commit) Q E r"
  unfolding resume_createP_def
  by (intro resume_wp assms(5,6)) (use assms(1-4) in \<open>simp_all add: may_act_def resume_acts_def\<close>)

lemma execute_member_resume_wp:
  "wpP (execute_member_resume ctx plan d commit now)
     (\<lambda>_ r. rs_safe plan s r \<and> rs_phase (cur r) = ''running'') (rs_safe plan s) (start_run s w)"
  unfolding execute_member_resume_def resume_verifyP_def Let_def
  by (intro resume_create_wp resume_wp conjI) (simp_all add: may_act_def resume_acts_def)

text \<open>
  C35. Resuming a member is safe: its new container is created at most once and started at most once,
  each only when the journal durably holds the observation it is based on, and a run without an
  error has recorded the running container.
\<close>

theorem member_resume_safe:
  "safe_run (resume_step plan) (rs_may plan) (resume_ok plan) (\<lambda>s. rs_phase s = ''running'') s
     (execute_member_resume ctx plan d commit now (start_run s w))"
  by (rule res.safe_runI [OF execute_member_resume_wp])

end
