(* ===== verification/Generations.thy ===== *)
theory Generations
  imports MemberResume
begin

text \<open>
  \<open>internal/projectnetwork/member_generations.go\<close>: the current creation of every member,
  reconstructed from the launch receipts and the completed replacements. The callback \<open>visit\<close> sees
  every prefix of the history; here the prefixes are returned as a list, oldest first, and a
  callback is a function of that list, whose results the code drops when the history fails.
\<close>

record member_generation =
  mg_instance :: string
  mg_runtime :: string
  mg_generation :: u64
  mg_operation :: string
  mg_mode :: string
  mg_container :: resource_identity
  mg_storage :: location

record generation_set =
  gs_binding :: runtime_binding
  gs_members :: "member_generation slice"

text \<open>The variables of the loop: the set so far, the applied replacements, and what is in use.\<close>

record resolution =
  rv_out :: generation_set
  rv_through :: "member_resume list"
  rv_applied :: "nat list"
  rv_resources :: "string list"
  rv_operations :: "string list"

definition generations_error :: gerr where
  "generations_error = Err ''member generations do not form one complete retained history''"

definition boot_generation :: "runtime_member \<Rightarrow> member_launch \<Rightarrow> member_generation" where
  "boot_generation m l = \<lparr>mg_instance = rm_instance m, mg_runtime = rm_runtime m, mg_generation = 1,
     mg_operation = ml_operation l, mg_mode = ''boot'', mg_container = rm_container m,
     mg_storage = ms_location (ml_storage l)\<rparr>"

text \<open>One generation per member of the initial binding.\<close>

fun boot_generations ::
  "project_plan \<Rightarrow> member_launch list \<Rightarrow> runtime_member list \<Rightarrow> member_generation list option" where
  "boot_generations plan launches [] = Some []"
| "boot_generations plan launches (m # ms) =
     (case initial_member plan launches (rm_instance m) of None \<Rightarrow> None
      | Some (l, _) \<Rightarrow> map_option (\<lambda>gs. boot_generation m l # gs) (boot_generations plan launches ms))"

definition initial_operations :: "member_launch list \<Rightarrow> string list" where
  "initial_operations launches = concat (map (\<lambda>l. [ml_operation l, ms_operation (ml_storage l),
     an_operation (ml_anchor l), pp_operation (an_prepared (ml_anchor l))]) launches)"

definition initial_resolution :: "project_plan \<Rightarrow> member_launch list \<Rightarrow> resolution option" where
  "initial_resolution plan launches =
     (case initial_runtime_binding plan launches of Inl _ \<Rightarrow> None | Inr b \<Rightarrow>
      case boot_generations plan launches (items (rb_members b)) of None \<Rightarrow> None | Some gs \<Rightarrow>
        Some \<lparr>rv_out = \<lparr>gs_binding = b, gs_members = slice_append NilSlice gs\<rparr>, rv_through = [], rv_applied = [],
              rv_resources = ri_id (rb_bridge b) # ri_id (rb_anchor b)
                # map (ri_id \<circ> rm_container) (items (rb_members b)),
              rv_operations = initial_operations launches\<rparr>)"

text \<open>The loop that checks every replacement by itself.\<close>

fun resumes_admissible ::
  "project_plan \<Rightarrow> string list \<Rightarrow> string list \<Rightarrow> string list \<Rightarrow> member_resume list \<Rightarrow> bool" where
  "resumes_admissible plan operations resumes retirements [] = True"
| "resumes_admissible plan operations resumes retirements (s # ss) =
     (\<not> (resume_validate s plan \<noteq> None \<or> rs_phase s \<noteq> ''running'' \<or> rs_operation s \<in> set resumes
         \<or> re_operation (rs_retirement s) \<in> set retirements \<or> rs_operation s \<in> set operations)
      \<and> resumes_admissible plan operations (rs_operation s # resumes) (re_operation (rs_retirement s) # retirements) ss)"

text \<open>Whether a replacement continues the creation of a member.\<close>

definition continues :: "member_resume \<Rightarrow> member_generation \<Rightarrow> bool" where
  "continues s m \<longleftrightarrow> (let old = rs_stop s in
     \<not> (mg_instance m \<noteq> sp_instance old \<or> mg_generation m \<noteq> rs_previous s \<or> mg_operation m \<noteq> sp_launch old
        \<or> lo_path (mg_storage m) \<noteq> lo_path (sp_storage old) \<or> lo_mount (mg_storage m) \<noteq> lo_mount (sp_storage old))
     \<and> \<not> (mg_mode m = ''resume'' \<and> mg_storage m \<noteq> sp_storage old))"

text \<open>The pairs the inner loops select: an unapplied replacement of this binding and a member.\<close>

definition candidates :: "member_resume list \<Rightarrow> resolution \<Rightarrow> (nat \<times> nat) list" where
  "candidates resumes v =
     [(i, k). i \<leftarrow> [0..<length resumes],
        \<not> (i \<in> set (rv_applied v) \<or> sp_binding (rs_stop (resumes ! i)) \<noteq> gs_binding (rv_out v)),
        k \<leftarrow> [0..<length (items (gs_members (rv_out v)))],
        continues (resumes ! i) (items (gs_members (rv_out v)) ! k)]"

definition next_generation :: "member_resume \<Rightarrow> member_generation \<Rightarrow> member_generation" where
  "next_generation s m = m\<lparr>mg_generation := rs_previous s + 1, mg_operation := rs_operation s, mg_mode := ''resume'',
     mg_container := rs_container s, mg_storage := sp_storage (rs_stop s)\<rparr>"

definition replace_container :: "resource_identity \<Rightarrow> nat \<Rightarrow> runtime_binding \<Rightarrow> runtime_binding" where
  "replace_container c k b = b\<lparr>rb_members := slice_map (\<lambda>ms. ms[k := (ms ! k)\<lparr>rm_container := c\<rparr>]) (rb_members b)\<rparr>"

definition apply_resume :: "nat \<Rightarrow> nat \<Rightarrow> member_resume \<Rightarrow> resolution \<Rightarrow> resolution" where
  "apply_resume i k s v = v\<lparr>
     rv_out := \<lparr>gs_binding = replace_container (rs_container s) k (gs_binding (rv_out v)),
                gs_members = slice_map (\<lambda>ms. ms[k := next_generation s (ms ! k)]) (gs_members (rv_out v))\<rparr>,
     rv_through := rv_through v @ [s], rv_applied := i # rv_applied v,
     rv_resources := ri_id (rs_container s) # rv_resources v,
     rv_operations := rs_operation s # rv_operations v\<rparr>"

text \<open>One round of the outer loop, and its rounds; the result lists the prefixes it went through.\<close>

definition resolve_round :: "project_plan \<Rightarrow> member_resume list \<Rightarrow> resolution \<Rightarrow> resolution option" where
  "resolve_round plan resumes v =
     (case candidates resumes v of
        [(i, k)] \<Rightarrow>
          (let s = resumes ! i in
           if ri_id (rs_container s) \<in> set (rv_resources v) \<or> rs_operation s \<in> set (rv_operations v) then None
           else let w = apply_resume i k s v
           in if binding_validate (gs_binding (rv_out w)) plan \<noteq> None then None else Some w)
      | _ \<Rightarrow> None)"

fun resolve_rounds :: "project_plan \<Rightarrow> member_resume list \<Rightarrow> nat \<Rightarrow> resolution \<Rightarrow> resolution list option" where
  "resolve_rounds plan resumes 0 v = Some [v]"
| "resolve_rounds plan resumes (Suc n) v =
     (case resolve_round plan resumes v of None \<Rightarrow> None
      | Some w \<Rightarrow> map_option ((#) v) (resolve_rounds plan resumes n w))"

definition resolve_history ::
  "project_plan \<Rightarrow> member_launch list \<Rightarrow> member_resume list \<Rightarrow> gerr + resolution list" where
  "resolve_history plan launches resumes =
     (case initial_resolution plan launches of None \<Rightarrow> Inl generations_error | Some v \<Rightarrow>
        if \<not> resumes_admissible plan (rv_operations v) [] [] resumes then Inl generations_error
        else case resolve_rounds plan resumes (length resumes) v of None \<Rightarrow> Inl generations_error
        | Some vs \<Rightarrow> Inr vs)"

definition resolve_generations ::
  "project_plan \<Rightarrow> member_launch list \<Rightarrow> member_resume list \<Rightarrow> gerr + generation_set" where
  "resolve_generations plan launches resumes =
     (case resolve_history plan launches resumes of Inl e \<Rightarrow> Inl e | Inr vs \<Rightarrow> Inr (rv_out (List.last vs)))"

text \<open>The two lookups of a historical prefix; a later prefix with the same binding wins.\<close>

definition at_binding ::
  "project_plan \<Rightarrow> member_launch list \<Rightarrow> member_resume list \<Rightarrow> runtime_binding \<Rightarrow> gerr + resolution" where
  "at_binding plan launches resumes b =
     (if binding_validate b plan \<noteq> None then Inl (Err ''invalid historical member binding'')
      else case resolve_history plan launches resumes of Inl e \<Rightarrow> Inl e | Inr vs \<Rightarrow>
        (case filter (\<lambda>v. gs_binding (rv_out v) = b) vs of
           [] \<Rightarrow> Inl (Err ''member binding is not a prefix of retained history'')
         | found \<Rightarrow> Inr (List.last found)))"

definition generations_at_binding ::
  "project_plan \<Rightarrow> member_launch list \<Rightarrow> member_resume list \<Rightarrow> runtime_binding \<Rightarrow> gerr + generation_set" where
  "generations_at_binding plan launches resumes b =
     (case at_binding plan launches resumes b of Inl e \<Rightarrow> Inl e | Inr v \<Rightarrow> Inr (rv_out v))"

definition resumes_at_binding ::
  "project_plan \<Rightarrow> member_launch list \<Rightarrow> member_resume list \<Rightarrow> runtime_binding \<Rightarrow> gerr + member_resume list" where
  "resumes_at_binding plan launches resumes b =
     (case at_binding plan launches resumes b of Inl e \<Rightarrow> Inl e | Inr v \<Rightarrow> Inr (rv_through v))"

section \<open>The remaining replacements\<close>

definition remaining :: "member_resume list \<Rightarrow> resolution \<Rightarrow> member_resume list" where
  "remaining resumes v = map ((!) resumes) (filter (\<lambda>i. i \<notin> set (rv_applied v)) [0..<length resumes])"

text \<open>What the replacements offer: candidates by value, not by position.\<close>

definition offers :: "resolution \<Rightarrow> member_resume list \<Rightarrow> (member_resume \<times> nat) list" where
  "offers v ss = concat (map (\<lambda>s. if sp_binding (rs_stop s) \<noteq> gs_binding (rv_out v) then []
     else map (Pair s) (filter (\<lambda>k. continues s (items (gs_members (rv_out v)) ! k))
            [0..<length (items (gs_members (rv_out v)))])) ss)"

lemma concat_filter_if: "concat (map (\<lambda>k. if p k then [f k] else []) ks) = map f (filter p ks)"
  by (induction ks) auto

lemma candidates_offers: "map (\<lambda>(i, k). (resumes ! i, k)) (candidates resumes v) = offers v (remaining resumes v)"
proof -
  have "map (\<lambda>(i, k). (resumes ! i, k)) (concat (map (\<lambda>i.
        if \<not> (i \<in> A \<or> sp_binding (rs_stop (resumes ! i)) \<noteq> b) then
          concat (map (\<lambda>k. if continues (resumes ! i) (ms ! k) then [(i, k)] else []) [0..<length ms]) else []) is'))
    = concat (map (\<lambda>s. if sp_binding (rs_stop s) \<noteq> b then []
        else map (Pair s) (filter (\<lambda>k. continues s (ms ! k)) [0..<length ms]))
        (map ((!) resumes) (filter (\<lambda>i. i \<notin> A) is')))" for A b ms is'
    by (induction is') (auto simp: concat_filter_if)
  then show ?thesis by (simp add: candidates_def offers_def remaining_def)
qed

lemma mset_offers:
  assumes "mset ss = mset ts" "rv_out v = rv_out w"
  shows "mset (offers v ss) = mset (offers w ts)"
proof -
  define f where "f s = mset (if sp_binding (rs_stop s) \<noteq> gs_binding (rv_out v) then []
     else map (Pair s) (filter (\<lambda>k. continues s (items (gs_members (rv_out v)) ! k))
            [0..<length (items (gs_members (rv_out v)))]))" for s
  have "mset (offers v xs) = sum_mset (image_mset f (mset xs))" for xs
    by (induction xs) (simp_all add: offers_def f_def)
  moreover have "mset (offers w xs) = sum_mset (image_mset f (mset xs))" for xs
    by (induction xs) (simp_all add: offers_def f_def assms(2))
  ultimately show ?thesis by (simp add: assms(1))
qed

lemma candidates_bounds:
  assumes "(i, k) \<in> set (candidates resumes v)"
  shows "i < length resumes \<and> i \<notin> set (rv_applied v) \<and> sp_binding (rs_stop (resumes ! i)) = gs_binding (rv_out v)
    \<and> k < length (items (gs_members (rv_out v))) \<and> continues (resumes ! i) (items (gs_members (rv_out v)) ! k)"
  using assms by (auto simp: candidates_def split: if_splits)

lemma remaining_apply:
  assumes "i < length resumes" "i \<notin> set (rv_applied v)"
  shows "mset (remaining resumes v) = add_mset (resumes ! i) (mset (remaining resumes (apply_resume i k s v)))"
proof -
  have d: "distinct (filter (\<lambda>j. j \<notin> set (rv_applied v)) [0..<length resumes])" by simp
  have "filter (\<lambda>j. j \<notin> insert i (set (rv_applied v))) [0..<length resumes]
      = filter ((\<noteq>) i) (filter (\<lambda>j. j \<notin> set (rv_applied v)) [0..<length resumes])"
    by (auto intro: filter_cong)
  also have "\<dots> = remove1 i (filter (\<lambda>j. j \<notin> set (rv_applied v)) [0..<length resumes])"
    using distinct_remove1_removeAll [OF d] by (simp add: removeAll_filter_not_eq)
  finally have "mset (remaining resumes (apply_resume i k s v)) =
      image_mset ((!) resumes) (mset (filter (\<lambda>j. j \<notin> set (rv_applied v)) [0..<length resumes]) - {#i#})"
    by (simp add: remaining_def apply_resume_def del: mset_map flip: mset_map)
      (simp add: mset_map)
  then show ?thesis using assms by (simp add: remaining_def image_mset_Diff)
qed

section \<open>The order of the receipts\<close>

text \<open>Two resolutions agree: they differ at most in the positions of the applied receipts.\<close>

definition agree :: "member_resume list \<Rightarrow> member_resume list \<Rightarrow> resolution \<Rightarrow> resolution \<Rightarrow> bool" where
  "agree rs rs' v w \<longleftrightarrow> rv_out v = rv_out w \<and> rv_through v = rv_through w \<and> rv_resources v = rv_resources w
     \<and> rv_operations v = rv_operations w \<and> mset (remaining rs v) = mset (remaining rs' w)"

text \<open>A round by value: exactly one offer, of an unused container and operation.\<close>

lemma round_iff:
  "resolve_round plan rs v = Some w \<longleftrightarrow>
     (\<exists>i k. candidates rs v = [(i, k)] \<and> ri_id (rs_container (rs ! i)) \<notin> set (rv_resources v)
        \<and> rs_operation (rs ! i) \<notin> set (rv_operations v) \<and> w = apply_resume i k (rs ! i) v
        \<and> binding_ok (gs_binding (rv_out w)) plan)"
  by (auto simp: resolve_round_def Let_def simp flip: binding_validate_iff split: list.splits prod.splits if_splits)

lemma round_agree:
  assumes "agree rs rs' v w" "resolve_round plan rs v = Some v'"
  shows "\<exists>w'. resolve_round plan rs' w = Some w' \<and> agree rs rs' v' w'"
proof -
  from assms(2) obtain i k where c: "candidates rs v = [(i, k)]"
    and u: "ri_id (rs_container (rs ! i)) \<notin> set (rv_resources v)" "rs_operation (rs ! i) \<notin> set (rv_operations v)"
    and v': "v' = apply_resume i k (rs ! i) v" "binding_ok (gs_binding (rv_out v')) plan"
    by (auto simp: round_iff)
  have "mset (offers v (remaining rs v)) = mset (offers w (remaining rs' w))"
    using assms(1) by (intro mset_offers) (simp_all add: agree_def)
  moreover have "offers v (remaining rs v) = [(rs ! i, k)]" using candidates_offers [of rs v] c by simp
  ultimately have "mset (map (\<lambda>(i, k). (rs' ! i, k)) (candidates rs' w)) = {#(rs ! i, k)#}"
    by (simp only: candidates_offers) simp
  then have "map (\<lambda>(i, k). (rs' ! i, k)) (candidates rs' w) = [(rs ! i, k)]"
    by (simp only: mset_single_iff)
  then obtain j where j: "candidates rs' w = [(j, k)]" "rs' ! j = rs ! i"
    by (auto simp: map_eq_Cons_conv)
  have b: "i < length rs" "i \<notin> set (rv_applied v)" "j < length rs'" "j \<notin> set (rv_applied w)"
    using candidates_bounds [of i k rs v] candidates_bounds [of j k rs' w] c j by auto
  define w' where "w' = apply_resume j k (rs' ! j) w"
  have "agree rs rs' v' w'"
    using assms(1) remaining_apply [OF b(1,2), of k "rs ! i"] remaining_apply [OF b(3,4), of k "rs ! i"] j(2)
    by (auto simp: agree_def v'(1) w'_def apply_resume_def)
  moreover have "resolve_round plan rs' w = Some w'"
    using u v' j assms(1) by (auto simp: round_iff w'_def agree_def apply_resume_def)
  ultimately show ?thesis by blast
qed

lemma rounds_agree:
  assumes "agree rs rs' v w" "resolve_rounds plan rs n v = Some vs"
  shows "\<exists>ws. resolve_rounds plan rs' n w = Some ws \<and> list_all2 (agree rs rs') vs ws"
  using assms
proof (induction n arbitrary: v w vs)
  case (Suc n)
  from Suc.prems(2) obtain v' us where "resolve_round plan rs v = Some v'" "resolve_rounds plan rs n v' = Some us"
    "vs = v # us" by (auto split: option.splits)
  moreover from round_agree [OF Suc.prems(1) this(1)] obtain w' where
    "resolve_round plan rs' w = Some w'" "agree rs rs' v' w'" by blast
  ultimately show ?case using Suc.IH [of v' w' us] Suc.prems(1) by auto
qed auto

lemma rounds_length: "resolve_rounds plan rs n v = Some vs \<Longrightarrow> length vs = Suc n"
  by (induction n arbitrary: v vs) (auto split: option.splits)

lemma resumes_admissible_iff:
  "resumes_admissible plan ops seen retired ss \<longleftrightarrow>
     list_all (\<lambda>s. resume_ok plan s \<and> rs_phase s = ''running'' \<and> rs_operation s \<notin> set ops) ss
     \<and> all_fresh rs_operation seen ss \<and> all_fresh (re_operation \<circ> rs_retirement) retired ss"
  by (induction ss arbitrary: seen retired) (auto simp: resume_ok_def)

lemma history_agree:
  assumes "mset rs = mset rs'" "resolve_history plan ls rs = Inr vs"
  shows "\<exists>ws. resolve_history plan ls rs' = Inr ws \<and> list_all2 (agree rs rs') vs ws"
proof -
  from assms(2) obtain v where v: "initial_resolution plan ls = Some v" "resumes_admissible plan (rv_operations v) [] [] rs"
    "resolve_rounds plan rs (length rs) v = Some vs"
    by (auto simp: resolve_history_def split: option.splits if_splits)
  have n: "length rs = length rs'" using assms(1) by (rule mset_eq_length)
  have d: "distinct (map f rs) = distinct (map f rs')" for f :: "member_resume \<Rightarrow> string"
    using assms(1) by (metis mset_eq_imp_distinct_iff mset_map)
  have "resumes_admissible plan (rv_operations v) [] [] rs'"
    using v(2) d assms(1) by (auto simp: resumes_admissible_iff all_fresh_iff list_all_iff dest: mset_eq_setD)
  moreover have "rv_applied v = []" using v(1)
    by (auto simp: initial_resolution_def split: sum.splits option.splits)
  then have "agree rs rs' v v" using assms(1) by (simp add: agree_def remaining_def map_nth)
  ultimately show ?thesis using rounds_agree [OF _ v(3), of rs' v] v(1) n
    by (auto simp: resolve_history_def)
qed

lemma history_refused: "resolve_history plan ls rs = Inl e \<Longrightarrow> e = generations_error"
  by (auto simp: resolve_history_def split: option.splits if_splits)

lemma history_nonempty: "resolve_history plan ls rs = Inr vs \<Longrightarrow> vs \<noteq> []"
  by (auto simp: resolve_history_def dest!: rounds_length split: option.splits if_splits)

lemma resolve_agree:
  assumes "mset rs = mset rs'" "resolve_generations plan ls rs = Inr g"
  shows "resolve_generations plan ls rs' = Inr g"
proof -
  from assms(2) obtain vs where vs: "resolve_history plan ls rs = Inr vs" "g = rv_out (List.last vs)"
    by (auto simp: resolve_generations_def split: sum.splits)
  from history_agree [OF assms(1) vs(1)] obtain ws where ws: "resolve_history plan ls rs' = Inr ws"
    "list_all2 (agree rs rs') vs ws" by blast
  have "vs \<noteq> []" by (rule history_nonempty [OF vs(1)])
  moreover from this have "ws \<noteq> []" using ws(2) by auto
  ultimately have "agree rs rs' (List.last vs) (List.last ws)"
    using ws(2) by (simp add: last_conv_nth list_all2_conv_all_nth)
  then show ?thesis by (simp add: resolve_generations_def ws(1) vs(2) agree_def)
qed

lemma resolve_refused: "resolve_generations plan ls rs = Inl e \<Longrightarrow> e = generations_error"
  by (auto simp: resolve_generations_def dest: history_refused split: sum.splits)

text \<open>
  C37. The current creations do not depend on the order in which the replacement receipts are
  listed.
\<close>

theorem resolve_order:
  "mset rs = mset rs' \<Longrightarrow> resolve_generations plan ls rs = resolve_generations plan ls rs'"
  using resolve_agree [of rs rs' plan ls] resolve_agree [of rs' rs plan ls]
    resolve_refused [of plan ls rs] resolve_refused [of plan ls rs']
  by (cases "resolve_generations plan ls rs"; cases "resolve_generations plan ls rs'") force+

section \<open>Causal histories\<close>

text \<open>A completed replacement continues the creation of one member under the current binding.\<close>

inductive replaced :: "project_plan \<Rightarrow> generation_set \<Rightarrow> member_resume \<Rightarrow> generation_set \<Rightarrow> bool" for plan where
  replace: "resume_ok plan s \<Longrightarrow> rs_phase s = ''running'' \<Longrightarrow> sp_binding (rs_stop s) = gs_binding g
     \<Longrightarrow> k < length (items (gs_members g)) \<Longrightarrow> continues s (items (gs_members g) ! k)
     \<Longrightarrow> h = \<lparr>gs_binding = replace_container (rs_container s) k (gs_binding g),
              gs_members = slice_map (\<lambda>ms. ms[k := next_generation s (ms ! k)]) (gs_members g)\<rparr>
     \<Longrightarrow> binding_ok (gs_binding h) plan \<Longrightarrow> replaced plan g s h"

inductive causal :: "project_plan \<Rightarrow> generation_set \<Rightarrow> member_resume list \<Rightarrow> generation_set \<Rightarrow> bool" for plan g where
  start: "causal plan g [] g"
| extend: "causal plan g ss h \<Longrightarrow> replaced plan h s i \<Longrightarrow> causal plan g (ss @ [s]) i"

inductive_cases replacedE: "replaced plan g s h"

lemma round_replaced:
  assumes "resolve_round plan rs v = Some w" "list_all (\<lambda>s. resume_ok plan s \<and> rs_phase s = ''running'') rs"
  shows "\<exists>s. replaced plan (rv_out v) s (rv_out w) \<and> rv_through w = rv_through v @ [s]
    \<and> mset (remaining rs v) = add_mset s (mset (remaining rs w))"
proof -
  from assms(1) obtain i k where c: "candidates rs v = [(i, k)]" and w: "w = apply_resume i k (rs ! i) v"
    "binding_ok (gs_binding (rv_out w)) plan" by (auto simp: round_iff)
  from c have b: "i < length rs" "i \<notin> set (rv_applied v)" "sp_binding (rs_stop (rs ! i)) = gs_binding (rv_out v)"
    "k < length (items (gs_members (rv_out v)))" "continues (rs ! i) (items (gs_members (rv_out v)) ! k)"
    using candidates_bounds [of i k rs v] by auto
  from assms(2) b(1) have "resume_ok plan (rs ! i)" "rs_phase (rs ! i) = ''running''" by (auto simp: list_all_length)
  then have "replaced plan (rv_out v) (rs ! i) (rv_out w)" using b(3-5) w
    by (intro replaced.intros [of plan "rs ! i" _ k]) (simp_all add: apply_resume_def)
  moreover have "mset (remaining rs v) = add_mset (rs ! i) (mset (remaining rs w))"
    using remaining_apply [OF b(1,2), of k "rs ! i"] w(1) by simp
  ultimately show ?thesis using w(1) by (auto simp: apply_resume_def)
qed

lemma rounds_causal:
  assumes "resolve_rounds plan rs n v = Some vs" "list_all (\<lambda>s. resume_ok plan s \<and> rs_phase s = ''running'') rs"
    "causal plan g (rv_through v) (rv_out v)" "mset (rv_through v) + mset (remaining rs v) = mset rs"
    "length (remaining rs v) = n"
  shows "\<forall>w\<in>set vs. causal plan g (rv_through w) (rv_out w)
    \<and> mset (rv_through (List.last vs)) = mset rs"
  using assms
proof (induction n arbitrary: v vs)
  case (Suc n)
  from Suc.prems(1) obtain w us where w: "resolve_round plan rs v = Some w" "resolve_rounds plan rs n w = Some us"
    "vs = v # us" by (auto split: option.splits)
  from round_replaced [OF w(1) Suc.prems(2)] obtain s where s: "replaced plan (rv_out v) s (rv_out w)"
    "rv_through w = rv_through v @ [s]" "mset (remaining rs v) = add_mset s (mset (remaining rs w))" by blast
  have "causal plan g (rv_through w) (rv_out w)" using s causal.extend [OF Suc.prems(3)] by simp
  moreover have "length (remaining rs w) = n"
    using Suc.prems(5) arg_cong [OF s(3), of size] by simp
  ultimately have "\<forall>w\<in>set us. causal plan g (rv_through w) (rv_out w) \<and> mset (rv_through (List.last us)) = mset rs"
    using Suc.IH [OF w(2)] Suc.prems(2,4) s by simp
  moreover have "us \<noteq> []" using rounds_length [OF w(2)] by auto
  ultimately show ?case using Suc.prems(3) w(3) by (simp split: if_splits) (meson last_in_set)
qed simp

definition initial_generations :: "project_plan \<Rightarrow> member_launch list \<Rightarrow> generation_set \<Rightarrow> bool" where
  "initial_generations plan ls g \<longleftrightarrow> (\<exists>v. initial_resolution plan ls = Some v \<and> rv_out v = g)"

lemma history_causal:
  assumes "resolve_history plan ls rs = Inr vs"
  shows "\<exists>g. initial_generations plan ls g \<and> (\<forall>w\<in>set vs. causal plan g (rv_through w) (rv_out w))
    \<and> mset (rv_through (List.last vs)) = mset rs"
proof -
  from assms obtain v where v: "initial_resolution plan ls = Some v" "resumes_admissible plan (rv_operations v) [] [] rs"
    "resolve_rounds plan rs (length rs) v = Some vs"
    by (auto simp: resolve_history_def split: option.splits if_splits)
  from v(1) have "rv_applied v = []" "rv_through v = []"
    by (auto simp: initial_resolution_def split: sum.splits option.splits)
  then have r: "remaining rs v = rs" "rv_through v = []" by (simp_all add: remaining_def map_nth)
  have a: "list_all (\<lambda>s. resume_ok plan s \<and> rs_phase s = ''running'') rs"
    using v(2) by (auto simp: resumes_admissible_iff list_all_iff)
  have "causal plan (rv_out v) (rv_through v) (rv_out v)" by (simp add: r causal.start)
  from rounds_causal [OF v(3) a this] r rounds_length [OF v(3)] v(1) show ?thesis
    by (auto simp: initial_generations_def) (metis last_in_set length_0_conv nat.distinct(1))
qed

lemma resolve_causal:
  assumes "resolve_generations plan ls rs = Inr g"
  shows "\<exists>g0 order. initial_generations plan ls g0 \<and> mset order = mset rs \<and> causal plan g0 order g"
proof -
  from assms obtain vs where vs: "resolve_history plan ls rs = Inr vs" "g = rv_out (List.last vs)"
    by (auto simp: resolve_generations_def split: sum.splits)
  from history_causal [OF vs(1)] history_nonempty [OF vs(1)] vs(2) show ?thesis by (metis last_in_set)
qed

section \<open>The generations count the replacements\<close>

text \<open>The set lists the members of its binding, in order and with their containers.\<close>

definition tracks :: "member_generation \<Rightarrow> runtime_member \<Rightarrow> bool" where
  "tracks m r \<longleftrightarrow> mg_instance m = rm_instance r \<and> mg_runtime m = rm_runtime r \<and> mg_container m = rm_container r"

definition aligned :: "generation_set \<Rightarrow> bool" where
  "aligned g \<longleftrightarrow> list_all2 tracks (items (gs_members g)) (items (rb_members (gs_binding g)))"

definition replacements :: "string \<Rightarrow> member_resume list \<Rightarrow> nat" where
  "replacements member ss = length (filter (\<lambda>s. sp_instance (rs_stop s) = member) ss)"

definition counted :: "member_resume list \<Rightarrow> generation_set \<Rightarrow> bool" where
  "counted ss g \<longleftrightarrow> (\<forall>m\<in>set (items (gs_members g)). unat (mg_generation m) = Suc (replacements (mg_instance m) ss))"

lemma tracks_instances: "list_all2 tracks ms rs \<Longrightarrow> map mg_instance ms = map rm_instance rs"
  by (induction rule: list_all2_induct) (auto simp: tracks_def)

lemma aligned_instances: "aligned g \<Longrightarrow> map mg_instance (items (gs_members g)) = map rm_instance (items (rb_members (gs_binding g)))"
  by (simp add: aligned_def tracks_instances)

lemma aligned_distinct: "aligned g \<Longrightarrow> binding_ok (gs_binding g) plan \<Longrightarrow> distinct (map mg_instance (items (gs_members g)))"
  by (simp add: aligned_instances binding_distinct)

lemma slice_update [simp]: "items (slice_map (\<lambda>xs. xs[k := f xs]) s) = (items s)[k := f (items s)]"
  by (cases s) auto

lemma replaced_aligned: "replaced plan g s h \<Longrightarrow> aligned g \<Longrightarrow> aligned h"
proof (erule replacedE)
  fix k
  assume a: "aligned g" and k: "k < length (items (gs_members g))"
    and h: "h = \<lparr>gs_binding = replace_container (rs_container s) k (gs_binding g),
      gs_members = slice_map (\<lambda>ms. ms[k := next_generation s (ms ! k)]) (gs_members g)\<rparr>"
  from a k have "tracks (items (gs_members g) ! k) (items (rb_members (gs_binding g)) ! k)"
    by (auto simp: aligned_def intro: list_all2_nthD)
  then have "tracks (next_generation s (items (gs_members g) ! k))
      ((items (rb_members (gs_binding g)) ! k)\<lparr>rm_container := rs_container s\<rparr>)"
    by (simp add: tracks_def next_generation_def)
  with a show "aligned h" by (simp add: aligned_def h replace_container_def list_all2_update_cong)
qed

lemma unat_next:
  assumes "g \<noteq> max_uint64"
  shows "unat (g + 1) = Suc (unat g)"
proof -
  have "unat g < 2 ^ 64" using unsigned_less [of g] by simp
  moreover have "unat g \<noteq> 2 ^ 64 - 1" using assms by (auto simp: word_unat_eq_iff max_uint64_def)
  ultimately show ?thesis by (simp add: unat_word_ariths take_bit_nat_eq_self)
qed

lemma replaced_counted:
  assumes "replaced plan g s h" "aligned g" "binding_ok (gs_binding g) plan" "counted ss g"
  shows "counted (ss @ [s]) h"
  using assms(1)
proof (rule replacedE)
  fix k
  define ms where "ms = items (gs_members g)"
  assume s: "resume_ok plan s" and k: "k < length (items (gs_members g))" and c: "continues s (items (gs_members g) ! k)"
    and h: "h = \<lparr>gs_binding = replace_container (rs_container s) k (gs_binding g),
      gs_members = slice_map (\<lambda>ms. ms[k := next_generation s (ms ! k)]) (gs_members g)\<rparr>"
  from c have m: "mg_instance (ms ! k) = sp_instance (rs_stop s)" "mg_generation (ms ! k) = rs_previous s"
    by (auto simp: continues_def Let_def ms_def)
  have u: "unat (rs_previous s + 1) = Suc (unat (rs_previous s))"
    using resume_parts [OF s] by (simp add: unat_next)
  have i: "items (gs_members h) = ms[k := next_generation s (ms ! k)]" by (simp add: h ms_def)
  have d: "mg_instance (ms ! j) \<noteq> mg_instance (ms ! k)" if "j < length ms" "j \<noteq> k" for j
    using nth_eq_iff_index_eq [OF aligned_distinct [OF assms(2,3)], of j k] that k by (simp add: ms_def)
  have old: "unat (mg_generation (ms ! j)) = Suc (replacements (mg_instance (ms ! j)) ss)" if "j < length ms" for j
    using assms(4) that by (simp add: counted_def ms_def)
  have "unat (mg_generation (items (gs_members h) ! j)) = Suc (replacements (mg_instance (items (gs_members h) ! j)) (ss @ [s]))"
    if j: "j < length ms" for j
  proof (cases "j = k")
    case True
    with j old [OF j] u m show ?thesis by (simp add: i next_generation_def replacements_def)
  next
    case False
    with old [OF j] d [OF j] m show ?thesis by (simp add: i replacements_def)
  qed
  then show "counted (ss @ [s]) h" by (auto simp: counted_def in_set_conv_nth i)
qed

lemma replaced_ok: "replaced plan g s h \<Longrightarrow> binding_ok (gs_binding h) plan"
  by (auto elim: replacedE)

lemma causal_invariant:
  "causal plan g ss h \<Longrightarrow> binding_ok (gs_binding g) plan \<Longrightarrow> aligned g \<Longrightarrow> counted [] g
     \<Longrightarrow> binding_ok (gs_binding h) plan \<and> aligned h \<and> counted ss h"
  by (induction rule: causal.induct) (auto dest: replaced_ok replaced_aligned replaced_counted)

lemma boot_aligned:
  "boot_generations plan ls ms = Some gs \<Longrightarrow>
     list_all2 tracks gs ms \<and> list_all (\<lambda>m. mg_generation m = 1) gs"
  by (induction ms arbitrary: gs) (auto simp: boot_generation_def tracks_def split: option.splits)

lemma initial_invariant:
  assumes "initial_generations plan ls g"
  shows "initial_runtime_binding plan ls = Inr (gs_binding g) \<and> binding_ok (gs_binding g) plan \<and> aligned g \<and> counted [] g"
proof -
  from assms obtain b gs where b: "initial_runtime_binding plan ls = Inr b"
    "boot_generations plan ls (items (rb_members b)) = Some gs" "g = \<lparr>gs_binding = b, gs_members = slice_append NilSlice gs\<rparr>"
    by (auto simp: initial_generations_def initial_resolution_def split: sum.splits option.splits)
  from boot_aligned [OF b(2)] show ?thesis using b initial_binding_ok [OF b(1)]
    by (auto simp: aligned_def counted_def replacements_def list_all_iff)
qed

lemma resolve_meets:
  assumes "resolve_generations plan ls rs = Inr g"
  shows "binding_ok (gs_binding g) plan \<and> aligned g \<and> counted rs g
    \<and> (\<exists>g0 order. initial_generations plan ls g0 \<and> mset order = mset rs \<and> causal plan g0 order g)"
proof -
  from resolve_causal [OF assms] obtain g0 order where c: "initial_generations plan ls g0" "mset order = mset rs"
    "causal plan g0 order g" by blast
  have "replacements member order = replacements member rs" for member
    using c(2) unfolding replacements_def by (metis mset_filter size_mset)
  then have "counted order g = counted rs g" by (simp add: counted_def)
  then show ?thesis using causal_invariant [OF c(3)] initial_invariant [OF c(1)] c by blast
qed

text \<open>
  C36. The current creations of a project form one causal history: every replacement continues the
  creation it replaced, under the binding of that moment; the binding stays valid and lists each
  member's container, and a member's generation is one more than its number of replacements.
\<close>

theorem resolve_sound:
  assumes "resolve_generations plan ls rs = Inr g"
  shows "binding_ok (gs_binding g) plan \<and> aligned g \<and> counted rs g
    \<and> (\<exists>g0 order. initial_generations plan ls g0 \<and> mset order = mset rs \<and> causal plan g0 order g)"
  by (rule resolve_meets [OF assms])

section \<open>A concrete replacement\<close>

definition sample_exit :: stop_exit where
  "sample_exit = \<lparr>se_operation = ''exit'', se_stop = sample_stop, se_observation = sample_exited 112\<rparr>"

definition sample_absence :: "int \<Rightarrow> member_absence" where
  "sample_absence n = \<lparr>ma_runtime = sample_seen n [], ma_storage = sample_location, ma_captured = at_second n\<rparr>"

definition sample_retirement :: member_retirement where
  "sample_retirement = \<lparr>re_operation = ''retire'', re_phase = ''absent'', re_exit = sample_exit,
     re_before = Some (sample_exited 114), re_after = Some (sample_absence 116)\<rparr>"

definition sample_resumed :: "int \<Rightarrow> bool \<Rightarrow> resume_observation" where
  "sample_resumed n running = \<lparr>us_runtime = sample_seen n [(sample_member_seen running)
       \<lparr>ro_resource := \<lparr>ri_id = hex64 CHR ''0'', ri_contract = hex64 CHR ''1''\<rparr>\<rparr>],
     us_storage = sample_location, us_started = (if running then at_second 125 else zero_time),
     us_captured = at_second n\<rparr>"

definition sample_resume :: member_resume where
  "sample_resume = \<lparr>rs_retirement = sample_retirement, rs_previous = 1, rs_operation = ''resume'',
     rs_phase = ''running'', rs_container = \<lparr>ri_id = hex64 CHR ''0'', ri_contract = hex64 CHR ''1''\<rparr>,
     rs_before = Some (sample_absence 118), rs_created = Some (sample_resumed 120 False),
     rs_after = Some (sample_resumed 130 True)\<rparr>"

lemma sample_ids2: "valid_id ''exit''" "valid_id ''retire''" "valid_id ''resume''"
  by (simp_all add: valid_id_def valid_id_char_def is_lower_def char_in_def less_eq_char_def)

lemma sample_exited_times [simp]: "so_captured (sample_exited n) = at_second n"
  "ob_time (so_runtime (sample_exited n)) = at_second n"
  by (simp_all add: sample_exited_def sample_seen_def)

lemma sample_absence_sel [simp]: "ma_captured (sample_absence n) = at_second n"
  "ob_time (ma_runtime (sample_absence n)) = at_second n" "ma_storage (sample_absence n) = sample_location"
  by (simp_all add: sample_absence_def sample_seen_def)

lemma sample_resumed_sel [simp]: "us_captured (sample_resumed n running) = at_second n"
  "ob_time (us_runtime (sample_resumed n running)) = at_second n" "us_storage (sample_resumed n running) = sample_location"
  "us_started (sample_resumed n True) = at_second 125" "us_started (sample_resumed n False) = zero_time"
  by (simp_all add: sample_resumed_def sample_seen_def)

lemma sample_stop_sel [simp]: "sp_phase sample_stop = ''stopped''" "sp_before sample_stop = Some sample_running"
  "sp_after sample_stop = Some (sample_exited 110)" "sp_instance sample_stop = ''zod''"
  "sp_storage sample_stop = sample_location" "sp_binding sample_stop = sample_binding"
  "sp_operation sample_stop = ''stop''" "sp_launch sample_stop = ''launch''" "sp_readiness sample_stop = ''ready''"
  by (simp_all add: sample_stop_def)

lemma sample_reobserved [simp]: "reobserved (sample_exited m) (sample_exited n)"
  by (simp add: reobserved_def sample_exited_def sample_seen_def)

lemma sample_exit_ok [simp]: "stop_exit_validate sample_exit sample_plan = None"
proof -
  have "member_stop_validate sample_stop sample_plan = None"
    using sample_stop_ok by (simp add: member_stop_ok_def)
  then show ?thesis using sample_exited_ok [of 112]
    by (simp add: stop_exit_validate_def Let_def sample_exit_def stop_exit_operation_def sample_ids2 before_def)
qed

lemma sample_exit_clean [simp]: "stop_exit_clean sample_exit"
  by (simp add: stop_exit_clean_def sample_exit_def sample_exited_def is_zero_def)

lemma sample_absent_only [simp]: "absent_only ''zod'' (so_runtime (sample_exited m)) (ma_runtime (sample_absence n))"
  by (simp add: absent_only_def sample_exited_def sample_absence_def sample_seen_def nil_if_empty_def
      sample_member_seen_def)

lemma sample_retirement_absent:
  "114 \<le> n \<Longrightarrow> retirement_check_absent sample_retirement (sample_absence n) (at_second n) = None"
  by (simp add: retirement_check_absent_def Let_def sample_retirement_def sample_exit_def is_zero_def in_window_iff
      before_def second_def)

lemma sample_retirement_ok [simp]: "retirement_ok sample_plan sample_retirement"
proof -
  have "retirement_check_before sample_plan sample_retirement (sample_exited 114) (at_second 114) = None"
    using sample_exited_ok [of 114]
    by (simp add: retirement_check_before_def Let_def sample_retirement_def sample_exit_def before_def)
  then show ?thesis using sample_retirement_absent [of 116]
    unfolding retirement_ok_def retirement_validate_def Let_def
    by (simp add: sample_retirement_def sample_ids2) (simp add: sample_exit_def)
qed

lemma sample_same_absence [simp]: "same_absence (sample_absence m) (sample_absence n)"
  by (simp add: same_absence_def sample_absence_def sample_seen_def nil_if_empty_def)

lemma sample_with_target [simp]:
  "with_target (ma_runtime (sample_absence m)) (resume_target sample_resume running) (us_runtime (sample_resumed n running))"
  by (simp add: with_target_def sample_absence_def sample_resumed_def sample_seen_def resume_target_def Let_def
      sample_member_seen_def slice_append_def)
    (simp add: sample_resume_def sample_retirement_def sample_exit_def sample_binding_def)

lemma sample_resume_sel [simp]: "rs_retirement sample_resume = sample_retirement" "rs_phase sample_resume = ''running''"
  "rs_operation sample_resume = ''resume''" "rs_previous sample_resume = 1" "rs_stop sample_resume = sample_stop"
  "rs_before sample_resume = Some (sample_absence 118)" "rs_created sample_resume = Some (sample_resumed 120 False)"
  "rs_after sample_resume = Some (sample_resumed 130 True)"
  "rs_container sample_resume = \<lparr>ri_id = hex64 CHR ''0'', ri_contract = hex64 CHR ''1''\<rparr>"
  by (simp_all add: sample_resume_def sample_retirement_def sample_exit_def)

lemma sample_resume_ok [simp]: "resume_ok sample_plan sample_resume"
proof -
  have a: "retirement_validate sample_retirement sample_plan = None" "re_phase sample_retirement = ''absent''"
    "re_after sample_retirement = Some (sample_absence 116)" "re_operation sample_retirement = ''retire''"
    "se_operation (re_exit sample_retirement) = ''exit''" "se_stop (re_exit sample_retirement) = sample_stop"
    using sample_retirement_ok
    by (simp_all add: retirement_ok_def) (simp_all add: sample_retirement_def sample_exit_def)
  have "resume_check_before sample_resume (sample_absence 118) (at_second 118) = None"
    using sample_retirement_absent [of 118] by (simp add: resume_check_before_def Let_def a before_def)
  moreover have "resume_check sample_resume (sample_resumed 120 False) (at_second 120) False = None"
    by (simp add: resume_check_def Let_def is_zero_def in_window_iff before_def second_def zero_time_def a)
  moreover have "resume_check sample_resume (sample_resumed 130 True) (at_second 130) True = None"
    by (simp add: resume_check_def Let_def is_zero_def in_window_iff before_def second_def after_def time_add_def a)
  moreover have "resume_container_ok sample_resume"
    by (simp add: resume_container_ok_def Let_def valid_resource_def a)
      (simp add: sample_binding_def)
  ultimately show ?thesis
    by (simp add: resume_ok_def resume_validate_def Let_def a sample_ids2 resume_stages_def max_uint64_def)
qed

text \<open>The replacement of the only member is resolved to its second generation.\<close>

definition sample_generation :: generation_set where
  "sample_generation = \<lparr>
     gs_binding = replace_container \<lparr>ri_id = hex64 CHR ''0'', ri_contract = hex64 CHR ''1''\<rparr> 0 sample_binding,
     gs_members = Slice [\<lparr>mg_instance = ''zod'', mg_runtime = replicate 32 CHR ''e'', mg_generation = 2,
       mg_operation = ''resume'', mg_mode = ''resume'',
       mg_container = \<lparr>ri_id = hex64 CHR ''0'', ri_contract = hex64 CHR ''1''\<rparr>, mg_storage = sample_location\<rparr>]\<rparr>"

lemma sample_binding_replaced [simp]: "binding_ok (gs_binding sample_generation) sample_plan"
  using sample_binding_ok
  by (simp add: binding_ok_def sample_generation_def replace_container_def sample_binding_def valid_resource_def)

lemma sample_resolved: "resolve_generations sample_plan [sample_launch] [sample_resume] = Inr sample_generation"
proof -
  define v where "v = \<lparr>rv_out = \<lparr>gs_binding = sample_binding, gs_members = Slice [boot_generation
       (hd (items (rb_members sample_binding))) sample_launch]\<rparr>, rv_through = [], rv_applied = [],
     rv_resources = [hex64 CHR ''a'', hex64 CHR ''c'', hex64 CHR ''e''],
     rv_operations = initial_operations [sample_launch]\<rparr>"
  have m: "rb_members sample_binding = Slice [\<lparr>rm_instance = ''zod'', rm_runtime = replicate 32 CHR ''e'',
        rm_container = \<lparr>ri_id = hex64 CHR ''e'', ri_contract = hex64 CHR ''f''\<rparr>\<rparr>]"
    "ri_id (rb_bridge sample_binding) = hex64 CHR ''a''" "ri_id (rb_anchor sample_binding) = hex64 CHR ''c''"
    by (simp_all add: sample_binding_def)
  have l: "initial_member sample_plan [sample_launch] ''zod'' = Some (sample_launch, sample_member)"
    by (simp add: initial_member_def) (simp add: sample_launch_def sample_storage_def)
  have i: "initial_resolution sample_plan [sample_launch] = Some v"
    by (simp add: initial_resolution_def sample_binding_initial m l slice_append_def v_def)
  have o: "set (initial_operations [sample_launch]) = {''launch'', ''store'', ''start'', ''prepare''}"
    by (simp add: initial_operations_def)
      (simp add: sample_launch_def sample_storage_def sample_anchor_def sample_preparation_def)
  have g: "boot_generation (hd (items (rb_members sample_binding))) sample_launch =
     \<lparr>mg_instance = ''zod'', mg_runtime = replicate 32 CHR ''e'', mg_generation = 1, mg_operation = ''launch'',
      mg_mode = ''boot'', mg_container = \<lparr>ri_id = hex64 CHR ''e'', ri_contract = hex64 CHR ''f''\<rparr>,
      mg_storage = \<lparr>lo_path = ''fakeships/zod/zod'', lo_identity = no_pier, lo_mount = sample_directory, lo_uncertain = False\<rparr>\<rparr>"
    by (simp add: m boot_generation_def) (simp add: sample_launch_def sample_storage_def)
  have stop: "se_stop (re_exit sample_retirement) = sample_stop"
    by (simp add: sample_retirement_def sample_exit_def)
  have c: "candidates [sample_resume] v = [(0, 0)]"
    by (simp add: candidates_def v_def continues_def g stop) (simp add: sample_location_def)
  define w where "w = apply_resume 0 0 sample_resume v"
  have "rv_out w = sample_generation"
    by (simp add: w_def apply_resume_def v_def g next_generation_def sample_generation_def stop)
  moreover from this have "resolve_round sample_plan [sample_resume] v = Some w"
    using sample_binding_replaced unfolding round_iff w_def c by (simp add: v_def o)
  ultimately show ?thesis
    by (simp add: resolve_generations_def resolve_history_def i resumes_admissible_iff v_def [symmetric])
      (simp add: v_def o)
qed

theorem resolve_sound_witness:
  "binding_ok (gs_binding sample_generation) sample_plan \<and> aligned sample_generation \<and> counted [sample_resume] sample_generation
    \<and> (\<exists>g0 order. initial_generations sample_plan [sample_launch] g0 \<and> mset order = mset [sample_resume]
         \<and> causal sample_plan g0 order sample_generation)"
  by (rule resolve_sound [OF sample_resolved])

theorem resolve_order_witness:
  "resolve_generations sample_plan [sample_launch] [sample_resume, sample_resume\<lparr>rs_phase := ''created''\<rparr>] =
   resolve_generations sample_plan [sample_launch] [sample_resume\<lparr>rs_phase := ''created''\<rparr>, sample_resume]"
  by (rule resolve_order) simp

end
