(* ===== verification/Evidence.thy ===== *)
theory Evidence
  imports Generations
begin

text \<open>
  \<open>internal/projectnetwork/evidence_equal.go\<close>: equality of persisted evidence. It walks two values
  of one type and differs from HOL equality (\<open>reflect.DeepEqual\<close>) only at instants, which it
  compares as \<open>UTC()\<close> values: the location and the monotonic reading are dropped. For each type the
  code compares, \<open>plain_\<dots>\<close> drops them from every instant of a value, and two values are equal
  evidence when their plain forms are equal.
\<close>

definition plain_time :: "gotime \<Rightarrow> gotime" where
  "plain_time t = t\<lparr>meta := 0\<rparr>"

definition plain_observation :: "observation \<Rightarrow> observation" where
  "plain_observation x = x\<lparr>ob_time := plain_time (ob_time x)\<rparr>"

definition plain_stop_observation :: "stop_observation \<Rightarrow> stop_observation" where
  "plain_stop_observation x = x\<lparr>so_runtime := plain_observation (so_runtime x), so_started := plain_time (so_started x),
     so_finished := plain_time (so_finished x), so_captured := plain_time (so_captured x)\<rparr>"

definition plain_stop :: "member_stop \<Rightarrow> member_stop" where
  "plain_stop s = s\<lparr>sp_before := map_option plain_stop_observation (sp_before s),
     sp_after := map_option plain_stop_observation (sp_after s)\<rparr>"

definition plain_exit :: "stop_exit \<Rightarrow> stop_exit" where
  "plain_exit e = e\<lparr>se_stop := plain_stop (se_stop e), se_observation := plain_stop_observation (se_observation e)\<rparr>"

definition plain_absence :: "member_absence \<Rightarrow> member_absence" where
  "plain_absence x = x\<lparr>ma_runtime := plain_observation (ma_runtime x), ma_captured := plain_time (ma_captured x)\<rparr>"

definition plain_retirement :: "member_retirement \<Rightarrow> member_retirement" where
  "plain_retirement s = s\<lparr>re_exit := plain_exit (re_exit s), re_before := map_option plain_stop_observation (re_before s),
     re_after := map_option plain_absence (re_after s)\<rparr>"

definition plain_resume_observation :: "resume_observation \<Rightarrow> resume_observation" where
  "plain_resume_observation x = x\<lparr>us_runtime := plain_observation (us_runtime x),
     us_started := plain_time (us_started x), us_captured := plain_time (us_captured x)\<rparr>"

definition plain_resume :: "member_resume \<Rightarrow> member_resume" where
  "plain_resume s = s\<lparr>rs_retirement := plain_retirement (rs_retirement s),
     rs_before := map_option plain_absence (rs_before s),
     rs_created := map_option plain_resume_observation (rs_created s),
     rs_after := map_option plain_resume_observation (rs_after s)\<rparr>"

text \<open>\<open>equalEvidence(a, b)\<close> for a type with the plain form \<open>p\<close>.\<close>

definition equal_evidence :: "('a \<Rightarrow> 'b) \<Rightarrow> 'a \<Rightarrow> 'a \<Rightarrow> bool" where
  "equal_evidence p a b \<longleftrightarrow> p a = p b"

lemma equal_evidence_refl [simp]: "equal_evidence p a a"
  by (simp add: equal_evidence_def)

lemma plain_time_iff: "plain_time t = plain_time u \<longleftrightarrow> inst t = inst u"
  by (cases t; cases u) (simp add: plain_time_def)

lemma plain_time_sel [simp]: "inst (plain_time t) = inst t"
  by (simp add: plain_time_def)

end
