(* ===== verification/MemberContext.thy ===== *)
theory MemberContext
  imports Evidence
begin

text \<open>
  \<open>internal/projectnetwork/member_context.go\<close>, \<open>member_current_readiness.go\<close> and
  \<open>member_current_stop.go\<close>: the retained ownership of a member under its current creation, the
  readiness evidence collected against it, and the stop intent bound to that evidence.
\<close>

section \<open>The context\<close>

record member_context =
  mc_member :: member_generation
  mc_binding :: runtime_binding
  mc_storage :: location
  mc_known :: gotime
  mc_not_before :: gotime

text \<open>The receipts \<open>After\<close> are present in the histories this is called with.\<close>

definition latest_evidence :: "gotime \<Rightarrow> member_resume list \<Rightarrow> gotime" where
  "latest_evidence t resumes =
     foldl (\<lambda>t s. let c = us_captured (the (rs_after s)) in if after c t then c else t) t resumes"

definition started_at :: "string \<Rightarrow> member_resume list \<Rightarrow> gotime" where
  "started_at operation resumes = foldl (\<lambda>t s. case rs_after s of None \<Rightarrow> t
     | Some x \<Rightarrow> if rs_operation s = operation then us_started x else t) zero_time resumes"

definition select_from_generations ::
  "project_plan \<Rightarrow> member_launch list \<Rightarrow> member_resume list \<Rightarrow> member_readiness \<Rightarrow> generation_set
     \<Rightarrow> gerr + member_context" where
  "select_from_generations plan launches resumes original current =
     (if member_readiness_validate plan launches original \<noteq> None
      then Inl (Err ''current context requires valid original readiness'')
      else case find (\<lambda>m. mg_instance m = rd_instance original) (items (gs_members current)) of
        None \<Rightarrow> Inl (Err ''member absent from retained current context'')
      | Some m \<Rightarrow>
        if lo_path (mg_storage m) \<noteq> lo_path (rd_storage original) \<or> lo_mount (mg_storage m) \<noteq> lo_mount (rd_storage original)
        then Inl (Err ''current creator changed original pier ownership'')
        else let c = \<lparr>mc_member = m, mc_binding = gs_binding current, mc_storage = rd_storage original,
                      mc_known = zero_time, mc_not_before = latest_evidence (rd_captured original) resumes\<rparr>
        in if mg_mode m = ''boot'' then
             (if mg_generation m \<noteq> 1 \<or> mg_operation m \<noteq> rd_launch original
              then Inl (Err ''initial creator differs from original readiness'') else Inr c)
           else if mg_mode m = ''resume'' then
             (if mg_storage m \<noteq> rd_storage original
              then Inl (Err ''replacement changed initialized pier identity'')
              else let c = c\<lparr>mc_known := started_at (mg_operation m) resumes\<rparr>
              in if is_zero (mc_known c) then Inl (Err ''replacement process evidence missing'') else Inr c)
           else Inl (Err ''unknown member creator''))"

definition select_member_context ::
  "project_plan \<Rightarrow> member_launch list \<Rightarrow> member_resume list \<Rightarrow> member_readiness \<Rightarrow> gerr + member_context" where
  "select_member_context plan launches resumes original =
     (case resolve_generations plan launches resumes of Inl e \<Rightarrow> Inl e
      | Inr current \<Rightarrow> select_from_generations plan launches resumes original current)"

section \<open>Current readiness\<close>

record current_readiness =
  cu_instance :: string
  cu_creator :: string
  cu_generation :: u64
  cu_binding :: runtime_binding
  cu_storage :: location
  cu_ship :: string
  cu_endpoint :: string
  cu_before :: stop_observation
  cu_after :: stop_observation
  cu_captured :: gotime

definition current_endpoint :: "project_plan \<Rightarrow> string \<Rightarrow> (project_member \<times> string) option" where
  "current_endpoint plan member =
     map_option (\<lambda>m. (m, host_endpoint m)) (find (\<lambda>m. mr_instance m = member) (plan_members plan))"

text \<open>The stop the code builds to reuse its check; only these fields are read by a check before exit.\<close>

definition context_stop :: "member_context \<Rightarrow> member_stop" where
  "context_stop c = \<lparr>sp_operation = '''', sp_launch = '''', sp_readiness = '''', sp_instance = mg_instance (mc_member c),
     sp_binding = mc_binding c, sp_storage = mc_storage c, sp_phase = '''', sp_before = None, sp_after = None\<rparr>"

definition check_current_readiness ::
  "project_plan \<Rightarrow> member_context \<Rightarrow> stop_observation \<Rightarrow> gotime \<Rightarrow> gerr option" where
  "check_current_readiness plan c x now =
     (if member_stop_check plan (context_stop c) x False now \<noteq> None \<or> before (so_captured x) (mc_not_before c)
         \<or> before (ob_time (so_runtime x)) (mc_not_before c)
         \<or> \<not> is_zero (mc_known c) \<and> \<not> same_instant (so_started x) (mc_known c)
      then Some (Err ''current readiness lost exact process, project or pier'') else None)"

definition current_validate_context :: "project_plan \<Rightarrow> member_context \<Rightarrow> current_readiness \<Rightarrow> gerr option" where
  "current_validate_context plan c r =
     (let fail = Some (Err ''invalid current member readiness evidence'')
      in if is_zero (cu_captured r) \<or> cu_instance r \<noteq> mg_instance (mc_member c)
            \<or> cu_creator r \<noteq> mg_operation (mc_member c) \<or> cu_generation r \<noteq> mg_generation (mc_member c)
            \<or> \<not> equal_evidence id (cu_binding r) (mc_binding c) \<or> cu_storage r \<noteq> mc_storage c then fail
      else case current_endpoint plan (cu_instance r) of None \<Rightarrow> fail | Some (m, endpoint) \<Rightarrow>
        if cu_ship r \<noteq> mr_ship m \<or> cu_endpoint r \<noteq> endpoint then fail
        else if \<not> list_all (\<lambda>x. check_current_readiness plan c x (cu_captured r) = None) [cu_before r, cu_after r] then fail
        else if before (so_captured (cu_after r)) (so_captured (cu_before r))
                \<or> before (ob_time (so_runtime (cu_after r))) (ob_time (so_runtime (cu_before r))) then fail
        else if \<not> equal_evidence plain_stop_observation
               ((cu_before r)\<lparr>so_captured := so_captured (cu_after r), so_runtime := (so_runtime (cu_before r))
                  \<lparr>ob_time := ob_time (so_runtime (cu_after r))\<rparr>\<rparr>) (cu_after r) then fail
        else None)"

definition current_validate ::
  "project_plan \<Rightarrow> member_launch list \<Rightarrow> member_resume list \<Rightarrow> member_readiness \<Rightarrow> current_readiness \<Rightarrow> gerr option" where
  "current_validate plan launches resumes original r =
     (case select_member_context plan launches resumes original of Inl e \<Rightarrow> Some e
      | Inr c \<Rightarrow> current_validate_context plan c r)"

record 'w current_driver =
  cd_verify :: "string \<Rightarrow> 'w \<Rightarrow> gerr option \<times> 'w"
  cd_inspect :: "member_context \<Rightarrow> 'w \<Rightarrow> (gerr + stop_observation) \<times> 'w"
  cd_host :: "string \<Rightarrow> 'w \<Rightarrow> (gerr + string) \<times> 'w"

definition collect_current_context ::
  "('w \<Rightarrow> gerr option \<times> 'w) \<Rightarrow> project_plan \<Rightarrow> member_context \<Rightarrow> 'w current_driver option
     \<Rightarrow> ('w \<Rightarrow> gotime \<times> 'w) option \<Rightarrow> ('s, 'w, current_readiness) prog" where
  "collect_current_context ctx plan c driver clock =
     (let refuse = Err ''current member readiness could not be established''
      in case (driver, clock, current_endpoint plan (mg_instance (mc_member c))) of
        (Some d, Some now, Some (m, endpoint)) \<Rightarrow>
         (let verify = stillP refuse ctx (\<lambda>_. cd_verify d (rb_engine (mc_binding c))) in
          thenP verify
          (bindP (attemptP refuse (\<lambda>_. cd_inspect d c)) (\<lambda>before.
           thenP verify
          (bindP (clockP now) (\<lambda>t.
           thenP (needP refuse (check_current_readiness plan c before t = None))
          (bindP (attemptP refuse (\<lambda>_. cd_host d endpoint)) (\<lambda>ship.
           thenP (needP refuse (ship = mr_ship m))
          (thenP verify
          (bindP (attemptP refuse (\<lambda>_. cd_inspect d c)) (\<lambda>after.
           thenP verify
          (bindP (clockP now) (\<lambda>captured.
           let r = \<lparr>cu_instance = mr_instance m, cu_creator = mg_operation (mc_member c),
                    cu_generation = mg_generation (mc_member c), cu_binding = mc_binding c, cu_storage = mc_storage c,
                    cu_ship = ship, cu_endpoint = endpoint, cu_before = before, cu_after = after,
                    cu_captured = captured\<rparr>
           in thenP (bindP (readP (\<lambda>_. ctx)) (\<lambda>e. needP refuse (e = None)))
             (thenP (needP refuse (current_validate_context plan c r = None)) (retP r))))))))))))))
      | _ \<Rightarrow> failP refuse)"

definition collect_current_readiness ::
  "('w \<Rightarrow> gerr option \<times> 'w) \<Rightarrow> project_plan \<Rightarrow> member_launch list \<Rightarrow> member_resume list \<Rightarrow> member_readiness
     \<Rightarrow> 'w current_driver option \<Rightarrow> ('w \<Rightarrow> gotime \<times> 'w) option \<Rightarrow> ('s, 'w, current_readiness) prog" where
  "collect_current_readiness ctx plan launches resumes original driver clock =
     (case select_member_context plan launches resumes original of Inl e \<Rightarrow> failP e
      | Inr c \<Rightarrow> collect_current_context ctx plan c driver clock)"

section \<open>Stopping under the current context\<close>

definition current_validate_historical ::
  "project_plan \<Rightarrow> member_launch list \<Rightarrow> member_resume list \<Rightarrow> member_readiness \<Rightarrow> current_readiness \<Rightarrow> gerr option" where
  "current_validate_historical plan launches resumes original r =
     (case resumes_at_binding plan launches resumes (cu_binding r) of Inl e \<Rightarrow> Some e
      | Inr earlier \<Rightarrow> current_validate plan launches earlier original r)"

definition current_stop_of :: "project_plan \<Rightarrow> current_readiness \<Rightarrow> string \<Rightarrow> string \<Rightarrow> gerr + member_stop" where
  "current_stop_of plan ready readiness operation =
     (let s = \<lparr>sp_operation = operation, sp_launch = cu_creator ready, sp_readiness = readiness,
               sp_instance = cu_instance ready, sp_binding = cu_binding ready, sp_storage = cu_storage ready,
               sp_phase = ''planned'', sp_before = None, sp_after = None\<rparr>
      in case member_stop_validate s plan of Some e \<Rightarrow> Inl e | None \<Rightarrow> Inr s)"

definition new_current_member_stop ::
  "project_plan \<Rightarrow> member_launch list \<Rightarrow> member_resume list \<Rightarrow> member_readiness \<Rightarrow> current_readiness \<Rightarrow> string \<Rightarrow> string
     \<Rightarrow> gerr + member_stop" where
  "new_current_member_stop plan launches resumes original ready readiness operation =
     (if current_validate plan launches resumes original ready \<noteq> None
      then Inl (Err ''member Stop requires fresh current-context readiness'')
      else current_stop_of plan ready readiness operation)"

definition validate_current_member_stop ::
  "project_plan \<Rightarrow> member_launch list \<Rightarrow> member_resume list \<Rightarrow> member_readiness \<Rightarrow> current_readiness \<Rightarrow> member_stop
     \<Rightarrow> gerr option" where
  "validate_current_member_stop plan launches resumes original ready s =
     (let fail = Some (Err ''current-context Stop lost its readiness or process binding'')
      in if member_stop_validate s plan \<noteq> None \<or> current_validate_historical plan launches resumes original ready \<noteq> None
         then fail
      else case resumes_at_binding plan launches resumes (cu_binding ready) of Inl _ \<Rightarrow> fail | Inr earlier \<Rightarrow>
        case new_current_member_stop plan launches earlier original ready (sp_readiness s) (sp_operation s) of
          Inl _ \<Rightarrow> fail
        | Inr expected \<Rightarrow>
          if \<not> equal_evidence plain_stop expected (s\<lparr>sp_phase := ''planned'', sp_before := None, sp_after := None\<rparr>) then fail
          else case sp_before s of None \<Rightarrow> None | Some b \<Rightarrow>
            if \<not> same_instant (so_started b) (so_started (cu_after ready))
               \<or> before (so_captured b) (so_captured (cu_after ready))
               \<or> before (ob_time (so_runtime b)) (ob_time (so_runtime (cu_after ready))) then fail else None)"

section \<open>The order of the receipts\<close>

lemma latest_evidence_inst:
  "inst (latest_evidence t rs) = foldl max (inst t) (map (\<lambda>s. inst (us_captured (the (rs_after s)))) rs)"
  by (induction rs arbitrary: t) (simp_all add: latest_evidence_def Let_def after_def max_def)

lemma foldl_max_perm:
  assumes "mset xs = mset ys"
  shows "foldl max (a :: int) xs = foldl max a ys"
proof -
  have "foldl max a xs = Max (set (a # xs))" for xs
    by (simp add: foldl_conv_fold max.commute Max.set_eq_fold del: set_simps)
  then show ?thesis using mset_eq_setD [OF assms] by simp
qed

lemma latest_evidence_perm: "mset rs = mset rs' \<Longrightarrow> inst (latest_evidence t rs) = inst (latest_evidence t rs')"
  unfolding latest_evidence_inst by (intro foldl_max_perm) simp

lemma started_at_unique:
  assumes "distinct (map rs_operation rs)" "s \<in> set rs" "rs_operation s = i" "rs_after s = Some x"
  shows "started_at i rs = us_started x"
proof -
  have other: "started_at i rs = z" if "i \<notin> set (map rs_operation rs)" "z = zero_time" for rs z
    using that by (induction rs rule: rev_induct) (auto simp: started_at_def split: option.splits)
  show ?thesis using assms
  proof (induction rs rule: rev_induct)
    case (snoc r rs)
    then show ?case
      by (cases "r = s") (auto simp: started_at_def split: option.splits)
  qed simp
qed

lemma started_at_none:
  assumes "\<forall>s\<in>set rs. rs_operation s \<noteq> i"
  shows "started_at i rs = zero_time"
  using assms by (induction rs rule: rev_induct) (auto simp: started_at_def split: option.splits)

lemma started_at_perm:
  assumes "mset rs = mset rs'" "distinct (map rs_operation rs)" "\<forall>s\<in>set rs. rs_after s \<noteq> None"
  shows "started_at i rs = started_at i rs'"
proof (cases "\<exists>s\<in>set rs. rs_operation s = i")
  case True
  then obtain s x where s: "s \<in> set rs" "rs_operation s = i" "rs_after s = Some x" using assms(3) by auto
  have "distinct (map rs_operation rs')" using assms(1,2) by (metis mset_eq_imp_distinct_iff mset_map)
  with s started_at_unique [OF assms(2) s] started_at_unique [of rs' s i x] mset_eq_setD [OF assms(1)]
  show ?thesis by simp
next
  case False
  then show ?thesis using started_at_none [of rs i] started_at_none [of rs' i] mset_eq_setD [OF assms(1)] by auto
qed

text \<open>Contexts that agree up to the metadata of the time they bound.\<close>

definition same_context :: "member_context \<Rightarrow> member_context \<Rightarrow> bool" where
  "same_context c d \<longleftrightarrow> mc_member c = mc_member d \<and> mc_binding c = mc_binding d \<and> mc_storage c = mc_storage d
     \<and> mc_known c = mc_known d \<and> inst (mc_not_before c) = inst (mc_not_before d)"

lemma resolve_admissible:
  assumes "resolve_generations plan ls rs = Inr g"
  shows "distinct (map rs_operation rs) \<and> (\<forall>s\<in>set rs. rs_after s \<noteq> None)"
proof -
  have "\<exists>v :: resolution. resumes_admissible plan (rv_operations v) [] [] rs"
    using assms by (auto simp: resolve_generations_def resolve_history_def split: option.splits sum.splits if_splits)
  then have a: "list_all (\<lambda>s. resume_ok plan s \<and> rs_phase s = ''running'') rs" "distinct (map rs_operation rs)"
    by (auto simp: resumes_admissible_iff all_fresh_iff list_all_iff)
  have "rs_after s \<noteq> None" if "s \<in> set rs" for s
  proof -
    have "resume_ok plan s" "rs_phase s = ''running''" using a(1) that by (auto simp: list_all_iff)
    then show ?thesis using resume_parts [of plan s] by (auto simp: resume_stages_def)
  qed
  with a(2) show ?thesis by blast
qed

lemma select_perm:
  assumes "mset rs = mset rs'" "select_member_context plan ls rs original = Inr c"
  shows "\<exists>d. select_member_context plan ls rs' original = Inr d \<and> same_context c d"
proof -
  from assms(2) obtain g where g: "resolve_generations plan ls rs = Inr g"
    by (auto simp: select_member_context_def split: sum.splits)
  from resolve_agree [OF assms(1) g] have g': "resolve_generations plan ls rs' = Inr g" .
  note a = resolve_admissible [OF g]
  have "started_at i rs = started_at i rs'" for i using started_at_perm [OF assms(1)] a by blast
  then show ?thesis using assms(2) latest_evidence_perm [OF assms(1), of "rd_captured original"]
    unfolding select_member_context_def g g' sum.case select_from_generations_def Let_def
    by (auto simp: same_context_def cong del: if_weak_cong split: if_split_asm option.splits)
qed

lemma same_context_check:
  "same_context c d \<Longrightarrow> check_current_readiness plan c x t = check_current_readiness plan d x t"
  by (simp add: same_context_def check_current_readiness_def context_stop_def before_def)

lemma same_context_validate:
  "same_context c d \<Longrightarrow> current_validate_context plan c r = current_validate_context plan d r"
proof -
  assume a: "same_context c d"
  then have "mc_member c = mc_member d" "mc_binding c = mc_binding d" "mc_storage c = mc_storage d"
    by (simp_all add: same_context_def)
  then show ?thesis unfolding current_validate_context_def by (simp only: same_context_check [OF a])
qed

lemma current_validate_perm:
  assumes "mset rs = mset rs'" "current_validate plan ls rs original r = None"
  shows "current_validate plan ls rs' original r = None"
proof -
  from assms(2) obtain c where c: "select_member_context plan ls rs original = Inr c" "current_validate_context plan c r = None"
    by (auto simp: current_validate_def split: sum.splits)
  from select_perm [OF assms(1) c(1)] obtain d where "select_member_context plan ls rs' original = Inr d" "same_context c d"
    by blast
  then show ?thesis using c(2) same_context_validate [of c d plan r] by (simp add: current_validate_def)
qed

lemma current_validate_binding:
  assumes "current_validate plan ls rs original r = None"
  shows "\<exists>g. resolve_generations plan ls rs = Inr g \<and> gs_binding g = cu_binding r"
proof -
  from assms obtain c where c: "select_member_context plan ls rs original = Inr c" "current_validate_context plan c r = None"
    by (auto simp: current_validate_def split: sum.splits)
  from c(1) obtain g where g: "resolve_generations plan ls rs = Inr g" "select_from_generations plan ls rs original g = Inr c"
    by (auto simp: select_member_context_def split: sum.splits)
  from g(2) have "mc_binding c = gs_binding g" unfolding select_from_generations_def Let_def
    by (auto split: if_splits option.splits)
  moreover from c(2) have "mc_binding c = cu_binding r" unfolding current_validate_context_def Let_def equal_evidence_def
    by (auto split: if_splits)
  ultimately show ?thesis using g(1) by auto
qed

text \<open>The whole history is the prefix of its own binding.\<close>

lemma resumes_at_current:
  assumes "resolve_generations plan ls rs = Inr g"
  shows "\<exists>order. resumes_at_binding plan ls rs (gs_binding g) = Inr order \<and> mset order = mset rs"
proof -
  from assms obtain vs where vs: "resolve_history plan ls rs = Inr vs" "g = rv_out (List.last vs)"
    by (auto simp: resolve_generations_def split: sum.splits)
  have n: "vs \<noteq> []" by (rule history_nonempty [OF vs(1)])
  have "binding_validate (gs_binding g) plan = None"
    using resolve_meets [OF assms] by (simp add: binding_validate_iff)
  moreover have "filter (\<lambda>v. gs_binding (rv_out v) = gs_binding g) vs \<noteq> []"
    using n vs(2) by (auto simp: filter_empty_conv intro!: bexI [of _ "List.last vs"])
  moreover have "List.last (filter (\<lambda>v. gs_binding (rv_out v) = gs_binding g) vs) = List.last vs"
    using n vs(2) by (induction vs rule: rev_induct) auto
  moreover have "mset (rv_through (List.last vs)) = mset rs" using history_causal [OF vs(1)] n last_in_set by blast
  ultimately show ?thesis
    by (auto simp: resumes_at_binding_def at_binding_def vs(1) split: list.splits)
qed

section \<open>A stop stays bound to its evidence\<close>

lemma new_stop_valid:
  assumes "new_current_member_stop plan ls rs original ready readiness operation = Inr s"
  shows "current_validate plan ls rs original ready = None \<and> member_stop_validate s plan = None
    \<and> sp_phase s = ''planned'' \<and> sp_before s = None \<and> sp_after s = None
    \<and> sp_readiness s = readiness \<and> sp_operation s = operation \<and> current_stop_of plan ready readiness operation = Inr s"
  using assms by (auto simp: new_current_member_stop_def current_stop_of_def Let_def split: if_splits option.splits)

lemma planned_stop_validates:
  assumes "new_current_member_stop plan ls rs original ready readiness operation = Inr s"
  shows "validate_current_member_stop plan ls rs original ready s = None"
proof -
  note s = new_stop_valid [OF assms]
  from current_validate_binding [OF conjunct1 [OF s]] obtain g where
    g: "resolve_generations plan ls rs = Inr g" "gs_binding g = cu_binding ready" by blast
  from resumes_at_current [OF g(1)] g(2) obtain order where
    o: "resumes_at_binding plan ls rs (cu_binding ready) = Inr order" "mset rs = mset order" by auto
  have v: "current_validate plan ls order original ready = None"
    using current_validate_perm [OF o(2)] s by blast
  then have "new_current_member_stop plan ls order original ready (sp_readiness s) (sp_operation s) = Inr s"
    using s by (simp add: new_current_member_stop_def)
  moreover have "s\<lparr>sp_phase := ''planned'', sp_before := None, sp_after := None\<rparr> = s" using s by (cases s) simp
  then have "equal_evidence plain_stop s (s\<lparr>sp_phase := ''planned'', sp_before := None, sp_after := None\<rparr>)"
    by (simp only: equal_evidence_refl)
  ultimately show ?thesis using s v
    by (simp add: validate_current_member_stop_def Let_def o(1) current_validate_historical_def)
qed

text \<open>
  C38. A stop planned from current readiness is accepted by the historical check of such stops, even
  though that check finds the earlier replacements by the recorded binding and in causal order.
\<close>

theorem planned_stop_accepted:
  assumes "new_current_member_stop plan ls rs original ready readiness operation = Inr s"
  shows "validate_current_member_stop plan ls rs original ready s = None"
  by (rule planned_stop_validates [OF assms])

lemma collect_current_quiet:
  "quiet (\<lambda>r. current_validate_context plan c r = None) (collect_current_context ctx plan c driver clock)"
  unfolding collect_current_context_def Let_def
  by (rule quietI) (simp split: option.splits prod.splits, intro conjI impI allI wp; simp)

section \<open>A concrete stop intent\<close>

definition sample_readiness :: member_readiness where
  "sample_readiness = \<lparr>rd_instance = ''zod'', rd_launch = ''launch'', rd_binding = sample_binding,
     rd_storage = sample_location, rd_ship = ''~zod'', rd_endpoint = host_endpoint sample_member,
     rd_before = sample_seen 60 [sample_member_seen True], rd_after = sample_seen 62 [sample_member_seen True],
     rd_captured = at_second 63\<rparr>"

definition sample_running_at :: "int \<Rightarrow> stop_observation" where
  "sample_running_at n = sample_running\<lparr>so_captured := at_second n, so_runtime := sample_seen n [sample_member_seen True]\<rparr>"

definition sample_current :: current_readiness where
  "sample_current = \<lparr>cu_instance = ''zod'', cu_creator = ''launch'', cu_generation = 1, cu_binding = sample_binding,
     cu_storage = sample_location, cu_ship = ''~zod'', cu_endpoint = host_endpoint sample_member,
     cu_before = sample_running_at 100, cu_after = sample_running_at 102, cu_captured = at_second 103\<rparr>"

definition sample_planned_stop :: member_stop where
  "sample_planned_stop = sample_stop\<lparr>sp_phase := ''planned'', sp_before := None, sp_after := None\<rparr>"

lemma sample_initial_member: "initial_member sample_plan [sample_launch] ''zod'' = Some (sample_launch, sample_member)"
  by (simp add: initial_member_def) (simp add: sample_launch_def sample_storage_def)

lemma sample_readiness_ok: "member_readiness_validate sample_plan [sample_launch] sample_readiness = None"
proof -
  have "fully_ready sample_plan sample_binding (sample_seen n [sample_member_seen True]) (at_second 63)"
    if "60 \<le> n" "n \<le> 63" for n
    using that by (simp add: fully_ready_def sample_assessed)
  then show ?thesis
    by (simp add: member_readiness_validate_def Let_def sample_readiness_def sample_binding_initial sample_initial_member
        is_zero_def before_def readiness_storage_def)
      (simp add: sample_launch_def sample_storage_def sample_location_def sample_member_def sample_directory_def
        valid_pier_identity_def distinct_places_def sample_seen_def)
qed

definition sample_boot :: generation_set where
  "sample_boot = \<lparr>gs_binding = sample_binding, gs_members = Slice [boot_generation
     (hd (items (rb_members sample_binding))) sample_launch]\<rparr>"

lemma sample_boot_resolved: "resolve_generations sample_plan [sample_launch] [] = Inr sample_boot"
proof -
  have "items (rb_members sample_binding) = [hd (items (rb_members sample_binding))]"
    "rm_instance (hd (items (rb_members sample_binding))) = ''zod''"
    by (simp_all add: sample_binding_def)
  then have "boot_generations sample_plan [sample_launch] (items (rb_members sample_binding)) =
      Some [boot_generation (hd (items (rb_members sample_binding))) sample_launch]"
    using sample_initial_member
    by (metis (no_types, lifting) boot_generations.simps option.case(2) option.map(2) prod.case)
  then show ?thesis
    by (simp add: resolve_generations_def resolve_history_def initial_resolution_def sample_binding_initial
        sample_boot_def slice_append_def)
qed

definition sample_context :: member_context where
  "sample_context = \<lparr>mc_member = boot_generation (hd (items (rb_members sample_binding))) sample_launch,
     mc_binding = sample_binding, mc_storage = sample_location, mc_known = zero_time, mc_not_before = at_second 63\<rparr>"

lemma sample_boot_sel: "mg_instance (boot_generation (hd (items (rb_members sample_binding))) sample_launch) = ''zod''"
  "mg_mode (boot_generation (hd (items (rb_members sample_binding))) sample_launch) = ''boot''"
  "mg_generation (boot_generation (hd (items (rb_members sample_binding))) sample_launch) = 1"
  "mg_operation (boot_generation (hd (items (rb_members sample_binding))) sample_launch) = ''launch''"
  "mg_storage (boot_generation (hd (items (rb_members sample_binding))) sample_launch) = ms_location sample_storage"
  by (simp_all add: boot_generation_def sample_binding_def) (simp_all add: sample_launch_def)

lemma sample_context_selected:
  "select_member_context sample_plan [sample_launch] [] sample_readiness = Inr sample_context"
  by (simp add: select_member_context_def sample_boot_resolved select_from_generations_def sample_readiness_ok
      sample_boot_def sample_boot_sel latest_evidence_def Let_def)
    (simp add: sample_readiness_def sample_boot_sel sample_storage_def sample_location_def sample_context_def)

lemma sample_current_check:
  assumes "100 \<le> n" "n \<le> 103"
  shows "check_current_readiness sample_plan sample_context (sample_running_at n) (at_second 103) = None"
  using assms
  by (simp add: check_current_readiness_def member_stop_check_def Let_def context_stop_def sample_context_def
      sample_running_at_def sample_running_def sample_assessed sample_boot_sel in_window_iff is_zero_def after_def
      before_def time_add_def second_def zero_time_def)
    (simp add: sample_seen_def sample_member_seen_def)

lemma sample_current_ok: "current_validate sample_plan [sample_launch] [] sample_readiness sample_current = None"
proof -
  have "check_current_readiness sample_plan sample_context (sample_running_at 100) (at_second 103) = None"
    "check_current_readiness sample_plan sample_context (sample_running_at 102) (at_second 103) = None"
    by (simp_all add: sample_current_check)
  then show ?thesis
    by (simp add: current_validate_def sample_context_selected current_validate_context_def Let_def sample_current_def
        current_endpoint_def is_zero_def before_def equal_evidence_def)
      (simp add: sample_context_def sample_boot_sel sample_member_def sample_running_at_def sample_seen_def)
qed

lemma sample_stop_planned:
  "new_current_member_stop sample_plan [sample_launch] [] sample_readiness sample_current ''ready'' ''stop'' =
     Inr sample_planned_stop"
proof -
  have i: "valid_id ''stop''" "valid_id ''launch''" "valid_id ''ready''"
    by (simp_all add: valid_id_def valid_id_char_def is_lower_def char_in_def less_eq_char_def)
  have "\<lparr>sp_operation = ''stop'', sp_launch = ''launch'', sp_readiness = ''ready'', sp_instance = ''zod'',
      sp_binding = sample_binding, sp_storage = sample_location, sp_phase = ''planned'', sp_before = None,
      sp_after = None\<rparr> = sample_planned_stop"
    by (simp add: sample_planned_stop_def sample_stop_def)
  moreover have "member_stop_validate sample_planned_stop sample_plan = None"
    unfolding member_stop_validate_def Let_def
    by (simp add: sample_planned_stop_def i binding_validate_iff)
      (simp add: sample_location_def sample_directory_def valid_member_directory_def valid_pier_identity_def
        distinct_places_def)
  ultimately show ?thesis
    by (simp add: new_current_member_stop_def sample_current_ok current_stop_of_def) (simp add: sample_current_def)
qed

theorem planned_stop_accepted_witness:
  "validate_current_member_stop sample_plan [sample_launch] [] sample_readiness sample_current sample_planned_stop = None"
  by (rule planned_stop_accepted [OF sample_stop_planned])

end
