(* ===== verification/ResumedReadiness.thy ===== *)
theory ResumedReadiness
  imports MemberContext
begin

text \<open>
  \<open>internal/projectnetwork/member_resumed_readiness.go\<close> and \<open>member_resumed_stop.go\<close>: the binding
  after one completed replacement, readiness evidence about the replaced member, and the stop intent
  bound to it.
\<close>

section \<open>The binding of a replacement\<close>

definition resumed_binding_of :: "member_resume \<Rightarrow> runtime_binding" where
  "resumed_binding_of s = (let b = sp_binding (rs_stop s) in b\<lparr>rb_members := slice_map (map (\<lambda>m.
     if rm_instance m = sp_instance (rs_stop s) then m\<lparr>rm_container := rs_container s\<rparr> else m)) (rb_members b)\<rparr>)"

definition resumed_runtime_binding :: "project_plan \<Rightarrow> member_resume \<Rightarrow> gerr + runtime_binding" where
  "resumed_runtime_binding plan s =
     (if resume_validate s plan \<noteq> None \<or> rs_phase s \<noteq> ''running''
      then Inl (Err ''completed member resume is required'')
      else case binding_validate (resumed_binding_of s) plan of Some e \<Rightarrow> Inl e | None \<Rightarrow> Inr (resumed_binding_of s))"

section \<open>Readiness after it\<close>

record resumed_readiness =
  rr_instance :: string
  rr_resume :: string
  rr_generation :: u64
  rr_binding :: runtime_binding
  rr_storage :: location
  rr_ship :: string
  rr_endpoint :: string
  rr_before :: resume_observation
  rr_after :: resume_observation
  rr_captured :: gotime

definition resumed_member :: "project_plan \<Rightarrow> member_resume \<Rightarrow> (project_member \<times> string) option" where
  "resumed_member plan s = map_option (\<lambda>m. (m, host_endpoint m))
     (find (\<lambda>m. mr_instance m = sp_instance (rs_stop s)) (plan_members plan))"

text \<open>The recorded running observation seen again.\<close>

definition reobserved_resume :: "resume_observation \<Rightarrow> resume_observation \<Rightarrow> bool" where
  "reobserved_resume old x \<longleftrightarrow> old\<lparr>us_runtime := (us_runtime old)\<lparr>ob_time := ob_time (us_runtime x)\<rparr>,
     us_captured := us_captured x\<rparr> = x"

definition check_resumed_readiness ::
  "project_plan \<Rightarrow> member_resume \<Rightarrow> runtime_binding \<Rightarrow> resume_observation \<Rightarrow> gotime \<Rightarrow> gerr option" where
  "check_resumed_readiness plan s b x now =
     (let fail = Some (Err ''resumed readiness lost exact process, project or pier'')
      in case rs_after s of None \<Rightarrow> fail | Some a \<Rightarrow>
        if resume_check s x now True \<noteq> None \<or> before (us_captured x) (us_captured a)
           \<or> before (ob_time (us_runtime x)) (ob_time (us_runtime a)) \<or> \<not> same_instant (us_started x) (us_started a)
        then fail
        else case assess_runtime plan b (us_runtime x) now of Inl _ \<Rightarrow> fail | Inr v \<Rightarrow>
          if as_recovery v \<or> sp_instance (rs_stop s) \<notin> set (items (as_running v)) then fail
          else if \<not> reobserved_resume a x then fail else None)"

definition resumed_validate :: "project_plan \<Rightarrow> member_resume \<Rightarrow> resumed_readiness \<Rightarrow> gerr option" where
  "resumed_validate plan s r =
     (let fail = Some (Err ''invalid resumed member readiness evidence'')
      in case resumed_runtime_binding plan s of Inl _ \<Rightarrow> fail | Inr b \<Rightarrow>
        if is_zero (rr_captured r) \<or> rr_binding r \<noteq> b \<or> rr_resume r \<noteq> rs_operation s
           \<or> rr_generation r \<noteq> rs_previous s + 1 \<or> rr_instance r \<noteq> sp_instance (rs_stop s)
           \<or> rr_storage r \<noteq> sp_storage (rs_stop s) then fail
        else case resumed_member plan s of None \<Rightarrow> fail | Some (m, endpoint) \<Rightarrow>
          if rr_ship r \<noteq> mr_ship m \<or> rr_endpoint r \<noteq> endpoint then fail
          else if \<not> list_all (\<lambda>x. check_resumed_readiness plan s b x (rr_captured r) = None) [rr_before r, rr_after r]
          then fail
          else if before (us_captured (rr_after r)) (us_captured (rr_before r))
                  \<or> before (ob_time (us_runtime (rr_after r))) (ob_time (us_runtime (rr_before r))) then fail
          else None)"

record 'w resumed_driver =
  rd_verify :: "string \<Rightarrow> 'w \<Rightarrow> gerr option \<times> 'w"
  rd_inspect :: "member_resume \<Rightarrow> 'w \<Rightarrow> (gerr + resume_observation) \<times> 'w"
  rd_host :: "string \<Rightarrow> 'w \<Rightarrow> (gerr + string) \<times> 'w"

definition collect_resumed_readiness ::
  "('w \<Rightarrow> gerr option \<times> 'w) \<Rightarrow> project_plan \<Rightarrow> member_resume \<Rightarrow> 'w resumed_driver option
     \<Rightarrow> ('w \<Rightarrow> gotime \<times> 'w) option \<Rightarrow> ('s, 'w, resumed_readiness) prog" where
  "collect_resumed_readiness ctx plan s driver clock =
     (let refuse = Err ''resumed member readiness could not be established''
      in case (resumed_runtime_binding plan s, driver, clock) of
        (Inr b, Some d, Some now) \<Rightarrow>
         (case resumed_member plan s of None \<Rightarrow> failP refuse | Some (m, endpoint) \<Rightarrow>
          let verify = stillP refuse ctx (\<lambda>_. rd_verify d (rb_engine b)) in
          thenP verify
          (bindP (attemptP refuse (\<lambda>_. rd_inspect d s)) (\<lambda>before.
           thenP verify
          (bindP (clockP now) (\<lambda>t.
           thenP (needP refuse (check_resumed_readiness plan s b before t = None))
          (bindP (attemptP refuse (\<lambda>_. rd_host d endpoint)) (\<lambda>ship.
           thenP (needP refuse (ship = mr_ship m))
          (thenP verify
          (bindP (attemptP refuse (\<lambda>_. rd_inspect d s)) (\<lambda>after.
           thenP verify
          (bindP (clockP now) (\<lambda>captured.
           let r = \<lparr>rr_instance = mr_instance m, rr_resume = rs_operation s, rr_generation = rs_previous s + 1,
                    rr_binding = b, rr_storage = sp_storage (rs_stop s), rr_ship = ship, rr_endpoint = endpoint,
                    rr_before = before, rr_after = after, rr_captured = captured\<rparr>
           in thenP (bindP (readP (\<lambda>_. ctx)) (\<lambda>e. needP refuse (e = None)))
             (thenP (needP refuse (resumed_validate plan s r = None)) (retP r))))))))))))))
      | _ \<Rightarrow> failP refuse)"

section \<open>Stopping a replaced member\<close>

text \<open>The loop over the replacements: the last one with the operation decides, each must be valid.\<close>

fun resumed_receipt :: "project_plan \<Rightarrow> string \<Rightarrow> resumed_readiness \<Rightarrow> bool \<Rightarrow> member_resume list \<Rightarrow> bool option" where
  "resumed_receipt plan operation ready found [] = Some found"
| "resumed_receipt plan operation ready found (s # ss) =
     (if rs_operation s = operation then
        (if resumed_validate plan s ready \<noteq> None then None else resumed_receipt plan operation ready True ss)
      else resumed_receipt plan operation ready found ss)"

definition zero_generation :: member_generation where
  "zero_generation = \<lparr>mg_instance = '''', mg_runtime = '''', mg_generation = 0, mg_operation = '''', mg_mode = '''',
     mg_container = \<lparr>ri_id = '''', ri_contract = ''''\<rparr>,
     mg_storage = \<lparr>lo_path = '''', lo_identity = no_pier, lo_mount = no_directory, lo_uncertain = False\<rparr>\<rparr>"

definition resumed_member_stop ::
  "project_plan \<Rightarrow> generation_set \<Rightarrow> member_resume list \<Rightarrow> resumed_readiness \<Rightarrow> string \<Rightarrow> string \<Rightarrow> gerr + member_stop" where
  "resumed_member_stop plan current resumes ready readiness operation =
     (let fail = Inl (Err ''member Stop requires matching replacement history and readiness'');
          g = foldl (\<lambda>g m. if mg_instance m = rr_instance ready then m else g) zero_generation (items (gs_members current))
      in if mg_mode g \<noteq> ''resume'' \<or> mg_operation g \<noteq> rr_resume ready \<or> mg_generation g \<noteq> rr_generation ready
            \<or> mg_storage g \<noteq> rr_storage ready then fail
      else case resumed_receipt plan (mg_operation g) ready False resumes of
        Some True \<Rightarrow>
          (let s = \<lparr>sp_operation = operation, sp_launch = mg_operation g, sp_readiness = readiness,
                    sp_instance = mg_instance g, sp_binding = gs_binding current, sp_storage = rr_storage ready,
                    sp_phase = ''planned'', sp_before = None, sp_after = None\<rparr>
           in if member_stop_validate s plan \<noteq> None then fail else Inr s)
      | _ \<Rightarrow> fail)"

definition new_resumed_member_stop ::
  "project_plan \<Rightarrow> member_launch list \<Rightarrow> member_resume list \<Rightarrow> resumed_readiness \<Rightarrow> string \<Rightarrow> string \<Rightarrow> gerr + member_stop" where
  "new_resumed_member_stop plan launches resumes ready readiness operation =
     (let fail = Inl (Err ''member Stop requires current replacement history and matching readiness'')
      in case resolve_generations plan launches resumes of Inl _ \<Rightarrow> fail | Inr current \<Rightarrow>
        if gs_binding current \<noteq> rr_binding ready then fail
        else resumed_member_stop plan current resumes ready readiness operation)"

definition validate_resumed_member_stop ::
  "project_plan \<Rightarrow> member_launch list \<Rightarrow> member_resume list \<Rightarrow> resumed_readiness \<Rightarrow> member_stop \<Rightarrow> gerr option" where
  "validate_resumed_member_stop plan launches resumes ready s =
     (if member_stop_validate s plan \<noteq> None then Some (Err ''invalid retained replacement Stop'')
      else case generations_at_binding plan launches resumes (rr_binding ready) of Inl e \<Rightarrow> Some e | Inr earlier \<Rightarrow>
        case resumed_member_stop plan earlier resumes ready (sp_readiness s) (sp_operation s) of Inl e \<Rightarrow> Some e
        | Inr expected \<Rightarrow>
          check (expected = s\<lparr>sp_phase := ''planned'', sp_before := None, sp_after := None\<rparr>)
            ''retained replacement Stop lost its readiness binding'')"

lemma collect_resumed_quiet:
  "quiet (\<lambda>r. resumed_validate plan s r = None) (collect_resumed_readiness ctx plan s driver clock)"
  unfolding collect_resumed_readiness_def Let_def
  by (rule quietI) (simp split: sum.splits option.splits prod.splits, intro conjI impI allI wp; simp)

section \<open>The two views of a replacement agree\<close>

text \<open>
  Replacing the container by instance, as the readiness of one replacement does, and by position, as
  the resolution of the whole history does, give the same binding.
\<close>

lemma map_update_at:
  assumes "distinct (map f xs)" "k < length xs" "f (xs ! k) = key"
  shows "map (\<lambda>x. if f x = key then g x else x) xs = xs[k := g (xs ! k)]"
proof (rule nth_equalityI)
  fix i assume "i < length (map (\<lambda>x. if f x = key then g x else x) xs)"
  then have i: "i < length xs" by simp
  show "map (\<lambda>x. if f x = key then g x else x) xs ! i = xs[k := g (xs ! k)] ! i"
    using i assms nth_eq_iff_index_eq [OF assms(1), of i k] by (cases "i = k") auto
qed simp

lemma replaced_binding:
  assumes "replaced plan g s h" "aligned g" "binding_ok (gs_binding g) plan"
  shows "resumed_runtime_binding plan s = Inr (gs_binding h)"
proof -
  obtain k where s: "resume_ok plan s" "rs_phase s = ''running''" and b: "sp_binding (rs_stop s) = gs_binding g"
    and k: "k < length (items (gs_members g))" and c: "continues s (items (gs_members g) ! k)"
    and h: "h = \<lparr>gs_binding = replace_container (rs_container s) k (gs_binding g),
      gs_members = slice_map (\<lambda>ms. ms[k := next_generation s (ms ! k)]) (gs_members g)\<rparr>"
    and ok: "binding_ok (gs_binding h) plan"
    using assms(1) by (cases rule: replaced.cases) blast
  have "tracks (items (gs_members g) ! k) (items (rb_members (gs_binding g)) ! k)"
    using assms(2) k by (auto simp: aligned_def intro: list_all2_nthD)
  then have m: "rm_instance (items (rb_members (gs_binding g)) ! k) = sp_instance (rs_stop s)"
    using c by (simp add: tracks_def continues_def Let_def)
  have l: "k < length (items (rb_members (gs_binding g)))"
    using assms(2) k by (auto simp: aligned_def dest: list_all2_lengthD)
  have "resumed_binding_of s = gs_binding h"
    using map_update_at [OF binding_distinct [OF assms(3)] l m]
    by (cases "rb_members (gs_binding g)") (simp_all add: resumed_binding_of_def b h replace_container_def Let_def)
  moreover have "binding_validate (gs_binding h) plan = None"
    using ok by (simp add: binding_validate_iff)
  ultimately show ?thesis
    using s by (simp only: resumed_runtime_binding_def resume_ok_def) simp
qed


lemma sample_replaced: "replaced sample_plan sample_boot sample_resume sample_generation"
proof (rule replaced.intros [where k = 0])
  show "continues sample_resume (items (gs_members sample_boot) ! 0)"
    by (simp add: continues_def sample_boot_def sample_boot_sel sample_retirement_def sample_exit_def)
      (simp add: sample_storage_def sample_location_def)
  show "sample_generation = \<lparr>gs_binding = replace_container (rs_container sample_resume) 0 (gs_binding sample_boot),
      gs_members = slice_map (\<lambda>ms. ms[0 := next_generation sample_resume (ms ! 0)]) (gs_members sample_boot)\<rparr>"
    by (simp add: sample_boot_def sample_generation_def next_generation_def sample_boot_sel sample_retirement_def
        sample_exit_def) (simp add: boot_generation_def sample_binding_def)
  show "0 < length (items (gs_members sample_boot))" by (simp add: sample_boot_def)
  show "sp_binding (rs_stop sample_resume) = gs_binding sample_boot"
    by (simp add: sample_boot_def sample_retirement_def sample_exit_def)
qed simp_all

lemma sample_initial_boot: "initial_generations sample_plan [sample_launch] sample_boot"
  using resolve_meets [OF sample_boot_resolved] by (auto elim: causal.cases)


end
