(* ===== verification/HostPolicy.thy ===== *)
theory HostPolicy
  imports GoText
begin

text \<open>
  \<open>internal/hostcompat/policy.go\<close>: which container engine versions the contract supports, what the
  daemon must report, and the evaluation of a host report, which decides what may be observed,
  stopped and changed on the host; \<open>upstreamVersion\<close> of \<open>inspect.go\<close>.
\<close>

section \<open>Versions\<close>

text \<open>\<open>strings.Cut(s, c)\<close> on a one-character separator.\<close>

definition cut_char :: "char \<Rightarrow> string \<Rightarrow> string \<times> string \<times> bool" where
  "cut_char c s = (takeWhile (\<lambda>x. x \<noteq> c) s, drop 1 (dropWhile (\<lambda>x. x \<noteq> c) s), c \<in> set s)"

definition numeric_version :: "string \<Rightarrow> nat \<Rightarrow> nat list option" where
  "numeric_version s n =
     (if length s > 40 then None
      else let parts = split_on CHR ''.'' s
      in if length parts \<noteq> n then None
      else if list_ex (\<lambda>p. p = '''' \<or> length p > 6 \<or> (length p > 1 \<and> p ! 0 = CHR ''0'') \<or> \<not> list_all is_digit p) parts
           then None
      else Some (map dec_val parts))"

definition build_char :: "char \<Rightarrow> bool" where
  "build_char c \<longleftrightarrow> is_alnum c \<or> c = CHR ''-''"

definition stable_engine_version :: "string \<Rightarrow> (string \<times> nat list) option" where
  "stable_engine_version version =
     (if length version > 256 then None
      else case cut_char CHR ''+'' version of (core, build, has_build) \<Rightarrow>
        if has_build \<and> list_ex (\<lambda>p. p = '''' \<or> \<not> list_all build_char p) (split_on CHR ''.'' build) then None
        else map_option (Pair core) (numeric_version core 3))"

definition engine_version_status :: "string \<Rightarrow> string" where
  "engine_version_status version =
     (case stable_engine_version version of None \<Rightarrow> ''unknown''
      | Some (_, v) \<Rightarrow> if v ! 0 < 27 \<or> v ! 0 \<ge> 30 \<or> (v ! 0 = 27 \<and> v ! 1 < 2) then ''unsupported'' else ''compatible'')"

definition recorded_engine_version :: "string \<Rightarrow> bool" where
  "recorded_engine_version version =
     (case stable_engine_version version of None \<Rightarrow> False | Some (_, v) \<Rightarrow> v ! 0 > 0)"

definition engine_versions_equivalent :: "string \<Rightarrow> string \<Rightarrow> bool" where
  "engine_versions_equivalent a b =
     (case (stable_engine_version a, stable_engine_version b) of (Some (x, _), Some (y, _)) \<Rightarrow> x = y | _ \<Rightarrow> False)"

definition supports_api :: "string \<Rightarrow> string \<Rightarrow> bool" where
  "supports_api lo hi =
     (case (numeric_version lo 2, numeric_version hi 2) of
        (Some a, Some b) \<Rightarrow> a ! 0 = 1 \<and> b ! 0 = 1 \<and> a ! 1 \<le> 47 \<and> b ! 1 \<ge> 47 \<and> a ! 1 \<le> b ! 1
      | _ \<Rightarrow> False)"

text \<open>\<open>upstreamVersion\<close>: the epoch and the native revision are dropped.\<close>

definition upstream_version :: "string \<Rightarrow> string" where
  "upstream_version version =
     (case cut_char CHR '':'' version of (epoch, rest, has_epoch) \<Rightarrow>
        if has_epoch \<and> (\<not> list_all is_digit epoch \<or> epoch = '''') then ''''
        else let v = if has_epoch then rest else version;
                 words = split_on CHR ''-'' v;
                 revision = last words
          in if length words > 1 \<and> (revision = '''' \<or> \<not> is_digit (hd revision)) \<and> CHR ''+'' \<notin> set v then ''''
          else let u = if length words > 1 \<and> revision \<noteq> '''' \<and> is_digit (hd revision)
                       then join_with CHR ''-'' (butlast words) else v
          in case stable_engine_version u of None \<Rightarrow> '''' | Some (core, n) \<Rightarrow> if n ! 0 = 0 then '''' else core)"

definition engine_package_version_status :: "string \<Rightarrow> string" where
  "engine_package_version_status version = engine_version_status (upstream_version version)"

section \<open>Reports\<close>

record host_check =
  hc_id :: string
  hc_status :: string
  hc_detail :: string

record distribution =
  ds_id :: string
  ds_version :: string
  ds_provider :: string
  ds_profile :: string
  ds_like :: "string slice"

record host_package =
  hp_role :: string
  hp_name :: string
  hp_version :: string
  hp_upstream :: string
  hp_provenance :: string
  hp_detail :: string
  hp_executables :: "string slice"

record host_engine =
  he_id :: string
  he_version :: string
  he_api :: string
  he_min_api :: string
  he_rootless :: bool
  he_cgroup_driver :: string
  he_cgroup_version :: string
  he_data_root :: string

record host_report =
  hr_schema :: int
  hr_policy :: string
  hr_platform :: string
  hr_distribution :: distribution
  hr_packages :: "host_package slice"
  hr_installed :: string
  hr_engine :: "host_engine option"
  hr_compatibility :: string
  hr_qualification :: string
  hr_provenance :: string
  hr_restart :: bool
  hr_observe :: bool
  hr_stop :: bool
  hr_mutate :: bool
  hr_checks :: "host_check slice"
  hr_guidance :: "string slice"
  hr_observed :: gotime

text \<open>\<open>filepath.IsAbs\<close> and \<open>filepath.Clean\<close>.\<close>

definition clean_absolute :: "string \<Rightarrow> bool" where
  "clean_absolute p \<longleftrightarrow> has_prefix p ''/'' \<and> path_clean p = p"

definition check_engine :: "host_engine \<Rightarrow> string \<Rightarrow> bool \<Rightarrow> gerr option" where
  "check_engine e root control =
     (if \<not> supports_api (he_min_api e) (he_api e) then Some (Err ''engine does not support required API 1.47'')
      else if \<not> he_rootless e then Some (Err ''engine is not rootless'')
      else if he_cgroup_driver e \<noteq> ''systemd'' \<or> he_cgroup_version e \<noteq> ''2''
           then Some (Err ''engine requires systemd cgroup v2'')
      else if \<not> clean_absolute root \<or> he_data_root e \<noteq> root
           then Some (Err ''engine data root does not match expected root'')
      else if \<not> control \<and> engine_version_status (he_version e) \<noteq> ''compatible''
           then Some (Err ''engine version is outside supported stable families'')
      else None)"

definition required_roles :: "string list" where
  "required_roles = [''engine'', ''cli'', ''containerd'', ''oci-runtime'', ''rootlesskit'', ''network'', ''uidmap'', ''gidmap'']"

definition complete_stack :: "host_package list \<Rightarrow> bool" where
  "complete_stack packages \<longleftrightarrow> list_all (\<lambda>role. list_ex (\<lambda>p. hp_role p = role \<and> hp_provenance p = ''verified''
     \<and> items (hp_executables p) \<noteq> []) packages) required_roles"

definition add_check :: "string \<Rightarrow> string \<Rightarrow> string \<Rightarrow> host_report \<Rightarrow> host_report" where
  "add_check i st d r = r\<lparr>hr_checks := Slice (items (hr_checks r) @ [\<lparr>hc_id = i, hc_status = st, hc_detail = d\<rparr>])\<rparr>"

text \<open>The fields \<open>Evaluate\<close> starts from: derived checks dropped, nothing allowed.\<close>

definition reset_report :: "host_report \<Rightarrow> host_report" where
  "reset_report r = r\<lparr>hr_schema := 1, hr_policy := ''docker-rootless-v1'', hr_compatibility := ''unknown'',
     hr_qualification := ''unqualified'', hr_observe := False, hr_stop := False, hr_mutate := False, hr_restart := False,
     hr_checks := Slice (filter (\<lambda>c. \<not> has_prefix (hc_id c) ''policy.'') (items (hr_checks r))),
     hr_provenance := (if items (hr_packages r) = [] then ''unknown''
       else if list_ex (\<lambda>p. hp_provenance p \<noteq> ''verified'') (items (hr_packages r)) then ''unverified'' else ''verified'')\<rparr>"

definition err_text :: "gerr \<Rightarrow> string" where
  "err_text e = (case e of Err m \<Rightarrow> m | Join _ _ \<Rightarrow> '''')"

definition evaluate_engine :: "host_engine \<Rightarrow> host_report \<Rightarrow> host_report" where
  "evaluate_engine e r =
     (let status = engine_version_status (he_version e);
          installed = engine_version_status (hr_installed r);
          r = r\<lparr>hr_observe := True, hr_stop := True, hr_compatibility := status,
                hr_mutate := (status = ''compatible'' \<and> hr_provenance r = ''verified'' \<and> installed = ''compatible''
                              \<and> complete_stack (items (hr_packages r)))\<rparr>;
          r = add_check ''policy.engine'' status ''API 1.47, rootless, systemd cgroup v2 and expected data root checked.'' r;
          r = (if hr_installed r = '''' then add_check ''policy.installed-engine'' ''unknown''
                 ''Installed stable engine version is unresolved; new work requires compatible installed and running evidence.'' r
               else if installed \<noteq> ''compatible'' then add_check ''policy.installed-engine'' installed
                 ''Installed engine is outside the supported stable families; new work is blocked independently of safe running-engine control.'' r
               else r);
          r = (if hr_restart r then add_check ''policy.restart'' ''pending''
                 ''Installed and running engine versions differ; coordinate an explicit restart.'' r else r)
      in add_check ''policy.qualification'' ''unqualified''
           (if he_version e = ''29.7.2''
            then ''Engine matches the recorded 29.7.2 baseline; this alone does not qualify the stack or distribution.''
            else ''No matching full-stack and distribution-profile qualification record is supplied.'') r)"

definition evaluate :: "host_report \<Rightarrow> string \<Rightarrow> host_report" where
  "evaluate report root =
     (let r = reset_report report
      in case hr_engine r of
        None \<Rightarrow> add_check ''policy.engine'' ''unknown'' ''Running engine has not been identity-verified.'' r
      | Some e \<Rightarrow>
          let r = r\<lparr>hr_restart := (hr_installed r \<noteq> '''' \<and> \<not> engine_versions_equivalent (he_version e) (hr_installed r))\<rparr>
          in if \<not> has_prefix (hr_platform r) ''linux/'' then r\<lparr>hr_compatibility := ''unsupported''\<rparr>
             else case check_engine e root True of
                 Some x \<Rightarrow> add_check ''policy.engine'' ''failed'' (err_text x) (r\<lparr>hr_compatibility := ''incompatible''\<rparr>)
               | None \<Rightarrow> evaluate_engine e r)"

section \<open>What a report allows\<close>

text \<open>The supported families: from 27.2 up to, not including, 30.0.\<close>

definition supported_engine :: "string \<Rightarrow> bool" where
  "supported_engine version \<longleftrightarrow> (\<exists>core a b c. stable_engine_version version = Some (core, [a, b, c])
     \<and> (27 < a \<or> a = 27 \<and> 2 \<le> b) \<and> a < 30)"

lemma numeric_version_length: "numeric_version s n = Some v \<Longrightarrow> length v = n"
  by (auto simp: numeric_version_def Let_def split: if_split_asm)

lemma stable_engine_three:
  assumes "stable_engine_version version = Some (core, v)"
  shows "\<exists>a b c. v = [a, b, c]"
proof -
  have "length v = 3" using assms numeric_version_length
    by (auto simp: stable_engine_version_def split: if_split_asm prod.splits)
  then show ?thesis by (auto simp: numeral_3_eq_3 length_Suc_conv)
qed

lemma engine_compatible_iff [simp]: "engine_version_status version = ''compatible'' \<longleftrightarrow> supported_engine version"
proof (cases "stable_engine_version version")
  case None
  then show ?thesis by (simp add: engine_version_status_def supported_engine_def)
next
  case (Some p)
  then obtain core a b c where "p = (core, [a, b, c])" using stable_engine_three by (metis surj_pair)
  with Some show ?thesis by (auto simp: engine_version_status_def supported_engine_def)
qed

lemma add_check_sel [simp]: "hr_mutate (add_check i st d r) = hr_mutate r" "hr_stop (add_check i st d r) = hr_stop r"
  "hr_observe (add_check i st d r) = hr_observe r" "hr_compatibility (add_check i st d r) = hr_compatibility r"
  "hr_engine (add_check i st d r) = hr_engine r" "hr_platform (add_check i st d r) = hr_platform r"
  "hr_packages (add_check i st d r) = hr_packages r" "hr_installed (add_check i st d r) = hr_installed r"
  by (simp_all add: add_check_def)

lemma reset_sel [simp]: "hr_mutate (reset_report r) = False" "hr_stop (reset_report r) = False"
  "hr_observe (reset_report r) = False" "hr_engine (reset_report r) = hr_engine r"
  "hr_platform (reset_report r) = hr_platform r" "hr_packages (reset_report r) = hr_packages r"
  "hr_installed (reset_report r) = hr_installed r"
  by (simp_all add: reset_report_def)

lemma reset_verified [simp]: "hr_provenance (reset_report r) = ''verified'' \<longleftrightarrow>
    items (hr_packages r) \<noteq> [] \<and> (\<forall>p\<in>set (items (hr_packages r)). hp_provenance p = ''verified'')"
  by (auto simp: reset_report_def list_ex_iff)

definition controllable :: "host_report \<Rightarrow> string \<Rightarrow> bool" where
  "controllable r root \<longleftrightarrow> has_prefix (hr_platform r) ''linux/''
     \<and> (\<exists>e. hr_engine r = Some e \<and> check_engine e root True = None)"

definition workable :: "host_report \<Rightarrow> string \<Rightarrow> bool" where
  "workable r root \<longleftrightarrow> controllable r root \<and> supported_engine (he_version (the (hr_engine r)))
     \<and> supported_engine (hr_installed r) \<and> items (hr_packages r) \<noteq> []
     \<and> (\<forall>p\<in>set (items (hr_packages r)). hp_provenance p = ''verified'') \<and> complete_stack (items (hr_packages r))"

text \<open>
  C40. A host may be observed and its ships stopped exactly when the identity-verified engine meets the
  daemon contract; new work needs in addition a supported running and installed engine, only verified
  packages, and a verified package for every role.
\<close>

theorem evaluate_exact:
  "hr_stop (evaluate r root) = controllable r root \<and> hr_observe (evaluate r root) = controllable r root
    \<and> hr_mutate (evaluate r root) = workable r root"
  by (cases "hr_engine r") (auto simp: evaluate_def evaluate_engine_def Let_def controllable_def workable_def
      split: option.splits)

section \<open>Evaluating a report again\<close>

text \<open>\<open>evaluate\<close> reads nothing that it derives: \<open>reset_report\<close> is the same before and after.\<close>

lemma reset_add_check [simp]: "has_prefix i ''policy.'' \<Longrightarrow> reset_report (add_check i st d r) = reset_report r"
  by (simp add: reset_report_def add_check_def)

lemma reset_updates [simp]: "reset_report (r\<lparr>hr_compatibility := c\<rparr>) = reset_report r"
  "reset_report (r\<lparr>hr_restart := b\<rparr>) = reset_report r" "reset_report (r\<lparr>hr_observe := b\<rparr>) = reset_report r"
  "reset_report (r\<lparr>hr_stop := b\<rparr>) = reset_report r" "reset_report (r\<lparr>hr_mutate := b\<rparr>) = reset_report r"
  "reset_report (reset_report r) = reset_report r"
  by (simp_all add: reset_report_def)

lemma policy_ids [simp]: "has_prefix ''policy.engine'' ''policy.''" "has_prefix ''policy.installed-engine'' ''policy.''"
  "has_prefix ''policy.restart'' ''policy.''" "has_prefix ''policy.qualification'' ''policy.''"
  by (simp_all add: has_prefix_def)

lemma reset_evaluate_engine: "reset_report (evaluate_engine e r) = reset_report r"
  by (simp add: evaluate_engine_def Let_def)

lemma reset_evaluate: "reset_report (evaluate r root) = reset_report r"
  by (simp add: evaluate_def Let_def reset_evaluate_engine split: option.split)

lemma evaluate_cong: "reset_report r = reset_report s \<Longrightarrow> evaluate r root = evaluate s root"
  by (simp only: evaluate_def)

text \<open>
  Evaluating an evaluated report changes nothing: derived checks are replaced, not accumulated.
\<close>

theorem evaluate_idempotent: "evaluate (evaluate r root) root = evaluate r root"
  by (rule evaluate_cong [OF reset_evaluate])

end
