(* ===== verification/Handoff.thy ===== *)
theory Handoff
  imports ProjectPlan Routines
begin

text \<open>
  The record of a stopped move between two hosts (\<open>internal/protocol/handoff.go\<close>): what a transfer is,
  the bytes that the source signs to commit it to one destination, and when a ship is fenced.
  Ed25519 is a parameter: \<open>verify key message signature\<close>.
\<close>

section \<open>The record\<close>

record handoff =
  hf_id :: string
  hf_direction :: string
  hf_state :: string
  hf_source :: string
  hf_source_instance :: string
  hf_destination :: string
  hf_destination_instance :: string
  hf_ship :: string
  hf_mode :: string
  hf_ames :: bool
  hf_roll :: bool
  hf_settings :: "runtime_settings option"
  hf_sha256 :: string
  hf_tree :: string
  hf_bytes :: int
  hf_created :: gotime
  hf_message :: string
  hf_error :: string
  hf_key :: string
  hf_commitment :: string

definition max_pier_bytes :: int where
  "max_pier_bytes = 100000000000"

definition max_handoff_bytes :: int where
  "max_handoff_bytes = max_pier_bytes + 33554432"

text \<open>\<open>^/v1/handoffs/[0-9a-f]{32}/data$\<close>\<close>

definition handoff_data_path :: "string \<Rightarrow> bool" where
  "handoff_data_path p \<longleftrightarrow> has_prefix p ''/v1/handoffs/'' \<and> hex_string 32 (take 32 (drop 13 p)) \<and> drop 45 p = ''/data''"

section \<open>Commitment\<close>

definition commitment_items :: "handoff \<Rightarrow> json_item list" where
  "commitment_items h =
     [JText (if hf_settings h = None then ''omabit-stopped-handoff-v1'' else ''omabit-stopped-handoff-v2''), JText (hf_id h),
      JText (hf_source h), JText (hf_source_instance h), JText (hf_destination h), JText (hf_destination_instance h),
      JText (hf_ship h), JText (hf_mode h), JFlag (hf_ames h), JFlag (hf_roll h), JText (hf_sha256 h), JInt (hf_bytes h),
      JText (hf_tree h), JText (hf_key h)]
     @ (case hf_settings h of None \<Rightarrow> [] | Some s \<Rightarrow> [JSettings (unat (rs_loom s)) (rs_native s)])"

definition commitment_bytes :: "handoff \<Rightarrow> string" where
  "commitment_bytes h = json_array (commitment_items h)"

text \<open>\<open>hex.DecodeString\<close>\<close>

definition hex_digit_val :: "char \<Rightarrow> nat option" where
  "hex_digit_val c = (if is_digit c then Some (of_char c - 48)
     else if char_in CHR ''a'' CHR ''f'' c then Some (of_char c - 87)
     else if char_in CHR ''A'' CHR ''F'' c then Some (of_char c - 55) else None)"

fun hex_decode :: "string \<Rightarrow> string option" where
  "hex_decode [] = Some []"
| "hex_decode [c] = None"
| "hex_decode (c # d # s) = (case (hex_digit_val c, hex_digit_val d, hex_decode s) of
     (Some a, Some b, Some t) \<Rightarrow> Some (char_of (16 * a + b) # t) | _ \<Rightarrow> None)"

definition valid_commitment :: "(string \<Rightarrow> string \<Rightarrow> string \<Rightarrow> bool) \<Rightarrow> handoff \<Rightarrow> string \<Rightarrow> bool" where
  "valid_commitment verify h proof = (case (hex_decode (hf_key h), hex_decode proof) of
     (Some key, Some signature) \<Rightarrow> length key = 32 \<and> verify key (commitment_bytes h) signature | _ \<Rightarrow> False)"

definition same_transfer :: "handoff \<Rightarrow> handoff \<Rightarrow> bool" where
  "same_transfer h g \<longleftrightarrow> commitment_bytes h = commitment_bytes g"

definition fenced :: "handoff option \<Rightarrow> bool" where
  "fenced h = (case h of None \<Rightarrow> False | Some v \<Rightarrow> hf_direction v \<noteq> ''in'' \<or> hf_state v \<noteq> ''complete'')"

section \<open>Offers\<close>

definition full_handoff_id :: "string \<Rightarrow> bool" where
  "full_handoff_id i \<longleftrightarrow> length i = 32 \<and> list_all (\<lambda>c. c \<in> set ''0123456789abcdef'') i"

definition valid_handoff_bytes :: "handoff \<Rightarrow> bool" where
  "valid_handoff_bytes h \<longleftrightarrow> hex_string 64 (hf_sha256 h) \<and> hex_string 64 (hf_tree h) \<and> hf_bytes h > 0 \<and> hf_bytes h \<le> max_handoff_bytes"

section \<open>What a commitment binds\<close>

definition transfer :: "handoff \<Rightarrow> handoff" where
  "transfer h = h\<lparr>hf_direction := '''', hf_state := '''', hf_created := zero_time, hf_message := '''', hf_error := '''', hf_commitment := ''''\<rparr>"

definition handoff_plain :: "handoff \<Rightarrow> bool" where
  "handoff_plain h \<longleftrightarrow> list_all json_plain [hf_id h, hf_source h, hf_source_instance h, hf_destination h,
     hf_destination_instance h, hf_ship h, hf_mode h, hf_sha256 h, hf_tree h, hf_key h]"

lemma commitment_items_eq: "commitment_items h = commitment_items g \<longleftrightarrow> transfer h = transfer g"
  by (cases h; cases g) (auto simp: commitment_items_def transfer_def word_unat_eq_iff split: option.splits
      intro!: runtime_settings.equality)

lemma same_transfer_iff:
  assumes "handoff_plain g"
  shows "same_transfer h g \<longleftrightarrow> transfer h = transfer g"
proof -
  have "json_plain ''omabit-stopped-handoff-v1''" "json_plain ''omabit-stopped-handoff-v2''"
    by (simp_all add: json_plain_def json_plain_char_def)
  then have "list_all item_plain (commitment_items g)"
    using assms by (simp add: commitment_items_def handoff_plain_def split: option.split)
  then show ?thesis unfolding same_transfer_def commitment_bytes_def commitment_items_eq [symmetric]
    by (auto dest: json_array_inj)
qed

lemma hex_plain: "list_all is_lower_hex s \<Longrightarrow> json_plain s"
proof (unfold json_plain_def, erule list.pred_mono_strong)
  fix c assume "is_lower_hex c"
  then have "valid_id_char c"
    by (auto simp: is_lower_hex_def valid_id_char_def is_lower_def char_in_def less_eq_char_def)
  then show "json_plain_char c" by (rule id_char_plain)
qed

lemma full_handoff_id_hex: "full_handoff_id i \<longleftrightarrow> hex_string 32 i"
proof -
  have "c \<in> set ''0123456789abcdef'' \<longleftrightarrow> is_lower_hex c" for c
  proof
    assume "is_lower_hex c"
    define n where "n = (of_char c :: nat)"
    have "c = char_of n" by (simp add: n_def)
    moreover have "n \<in> {48..<58} \<union> {97..<103}"
      using \<open>is_lower_hex c\<close> by (auto simp: n_def is_lower_hex_def is_digit_def char_in_def less_eq_char_def)
    then have "n \<in> set ([48..<58] @ [97..<103])" unfolding set_append set_upt .
    ultimately have "c \<in> char_of ` set ([48..<58] @ [97..<103])" by blast
    moreover have "char_of ` set ([48..<58] @ [97..<103]) = set ''0123456789abcdef''" by code_simp
    ultimately show "c \<in> set ''0123456789abcdef''" by blast
  qed (auto simp: is_lower_hex_def is_digit_def char_in_def less_eq_char_def)
  then show ?thesis by (simp add: full_handoff_id_def hex_string_def)
qed

end
