(* ===== verification/ManagedState.thy ===== *)
theory ManagedState
  imports PierStore Epochs Handoff HostPolicy
begin

text \<open>
  The private runtime record of a registered ship: \<open>ManagedState\<close> and what it embeds
  (\<open>internal/runtimequalify/managed.go\<close>, \<open>result.go\<close>), and the predicates over it that admission,
  startup and reconciliation read (\<open>managed.go\<close>, \<open>boot_admission.go\<close>, \<open>startup.go\<close>,
  \<open>compatibility.go\<close>, \<open>import_restore.go\<close>).

  The type variable \<open>'x\<close> stands for evidence of the file system and of past runs that the
  modelled code stores and compares but never looks into (inventories of files, logs, phases); a pointer to such evidence is \<open>'x option\<close>.
\<close>

section \<open>Resources of a run\<close>

record container_state =
  st_launch_error :: string
  st_observed :: gotime
  st_running :: bool
  st_paused :: bool
  st_restarting :: bool
  st_dead :: bool
  st_oom :: bool
  st_exit :: int

record container_record =
  cn_engine :: string
  cn_loom :: u8
  cn_native :: bool
  cn_name :: string
  cn_id :: string
  cn_kind :: string
  cn_minutes :: u32
  cn_removed :: bool
  cn_dispatched :: bool
  cn_uncertain :: bool
  cn_alive :: bool
  cn_reachable :: bool
  cn_endpoint :: string
  cn_verified :: bool
  cn_last :: "container_state option"

record network_record =
  nw_name :: string
  nw_id :: string
  nw_removed :: bool
  nw_dispatched :: bool
  nw_uncertain :: bool

record 'x prune_record =
  pk_started :: gotime
  pk_finished :: "gotime option"
  pk_before :: "inventory option"
  pk_cutoff :: string
  pk_directory :: 'x
  pk_files :: "'x slice"
  pk_removed_files :: "string slice"
  pk_epoch_removed :: bool
  pk_after :: "inventory option"
  pk_restart :: "inventory option"
  pk_uncertain :: bool

record 'x epoch_deletion =
  ed_name :: string
  ed_directory :: 'x
  ed_files :: "'x slice"
  ed_removed_files :: "string slice"
  ed_removed :: bool

record 'x prefix_prune =
  pp_started :: gotime
  pp_finished :: "gotime option"
  pp_before :: "inventory option"
  pp_cutoff :: string
  pp_targets :: "'x epoch_deletion slice"
  pp_after :: "inventory option"
  pp_restart :: "inventory option"
  pp_recovery :: "'x option"
  pp_uncertain :: bool

record 'x run_result =
  rr_stage :: string
  rr_logs :: "'x option"
  rr_profile :: string
  rr_run :: string
  rr_directory :: string
  rr_report :: string
  rr_checkpoint :: bool
  rr_qualified :: bool
  rr_cleaned :: bool
  rr_phases :: "'x slice"
  rr_containers :: "container_record slice"
  rr_network :: "network_record option"
  rr_image :: string
  rr_image_id :: string
  rr_repo :: string
  rr_platform :: string
  rr_engine :: string
  rr_vere :: string
  rr_pill_url :: string
  rr_pill_sha256 :: string
  rr_pill_bytes :: int
  rr_pill_path :: string
  rr_memory :: u64
  rr_disk :: u64
  rr_limits :: bool
  rr_metadata :: bool
  rr_meld :: "'x option"
  rr_lifecycle :: "'x option"
  rr_prune :: "'x prune_record option"
  rr_recovery :: "'x option"
  rr_prefix_prunes :: "'x slice"
  rr_import :: "'x option"
  rr_comet :: "'x option"
  rr_utilities :: "'x slice"
  rr_final_epochs :: "inventory option"
  rr_failure :: string

text \<open>\<open>Result{}\<close>\<close>

definition zero_result :: "'x run_result" where
  "zero_result = \<lparr>rr_stage = '''', rr_logs = None, rr_profile = '''', rr_run = '''', rr_directory = '''',
     rr_report = '''', rr_checkpoint = False, rr_qualified = False, rr_cleaned = False, rr_phases = NilSlice,
     rr_containers = NilSlice, rr_network = None, rr_image = '''', rr_image_id = '''', rr_repo = '''',
     rr_platform = '''', rr_engine = '''', rr_vere = '''', rr_pill_url = '''', rr_pill_sha256 = '''',
     rr_pill_bytes = 0, rr_pill_path = '''', rr_memory = 0, rr_disk = 0, rr_limits = False, rr_metadata = False,
     rr_meld = None, rr_lifecycle = None, rr_prune = None, rr_recovery = None, rr_prefix_prunes = NilSlice,
     rr_import = None, rr_comet = None, rr_utilities = NilSlice, rr_final_epochs = None, rr_failure = ''''\<rparr>"

section \<open>The runtime record\<close>

record external_source =
  es_path :: string
  es_fingerprint :: string
  es_identity :: pier_identity
  es_bytes :: int
  es_files :: int

text \<open>\<open>rw_evidence\<close>: the version, the parent directories and the two trees of the review.\<close>

record 'x restore_review =
  rw_runtime :: string
  rw_original :: string
  rw_source :: external_source
  rw_destination :: string
  rw_retained :: string
  rw_digest :: string
  rw_evidence :: 'x

record 'x restore_journal =
  rj_stage :: string
  rj_review :: "'x restore_review"

record 'x import_restore =
  ir_digest :: string
  ir_journal :: "'x restore_journal option"

record startup_intent =
  su_container :: string
  su_unclean :: bool

record 'x deletion =
  dl_stage :: string
  dl_mount :: directory_identity
  dl_tree :: "'x option"

record import_event =
  ie_stage :: string
  ie_at :: gotime

record external_import =
  xi_identify :: bool
  xi_events :: "import_event slice"
  xi_files :: int
  xi_bytes :: int
  xi_source :: external_source
  xi_stage :: string
  xi_held :: string

record managed_boot =
  mb_pill :: "boot_pill option"

record adoption =
  ad_fingerprint :: string
  ad_uncertain :: bool
  ad_verified :: bool
  ad_finished :: "gotime option"

record managed_fake =
  mf_ship :: string
  mf_uncertain :: bool

record managed_comet =
  mc_ship :: string
  mc_started :: "gotime option"
  mc_finished :: "gotime option"
  mc_uncertain :: bool

record import_source =
  is_run :: string
  is_digest :: string
  is_files :: int
  is_bytes :: int
  is_ship :: string
  is_qualified :: gotime
  is_claimed :: string

record managed_import =
  mi_source :: import_source
  mi_started :: "gotime option"
  mi_finished :: "gotime option"
  mi_files :: int
  mi_bytes :: int
  mi_uncertain :: bool

record prune_intent =
  pn_cutoff :: string
  pn_digest :: string
  pn_confirmed :: bool

text \<open>\<open>ManagedMaintenance\<close> and \<open>protocol.MaintenanceReport\<close> have the same fields.\<close>

record maintenance =
  mt_kind :: string
  mt_before :: int
  mt_after :: int
  mt_started :: gotime
  mt_finished :: "gotime option"
  mt_memory :: u64
  mt_disk :: u64
  mt_epochs_before :: "string slice"
  mt_epochs_after :: "string slice"
  mt_created :: string

record routine_run =
  rn_policy :: string
  rn_revision :: u64
  rn_slot :: gotime
  rn_deadline :: gotime
  rn_action :: string
  rn_stop :: bool
  rn_resume :: bool
  rn_was_running :: bool
  rn_stage :: string
  rn_started :: "gotime option"
  rn_finished :: "gotime option"
  rn_succeeded :: bool

record 'x managed_state =
  vm_restore :: "'x import_restore option"
  vm_loom :: u8
  vm_native :: bool
  vm_startup :: "startup_intent option"
  vm_deletion :: "'x deletion option"
  vm_external :: "external_import option"
  vm_bootstrap :: "bootstrap option"
  vm_handoff :: "handoff option"
  vm_signing :: "u8 slice"
  vm_staging :: "'x option"
  vm_id :: string
  vm_port :: u16
  vm_prepared :: bool
  vm_initialized :: bool
  vm_runtime :: "'x run_result"
  vm_maintenance_uncertain :: bool
  vm_maintenance :: "maintenance option"
  vm_epochs :: "inventory option"
  vm_roll_needs :: bool
  vm_prune_intent :: "prune_intent option"
  vm_prefix_prune :: "'x prefix_prune option"
  vm_import :: "managed_import option"
  vm_comet :: "managed_comet option"
  vm_routine :: "routine_run option"
  vm_fake :: "managed_fake option"
  vm_storage :: "location option"
  vm_move :: string
  vm_adoption :: "adoption option"
  vm_native_ship :: string
  vm_key_digest :: string
  vm_boot :: "managed_boot option"
  vm_ames :: u16

text \<open>\<open>ManagedState{ID: id, Port: port, Loom: loom, NativeControl: native}\<close>\<close>

definition new_managed :: "string \<Rightarrow> u16 \<Rightarrow> u8 \<Rightarrow> bool \<Rightarrow> 'x managed_state" where
  "new_managed uuid port loom native = \<lparr>vm_restore = None, vm_loom = loom, vm_native = native, vm_startup = None,
     vm_deletion = None, vm_external = None, vm_bootstrap = None, vm_handoff = None, vm_signing = NilSlice,
     vm_staging = None, vm_id = uuid, vm_port = port, vm_prepared = False, vm_initialized = False,
     vm_runtime = zero_result, vm_maintenance_uncertain = False, vm_maintenance = None, vm_epochs = None,
     vm_roll_needs = False, vm_prune_intent = None, vm_prefix_prune = None, vm_import = None, vm_comet = None,
     vm_routine = None, vm_fake = None, vm_storage = None, vm_move = '''', vm_adoption = None,
     vm_native_ship = '''', vm_key_digest = '''', vm_boot = None, vm_ames = 0\<rparr>"

abbreviation vm_containers :: "'x managed_state \<Rightarrow> container_record list" where
  "vm_containers s \<equiv> items (rr_containers (vm_runtime s))"

abbreviation vm_fenced :: "'x managed_state \<Rightarrow> bool" where
  "vm_fenced s \<equiv> fenced (vm_handoff s)"

section \<open>Predicates\<close>

text \<open>\<open>pierstore.Fingerprint\<close>\<close>

definition pier_fingerprint :: "pier_identity \<Rightarrow> string" where
  "pier_fingerprint i = sha256_hex (join_with CHR '':'' [dec (unat (pi_device i)), dec (unat (pi_inode i)),
     dec (unat (pi_urb_device i)), dec (unat (pi_urb_inode i)), pi_birth i, pi_urb_birth i])"

text \<open>\<open>^~[a-z]{6}(-[a-z]{6}){3}--[a-z]{6}(-[a-z]{6}){3}$\<close>\<close>

definition comet_name :: "string \<Rightarrow> bool" where
  "comet_name s \<longleftrightarrow> has_prefix s ''~'' \<and> (let words = split_on CHR ''-'' (drop 1 s)
     in length words = 9 \<and> words ! 4 = ''''
        \<and> list_all (\<lambda>w. length w = 6 \<and> list_all is_lower w) (take 4 words @ drop 5 words))"

definition network_identity_valid :: "'x managed_state \<Rightarrow> bool" where
  "network_identity_valid s = (case vm_comet s of None \<Rightarrow> False | Some c \<Rightarrow>
     (vm_native_ship s \<noteq> '''' \<and> mc_ship c = vm_native_ship s \<and> valid_fake_ship (vm_native_ship s))
     \<or> (vm_native_ship s = '''' \<and> comet_name (mc_ship c)))"

definition maintenance_qualified :: "'x managed_state \<Rightarrow> bool" where
  "maintenance_qualified s \<longleftrightarrow> \<not> (\<not> vm_initialized s \<or> (case vm_adoption s of None \<Rightarrow> False | Some a \<Rightarrow> \<not> ad_verified a))
     \<and> (case vm_comet s of None \<Rightarrow> True | Some c \<Rightarrow> \<not> mc_uncertain c \<and> network_identity_valid s
          \<and> (case (mc_started c, mc_finished c) of
               (Some started, Some finished) \<Rightarrow> \<not> is_zero started \<and> \<not> before finished started | _ \<Rightarrow> False))"

definition uncertain_provisioning :: "'x managed_state \<Rightarrow> bool" where
  "uncertain_provisioning s \<longleftrightarrow> vm_restore s \<noteq> None \<or> vm_deletion s \<noteq> None
     \<or> (case vm_external s of None \<Rightarrow> False | Some x \<Rightarrow> xi_stage x \<noteq> ''complete'')
     \<or> vm_fenced s
     \<or> (case vm_adoption s of None \<Rightarrow> False | Some a \<Rightarrow> ad_uncertain a \<or> ad_finished a = None)
     \<or> (case vm_storage s of None \<Rightarrow> False | Some l \<Rightarrow> lo_uncertain l)
     \<or> (case vm_fake s of None \<Rightarrow> False | Some f \<Rightarrow> mf_uncertain f)
     \<or> (case vm_import s of None \<Rightarrow> False | Some i \<Rightarrow> mi_uncertain i \<or> mi_finished i = None \<or> \<not> vm_initialized s)
     \<or> (case vm_comet s of None \<Rightarrow> False | Some c \<Rightarrow> mc_uncertain c
          \<or> mc_started c \<noteq> None \<and> (mc_finished c = None \<or> \<not> vm_initialized s \<or> \<not> network_identity_valid s))"

definition uncertain_maintenance :: "'x managed_state \<Rightarrow> bool" where
  "uncertain_maintenance s \<longleftrightarrow> vm_maintenance_uncertain s
     \<or> (case rr_prune (vm_runtime s) of None \<Rightarrow> False | Some p \<Rightarrow> pk_uncertain p \<or> pk_finished p = None)
     \<or> (case vm_prefix_prune s of None \<Rightarrow> False | Some p \<Rightarrow> pp_uncertain p \<or> pp_finished p = None)"

definition external_in_flight :: "'x managed_state \<Rightarrow> bool" where
  "external_in_flight s =
     (if vm_restore s \<noteq> None then True
      else case vm_external s of None \<Rightarrow> False | Some x \<Rightarrow>
        if xi_stage x = ''complete'' then False
        else if xi_stage x = ''reviewed'' \<and> xi_held x = '''' then False
        else if xi_stage x = ''enrolling''
                \<and> (case vm_storage s of None \<Rightarrow> False | Some l \<Rightarrow> pi_inode (lo_identity l) \<noteq> 0) then False
        else True)"

text \<open>Finished enrollment evidence read as a recovery proposal; \<open>None\<close> where it is not complete.\<close>

definition legacy_completion :: "'x managed_state \<Rightarrow> 'x managed_state option" where
  "legacy_completion s =
     (case vm_adoption s of None \<Rightarrow> None | Some a \<Rightarrow>
      case ad_finished a of None \<Rightarrow> None | Some adopted \<Rightarrow>
        if \<not> vm_prepared s \<or> \<not> vm_initialized s \<or> ad_uncertain a \<or> ad_verified a \<or> is_zero adopted then None
        else let out = s\<lparr>vm_adoption := Some (a\<lparr>ad_uncertain := True, ad_finished := None\<rparr>), vm_initialized := False\<rparr>
        in case vm_comet s of None \<Rightarrow> Some out | Some c \<Rightarrow>
          (case (mc_started c, mc_finished c) of
             (Some started, Some finished) \<Rightarrow>
               if mc_uncertain c \<or> \<not> network_identity_valid s \<or> is_zero started \<or> is_zero finished
                  \<or> before finished started \<or> before adopted finished then None
               else Some (out\<lparr>vm_comet := Some (c\<lparr>mc_started := None, mc_finished := None\<rparr>)\<rparr>)
           | _ \<Rightarrow> None))"

definition idle_comet :: "'x managed_state \<Rightarrow> bool" where
  "idle_comet s = (case vm_comet s of None \<Rightarrow> True
     | Some c \<Rightarrow> \<not> mc_uncertain c \<and> mc_started c = None \<and> mc_finished c = None)"

definition certain_fake :: "'x managed_state \<Rightarrow> bool" where
  "certain_fake s = (case vm_fake s of None \<Rightarrow> True | Some f \<Rightarrow> \<not> mf_uncertain f)"

definition recovery_publication :: "'x managed_state \<Rightarrow> bool" where
  "recovery_publication s = (case vm_boot s of None \<Rightarrow> True | Some b \<Rightarrow> mb_pill b = None
     \<and> (case vm_comet s of None \<Rightarrow> False | Some c \<Rightarrow> vm_native_ship s = mc_ship c)
     \<and> network_identity_valid s \<and> vm_ames s \<ge> 1024)"

definition import_recovery_eligible :: "'x managed_state \<Rightarrow> bool" where
  "import_recovery_eligible s0 =
     (if vm_restore s0 \<noteq> None then False
      else case (if vm_initialized s0 then legacy_completion s0 else Some s0) of None \<Rightarrow> False | Some s \<Rightarrow>
        (case (vm_external s, vm_storage s, vm_adoption s) of
           (Some x, Some l, Some a) \<Rightarrow>
             xi_stage x = ''enrolling'' \<and> (vm_prepared s \<or> vm_runtime s = zero_result) \<and> \<not> vm_initialized s
             \<and> \<not> lo_uncertain l \<and> pi_inode (lo_identity l) \<noteq> 0 \<and> pi_urb_inode (lo_identity l) \<noteq> 0
             \<and> di_inode (lo_mount l) \<noteq> 0 \<and> ad_uncertain a \<and> \<not> ad_verified a \<and> ad_finished a = None
             \<and> ad_fingerprint a = pier_fingerprint (lo_identity l)
             \<and> \<not> vm_fenced s \<and> vm_deletion s = None \<and> \<not> uncertain_maintenance s
             \<and> vm_import s = None \<and> vm_bootstrap s = None \<and> recovery_publication s \<and> vm_key_digest s = ''''
             \<and> vm_move s = '''' \<and> certain_fake s \<and> idle_comet s
             \<and> vm_containers s = [] \<and> rr_network (vm_runtime s) = None
         | _ \<Rightarrow> False))"

definition import_restore_eligible :: "'x managed_state \<Rightarrow> bool" where
  "import_restore_eligible s =
     (case (vm_external s, vm_storage s, vm_adoption s) of
        (Some x, Some l, Some a) \<Rightarrow>
          xi_stage x \<in> {''copying'', ''verifying''} \<and> valid_id (vm_id s) \<and> \<not> vm_prepared s \<and> \<not> vm_initialized s
          \<and> vm_runtime s = zero_result \<and> \<not> lo_uncertain l \<and> di_inode (lo_mount l) \<noteq> 0 \<and> lo_identity l = no_pier
          \<and> ad_uncertain a \<and> \<not> ad_verified a \<and> ad_finished a = None \<and> ad_fingerprint a = es_fingerprint (xi_source x)
          \<and> \<not> vm_fenced s \<and> vm_staging s = None \<and> vm_startup s = None \<and> vm_routine s = None
          \<and> vm_deletion s = None \<and> \<not> uncertain_maintenance s \<and> vm_import s = None \<and> vm_bootstrap s = None
          \<and> vm_key_digest s = '''' \<and> vm_move s = '''' \<and> certain_fake s \<and> idle_comet s
      | _ \<Rightarrow> False)"

text \<open>\<open>filepath.Base\<close>\<close>

definition path_base :: "string \<Rightarrow> string" where
  "path_base p =
     (if p = '''' then ''.''
      else let q = rev (dropWhile (\<lambda>c. c = CHR ''/'') (rev p))
      in if q = '''' then ''/'' else last (split_on CHR ''/'' q))"

section \<open>A first boot that was never dispatched\<close>

definition create_undispatched :: "container_record \<Rightarrow> bool" where
  "create_undispatched r \<longleftrightarrow> \<not> cn_dispatched r \<and> \<not> cn_uncertain r \<and> cn_id r = '''' \<and> cn_last r = None
     \<and> \<not> cn_alive r \<and> \<not> cn_reachable r \<and> cn_endpoint r = '''' \<and> \<not> cn_verified r"

abbreviation profile_http :: string where "profile_http \<equiv> ''host-http''"
abbreviation profile_comet :: string where "profile_comet \<equiv> ''fresh-comet-bootstrap''"
abbreviation snapshot_minutes :: u32 where "snapshot_minutes \<equiv> 60"

definition manifest_digest :: string where
  "manifest_digest = ''sha256:47fbcf0710ded939931ce3c6408864cee5e8848c5765da0b51a90ca0b1ab1afd''"

definition config_digest :: string where
  "config_digest = ''sha256:d6cc5107ed7fa92174e336af9c7f25ee433073bd9961e1c3ed23a225b866b245''"

definition vere_image :: string where
  "vere_image = ''docker.io/tloncorp/vere@'' @ manifest_digest"

text \<open>The instance holds nothing but a prepared, untouched workspace.\<close>

definition untouched_workspace :: "'x managed_state \<Rightarrow> bool" where
  "untouched_workspace s \<longleftrightarrow> hex_string 32 (vm_id s) \<and> vm_prepared s \<and> \<not> vm_initialized s
     \<and> \<not> uncertain_provisioning s \<and> \<not> uncertain_maintenance s
     \<and> (case vm_storage s of None \<Rightarrow> False | Some l \<Rightarrow> valid_path (lo_path l) \<and> di_inode (lo_mount l) \<noteq> 0 \<and> lo_identity l = no_pier)
     \<and> vm_adoption s = None \<and> vm_external s = None \<and> vm_import s = None \<and> vm_handoff s = None \<and> vm_staging s = None
     \<and> vm_maintenance s = None \<and> vm_routine s = None \<and> vm_startup s = None \<and> vm_move s = '''' \<and> \<not> vm_roll_needs s
     \<and> vm_prune_intent s = None \<and> vm_prefix_prune s = None \<and> vm_epochs s = None"

definition boot_identity_unused :: "'x managed_state \<Rightarrow> bool" where
  "boot_identity_unused s = (case vm_comet s of
     Some c \<Rightarrow> \<not> (mc_started c \<noteq> None \<or> mc_finished c \<noteq> None \<or> vm_fake s \<noteq> None
       \<or> vm_native_ship s = '''' \<and> (mc_ship c \<noteq> '''' \<or> vm_key_digest s \<noteq> '''')
       \<or> vm_native_ship s \<noteq> '''' \<and> (mc_ship c \<noteq> vm_native_ship s \<or> \<not> valid_fake_ship (vm_native_ship s)
            \<or> \<not> hex_string 64 (vm_key_digest s)))
   | None \<Rightarrow> \<not> (vm_native_ship s \<noteq> '''' \<or> vm_key_digest s \<noteq> '''' \<or> vm_boot s \<noteq> None
       \<or> (case vm_fake s of None \<Rightarrow> False | Some f \<Rightarrow> \<not> valid_fake_ship (mf_ship f))))"

definition boot_storage_kind :: "'x managed_state \<Rightarrow> string" where
  "boot_storage_kind s = (if vm_comet s = None then ''fake''
     else if vm_native_ship s \<noteq> '''' then ship_class (vm_native_ship s) else ''comet'')"

definition boot_prefix :: "'x managed_state \<Rightarrow> string" where
  "boot_prefix s = (if vm_comet s = None then ''urbit-managed-fake-'' else ''urbit-managed-comet-'')"

definition boot_container_kind :: "'x managed_state \<Rightarrow> string" where
  "boot_container_kind s = (if vm_comet s = None then ''http-boot'' else ''comet-boot'')"

definition fresh_result :: "'x managed_state \<Rightarrow> bool" where
  "fresh_result s \<longleftrightarrow> (let r = vm_runtime s in
     rr_run r = vm_id s \<and> rr_profile r = (if vm_comet s = None then profile_http else profile_comet)
     \<and> clean_absolute (rr_directory r) \<and> path_base (rr_directory r) = vm_id s
     \<and> rr_stage r \<in> {''preparing-runtime'', ''preparing-pill''}
     \<and> rr_platform r = ''linux/amd64'' \<and> rr_image r = vere_image \<and> rr_vere r = ''4.6-5a7614f''
     \<and> rr_image_id r \<in> {config_digest, manifest_digest}
     \<and> rr_repo r \<in> {vere_image, trim_prefix vere_image ''docker.io/''}
     \<and> recorded_engine_version (rr_engine r) \<and> rr_limits r \<and> \<not> rr_metadata r \<and> \<not> rr_checkpoint r \<and> \<not> rr_qualified r
     \<and> rr_report r = '''' \<and> \<not> rr_cleaned r \<and> rr_failure r = '''' \<and> items (rr_phases r) = [] \<and> rr_logs r = None
     \<and> rr_meld r = None \<and> rr_prune r = None \<and> rr_recovery r = None \<and> rr_lifecycle r = None
     \<and> items (rr_prefix_prunes r) = [] \<and> rr_import r = None \<and> rr_comet r = None
     \<and> items (rr_utilities r) = [] \<and> rr_final_epochs r = None
     \<and> valid_recorded_loom (effective_loom (vm_loom s)) \<and> length (vm_containers s) = 2)"

definition fresh_network :: "'x managed_state \<Rightarrow> bool" where
  "fresh_network s = (case rr_network (vm_runtime s) of None \<Rightarrow> False | Some n \<Rightarrow>
     nw_name n = boot_prefix s @ vm_id s @ ''-http'' \<and> \<not> nw_removed n \<and> nw_dispatched n \<and> \<not> nw_uncertain n
     \<and> hex_string 64 (nw_id n))"

definition finished_probe :: "'x managed_state \<Rightarrow> container_record \<Rightarrow> bool" where
  "finished_probe s probe \<longleftrightarrow> cn_kind probe = ''probe'' \<and> cn_name probe = boot_prefix s @ vm_id s @ ''-probe''
     \<and> cn_removed probe \<and> cn_dispatched probe \<and> \<not> cn_uncertain probe \<and> hex_string 64 (cn_id probe)
     \<and> recorded_engine_version (cn_engine probe)
     \<and> (case cn_last probe of None \<Rightarrow> False | Some l \<Rightarrow> \<not> is_zero (st_observed l) \<and> \<not> st_running l \<and> \<not> st_paused l
          \<and> \<not> st_restarting l \<and> \<not> st_dead l \<and> \<not> st_oom l \<and> st_launch_error l = '''')"

definition undispatched_boot :: "'x managed_state \<Rightarrow> container_record \<Rightarrow> bool" where
  "undispatched_boot s boot \<longleftrightarrow> cn_kind boot = boot_container_kind s
     \<and> cn_name boot = boot_prefix s @ vm_id s @ ''-'' @ boot_container_kind s \<and> \<not> cn_removed boot
     \<and> recorded_engine_version (cn_engine boot) \<and> create_undispatched boot
     \<and> cn_minutes boot = snapshot_minutes \<and> cn_loom boot = effective_loom (vm_loom s) \<and> cn_native boot = vm_native s"

definition undispatched_initial_boot :: "'x managed_state \<Rightarrow> bool" where
  "undispatched_initial_boot s \<longleftrightarrow> untouched_workspace s \<and> boot_identity_unused s
     \<and> boot_storage_kind s \<noteq> '''' \<and> (case vm_storage s of None \<Rightarrow> False | Some l \<Rightarrow> pier_kind (lo_path l) = boot_storage_kind s)
     \<and> fresh_result s \<and> fresh_network s
     \<and> finished_probe s (vm_containers s ! 0) \<and> undispatched_boot s (vm_containers s ! 1)"

section \<open>Startup\<close>

definition startup_container_ok :: "'x managed_state \<Rightarrow> container_record \<Rightarrow> bool" where
  "startup_container_ok s c \<longleftrightarrow> (if vm_comet s = None then cn_kind c \<in> {''http-boot'', ''http-restart''}
       else cn_kind c \<in> {''comet-boot'', ''comet-resume''})
     \<and> cn_dispatched c \<and> hex_string 64 (cn_id c) \<and> cn_verified c"

definition startup_resume_candidate :: "'x managed_state \<Rightarrow> bool" where
  "startup_resume_candidate s \<longleftrightarrow> vm_prepared s \<and> maintenance_qualified s \<and> \<not> uncertain_provisioning s
     \<and> \<not> uncertain_maintenance s \<and> \<not> vm_roll_needs s \<and> vm_prune_intent s = None
     \<and> \<not> (case vm_routine s of None \<Rightarrow> False | Some r \<Rightarrow> rn_finished r = None)
     \<and> (case rr_network (vm_runtime s) of None \<Rightarrow> False
        | Some n \<Rightarrow> \<not> nw_removed n \<and> \<not> nw_uncertain n \<and> nw_dispatched n \<and> hex_string 64 (nw_id n))
     \<and> list_all (\<lambda>c. \<not> cn_uncertain c \<and> (cn_removed c \<or> startup_container_ok s c)) (vm_containers s)
     \<and> length (filter (\<lambda>c. \<not> cn_removed c) (vm_containers s)) = 1"

definition settled_state :: "gotime \<Rightarrow> bool \<Rightarrow> container_state \<Rightarrow> bool" where
  "settled_state now unclean l \<longleftrightarrow> \<not> is_zero (st_observed l) \<and> \<not> time_sub now (st_observed l) > 30 * second
     \<and> \<not> after (st_observed l) (time_add now (5 * second)) \<and> \<not> st_running l \<and> \<not> st_paused l \<and> \<not> st_restarting l
     \<and> \<not> st_dead l \<and> (unclean \<or> \<not> st_oom l \<and> st_exit l = 0)"

record managed_cpu =
  pu_total :: u64
  pu_system :: u64
  pu_online :: u32

text \<open>\<open>'f\<close> is the type of the \<open>float64\<close> values, which are only copied and compared.\<close>

record 'f managed_resources =
  mo_container :: string
  mo_observed :: gotime
  mo_memory :: u64
  mo_limit :: u64
  mo_pids :: u64
  mo_cpu :: "(managed_cpu \<times> 'f) option"

record 'f observation_report =
  bo_state :: string
  bo_health :: string
  bo_endpoint :: string
  bo_recovery :: bool
  bo_resources :: "'f managed_resources option"

definition startup_resume_ready :: "gotime \<Rightarrow> 'x managed_state \<Rightarrow> 'f observation_report \<Rightarrow> bool" where
  "startup_resume_ready now s ob \<longleftrightarrow> startup_resume_candidate s \<and> bo_state ob \<in> {''stopped'', ''failed''}
     \<and> list_all (\<lambda>c. cn_removed c \<or>
          (case vm_startup s of None \<Rightarrow> True | Some i \<Rightarrow> su_container i = cn_id c)
          \<and> (case cn_last c of None \<Rightarrow> False
             | Some l \<Rightarrow> settled_state now (case vm_startup s of None \<Rightarrow> False | Some i \<Rightarrow> su_unclean i) l)) (vm_containers s)"

section \<open>Refused hosts\<close>

definition ended_badly :: "container_record \<Rightarrow> bool" where
  "ended_badly c = (case cn_last c of None \<Rightarrow> False | Some l \<Rightarrow> \<not> cn_removed c
     \<and> (\<not> st_running l \<or> st_paused l \<or> st_restarting l \<or> st_dead l \<or> st_oom l \<or> st_exit l \<noteq> 0 \<or> st_launch_error l \<noteq> ''''))"

definition recovery_on_compatibility :: "'x managed_state \<Rightarrow> bool \<Rightarrow> bool" where
  "recovery_on_compatibility s prior \<longleftrightarrow> prior \<or> uncertain_maintenance s \<or> uncertain_provisioning s
     \<or> (case rr_network (vm_runtime s) of None \<Rightarrow> False | Some n \<Rightarrow> nw_uncertain n)
     \<or> list_ex (\<lambda>c. cn_uncertain c \<or> ended_badly c) (vm_containers s)"

end
