(* ===== verification/Ledger.thy ===== *)
theory Ledger
  imports ManagedState
begin

text \<open>
  The durable store of the runner (\<open>internal/managed/store.go\<close>, \<open>ports.go\<close>, \<open>storage.go\<close>): its
  tables, the faults its operations answer with, and the lookups, reservations and journal writes that
  every operation is built from.

  A table is the list of its rows in insertion order, holding decoded bodies; one call of an operation
  is one SQL transaction, so an operation is a function from the tables to a fault (rolled back) or a
  result and the new tables. Failures of the database itself are not modelled. Random identifiers,
  clocks, probes of the host and the tables of the project and handoff packages, which these operations
  only read, come from the environment.
\<close>

section \<open>Faults\<close>

text \<open>\<open>Problem status code message revision\<close> is a \<open>*fault\<close>; any other error is \<open>Broken\<close>: the server
  stops accepting mutations.\<close>

datatype fault =
    Problem (fault_status: nat) (fault_code: string) (fault_message: string) (fault_revision: "u64 option")
  | Broken string

definition conflict :: "string \<Rightarrow> string \<Rightarrow> fault" where
  "conflict code message = Problem 409 code message None"

definition bad :: "string \<Rightarrow> fault" where
  "bad message = Problem 400 ''invalid_request'' message None"

definition revision_conflict :: "u64 \<Rightarrow> fault" where
  "revision_conflict current = Problem 409 ''revision_conflict'' ''configuration changed; inspect a fresh snapshot'' (Some current)"

text \<open>A straight line of checks: the first one that is met refuses.\<close>

fun refuse :: "(bool \<times> fault) list \<Rightarrow> fault option" where
  "refuse [] = None"
| "refuse ((b, f) # cs) = (if b then Some f else refuse cs)"

lemma refuse_None [simp]: "refuse cs = None \<longleftrightarrow> (\<forall>(b, f)\<in>set cs. \<not> b)"
  by (induction cs rule: refuse.induct) auto

section \<open>Public records\<close>

record configuration =
  cf_http :: u16
  cf_ames :: u16
  cf_loom :: u8
  cf_native :: bool

record 'f resource_metrics =
  rm_status :: string
  rm_source :: string
  rm_container :: string
  rm_observed :: "gotime option"
  rm_memory :: "u64 option"
  rm_limit :: "u64 option"
  rm_pids :: "u64 option"
  rm_percent :: "'f option"
  rm_cores :: "'f option"

record pruning_report =
  pr_cutoff :: string
  pr_digest :: string
  pr_started :: gotime
  pr_finished :: "gotime option"
  pr_removed_files :: nat
  pr_expected_files :: nat
  pr_epoch_removed :: bool
  pr_selected :: "string slice"
  pr_removed :: "string slice"
  pr_retained :: "string slice"
  pr_uncertain :: bool

record import_report =
  im_run :: string
  im_digest :: string
  im_files :: int
  im_bytes :: int
  im_expected_files :: int
  im_expected_bytes :: int
  im_started :: "gotime option"
  im_finished :: "gotime option"
  im_uncertain :: bool

record restore_result =
  re_source :: string
  re_restore_to :: string
  re_destination :: string
  re_retain_at :: string
  re_digest :: string

text \<open>The stored fields of \<open>protocol.Instance\<close>; the others are filled in by a snapshot.\<close>

record 'f public_instance =
  in_delete_pending :: bool
  in_bootstrap :: "bootstrap option"
  in_handoff :: "handoff option"
  in_id :: string
  in_label :: string
  in_config :: configuration
  in_revision :: u64
  in_applied :: u64
  in_desired :: string
  in_observed :: string
  in_active :: string
  in_mode :: string
  in_ship :: string
  in_pier_name :: string
  in_pier_path :: string
  in_ames_published :: bool
  in_identity_pending :: bool
  in_endpoint :: string
  in_health :: string
  in_recovery :: bool
  in_observed_at :: "gotime option"
  in_maintenance :: "maintenance option"
  in_resources :: "'f resource_metrics option"
  in_epochs :: "inventory option"
  in_roll_needs :: bool
  in_pruning :: "pruning_report option"
  in_import :: "import_report option"
  in_routine :: "routine_run option"

record operation =
  op_project :: string
  op_restoration :: "restore_result option"
  op_id :: string
  op_request :: string
  op_instance :: string
  op_kind :: string
  op_actor :: string
  op_status :: string
  op_revision :: u64
  op_created :: gotime
  op_finished :: "gotime option"
  op_message :: string

record 'f cpu_baseline =
  cb_container :: string
  cb_observed :: gotime
  cb_counters :: "managed_cpu \<times> 'f"

record startup_state =
  ss_healthy :: string
  ss_container :: string
  ss_revision :: u64
  ss_pending :: string
  ss_unclean :: bool

record ('x, 'f) stored_instance =
  sv_public :: "'f public_instance"
  sv_runtime :: "'x managed_state"
  sv_runtime_revision :: u64
  sv_runtime_config :: u64
  sv_cpu :: "'f cpu_baseline option"
  sv_startup :: "startup_state option"

section \<open>Requests\<close>

record create_request =
  cq_bootstrap :: "bootstrap option"
  cq_id :: string
  cq_label :: string
  cq_config :: configuration
  cq_request :: string
  cq_fake_ship :: string
  cq_pier_name :: string
  cq_pier_path :: string

record configure_request =
  gq_expected :: u64
  gq_config :: configuration
  gq_preserve :: bool

record operation_request =
  oq_confirm_restore :: bool
  oq_restore_digest :: string
  oq_confirm_delete :: bool
  oq_request :: string
  oq_kind :: string
  oq_expected :: u64
  oq_cutoff :: string
  oq_digest :: string
  oq_confirm_loss :: bool
  oq_pier_path :: string

text \<open>The key of a \<open>CreateShipRequest\<close> is cleared before anything is stored.\<close>

record ship_request =
  sq_id :: string
  sq_label :: string
  sq_ship :: string
  sq_path :: string
  sq_config :: configuration
  sq_request :: string
  sq_key :: string
  sq_confirm :: bool
  sq_pill :: "boot_pill option"

record enroll_request =
  eq_id :: string
  eq_label :: string
  eq_ship :: string
  eq_path :: string
  eq_fingerprint :: string
  eq_http :: u16
  eq_request :: string
  eq_stopped :: bool
  eq_relink :: bool
  eq_expected :: u64

record receive_request =
  vq_offer :: handoff
  vq_http :: u16
  vq_ames :: u16
  vq_request :: string

record finish_request =
  fq_commitment :: string
  fq_sha256 :: string
  fq_request :: string
  fq_expected :: u64

text \<open>
  The text that identifies the input of a request. The code compares JSON documents: a document is
  represented by the constructor of its kind and the marshalled value (\<open>handoffFingerprint\<close> by the value
  it digests).
\<close>

datatype fingerprint =
    RegisterFake create_request
  | ImportFake create_request string string
  | RegisterComet create_request
  | Operate string operation_request
  | Configure string configure_request
  | RoutinePolicy string
  | RoutineSlot string gotime
  | StartupResume string string
  | RegisterShip ship_request string
  | EnrollPier enroll_request
  | ImportPier enroll_request string bool
  | HandoffWork string string
  | ReserveHandoff receive_request
  | ActivateHandoff string finish_request

section \<open>Tables\<close>

text \<open>\<open>ow_receipt\<close> is the receipt of a \<open>handoffReceiptOperation\<close>: the answered status and handoff.\<close>

record 'x op_row =
  ow_op :: operation
  ow_fingerprint :: fingerprint
  ow_runtime :: "'x managed_state option"
  ow_receipt :: "(nat \<times> handoff) option"

text \<open>\<open>sr_slot\<close> is \<open>LastSlot\<close>, kept in \<open>sr_policy\<close>.\<close>

record stored_policy =
  sr_id :: string
  sr_instance :: string
  sr_revision :: u64
  sr_instance_revision :: u64
  sr_owner :: string
  sr_policy :: routine_policy
  sr_last_op :: string

record tombstone =
  ts_op :: string
  ts_revision :: u64

record ('x, 'f) tables =
  tb_instances :: "(string \<times> ('x, 'f) stored_instance) list"
  tb_operations :: "'x op_row list"
  tb_policies :: "(string \<times> stored_policy) list"
  tb_deleted :: "(string \<times> tombstone) list"

text \<open>\<open>SELECT body FROM instances WHERE id=?\<close> with the checks of \<open>loadInstance\<close>.\<close>

definition load_instance :: "string \<Rightarrow> ('x, 'f) tables \<Rightarrow> fault + ('x, 'f) stored_instance" where
  "load_instance i db =
     (case map_of (tb_instances db) i of
        None \<Rightarrow> Inl (Problem 404 ''instance_not_found'' ''unknown registered instance'' None)
      | Some v \<Rightarrow>
          if in_id (sv_public v) \<noteq> i \<or> \<not> valid_id i \<or> in_revision (sv_public v) = 0 \<or> length (vm_id (sv_runtime v)) \<noteq> 32
          then Inl (Broken ''invalid stored instance'') else Inr v)"

definition save_instance :: "('x, 'f) stored_instance \<Rightarrow> ('x, 'f) tables \<Rightarrow> ('x, 'f) tables" where
  "save_instance v db = db\<lparr>tb_instances := map (\<lambda>(i, w). (i, if i = in_id (sv_public v) then v else w)) (tb_instances db)\<rparr>"

definition load_operation :: "string \<Rightarrow> ('x, 'f) tables \<Rightarrow> fault + 'x op_row" where
  "load_operation i db =
     (case find (\<lambda>r. op_id (ow_op r) = i) (tb_operations db) of None \<Rightarrow> Inl (Broken ''sql: no rows in result set'')
      | Some r \<Rightarrow> Inr r)"

definition save_operation :: "operation \<Rightarrow> ('x, 'f) tables \<Rightarrow> ('x, 'f) tables" where
  "save_operation op db = db\<lparr>tb_operations :=
     map (\<lambda>r. if op_id (ow_op r) = op_id op then r\<lparr>ow_op := op\<rparr> else r) (tb_operations db)\<rparr>"

definition find_receipt :: "string \<Rightarrow> string \<Rightarrow> ('x, 'f) tables \<Rightarrow> 'x op_row option" where
  "find_receipt actor request db =
     find (\<lambda>r. op_actor (ow_op r) = actor \<and> op_request (ow_op r) = request) (tb_operations db)"

text \<open>\<open>replay\<close>: \<open>None\<close> when the actor has no receipt of that request.\<close>

definition replay :: "string \<Rightarrow> string \<Rightarrow> fingerprint \<Rightarrow> ('x, 'f) tables \<Rightarrow> (fault + operation) option" where
  "replay actor request fp db =
     (case find_receipt actor request db of None \<Rightarrow> None
      | Some r \<Rightarrow> Some (if ow_fingerprint r \<noteq> fp
          then Inl (conflict ''request_conflict'' ''request_id already identifies different input for this actor'')
          else Inr (ow_op r)))"

text \<open>The primary key and the unique index on actor and request.\<close>

definition insert_operation :: "operation \<Rightarrow> fingerprint \<Rightarrow> ('x, 'f) tables \<Rightarrow> fault + ('x, 'f) tables" where
  "insert_operation op fp db =
     (if list_ex (\<lambda>r. op_id (ow_op r) = op_id op
          \<or> op_actor (ow_op r) = op_actor op \<and> op_request (ow_op r) = op_request op) (tb_operations db)
      then Inl (Broken ''UNIQUE constraint failed'')
      else Inr (db\<lparr>tb_operations := tb_operations db @ [\<lparr>ow_op = op, ow_fingerprint = fp, ow_runtime = None, ow_receipt = None\<rparr>]\<rparr>))"

definition insert_instance :: "string \<Rightarrow> ('x, 'f) stored_instance \<Rightarrow> ('x, 'f) tables \<Rightarrow> fault + ('x, 'f) tables" where
  "insert_instance i v db =
     (if i \<in> fst ` set (tb_instances db) then Inl (Broken ''UNIQUE constraint failed'')
      else Inr (db\<lparr>tb_instances := tb_instances db @ [(i, v)]\<rparr>))"

text \<open>\<open>instances\<close>: every row, in the order of the identifiers.\<close>

definition instances :: "('x, 'f) tables \<Rightarrow> fault + ('x, 'f) stored_instance list" where
  "instances db =
     (let rows = sort_key fst (tb_instances db)
      in if list_ex (\<lambda>(i, v). in_id (sv_public v) \<noteq> i \<or> \<not> valid_id i) rows
         then Inl (Broken ''invalid instance inventory'') else Inr (map snd rows))"

section \<open>Environment\<close>

text \<open>
  \<open>en_random n\<close> is the n-th read of 16 random bytes by a transaction, \<open>en_now n\<close> the n-th reading of
  the clock; \<open>en_storage\<close> is \<open>checkStorage\<close>, \<open>en_free\<close> the port probe, \<open>en_pill\<close> \<open>checkStagedPill\<close>,
  \<open>en_reserved\<close> and \<open>en_claims\<close> what the project tables reserve (\<open>projectReservations\<close>,
  \<open>projectStorageLocations\<close>), \<open>en_usage\<close> the floating-point \<open>cpuUsage\<close> and \<open>en_two\<close> the number 2.
\<close>

record 'f env =
  en_mode :: string
  en_boot :: string
  en_now :: "nat \<Rightarrow> gotime"
  en_random :: "nat \<Rightarrow> fault + (nat \<Rightarrow> u8)"
  en_storage :: "string \<Rightarrow> fault option"
  en_free :: "string \<Rightarrow> u16 \<Rightarrow> bool"
  en_pill :: "boot_pill option \<Rightarrow> fault option"
  en_reserved :: "fault + reservations"
  en_claims :: "fault + (string \<times> location) list"
  en_usage :: "'f cpu_baseline option \<Rightarrow> 'f cpu_baseline option \<Rightarrow> gotime \<Rightarrow> 'f option"
  en_two :: 'f

abbreviation development_mode :: string where "development_mode \<equiv> ''development-managed''"
abbreviation max_revision :: u64 where "max_revision \<equiv> 9223372036854775807"

definition random_id :: "'f env \<Rightarrow> nat \<Rightarrow> fault + string" where
  "random_id env n = (case en_random env n of Inl e \<Rightarrow> Inl e
     | Inr b \<Rightarrow> Inr (hex_bytes (map (\<lambda>k. unat (b k)) [0..<16])))"

lemma random_id_length: "random_id env n = Inr s \<Longrightarrow> length s = 32"
  by (auto simp: random_id_def hex_bytes_def length_concat comp_def sum_list_triv split: sum.splits)

section \<open>Reservations\<close>

definition validate_config :: "configuration \<Rightarrow> fault option" where
  "validate_config c =
     (if cf_http c < 1024 \<or> cf_ames c \<noteq> 34343 \<or> \<not> valid_loom (cf_loom c)
      then Some (bad ''development runtime requires HTTP port 1024..65535, loom 30..34, and guest Ames value 34343 (no host UDP publication)'')
      else None)"

definition validate_owned_config :: "configuration \<Rightarrow> fault option" where
  "validate_owned_config c =
     (if cf_http c < 1024 \<or> cf_ames c < 1024 \<or> \<not> valid_loom (cf_loom c)
      then Some (bad ''owned runtime requires unprivileged HTTP/Ames ports and loom 30..34'') else None)"

definition reserve_project_port :: "'f env \<Rightarrow> u16 \<Rightarrow> fault option" where
  "reserve_project_port env port = (case en_reserved env of Inl e \<Rightarrow> Some e
     | Inr r \<Rightarrow> if rv_ports r port then Some (conflict ''port_conflict'' ''HTTP port is reserved by a project member'') else None)"

definition port_holder :: "u16 \<Rightarrow> ('x, 'f) stored_instance \<Rightarrow> fault option" where
  "port_holder port v =
     (if cf_http (in_config (sv_public v)) = port
      then Some (conflict ''port_conflict'' ''HTTP port is reserved by another registered instance'')
      else if vm_port (sv_runtime v) = port \<and> list_ex (\<lambda>c. \<not> cn_removed c) (vm_containers (sv_runtime v))
      then Some (conflict ''port_conflict'' ''HTTP port is still assigned to another instance's runtime'')
      else None)"

text \<open>The first fault that a loop over the other instances meets.\<close>

fun first_fault :: "('a \<Rightarrow> fault option) \<Rightarrow> 'a list \<Rightarrow> fault option" where
  "first_fault f [] = None"
| "first_fault f (x # xs) = (case f x of Some e \<Rightarrow> Some e | None \<Rightarrow> first_fault f xs)"

lemma first_fault_None [simp]: "first_fault f xs = None \<longleftrightarrow> (\<forall>x\<in>set xs. f x = None)"
  by (induction xs) (auto split: option.splits)

definition other_instances :: "string \<Rightarrow> (('x, 'f) stored_instance \<Rightarrow> fault option) \<Rightarrow> ('x, 'f) tables \<Rightarrow> fault option" where
  "other_instances i f db = (case instances db of Inl e \<Rightarrow> Some e
     | Inr all \<Rightarrow> first_fault (\<lambda>v. if in_id (sv_public v) = i then None else f v) all)"

definition reserve_port :: "'f env \<Rightarrow> string \<Rightarrow> u16 \<Rightarrow> ('x, 'f) tables \<Rightarrow> fault option" where
  "reserve_port env i port db = (case reserve_project_port env port of Some e \<Rightarrow> Some e
     | None \<Rightarrow> other_instances i (port_holder port) db)"

definition reserve_ames :: "string \<Rightarrow> u16 \<Rightarrow> ('x, 'f) tables \<Rightarrow> fault option" where
  "reserve_ames i port db = other_instances i (\<lambda>v.
     if vm_boot (sv_runtime v) = None then None
     else if cf_ames (in_config (sv_public v)) = port \<or> vm_ames (sv_runtime v) = port
     then Some (conflict ''port_conflict'' ''Ames UDP port is reserved by another ship'') else None) db"

definition available_port :: "'f env \<Rightarrow> string \<Rightarrow> u16 \<Rightarrow> fault option" where
  "available_port env kind port = (if en_free env kind port then None
     else Some (conflict ''port_conflict'' (''host '' @ kind @ '' port '' @ dec (unat port)
       @ '' is already in use; choose an unused port'')))"

definition pier_holder :: "string \<Rightarrow> ('x, 'f) stored_instance \<Rightarrow> fault option" where
  "pier_holder path v = (if list_ex (\<lambda>p. p \<noteq> '''' \<and> overlap (mount_path p) path)
       (vm_move (sv_runtime v) # (case vm_storage (sv_runtime v) of None \<Rightarrow> [] | Some l \<Rightarrow> [lo_path l]))
     then Some (conflict ''pier_path_conflict'' (''pier path is reserved by '' @ in_id (sv_public v))) else None)"

definition reserve_standalone_pier_path :: "string \<Rightarrow> string \<Rightarrow> ('x, 'f) tables \<Rightarrow> fault option" where
  "reserve_standalone_pier_path i path db = other_instances i (pier_holder (mount_path path)) db"

definition reserve_pier_path :: "'f env \<Rightarrow> string \<Rightarrow> string \<Rightarrow> ('x, 'f) tables \<Rightarrow> fault option" where
  "reserve_pier_path env i path db = (case en_claims env of Inl e \<Rightarrow> Some e | Inr claims \<Rightarrow>
     case first_fault (\<lambda>(member, l). if overlap (mount_path path) (mount_path (lo_path l))
            then Some (conflict ''pier_path_conflict'' (''pier path is reserved by project member '' @ member)) else None) claims of
       Some e \<Rightarrow> Some e | None \<Rightarrow> reserve_standalone_pier_path i path db)"

text \<open>An identifier continues the revisions of a deleted instance of that name.\<close>

definition initial_revision :: "'f env \<Rightarrow> string \<Rightarrow> ('x, 'f) tables \<Rightarrow> fault + u64" where
  "initial_revision env i db =
     (case en_reserved env of Inl e \<Rightarrow> Inl e | Inr r \<Rightarrow>
        if rv_instances r i then Inl (conflict ''instance_reserved'' ''instance ID is reserved by a project member'')
        else case map_of (tb_deleted db) i of None \<Rightarrow> Inr 1
          | Some t \<Rightarrow> if ts_revision t \<ge> max_revision
              then Inl (conflict ''revision_limit'' ''instance revision exhausted'') else Inr (ts_revision t + 1))"

end
