(* ===== verification/LedgerAdmit.thy ===== *)
theory LedgerAdmit
  imports Ledger
begin

text \<open>
  Admission into the store (\<open>internal/managed/store.go\<close>): registering an instance
  (\<open>registerKindReplay\<close>), changing its configuration (\<open>configure\<close>) and accepting an operation on it
  (\<open>accept\<close>). Each returns the fault of the first check that refuses, or the result and the tables
  after the commit.
\<close>

definition guard :: "fault option \<Rightarrow> fault + 'a \<Rightarrow> fault + 'a" where
  "guard f k = (case f of Some e \<Rightarrow> Inl e | None \<Rightarrow> k)"

definition attempt :: "fault + 'a \<Rightarrow> ('a \<Rightarrow> fault + 'b) \<Rightarrow> fault + 'b" where
  "attempt r k = (case r of Inl e \<Rightarrow> Inl e | Inr a \<Rightarrow> k a)"

lemma guard_Inr [simp]: "guard f k = Inr x \<longleftrightarrow> f = None \<and> k = Inr x"
  by (simp add: guard_def split: option.split)

lemma attempt_Inr [simp]: "attempt r k = Inr x \<longleftrightarrow> (\<exists>a. r = Inr a \<and> k a = Inr x)"
  by (simp add: attempt_def split: sum.split)

section \<open>Registration\<close>

definition default_location :: "bool \<Rightarrow> create_request \<Rightarrow> string" where
  "default_location comet req =
     (if cq_pier_path req \<noteq> '''' then cq_pier_path req
      else if comet then ''livenet/comets/'' @ cq_id req @ ''/pier''
      else let leaf = if cq_pier_name req \<noteq> '''' then cq_pier_name req else cq_id req;
               name = trim_prefix (cq_fake_ship req) ''~'';
               ship = if name = '''' then ''zod'' else name
           in ''fakeships/'' @ leaf @ ''/'' @ ship)"

text \<open>The request with its fake identity filled in, and whether one was asked for.\<close>

definition fake_request :: "create_request \<Rightarrow> create_request" where
  "fake_request req =
     (let named = if cq_fake_ship req = '''' then ''~zod'' else cq_fake_ship req;
          ship = if has_prefix named ''~'' then named else ''~'' @ named
      in req\<lparr>cq_fake_ship := ship, cq_pier_name := if cq_pier_name req = '''' then cq_id req else cq_pier_name req\<rparr>)"

definition with_fake_options :: "bool \<Rightarrow> import_source option \<Rightarrow> create_request \<Rightarrow> fault + (create_request \<times> managed_fake option)" where
  "with_fake_options comet source req =
     (if cq_fake_ship req = '''' \<and> cq_pier_name req = '''' then Inr (req, None)
      else if comet \<or> source \<noteq> None
      then Inl (bad ''fake identity and pier options apply only to new fake ships'')
      else let r = fake_request req
      in if \<not> valid_fake_ship (cq_fake_ship r) \<or> length (cq_fake_ship r) > 28 \<or> \<not> valid_pier_name (cq_pier_name r)
         then Inl (bad ''require a valid fake Urbit name and a single pier directory name starting with a letter or number'')
         else Inr (r, Some \<lparr>mf_ship = cq_fake_ship r, mf_uncertain = False\<rparr>))"

text \<open>\<open>registrationFingerprint\<close>: the request with its label filled in, and the text that identifies it.\<close>

definition registration_fingerprint :: "create_request \<Rightarrow> import_source option \<Rightarrow> fault + (create_request \<times> fingerprint)" where
  "registration_fingerprint req0 source =
     (let req = (if cq_label req0 = '''' then req0\<lparr>cq_label := cq_id req0\<rparr> else req0)
      in case refuse [
        (\<not> valid_id (cq_id req) \<or> \<not> valid_id (cq_request req), bad ''valid instance and request IDs are required''),
        (cf_http (cq_config req) < 1024 \<or> cf_ames (cq_config req) \<noteq> 34343 \<or> \<not> valid_recorded_loom (cf_loom (cq_config req)),
         bad ''invalid registration configuration''),
        (\<not> utf8_valid (cq_label req) \<or> length (cq_label req) > 128 \<or> any_rune is_control (cq_label req),
         bad ''label must be at most 128 UTF-8 bytes without control characters'')] of
        Some e \<Rightarrow> Inl e
      | None \<Rightarrow> Inr (req, case source of None \<Rightarrow> RegisterFake req | Some s \<Rightarrow> ImportFake req (is_run s) (is_digest s)))"

definition zero_public :: "'f public_instance" where
  "zero_public = \<lparr>in_delete_pending = False, in_bootstrap = None, in_handoff = None, in_id = '''', in_label = '''',
     in_config = \<lparr>cf_http = 0, cf_ames = 0, cf_loom = 0, cf_native = False\<rparr>, in_revision = 0, in_applied = 0,
     in_desired = '''', in_observed = '''', in_active = '''', in_mode = '''', in_ship = '''', in_pier_name = '''',
     in_pier_path = '''', in_ames_published = False, in_identity_pending = False, in_endpoint = '''', in_health = '''',
     in_recovery = False, in_observed_at = None, in_maintenance = None, in_resources = None, in_epochs = None,
     in_roll_needs = False, in_pruning = None, in_import = None, in_routine = None\<rparr>"

definition plain_location :: "string \<Rightarrow> location" where
  "plain_location path = \<lparr>lo_path = path, lo_identity = no_pier, lo_mount = no_directory, lo_uncertain = False\<rparr>"

definition update_import_report :: "('x, 'f) stored_instance \<Rightarrow> ('x, 'f) stored_instance" where
  "update_import_report v = (case vm_import (sv_runtime v) of None \<Rightarrow> v | Some p \<Rightarrow>
     v\<lparr>sv_public := (sv_public v)\<lparr>in_import := Some \<lparr>im_run = is_run (mi_source p), im_digest = is_digest (mi_source p),
       im_files = mi_files p, im_bytes = mi_bytes p, im_expected_files = is_files (mi_source p),
       im_expected_bytes = is_bytes (mi_source p), im_started = mi_started p, im_finished = mi_finished p,
       im_uncertain = (mi_uncertain p \<or> mi_finished p = None)\<rparr>\<rparr>\<rparr>)"

definition registered_runtime ::
  "create_request \<Rightarrow> import_source option \<Rightarrow> bool \<Rightarrow> managed_fake option \<Rightarrow> string \<Rightarrow> string \<Rightarrow> 'x managed_state" where
  "registered_runtime req source comet fake location uuid =
     (new_managed uuid (cf_http (cq_config req)) (cf_loom (cq_config req)) (cf_native (cq_config req)))
       \<lparr>vm_fake := fake,
        vm_bootstrap := (if source \<noteq> None then None
          else if cq_bootstrap req = None then Some \<lparr>bs_kind = ''bare'', bs_pill = None\<rparr> else cq_bootstrap req),
        vm_storage := Some (plain_location location),
        vm_comet := (if comet then Some \<lparr>mc_ship = '''', mc_started = None, mc_finished = None, mc_uncertain = False\<rparr> else None),
        vm_import := map_option (\<lambda>s. \<lparr>mi_source = s, mi_started = None, mi_finished = None, mi_files = 0,
          mi_bytes = 0, mi_uncertain = True\<rparr>) source\<rparr>"

definition registered_instance ::
  "create_request \<Rightarrow> import_source option \<Rightarrow> bool \<Rightarrow> managed_fake option \<Rightarrow> string \<Rightarrow> string \<Rightarrow> u64 \<Rightarrow> ('x, 'f) stored_instance" where
  "registered_instance req source comet fake location uuid revision =
     (let runtime = registered_runtime req source comet fake location uuid
      in \<lparr>sv_public = zero_public\<lparr>in_id := cq_id req, in_label := cq_label req, in_config := cq_config req,
            in_revision := revision, in_mode := (if comet then ''comet'' else ''fake''),
            in_ship := (if comet then '''' else case fake of None \<Rightarrow> ''~zod'' | Some f \<Rightarrow> mf_ship f),
            in_desired := ''stopped'', in_observed := ''uninitialized'', in_health := ''unknown'',
            in_bootstrap := vm_bootstrap runtime, in_pier_path := location, in_pier_name := path_base location\<rparr>,
          sv_runtime = runtime, sv_runtime_revision = 0, sv_runtime_config = 0, sv_cpu = None, sv_startup = None\<rparr>)"

definition new_operation :: "string \<Rightarrow> string \<Rightarrow> string \<Rightarrow> string \<Rightarrow> string \<Rightarrow> u64 \<Rightarrow> gotime \<Rightarrow> operation" where
  "new_operation key request i kind actor revision now = \<lparr>op_project = '''', op_restoration = None,
     op_id = ''op-'' @ key, op_request = request, op_instance = i, op_kind = kind, op_actor = actor,
     op_status = ''queued'', op_revision = revision, op_created = now, op_finished = None, op_message = ''''\<rparr>"

definition source_claimed :: "import_source \<Rightarrow> ('x, 'f) stored_instance \<Rightarrow> fault option" where
  "source_claimed s v = (case vm_import (sv_runtime v) of None \<Rightarrow> None | Some i \<Rightarrow>
     if is_run (mi_source i) = is_run s
     then Some (conflict ''source_claimed'' ''this source is already reserved by a registered import'') else None)"

text \<open>What must hold of the tables and the host for a new registration; the revision it starts at.\<close>

definition registration_admitted ::
  "'f env \<Rightarrow> create_request \<Rightarrow> import_source option \<Rightarrow> string \<Rightarrow> ('x, 'f) tables \<Rightarrow> fault + u64" where
  "registration_admitted env req source location db =
     guard (en_storage env location) (
     guard (validate_config (cq_config req)) (
     guard (case cq_bootstrap req of None \<Rightarrow> None | Some b \<Rightarrow> en_pill env (bs_pill b)) (
     attempt (initial_revision env (cq_id req) db) (\<lambda>revision.
     guard (if map_of (tb_instances db) (cq_id req) \<noteq> None
            then Some (conflict ''instance_exists'' ''instance ID is already registered'') else None) (
     guard (reserve_port env (cq_id req) (cf_http (cq_config req)) db) (
     guard (available_port env ''tcp'' (cf_http (cq_config req))) (
     guard (reserve_pier_path env (cq_id req) location db) (
     guard (case source of None \<Rightarrow> None | Some s \<Rightarrow> (case instances db of Inl e \<Rightarrow> Some e
       | Inr all \<Rightarrow> first_fault (source_claimed s) all)) (
     Inr revision)))))))))"

definition register_new ::
  "'f env \<Rightarrow> string \<Rightarrow> create_request \<Rightarrow> import_source option \<Rightarrow> bool \<Rightarrow> managed_fake option \<Rightarrow> string \<Rightarrow> fingerprint
     \<Rightarrow> ('x, 'f) tables \<Rightarrow> fault + operation \<times> ('x, 'f) tables" where
  "register_new env actor req source comet fake location fp db =
     attempt (registration_admitted env req source location db) (\<lambda>revision.
     attempt (random_id env 0) (\<lambda>uuid.
     let v = registered_instance req source comet fake location uuid revision
     in attempt (insert_instance (cq_id req) v db) (\<lambda>db.
     attempt (random_id env 1) (\<lambda>key.
     let now = en_now env 0;
         op = (new_operation key (cq_request req) (cq_id req)
                 (if source \<noteq> None then ''import-fake'' else if comet then ''register-comet'' else ''register-fake'')
                 actor revision now)
                \<lparr>op_status := (if source \<noteq> None then ''queued'' else ''succeeded''),
                 op_finished := (if source \<noteq> None then None else Some now)\<rparr>;
         db = (if source = None then db
               else save_instance (update_import_report
                 (v\<lparr>sv_public := (sv_public v)\<lparr>in_active := op_id op, in_observed := ''importing''\<rparr>\<rparr>)) db)
     in attempt (insert_operation op fp db) (\<lambda>db. Inr (op, db))))))"

text \<open>A receipt of the same request answers it; otherwise the instance is created, unless only a replay is wanted.\<close>

definition register_or_replay ::
  "'f env \<Rightarrow> string \<Rightarrow> create_request \<Rightarrow> import_source option \<Rightarrow> bool \<Rightarrow> bool \<Rightarrow> managed_fake option \<Rightarrow> string \<Rightarrow> fingerprint
     \<Rightarrow> ('x, 'f) tables \<Rightarrow> fault + operation \<times> bool \<times> ('x, 'f) tables" where
  "register_or_replay env actor req source comet replay_only fake location fp db =
     (case replay actor (cq_request req) fp db of
        Some r \<Rightarrow> attempt r (\<lambda>op. Inr (op, True, db))
      | None \<Rightarrow>
          if replay_only then Inl (conflict ''replay_not_found''
            ''no matching creation receipt exists for this actor; replay-only requests cannot create a ship'')
          else attempt (register_new env actor req source comet fake location fp db) (\<lambda>(op, db). Inr (op, False, db)))"

definition register_kind_replay ::
  "'f env \<Rightarrow> string \<Rightarrow> create_request \<Rightarrow> import_source option \<Rightarrow> bool \<Rightarrow> bool \<Rightarrow> ('x, 'f) tables
     \<Rightarrow> fault + operation \<times> bool \<times> ('x, 'f) tables" where
  "register_kind_replay env actor req0 source comet replay_only db =
     (let location = default_location comet req0
      in guard (refuse [
          (cq_bootstrap req0 \<noteq> None \<and> (\<not> valid_bootstrap (cq_bootstrap req0) \<or> source \<noteq> None),
           bad ''bootstrap selection applies only to new ships; choose bare or a staged recommended pill''),
          (\<not> valid_path location \<or> comet \<and> pier_kind location \<noteq> ''comet'' \<or> \<not> comet \<and> pier_kind location \<noteq> ''fake'',
           bad ''choose a relative pier path in the appropriate fakeships or livenet/comets tree'')]) (
      attempt (with_fake_options comet source req0) (\<lambda>(req1, fake).
      attempt (registration_fingerprint req1 source) (\<lambda>(req, base).
      guard (if comet \<and> (en_mode env \<noteq> development_mode \<or> source \<noteq> None)
             then Some (conflict ''comet_mode_required'' ''comet registration requires the explicit development-managed endpoint'')
             else None) (
      register_or_replay env actor req source comet replay_only fake location (if comet then RegisterComet req else base) db)))))"

section \<open>Configuration\<close>

text \<open>The configuration asked for; legacy requests keep the native-control setting.\<close>

definition wanted_config :: "configure_request \<Rightarrow> ('x, 'f) stored_instance \<Rightarrow> configuration" where
  "wanted_config req v = (if gq_preserve req
     then (gq_config req)\<lparr>cf_native := cf_native (in_config (sv_public v))\<rparr> else gq_config req)"

definition configure_admitted ::
  "'f env \<Rightarrow> string \<Rightarrow> configure_request \<Rightarrow> ('x, 'f) stored_instance \<Rightarrow> ('x, 'f) tables \<Rightarrow> fault option" where
  "configure_admitted env i req v db =
     (let c = wanted_config req v; owned = vm_boot (sv_runtime v) \<noteq> None; old = in_config (sv_public v)
      in first_fault id [
        refuse [(vm_restore (sv_runtime v) \<noteq> None,
                 conflict ''restoration_pending'' ''finish source restoration before editing the failed registration''),
                (vm_deletion (sv_runtime v) \<noteq> None, conflict ''deletion_pending'' ''pier deletion is pending''),
                (vm_fenced (sv_runtime v), conflict ''handoff_fenced'' ''ship is fenced for a cross-host move'')],
        (if owned then validate_owned_config c else validate_config c),
        (if owned then reserve_ames i (cf_ames c) db else None),
        refuse [(in_revision (sv_public v) \<noteq> gq_expected req, revision_conflict (in_revision (sv_public v))),
                (in_active (sv_public v) \<noteq> '''', conflict ''instance_busy'' ''configuration cannot change during an operation'')],
        reserve_port env i (cf_http c) db,
        (if cf_http c \<noteq> cf_http old then available_port env ''tcp'' (cf_http c) else None),
        (if owned \<and> cf_ames c \<noteq> cf_ames old then available_port env ''udp'' (cf_ames c) else None),
        (if old \<noteq> c \<and> in_revision (sv_public v) = max_revision
         then Some (conflict ''revision_limit'' ''configuration revision exhausted'') else None)])"

definition reconfigured :: "configuration \<Rightarrow> ('x, 'f) stored_instance \<Rightarrow> ('x, 'f) stored_instance" where
  "reconfigured c v = v\<lparr>sv_public := (sv_public v)\<lparr>in_config := c, in_revision := in_revision (sv_public v) + 1, in_epochs := None\<rparr>,
     sv_startup := None, sv_runtime := (sv_runtime v)\<lparr>vm_epochs := None\<rparr>,
     sv_runtime_revision := sv_runtime_revision v + 1\<rparr>"

definition configure ::
  "'f env \<Rightarrow> string \<Rightarrow> string \<Rightarrow> configure_request \<Rightarrow> ('x, 'f) tables
     \<Rightarrow> fault + 'f public_instance \<times> ('x, 'f) tables" where
  "configure env actor i req db =
     guard (if gq_expected req = 0 \<or> gq_expected req > max_revision
            then Some (bad ''a valid positive configuration revision is required'') else None) (
     attempt (load_instance i db) (\<lambda>v.
     guard (configure_admitted env i req v db) (
     let c = wanted_config req v
     in if in_config (sv_public v) = c then Inr (sv_public v, db)
        else let w = reconfigured c v
        in attempt (random_id env 0) (\<lambda>key.
           let now = en_now env 0;
               op = (new_operation key (''server-config-'' @ key) (in_id (sv_public w)) ''configure'' actor
                      (in_revision (sv_public w)) now)\<lparr>op_status := ''succeeded'', op_finished := Some now\<rparr>
           in attempt (insert_operation op (Configure (in_id (sv_public w)) (req\<lparr>gq_config := c, gq_preserve := False\<rparr>))
                 (save_instance w db)) (\<lambda>db. Inr (sv_public w, db))))))"

section \<open>Operations\<close>

definition accepted_kinds :: "string list" where
  "accepted_kinds = [''start'', ''stop'', ''pack'', ''meld'', ''roll'', ''inspect-epochs'', ''prune-epochs'', ''move-pier'',
     ''delete-pier'', ''recover-import'', ''restore-import'']"

text \<open>The form of a request, before the tables are read.\<close>

definition operation_shape :: "string \<Rightarrow> operation_request \<Rightarrow> fault option" where
  "operation_shape i req = refuse [
     (\<not> valid_id i \<or> \<not> valid_id (oq_request req) \<or> oq_expected req = 0 \<or> oq_expected req > max_revision
        \<or> oq_kind req \<notin> set accepted_kinds,
      bad ''require a supported operation, valid request ID, and positive revision''),
     (oq_kind req = ''restore-import'' \<and> (\<not> oq_confirm_restore req \<or> \<not> valid_epoch_digest (oq_restore_digest req)),
      bad ''restore-import requires the reviewed digest and explicit source-restoration confirmation''),
     (oq_kind req \<noteq> ''restore-import'' \<and> (oq_confirm_restore req \<or> oq_restore_digest req \<noteq> ''''),
      bad ''restoration fields are valid only for restore-import''),
     ((oq_kind req = ''delete-pier'') \<noteq> oq_confirm_delete req,
      bad ''delete-pier requires explicit irreversible deletion confirmation''),
     (oq_kind req = ''prune-epochs'' \<and> (\<not> oq_confirm_loss req \<or> \<not> is_ok (epoch_number (oq_cutoff req))
        \<or> \<not> valid_epoch_digest (oq_digest req)),
      bad ''prefix pruning requires a canonical cutoff, inventory digest and explicit history-loss confirmation''),
     (oq_kind req \<noteq> ''prune-epochs'' \<and> (oq_cutoff req \<noteq> '''' \<or> oq_digest req \<noteq> '''' \<or> oq_confirm_loss req),
      bad ''pruning fields are valid only for prune-epochs''),
     (oq_kind req = ''move-pier'' \<and> \<not> valid_path (oq_pier_path req) \<or> oq_kind req \<noteq> ''move-pier'' \<and> oq_pier_path req \<noteq> '''',
      bad ''move-pier requires its convention-relative destination path'')]"

abbreviation retained_containers :: "'x managed_state \<Rightarrow> bool" where
  "retained_containers s \<equiv> list_ex (\<lambda>c. \<not> cn_removed c \<or> cn_uncertain c) (vm_containers s)"

text \<open>The instance at the expected revision, with no other work on it.\<close>

definition instance_idle :: "operation_request \<Rightarrow> ('x, 'f) stored_instance \<Rightarrow> fault option" where
  "instance_idle req v = refuse [
     (in_revision (sv_public v) \<noteq> oq_expected req, revision_conflict (in_revision (sv_public v))),
     (in_active (sv_public v) \<noteq> '''', conflict ''instance_busy'' ''an operation is already active''),
     (vm_fenced (sv_runtime v), conflict ''handoff_fenced'' ''ship is fenced for a cross-host move''),
     (vm_deletion (sv_runtime v) \<noteq> None \<and> oq_kind req \<noteq> ''delete-pier'',
      conflict ''deletion_pending'' ''pier deletion is pending; only explicit deletion continuation is available''),
     (vm_restore (sv_runtime v) \<noteq> None \<and> oq_kind req \<notin> {''restore-import'', ''stop''},
      conflict ''restoration_pending'' ''complete the reviewed source restoration before other operations'')]"

text \<open>The durable intent of a restoration or a move is put into the runtime record.\<close>

definition restoration_refused :: "operation_request \<Rightarrow> ('x, 'f) stored_instance \<Rightarrow> fault option" where
  "restoration_refused req v = (if oq_kind req \<noteq> ''restore-import'' then None else refuse [
     (in_desired (sv_public v) \<noteq> ''stopped'' \<or> \<not> import_restore_eligible (sv_runtime v),
      conflict ''invalid_state'' ''source restoration requires a stopped interrupted partial external copy''),
     (case vm_restore (sv_runtime v) of None \<Rightarrow> False | Some p \<Rightarrow> (case ir_journal p of None \<Rightarrow> False
        | Some j \<Rightarrow> ir_digest p \<noteq> oq_restore_digest req \<or> rw_digest (rj_review j) \<noteq> oq_restore_digest req),
      conflict ''restoration_pending'' ''resume the original reviewed restoration; its digest cannot be replaced'')])"

definition staged_runtime :: "operation_request \<Rightarrow> 'x managed_state \<Rightarrow> 'x managed_state" where
  "staged_runtime req s =
     (if oq_kind req = ''restore-import'' then
        (if (case vm_restore s of None \<Rightarrow> False | Some p \<Rightarrow> ir_journal p \<noteq> None) then s
         else s\<lparr>vm_restore := Some \<lparr>ir_digest = oq_restore_digest req, ir_journal = None\<rparr>\<rparr>)
      else if oq_kind req = ''move-pier'' then s\<lparr>vm_move := oq_pier_path req\<rparr> else s)"

definition deletion_refused :: "operation_request \<Rightarrow> ('x, 'f) stored_instance \<Rightarrow> fault option" where
  "deletion_refused req v = (if oq_kind req \<noteq> ''delete-pier'' then None else refuse [
     (in_desired (sv_public v) \<noteq> ''stopped'' \<or> vm_deletion (sv_runtime v) = None
        \<and> in_observed (sv_public v) \<notin> {''stopped'', ''uninitialized''},
      conflict ''invalid_state'' ''stop the runtime before deleting its pier''),
     (retained_containers (sv_runtime v), conflict ''invalid_state'' ''stop and reconcile retained containers before deletion''),
     (external_in_flight (sv_runtime v), conflict ''recovery_required'' ''review the interrupted external import before deletion'')])"

definition move_refused ::
  "'f env \<Rightarrow> string \<Rightarrow> operation_request \<Rightarrow> ('x, 'f) stored_instance \<Rightarrow> ('x, 'f) tables \<Rightarrow> fault option" where
  "move_refused env i req v db = (if oq_kind req \<noteq> ''move-pier'' then None else first_fault id [
     en_storage env (oq_pier_path req),
     refuse [
       (in_desired (sv_public v) \<noteq> ''stopped'' \<or> in_recovery (sv_public v)
          \<or> in_observed (sv_public v) \<notin> {''stopped'', ''uninitialized''},
        conflict ''invalid_state'' ''stop the ship cleanly before moving its pier''),
       (pier_kind (oq_pier_path req) \<noteq> in_mode (sv_public v),
        bad ''destination classification differs from the registered ship'')],
     reserve_pier_path env i (oq_pier_path req) db])"

abbreviation maintenance_kind :: "string \<Rightarrow> bool" where
  "maintenance_kind k \<equiv> k \<in> {''pack'', ''meld'', ''roll'', ''inspect-epochs'', ''prune-epochs''}"

definition uncertainty_refused :: "operation_request \<Rightarrow> 'x managed_state \<Rightarrow> fault option" where
  "uncertainty_refused req s = refuse [
     (oq_kind req \<notin> {''stop'', ''delete-pier''} \<and> uncertain_maintenance s,
      conflict ''recovery_required'' ''interrupted maintenance requires manual review''),
     (oq_kind req \<notin> {''stop'', ''delete-pier'', ''recover-import'', ''restore-import''} \<and> uncertain_provisioning s,
      conflict ''recovery_required'' ''incomplete provisioning or identity verification requires manual review''),
     (oq_kind req = ''roll'' \<and> vm_roll_needs s,
      conflict ''invalid_state'' ''resume and cleanly stop the pier before requesting another new roll'')]"

definition maintenance_refused :: "operation_request \<Rightarrow> ('x, 'f) stored_instance \<Rightarrow> fault option" where
  "maintenance_refused req v = (if \<not> maintenance_kind (oq_kind req) then None else refuse [
     (oq_kind req \<noteq> ''inspect-epochs'' \<and> \<not> maintenance_qualified (sv_runtime v),
      conflict ''invalid_state'' ''comet maintenance requires completed identity-pinned provisioning''),
     (\<not> vm_initialized (sv_runtime v) \<or> in_desired (sv_public v) \<noteq> ''stopped'' \<or> in_observed (sv_public v) \<noteq> ''stopped''
        \<or> in_recovery (sv_public v),
      conflict ''invalid_state'' ''offline maintenance requires a cleanly stopped initialized pier''),
     (retained_containers (sv_runtime v),
      conflict ''invalid_state'' ''stop and reconcile all retained runtime resources before maintenance'')])"

definition prune_refused :: "operation_request \<Rightarrow> 'x managed_state \<Rightarrow> gotime \<Rightarrow> fault option" where
  "prune_refused req s now = (if oq_kind req \<noteq> ''prune-epochs'' then None
     else case vm_epochs s of
       None \<Rightarrow> Some (conflict ''stale_inventory'' ''inspect the selected stopped pier before pruning'')
     | Some iv \<Rightarrow> if iv_pier iv \<noteq> vm_id s
         then Some (conflict ''stale_inventory'' ''inspect the selected stopped pier before pruning'')
         else case prune_plan (Some iv) (oq_cutoff req) (oq_digest req) now of
           Inl e \<Rightarrow> Some (conflict ''stale_or_unqualified_inventory'' (err_text e)) | Inr _ \<Rightarrow> None)"

definition start_refused :: "'f env \<Rightarrow> operation_request \<Rightarrow> ('x, 'f) stored_instance \<Rightarrow> fault option" where
  "start_refused env req v = (if oq_kind req \<noteq> ''start'' then None else first_fault id [
     refuse [
       (in_recovery (sv_public v) \<or> in_observed (sv_public v) = ''running'',
        conflict ''invalid_state'' ''inspect/reconcile or stop the existing runtime before starting''),
       (retained_containers (sv_runtime v), conflict ''invalid_state'' ''stop or reconcile the retained runtime before starting'')],
     available_port env ''tcp'' (cf_http (in_config (sv_public v))),
     (if vm_boot (sv_runtime v) \<noteq> None then available_port env ''udp'' (cf_ames (in_config (sv_public v))) else None)])"

definition admission_refused ::
  "'f env \<Rightarrow> string \<Rightarrow> operation_request \<Rightarrow> ('x, 'f) stored_instance \<Rightarrow> ('x, 'f) tables \<Rightarrow> fault option" where
  "admission_refused env i req v db =
     (let s = staged_runtime req (sv_runtime v); w = v\<lparr>sv_runtime := s\<rparr>
      in first_fault id [
        instance_idle req v,
        restoration_refused req v,
        refuse [(oq_kind req = ''recover-import''
                   \<and> (in_desired (sv_public v) \<noteq> ''stopped'' \<or> \<not> import_recovery_eligible s),
                 conflict ''invalid_state'' ''recovery requires a stopped interrupted prepared external enrollment with retained identity'')],
        deletion_refused req w,
        move_refused env i req v db,
        uncertainty_refused req s,
        maintenance_refused req w,
        prune_refused req s (en_now env 0),
        start_refused env req w])"

definition accepted_instance :: "operation_request \<Rightarrow> string \<Rightarrow> ('x, 'f) stored_instance \<Rightarrow> ('x, 'f) stored_instance" where
  "accepted_instance req op v =
     v\<lparr>sv_public := (sv_public v)\<lparr>in_active := op, in_epochs := None,
         in_desired := (if oq_kind req = ''start'' then ''running'' else ''stopped'')\<rparr>,
       sv_startup := None,
       sv_runtime := (staged_runtime req (sv_runtime v))\<lparr>vm_startup := None, vm_epochs := None,
         vm_prune_intent := (if oq_kind req = ''prune-epochs''
           then Some \<lparr>pn_cutoff = oq_cutoff req, pn_digest = oq_digest req, pn_confirmed = oq_confirm_loss req\<rparr> else None)\<rparr>\<rparr>"

definition accept ::
  "'f env \<Rightarrow> string \<Rightarrow> string \<Rightarrow> operation_request \<Rightarrow> ('x, 'f) tables \<Rightarrow> fault + operation \<times> bool \<times> ('x, 'f) tables" where
  "accept env actor i req db =
     guard (operation_shape i req) (
     case replay actor (oq_request req) (Operate i req) db of
       Some r \<Rightarrow> attempt r (\<lambda>op. Inr (op, True, db))
     | None \<Rightarrow>
         attempt (load_instance i db) (\<lambda>v.
         guard (admission_refused env i req v db) (
         attempt (random_id env 0) (\<lambda>key.
         let op = new_operation key (oq_request req) i (oq_kind req) actor (oq_expected req) (en_now env 1)
         in attempt (insert_operation op (Operate i req) db) (\<lambda>db.
            Inr (op, False, save_instance (accepted_instance req (op_id op) v) db))))))"

end
