(* ===== verification/LedgerRun.thy ===== *)
theory LedgerRun
  imports LedgerAdmit
begin

text \<open>
  What workers, the poll and a restart do to the store (\<open>internal/managed/store.go\<close>,
  \<open>startup.go\<close>): \<open>beginOperation\<close>, \<open>runtimeUpdate\<close>, \<open>finish\<close>, \<open>observe\<close> and
  \<open>reconcileInterrupted\<close>, with the public record that \<open>applyObservation\<close> derives from an
  observation.
\<close>

section \<open>Startup evidence\<close>

text \<open>\<open>^[0-9a-f]{8}(-[0-9a-f]{4}){3}-[0-9a-f]{12}$\<close>\<close>

definition boot_id_ok :: "string \<Rightarrow> bool" where
  "boot_id_ok s \<longleftrightarrow> (let words = split_on CHR ''-'' s
     in map length words = [8, 4, 4, 4, 12] \<and> list_all (list_all is_lower_hex) words)"

definition startup_eligible :: "('x, 'f) stored_instance \<Rightarrow> bool" where
  "startup_eligible v \<longleftrightarrow> in_desired (sv_public v) = ''running'' \<and> in_active (sv_public v) = ''''
     \<and> in_revision (sv_public v) = in_applied (sv_public v) \<and> sv_runtime_config v = in_revision (sv_public v)
     \<and> startup_resume_candidate (sv_runtime v)"

definition startup_container :: "('x, 'f) stored_instance \<Rightarrow> string" where
  "startup_container v = (case find (\<lambda>c. \<not> cn_removed c) (vm_containers (sv_runtime v)) of None \<Rightarrow> '''' | Some c \<Rightarrow> cn_id c)"

definition record_healthy_boot :: "'f env \<Rightarrow> ('x, 'f) stored_instance \<Rightarrow> ('x, 'f) stored_instance" where
  "record_healthy_boot env v =
     (if en_boot env = '''' \<or> in_observed (sv_public v) \<noteq> ''running'' \<or> in_health (sv_public v) \<noteq> ''healthy''
         \<or> in_recovery (sv_public v) \<or> \<not> startup_eligible v then v
      else v\<lparr>sv_startup := Some \<lparr>ss_healthy = en_boot env, ss_container = startup_container v,
        ss_revision = in_revision (sv_public v), ss_pending = '''', ss_unclean = False\<rparr>\<rparr>)"

section \<open>Observations\<close>

text \<open>The CPU baseline of the previous observation, when the public metrics are still the ones of it.\<close>

definition previous_cpu :: "('x, 'f) stored_instance \<Rightarrow> 'f cpu_baseline option" where
  "previous_cpu v = (case (in_resources (sv_public v), sv_cpu v) of
     (Some r, Some c) \<Rightarrow> if rm_status r \<noteq> ''fresh'' \<or> rm_container r \<noteq> cb_container c
         \<or> (case rm_observed r of None \<Rightarrow> True | Some t \<Rightarrow> \<not> same_instant t (cb_observed c)) then None else Some c
   | _ \<Rightarrow> None)"

definition fresh_cpu :: "'f env \<Rightarrow> 'f managed_resources \<Rightarrow> 'f cpu_baseline option" where
  "fresh_cpu env r = (case mo_cpu r of None \<Rightarrow> None | Some (c, limit) \<Rightarrow>
     if pu_online c > 0 \<and> pu_online c \<le> 4096 \<and> limit = en_two env
     then Some \<lparr>cb_container = mo_container r, cb_observed = mo_observed r, cb_counters = (c, limit)\<rparr> else None)"

definition observed_cpu :: "'f env \<Rightarrow> 'f observation_report \<Rightarrow> 'f cpu_baseline option" where
  "observed_cpu env ob = (if bo_state ob \<noteq> ''running'' then None
     else case bo_resources ob of None \<Rightarrow> None | Some r \<Rightarrow> fresh_cpu env r)"

definition stats_source :: string where
  "stats_source = ''docker-stats-v1.47''"

definition observed_resources ::
  "'f env \<Rightarrow> 'f cpu_baseline option \<Rightarrow> 'f observation_report \<Rightarrow> gotime \<Rightarrow> 'f resource_metrics option" where
  "observed_resources env previous ob now =
     (if bo_state ob \<noteq> ''running'' then None
      else Some (case bo_resources ob of
        None \<Rightarrow> \<lparr>rm_status = ''unavailable'', rm_source = stats_source, rm_container = '''', rm_observed = None,
                 rm_memory = None, rm_limit = None, rm_pids = None, rm_percent = None, rm_cores = None\<rparr>
      | Some r \<Rightarrow> \<lparr>rm_status = ''fresh'', rm_source = stats_source, rm_container = mo_container r,
                 rm_observed = Some (mo_observed r), rm_memory = Some (mo_memory r), rm_limit = Some (mo_limit r),
                 rm_pids = Some (mo_pids r),
                 rm_percent = (case fresh_cpu env r of None \<Rightarrow> None | Some c \<Rightarrow> en_usage env previous (Some c) now),
                 rm_cores = map_option (\<lambda>c. snd (cb_counters c)) (fresh_cpu env r)\<rparr>))"

abbreviation epoch_names :: "inventory option \<Rightarrow> string slice" where
  "epoch_names p \<equiv> (case p of None \<Rightarrow> NilSlice | Some i \<Rightarrow> slice_append NilSlice (map ep_name (iv_entries i)))"

definition prune_report :: "'x prune_record \<Rightarrow> pruning_report" where
  "prune_report p = \<lparr>pr_cutoff = pk_cutoff p, pr_digest = (case pk_before p of None \<Rightarrow> '''' | Some i \<Rightarrow> iv_digest i),
     pr_started = pk_started p, pr_finished = pk_finished p, pr_removed_files = length (items (pk_removed_files p)),
     pr_expected_files = length (items (pk_files p)), pr_epoch_removed = pk_epoch_removed p,
     pr_selected = Slice [pk_cutoff p], pr_removed = (if pk_epoch_removed p then Slice [pk_cutoff p] else NilSlice),
     pr_retained = epoch_names (pk_after p), pr_uncertain = pk_uncertain p\<rparr>"

definition prefix_report :: "'x prefix_prune \<Rightarrow> pruning_report" where
  "prefix_report p = (let ts = items (pp_targets p) in
     \<lparr>pr_cutoff = pp_cutoff p, pr_digest = (case pp_before p of None \<Rightarrow> '''' | Some i \<Rightarrow> iv_digest i),
      pr_started = pp_started p, pr_finished = pp_finished p,
      pr_removed_files = sum_list (map (\<lambda>t. length (items (ed_removed_files t))) ts),
      pr_expected_files = sum_list (map (\<lambda>t. length (items (ed_files t))) ts),
      pr_epoch_removed = (ts \<noteq> [] \<and> list_all ed_removed ts),
      pr_selected = slice_append NilSlice (map ed_name ts),
      pr_removed = slice_append NilSlice (map ed_name (filter ed_removed ts)),
      pr_retained = epoch_names (pp_after p), pr_uncertain = pp_uncertain p\<rparr>)"

definition observed_pruning :: "'x managed_state \<Rightarrow> pruning_report option \<Rightarrow> pruning_report option" where
  "observed_pruning s old = (case vm_prefix_prune s of Some p \<Rightarrow> Some (prefix_report p)
     | None \<Rightarrow> case rr_prune (vm_runtime s) of Some p \<Rightarrow> Some (prune_report p) | None \<Rightarrow> old)"

definition observed_path :: "('x, 'f) stored_instance \<Rightarrow> string" where
  "observed_path v = (case vm_storage (sv_runtime v) of None \<Rightarrow> in_pier_path (sv_public v) | Some l \<Rightarrow> lo_path l)"

definition observed_ship :: "('x, 'f) stored_instance \<Rightarrow> string" where
  "observed_ship v = (case vm_comet (sv_runtime v) of Some c \<Rightarrow> mc_ship c
     | None \<Rightarrow> case vm_fake (sv_runtime v) of Some f \<Rightarrow> mf_ship f | None \<Rightarrow> in_ship (sv_public v))"

definition apply_observation ::
  "'f env \<Rightarrow> ('x, 'f) stored_instance \<Rightarrow> 'f observation_report \<Rightarrow> gotime \<Rightarrow> ('x, 'f) stored_instance" where
  "apply_observation env v0 ob now =
     (let v = update_import_report v0; s = sv_runtime v
      in v\<lparr>sv_cpu := observed_cpu env ob,
        sv_public := (sv_public v)\<lparr>
          in_delete_pending := (vm_deletion s \<noteq> None), in_handoff := vm_handoff s,
          in_ames_published := (vm_boot s \<noteq> None),
          in_identity_pending := (case vm_adoption s of None \<Rightarrow> False | Some a \<Rightarrow> \<not> ad_verified a),
          in_pier_path := observed_path v, in_pier_name := path_base (observed_path v), in_ship := observed_ship v,
          in_routine := vm_routine s, in_observed := bo_state ob, in_health := bo_health ob,
          in_endpoint := bo_endpoint ob, in_recovery := bo_recovery ob, in_observed_at := Some now,
          in_roll_needs := vm_roll_needs s,
          in_epochs := (if bo_state ob = ''stopped'' \<and> \<not> bo_recovery ob then vm_epochs s else None),
          in_resources := observed_resources env (previous_cpu v) ob now,
          in_maintenance := (case vm_maintenance s of None \<Rightarrow> in_maintenance (sv_public v) | Some m \<Rightarrow> Some m),
          in_pruning := observed_pruning s (in_pruning (sv_public v)),
          in_applied := (if vm_initialized s \<and> bo_state ob = ''running'' \<and> bo_health ob = ''healthy''
             then sv_runtime_config v else in_applied (sv_public v))\<rparr>\<rparr>)"

text \<open>A poll result is dropped when anything was committed since its snapshot \<open>v\<close> of the instance.\<close>

definition observe ::
  "'f env \<Rightarrow> ('x, 'f) stored_instance \<Rightarrow> 'x managed_state \<Rightarrow> 'f observation_report \<Rightarrow> ('x, 'f) tables
     \<Rightarrow> fault + ('x, 'f) tables" where
  "observe env v state ob db =
     (case load_instance (in_id (sv_public v)) db of
        Inl (Problem st code m r) \<Rightarrow> if code = ''instance_not_found'' then Inr db else Inl (Problem st code m r)
      | Inl (Broken m) \<Rightarrow> Inl (Broken m)
      | Inr current \<Rightarrow>
          if in_active (sv_public current) \<noteq> '''' \<or> sv_runtime_revision current \<noteq> sv_runtime_revision v
             \<or> vm_id (sv_runtime current) \<noteq> vm_id (sv_runtime v) then Inr db
          else if vm_id state \<noteq> vm_id (sv_runtime current) then Inl (Broken ''observed runtime identity mismatch'')
          else Inr (save_instance (record_healthy_boot env (apply_observation env
            (current\<lparr>sv_runtime := state, sv_runtime_revision := sv_runtime_revision current + 1\<rparr>) ob (en_now env 0))) db))"

section \<open>A worker's operation\<close>

definition routine_kind :: "string \<Rightarrow> bool" where
  "routine_kind k \<longleftrightarrow> k \<in> {''routine-pack'', ''routine-meld''}"

text \<open>The kinds that hold the host's work gate.\<close>

definition gated_kind :: "string \<Rightarrow> bool" where
  "gated_kind k \<longleftrightarrow> has_suffix k ''-handoff'' \<or> k \<in> {''delete-pier'', ''recover-import'', ''restore-import'', ''import-pier'',
     ''start'', ''startup-resume'', ''move-pier'', ''enroll-pier'', ''pack'', ''meld'', ''roll'', ''prune-epochs'', ''import-fake''}
     \<or> routine_kind k"

definition retained_maintenance :: "('x, 'f) stored_instance \<Rightarrow> bool" where
  "retained_maintenance v \<longleftrightarrow> list_ex (\<lambda>c. cn_kind c \<in> {''pack'', ''meld'', ''roll'', ''comet-pack'', ''comet-meld'', ''comet-roll''}
     \<and> (\<not> cn_removed c \<or> cn_uncertain c)) (vm_containers (sv_runtime v))"

definition host_work_refused :: "string \<Rightarrow> ('x, 'f) tables \<Rightarrow> fault option" where
  "host_work_refused k db = (if \<not> gated_kind k then None
     else case instances db of Inl e \<Rightarrow> Some e | Inr all \<Rightarrow> first_fault (\<lambda>other. if retained_maintenance other
       then Some (conflict ''host_recovery_required'' (''resolve retained maintenance resources on '' @ in_id (sv_public other)
         @ '' with explicit stop/review before more runtime work'')) else None) all)"

abbreviation starting_kind :: "string \<Rightarrow> bool" where
  "starting_kind k \<equiv> k \<in> {''start'', ''startup-resume''}"

abbreviation upkeep_kind :: "string \<Rightarrow> bool" where
  "upkeep_kind k \<equiv> k \<in> {''pack'', ''meld'', ''roll'', ''prune-epochs''} \<or> routine_kind k"

definition begun_state :: "string \<Rightarrow> string" where
  "begun_state k =
     (if starting_kind k then ''starting'' else if upkeep_kind k then ''maintenance''
      else if k = ''inspect-epochs'' then ''inspecting''
      else if k \<in> {''import-fake'', ''import-pier''} then ''importing''
      else if k \<in> {''enroll-pier'', ''recover-import''} then ''enrolling''
      else if k = ''move-pier'' \<or> has_suffix k ''-handoff'' then ''moving''
      else if k = ''restore-import'' then ''restoring''
      else if k = ''delete-pier'' then ''deleting'' else ''stopping'')"

text \<open>New runtime work uses the configured settings; a retained container keeps its own launch.\<close>

definition begun_instance :: "operation \<Rightarrow> ('x, 'f) stored_instance \<Rightarrow> ('x, 'f) stored_instance" where
  "begun_instance op v =
     (let k = op_kind op; c = in_config (sv_public v); s = sv_runtime v;
          s = (if starting_kind k \<or> upkeep_kind k then s\<lparr>vm_loom := cf_loom c, vm_native := cf_native c\<rparr> else s);
          s = (if starting_kind k then s\<lparr>vm_port := cf_http c\<rparr> else s);
          s = (if starting_kind k \<and> vm_boot s \<noteq> None then s\<lparr>vm_ames := cf_ames c\<rparr> else s)
      in v\<lparr>sv_runtime := s,
           sv_runtime_config := (if starting_kind k then op_revision op else sv_runtime_config v),
           sv_public := (sv_public v)\<lparr>in_observed := begun_state k, in_health := ''unknown'', in_resources := None\<rparr>\<rparr>)"

text \<open>A refusal carries the operation and the instance once both are loaded.\<close>

definition begin_operation ::
  "string \<Rightarrow> ('x, 'f) tables
     \<Rightarrow> fault \<times> (operation \<times> ('x, 'f) stored_instance) option + operation \<times> ('x, 'f) stored_instance \<times> ('x, 'f) tables" where
  "begin_operation opid db =
     (case load_operation opid db of Inl e \<Rightarrow> Inl (e, None) | Inr r \<Rightarrow>
      let op = ow_op r in
      case load_instance (op_instance op) db of Inl e \<Rightarrow> Inl (e, None) | Inr v \<Rightarrow>
        if op_status op \<noteq> ''queued'' \<or> in_active (sv_public v) \<noteq> op_id op
        then Inl (Broken ''operation is not queued for this instance'', Some (op, v))
        else case host_work_refused (op_kind op) db of Some e \<Rightarrow> Inl (e, Some (op, v)) | None \<Rightarrow>
          if (starting_kind (op_kind op) \<or> upkeep_kind (op_kind op))
             \<and> \<not> valid_recorded_loom (cf_loom (in_config (sv_public v)))
          then Inl (bad ''invalid runtime settings for this ship mode'', Some (op, v))
          else let op = op\<lparr>op_status := ''running''\<rparr>; w = begun_instance op v
               in Inr (op, w, save_instance w (save_operation op db)))"

definition restore_phase :: "string \<Rightarrow> nat" where
  "restore_phase st = (if st = ''retaining-destination'' then 1 else if st = ''restoring-source'' then 2
     else if st = ''complete'' then 3 else 0)"

text \<open>A restoration's update keeps the reviewed binding and moves at most one phase forward.\<close>

definition restore_update_refused :: "'x managed_state \<Rightarrow> 'x managed_state \<Rightarrow> fault option" where
  "restore_update_refused old state =
     (case (vm_restore old, vm_restore state) of
        (Some b, Some a) \<Rightarrow>
          (case ir_journal a of
             None \<Rightarrow> Some (Broken ''restoration update changed its approved binding'')
           | Some j \<Rightarrow>
               if ir_digest b \<noteq> ir_digest a \<or> ir_digest a \<noteq> rw_digest (rj_review j) \<or> rw_runtime (rj_review j) \<noteq> vm_id state
               then Some (Broken ''restoration update changed its approved binding'')
               else if (case ir_journal b of None \<Rightarrow> False
                        | Some i \<Rightarrow> restore_phase (rj_stage i) = 0 \<or> rj_review i \<noteq> rj_review j)
               then Some (Broken ''restoration update changed the retained review'')
               else let prior = (case ir_journal b of None \<Rightarrow> 0 | Some i \<Rightarrow> restore_phase (rj_stage i));
                        nxt = restore_phase (rj_stage j)
               in if nxt = 0 \<or> nxt < prior \<or> nxt > prior + 1
                  then Some (Broken ''restoration update skipped or reversed a durable phase'')
                  else if old\<lparr>vm_restore := None\<rparr> \<noteq> state\<lparr>vm_restore := None\<rparr>
                  then Some (Broken ''restoration update changed unrelated runtime evidence'') else None)
      | _ \<Rightarrow> Some (Broken ''restoration update changed its approved binding''))"

definition save_checkpoint :: "string \<Rightarrow> 'x managed_state \<Rightarrow> ('x, 'f) tables \<Rightarrow> ('x, 'f) tables" where
  "save_checkpoint opid state db = db\<lparr>tb_operations :=
     map (\<lambda>r. if op_id (ow_op r) = opid then r\<lparr>ow_runtime := Some state\<rparr> else r) (tb_operations db)\<rparr>"

definition runtime_update :: "string \<Rightarrow> string \<Rightarrow> 'x managed_state \<Rightarrow> ('x, 'f) tables \<Rightarrow> fault + ('x, 'f) tables" where
  "runtime_update i opid state db =
     attempt (load_instance i db) (\<lambda>v.
     guard (if in_active (sv_public v) \<noteq> opid \<or> vm_id (sv_runtime v) \<noteq> vm_id state
            then Some (Broken ''operation no longer owns instance runtime'') else None) (
     attempt (load_operation opid db) (\<lambda>r.
     guard (if op_kind (ow_op r) = ''restore-import'' then restore_update_refused (sv_runtime v) state else None) (
     if op_kind (ow_op r) = ''recover-import'' then Inr db
     else let w = update_import_report (v\<lparr>sv_runtime := state, sv_runtime_revision := sv_runtime_revision v + 1\<rparr>)
          in Inr (save_checkpoint opid state
               (save_instance (w\<lparr>sv_public := (sv_public w)\<lparr>in_routine := vm_routine state\<rparr>\<rparr>) db))))))"

end
