(* ===== verification/LedgerFinish.thy ===== *)
theory LedgerFinish
  imports LedgerRun
begin

text \<open>
  The end of an operation (\<open>finish\<close>) and of all operations that a stopped runner left behind
  (\<open>reconcileInterrupted\<close>), in \<open>internal/managed/store.go\<close>. Of \<open>reconcileInterrupted\<close> the loop
  over the registered ships is modelled; the project tables have their own reconciliation.
\<close>

section \<open>Finishing\<close>

text \<open>The error an action ended with; \<open>rx_host\<close>: it wraps \<open>ErrHostCompatibility\<close>.\<close>

record run_error =
  rx_text :: string
  rx_host :: bool

definition restore_result_of :: "'x restore_review \<Rightarrow> restore_result" where
  "restore_result_of r = \<lparr>re_source = es_path (rw_source r), re_restore_to = rw_original r,
     re_destination = rw_destination r, re_retain_at = rw_retained r, re_digest = rw_digest r\<rparr>"

text \<open>The error that counts: an interrupted restoration or recovery has failed.\<close>

definition final_cause :: "string \<Rightarrow> run_error option \<Rightarrow> bool \<Rightarrow> run_error option" where
  "final_cause k cause interrupted = (case cause of Some c \<Rightarrow> Some c
     | None \<Rightarrow> if \<not> interrupted then None
         else if k = ''restore-import'' then Some \<lparr>rx_text = ''source restoration interrupted before retirement publication'', rx_host = False\<rparr>
         else if k = ''recover-import'' then Some \<lparr>rx_text = ''recovery interrupted before completion publication'', rx_host = False\<rparr>
         else None)"

text \<open>The journaled review of a completed restoration.\<close>

definition restored_review ::
  "('x, 'f) stored_instance \<Rightarrow> 'x managed_state \<Rightarrow> 'f observation_report \<Rightarrow> 'x restore_review option" where
  "restored_review v state ob = (case vm_restore (sv_runtime v) of None \<Rightarrow> None | Some p \<Rightarrow>
     case ir_journal p of None \<Rightarrow> None | Some j \<Rightarrow>
       if rj_stage j \<noteq> ''complete'' \<or> ir_digest p \<noteq> rw_digest (rj_review j) \<or> vm_restore state \<noteq> Some p
          \<or> bo_state ob \<noteq> ''restored'' \<or> in_desired (sv_public v) \<noteq> ''stopped''
       then None else Some (rj_review j))"

definition recovery_complete :: "'x managed_state \<Rightarrow> 'f observation_report \<Rightarrow> bool" where
  "recovery_complete s ob \<longleftrightarrow> vm_initialized s \<and> \<not> uncertain_provisioning s
     \<and> (case vm_external s of None \<Rightarrow> False | Some x \<Rightarrow> xi_stage x = ''complete'')
     \<and> (case vm_adoption s of None \<Rightarrow> False | Some a \<Rightarrow> \<not> ad_verified a \<and> ad_finished a \<noteq> None)
     \<and> bo_state ob = ''stopped'' \<and> \<not> bo_recovery ob"

text \<open>The runtime record and the operation that a completion stores.\<close>

definition finished_state ::
  "operation \<Rightarrow> ('x, 'f) stored_instance \<Rightarrow> 'x managed_state \<Rightarrow> 'f observation_report \<Rightarrow> run_error option
     \<Rightarrow> fault + 'x managed_state \<times> operation" where
  "finished_state op v state ob cause =
     (if op_kind op = ''restore-import'' then
        (if cause \<noteq> None then Inr (sv_runtime v, op)
         else case restored_review v state ob of
           None \<Rightarrow> Inl (Broken ''source restoration has no durably validated completion receipt'')
         | Some r \<Rightarrow> Inr (sv_runtime v, op\<lparr>op_restoration := Some (restore_result_of r),
             op_message := ''source restored; partial destination retained; failed registration retired''\<rparr>))
      else if op_kind op = ''recover-import'' then
        (if cause \<noteq> None then Inr (sv_runtime v, op)
         else if \<not> recovery_complete state ob then Inl (Broken ''recovery has no validated stopped completion receipt'')
         else Inr (state, op))
      else Inr (state, op))"

text \<open>A failed routine keeps the stage it failed in.\<close>

definition routine_ended :: "operation \<Rightarrow> run_error option \<Rightarrow> bool \<Rightarrow> gotime \<Rightarrow> 'x managed_state \<Rightarrow> 'x managed_state" where
  "routine_ended op cause interrupted now s =
     (if routine_kind (op_kind op) \<and> cause \<noteq> None
      then s\<lparr>vm_routine := map_option (\<lambda>r. r\<lparr>rn_finished := Some now, rn_succeeded := False,
        rn_stage := (if interrupted then ''interrupted: '' else ''failed: '') @ rn_stage r\<rparr>) (vm_routine s)\<rparr>
      else s)"

definition failed_operation :: "run_error \<Rightarrow> bool \<Rightarrow> operation \<Rightarrow> operation" where
  "failed_operation c interrupted op = op\<lparr>op_status := (if interrupted then ''interrupted'' else ''failed''),
     op_message := (if rx_host c then ''host compatibility prevented runtime work; inspect host-check before retrying''
                    else take 1024 (''runtime action failed: '' @ rx_text c))\<rparr>"

definition handoff_error :: "string \<Rightarrow> ('x, 'f) stored_instance \<Rightarrow> ('x, 'f) stored_instance" where
  "handoff_error m v = (case vm_handoff (sv_runtime v) of None \<Rightarrow> v | Some h \<Rightarrow>
     v\<lparr>sv_runtime := (sv_runtime v)\<lparr>vm_handoff := Some (h\<lparr>hf_error := m\<rparr>)\<rparr>,
       sv_public := (sv_public v)\<lparr>in_handoff := Some (h\<lparr>hf_error := m\<rparr>)\<rparr>\<rparr>)"

text \<open>A failure leaves the ship in an unknown state that must be reviewed; a refused host does not.\<close>

definition failed_instance ::
  "run_error \<Rightarrow> operation \<Rightarrow> bool \<Rightarrow> 'f observation_report \<Rightarrow> ('x, 'f) stored_instance \<Rightarrow> ('x, 'f) stored_instance" where
  "failed_instance c op prior ob v0 =
     (let v = (if has_suffix (op_kind op) ''-handoff'' then handoff_error (''Handoff paused: '' @ rx_text c) v0 else v0)
      in v\<lparr>sv_startup := None, sv_public := (sv_public v)\<lparr>
           in_desired := (if routine_kind (op_kind op) \<and> bo_state ob = ''stopped'' then ''stopped'' else in_desired (sv_public v)),
           in_observed := ''unknown'', in_health := ''unknown'',
           in_recovery := (if rx_host c then recovery_on_compatibility (sv_runtime v) (prior \<or> bo_recovery ob) else True),
           in_resources := None, in_epochs := None\<rparr>\<rparr>)"

definition finished_instance ::
  "'f env \<Rightarrow> operation \<Rightarrow> 'x managed_state \<Rightarrow> 'f observation_report \<Rightarrow> run_error option \<Rightarrow> gotime
     \<Rightarrow> ('x, 'f) stored_instance \<Rightarrow> ('x, 'f) stored_instance" where
  "finished_instance env op state ob cause now v =
     (let w = apply_observation env (v\<lparr>sv_runtime := state, sv_runtime_revision := sv_runtime_revision v + 1,
                sv_public := (sv_public v)\<lparr>in_active := ''''\<rparr>\<rparr>) ob now
      in case cause of
        Some c \<Rightarrow> failed_instance c op (in_recovery (sv_public v)) ob w
      | None \<Rightarrow> record_healthy_boot env (if starting_kind (op_kind op)
          then w\<lparr>sv_public := (sv_public w)\<lparr>in_applied := op_revision op\<rparr>\<rparr> else w))"

text \<open>The instance is unregistered; its identifier keeps its revision.\<close>

definition retire_instance :: "operation \<Rightarrow> ('x, 'f) tables \<Rightarrow> ('x, 'f) tables" where
  "retire_instance op db = db\<lparr>
     tb_policies := filter (\<lambda>(i, p). i \<noteq> op_instance op) (tb_policies db),
     tb_deleted := (op_instance op, \<lparr>ts_op = op_id op, ts_revision = op_revision op\<rparr>)
       # filter (\<lambda>(i, t). i \<noteq> op_instance op) (tb_deleted db),
     tb_instances := filter (\<lambda>(i, v). i \<noteq> op_instance op) (tb_instances db)\<rparr>"

definition finish ::
  "'f env \<Rightarrow> operation \<Rightarrow> 'x managed_state \<Rightarrow> 'f observation_report \<Rightarrow> run_error option \<Rightarrow> bool
     \<Rightarrow> ('x, 'f) tables \<Rightarrow> fault + ('x, 'f) tables" where
  "finish env op0 state0 ob cause0 interrupted db =
     attempt (load_instance (op_instance op0) db) (\<lambda>v.
     guard (if in_active (sv_public v) \<noteq> op_id op0 \<or> vm_id (sv_runtime v) \<noteq> vm_id state0
            then Some (Broken ''operation ownership changed'') else None) (
     let cause = final_cause (op_kind op0) cause0 interrupted in
     attempt (finished_state op0 v state0 ob cause) (\<lambda>(state1, op1).
     let now = en_now env 0;
         state = routine_ended op1 cause interrupted now state1;
         op2 = op1\<lparr>op_status := ''succeeded'', op_finished := Some now\<rparr>;
         op = (case cause of None \<Rightarrow> op2 | Some c \<Rightarrow> failed_operation c interrupted op2);
         w = finished_instance env op state ob cause now v
     in guard (if op_kind op = ''delete-pier'' \<and> cause = None
                  \<and> (case vm_deletion state of None \<Rightarrow> True | Some d \<Rightarrow> dl_stage d \<noteq> ''complete'')
               then Some (Broken ''deletion has no completed filesystem receipt'') else None) (
        Inr (save_operation op (if op_kind op \<in> {''delete-pier'', ''restore-import''} \<and> cause = None
               then retire_instance op db else save_instance w db))))))"

section \<open>Reconciliation\<close>

definition checkpointed :: "'x op_row \<Rightarrow> bool" where
  "checkpointed r \<longleftrightarrow> ow_runtime r \<noteq> None"

text \<open>A queued start has not crossed the dispatch boundary.\<close>

definition queued_start :: "'x op_row \<Rightarrow> bool" where
  "queued_start r \<longleftrightarrow> op_kind (ow_op r) = ''start'' \<and> op_status (ow_op r) = ''queued'' \<and> \<not> checkpointed r"

text \<open>A running first boot whose checkpoint proves that it never reached the engine.\<close>

definition undispatched_start :: "'x op_row \<Rightarrow> ('x, 'f) stored_instance \<Rightarrow> bool" where
  "undispatched_start r v \<longleftrightarrow> (let op = ow_op r; p = sv_public v in
     op_kind op = ''start'' \<and> op_status op = ''running'' \<and> op_instance op = in_id p \<and> in_desired p = ''running''
     \<and> \<not> in_recovery p \<and> in_applied p = 0 \<and> sv_runtime_config v = op_revision op \<and> op_revision op = in_revision p
     \<and> undispatched_initial_boot (sv_runtime v) \<and> ow_runtime r = Some (sv_runtime v))"

definition interrupted_operation :: "'x op_row \<Rightarrow> ('x, 'f) stored_instance \<Rightarrow> gotime \<Rightarrow> operation" where
  "interrupted_operation r v now = (ow_op r)\<lparr>op_status := ''interrupted'', op_finished := Some now, op_message :=
     (if queued_start r then ''runner restarted before the queued start was dispatched; submit a new request to retry''
      else if undispatched_start r v then ''runner restarted before first-boot dispatch; explicitly Stop preparation and refresh observation before retrying''
      else ''runner restarted before the operation outcome was committed; inspect before retrying'')\<rparr>"

text \<open>The durable evidence of unfinished work becomes uncertain.\<close>

definition interrupted_runtime :: "'x op_row \<Rightarrow> ('x, 'f) stored_instance \<Rightarrow> gotime \<Rightarrow> 'x managed_state" where
  "interrupted_runtime r v now =
     (let k = op_kind (ow_op r); s = sv_runtime v; p = sv_public v;
          dispatched = k = ''start'' \<and> \<not> undispatched_start r v;
          s = (if k = ''enroll-pier'' then s\<lparr>vm_adoption := map_option (\<lambda>a. a\<lparr>ad_uncertain := True\<rparr>) (vm_adoption s)\<rparr> else s);
          s = (if k = ''move-pier'' then s\<lparr>vm_storage := map_option (\<lambda>l. l\<lparr>lo_uncertain := True\<rparr>) (vm_storage s)\<rparr> else s);
          s = (if routine_kind k then s\<lparr>vm_routine := map_option (\<lambda>x. x\<lparr>rn_finished := Some now, rn_succeeded := False,
                 rn_stage := ''interrupted''\<rparr>) (vm_routine s)\<rparr> else s);
          s = (if dispatched \<and> (in_ship p = '''' \<or> \<not> vm_initialized s \<or> in_applied p = 0)
               then s\<lparr>vm_comet := map_option (\<lambda>c. c\<lparr>mc_uncertain := True\<rparr>) (vm_comet s)\<rparr> else s);
          s = (if dispatched \<and> vm_prepared s \<and> in_applied p = 0
               then s\<lparr>vm_storage := map_option (\<lambda>l. l\<lparr>lo_uncertain := True\<rparr>) (vm_storage s)\<rparr> else s)
      in if k = ''import-fake'' then s\<lparr>vm_import := map_option (\<lambda>i. i\<lparr>mi_uncertain := True\<rparr>) (vm_import s)\<rparr> else s)"

definition interrupted_instance :: "'x op_row \<Rightarrow> gotime \<Rightarrow> ('x, 'f) stored_instance \<Rightarrow> ('x, 'f) stored_instance" where
  "interrupted_instance r now v0 =
     (if queued_start r
      then v0\<lparr>sv_public := (sv_public v0)\<lparr>in_active := '''', in_resources := None\<rparr>, sv_startup := None\<rparr>
      else let k = op_kind (ow_op r);
               v = (if has_suffix k ''-handoff''
                    then handoff_error ''Handoff interrupted; continue the same move to reconcile its recorded phase.'' v0 else v0);
               w = v\<lparr>sv_runtime := interrupted_runtime r v now\<rparr>;
               w = (if routine_kind k \<and> vm_routine (sv_runtime w) \<noteq> None
                    then w\<lparr>sv_public := (sv_public w)\<lparr>in_routine := vm_routine (sv_runtime w)\<rparr>\<rparr> else w);
               w = (if k = ''import-fake'' then update_import_report w else w)
           in w\<lparr>sv_startup := None, sv_public := (sv_public w)\<lparr>in_active := '''', in_observed := ''unknown'',
                in_health := ''unknown'', in_recovery := True, in_resources := None\<rparr>\<rparr>)"

text \<open>One ship; the loop reads the clock once for each that has an operation.\<close>

definition reconcile_one ::
  "gotime \<Rightarrow> ('x, 'f) stored_instance \<Rightarrow> ('x, 'f) tables \<Rightarrow> fault + ('x, 'f) tables" where
  "reconcile_one now v db =
     (if in_active (sv_public v) = '''' then Inr db
      else attempt (load_operation (in_active (sv_public v)) db) (\<lambda>r.
        Inr (save_instance (interrupted_instance r now v) (save_operation (interrupted_operation r v now) db))))"

fun reconcile_all ::
  "'f env \<Rightarrow> nat \<Rightarrow> ('x, 'f) stored_instance list \<Rightarrow> ('x, 'f) tables \<Rightarrow> fault + ('x, 'f) tables" where
  "reconcile_all env n [] db = Inr db"
| "reconcile_all env n (v # vs) db = attempt (reconcile_one (en_now env n) v db) (reconcile_all env (Suc n) vs)"

definition reconcile_interrupted :: "'f env \<Rightarrow> ('x, 'f) tables \<Rightarrow> fault + ('x, 'f) tables" where
  "reconcile_interrupted env db = attempt (instances db) (\<lambda>all. reconcile_all env 0 all db)"

end
