(* ===== verification/LedgerSteps.thy ===== *)
theory LedgerSteps
  imports LedgerFinish
begin

text \<open>
  The store as a state machine: every commit of the modelled operations is a step, and what holds of
  every reachable store. \<open>open_ops\<close> are the unfinished operations, \<open>claims\<close> the ships that name one as
  their active operation; the invariant says that the two are the same set.
\<close>

section \<open>Tables with a key\<close>

text \<open>Rows that are found by a key: what a lookup returns after an append or an update in place.\<close>

locale keyed_rows =
  fixes key :: "'row \<Rightarrow> 'k"
begin

definition row_of :: "'row list \<Rightarrow> 'k \<Rightarrow> 'row option" where
  "row_of rs k = find (\<lambda>r. key r = k) rs"

definition keyed :: "'row list \<Rightarrow> bool" where
  "keyed rs \<longleftrightarrow> distinct (map key rs)"

lemma row_of_iff: "keyed rs \<Longrightarrow> row_of rs k = Some r \<longleftrightarrow> r \<in> set rs \<and> key r = k"
  unfolding keyed_def row_of_def by (induction rs) auto

lemma row_of_set: "row_of rs k = Some r \<Longrightarrow> r \<in> set rs \<and> key r = k"
  unfolding row_of_def by (auto simp: find_Some_iff)

lemma row_of_None: "row_of rs k = None \<longleftrightarrow> (\<forall>r\<in>set rs. key r \<noteq> k)"
  unfolding row_of_def by (auto simp: find_None_iff)

lemma keyed_append: "keyed (rs @ [r]) \<longleftrightarrow> keyed rs \<and> row_of rs (key r) = None"
  unfolding keyed_def row_of_None by (auto simp: image_iff)

lemma row_of_append: "row_of rs k = Some r \<Longrightarrow> row_of (rs @ [s]) k = Some r"
  unfolding row_of_def by (induction rs) auto

lemma keyed_map: "(\<And>r. r \<in> set rs \<Longrightarrow> key (f r) = key r) \<Longrightarrow> keyed (map f rs) = keyed rs"
  unfolding keyed_def by (simp cong: map_cong)

lemma row_of_map: "(\<And>r. r \<in> set rs \<Longrightarrow> key (f r) = key r) \<Longrightarrow> row_of (map f rs) k = map_option f (row_of rs k)"
  unfolding row_of_def by (induction rs) auto

lemma keyed_unique: "keyed rs \<Longrightarrow> r \<in> set rs \<Longrightarrow> s \<in> set rs \<Longrightarrow> key r = key s \<Longrightarrow> r = s"
  unfolding keyed_def by (auto simp: distinct_map inj_on_def)

end

definition op_key :: "'x op_row \<Rightarrow> string" where
  "op_key r = op_id (ow_op r)"

definition receipt_key :: "'x op_row \<Rightarrow> string \<times> string" where
  "receipt_key r = (op_actor (ow_op r), op_request (ow_op r))"

interpretation ops: keyed_rows op_key .

interpretation receipts: keyed_rows receipt_key .

lemma load_operation_iff: "load_operation i db = Inr r \<longleftrightarrow> ops.row_of (tb_operations db) i = Some r"
  by (auto simp: load_operation_def ops.row_of_def op_key_def split: option.splits)

lemma find_receipt_row: "find_receipt actor request db = receipts.row_of (tb_operations db) (actor, request)"
  by (simp add: find_receipt_def receipts.row_of_def receipt_key_def)

lemma insert_operation_iff: "insert_operation op fp db = Inr db' \<longleftrightarrow>
    ops.row_of (tb_operations db) (op_id op) = None \<and> receipts.row_of (tb_operations db) (op_actor op, op_request op) = None
    \<and> db' = db\<lparr>tb_operations := tb_operations db @ [\<lparr>ow_op = op, ow_fingerprint = fp, ow_runtime = None, ow_receipt = None\<rparr>]\<rparr>"
  by (auto simp: insert_operation_def ops.row_of_None receipts.row_of_None op_key_def receipt_key_def list_ex_iff)

section \<open>Instances by identifier\<close>

abbreviation inst_of :: "('x, 'f) tables \<Rightarrow> string \<Rightarrow> ('x, 'f) stored_instance option" where
  "inst_of db i \<equiv> map_of (tb_instances db) i"

lemma map_of_replace: "map_of (map (\<lambda>(i, w). (i, if i = k then v else w)) xs) j =
    (if j = k then map_option (\<lambda>_. v) (map_of xs j) else map_of xs j)"
  by (induction xs) auto

lemma inst_save [simp]: "inst_of (save_instance v db) j =
    (if j = in_id (sv_public v) then map_option (\<lambda>_. v) (inst_of db j) else inst_of db j)"
  by (simp add: save_instance_def map_of_replace)

lemma keys_save [simp]: "map fst (tb_instances (save_instance v db)) = map fst (tb_instances db)"
  by (simp add: save_instance_def case_prod_beta)

lemma save_instance_sel [simp]: "tb_operations (save_instance v db) = tb_operations db"
  "tb_policies (save_instance v db) = tb_policies db" "tb_deleted (save_instance v db) = tb_deleted db"
  by (simp_all add: save_instance_def)

lemma save_operation_sel [simp]: "tb_instances (save_operation op db) = tb_instances db"
  "tb_policies (save_operation op db) = tb_policies db" "tb_deleted (save_operation op db) = tb_deleted db"
  by (simp_all add: save_operation_def)

lemma load_instance_Inr: "load_instance i db = Inr v \<Longrightarrow> inst_of db i = Some v \<and> in_id (sv_public v) = i"
  by (auto simp: load_instance_def split: option.splits if_split_asm)

lemma retire_sel [simp]: "tb_operations (retire_instance op db) = tb_operations db"
  "inst_of (retire_instance op db) j = (if j = op_instance op then None else inst_of db j)"
  "map_of (tb_deleted (retire_instance op db)) j =
     (if j = op_instance op then Some \<lparr>ts_op = op_id op, ts_revision = op_revision op\<rparr> else map_of (tb_deleted db) j)"
proof -
  have *: "map_of (filter (\<lambda>(i, v). i \<noteq> k) xs) j = (if j = k then None else map_of xs j)" for k and xs :: "(string \<times> 'c) list"
    by (induction xs) auto
  show "tb_operations (retire_instance op db) = tb_operations db"
    "inst_of (retire_instance op db) j = (if j = op_instance op then None else inst_of db j)"
    "map_of (tb_deleted (retire_instance op db)) j =
     (if j = op_instance op then Some \<lparr>ts_op = op_id op, ts_revision = op_revision op\<rparr> else map_of (tb_deleted db) j)"
    by (simp_all add: retire_instance_def *)
qed

section \<open>The invariant\<close>

definition unfinished :: "operation \<Rightarrow> bool" where
  "unfinished op \<longleftrightarrow> op_status op \<in> {''queued'', ''running''}"

definition open_ops :: "('x, 'f) tables \<Rightarrow> (string \<times> string \<times> u64) set" where
  "open_ops db = {(op_id op, op_instance op, op_revision op) | op. op \<in> ow_op ` set (tb_operations db) \<and> unfinished op}"

definition claims :: "('x, 'f) tables \<Rightarrow> (string \<times> string \<times> u64) set" where
  "claims db = {(in_active (sv_public v), i, in_revision (sv_public v)) | i v.
     inst_of db i = Some v \<and> in_active (sv_public v) \<noteq> ''''}"

definition rows_ok :: "('x, 'f) tables \<Rightarrow> bool" where
  "rows_ok db \<longleftrightarrow> distinct (map fst (tb_instances db)) \<and> ops.keyed (tb_operations db) \<and> receipts.keyed (tb_operations db)
     \<and> (\<forall>r\<in>set (tb_operations db). op_id (ow_op r) \<noteq> '''')
     \<and> (\<forall>i v. inst_of db i = Some v \<longrightarrow> in_id (sv_public v) = i \<and> valid_id i \<and> length (vm_id (sv_runtime v)) = 32)"

definition ports_ok :: "('x, 'f) tables \<Rightarrow> bool" where
  "ports_ok db \<longleftrightarrow> (\<forall>i j v w. inst_of db i = Some v \<longrightarrow> inst_of db j = Some w \<longrightarrow>
     cf_http (in_config (sv_public v)) = cf_http (in_config (sv_public w)) \<longrightarrow> i = j)"

text \<open>Revisions are positive, at most \<open>MaxInt64\<close>, and beyond those of a deleted namesake.\<close>

definition revisions_ok :: "('x, 'f) tables \<Rightarrow> bool" where
  "revisions_ok db \<longleftrightarrow> (\<forall>i v. inst_of db i = Some v \<longrightarrow> 0 < in_revision (sv_public v) \<and> in_revision (sv_public v) \<le> max_revision
     \<and> (\<forall>t. map_of (tb_deleted db) i = Some t \<longrightarrow> ts_revision t < in_revision (sv_public v)))"

definition ledger_ok :: "('x, 'f) tables \<Rightarrow> bool" where
  "ledger_ok db \<longleftrightarrow> rows_ok db \<and> open_ops db = claims db \<and> ports_ok db \<and> revisions_ok db"

lemma instances_ok:
  assumes "rows_ok db"
  shows "\<exists>all. instances db = Inr all \<and> set all = {v. \<exists>i. inst_of db i = Some v} \<and> distinct (map (\<lambda>v. in_id (sv_public v)) all)"
proof -
  have d: "distinct (map fst (sort_key fst (tb_instances db)))"
    using assms by (simp add: rows_ok_def distinct_map)
  have id: "in_id (sv_public v) = i \<and> valid_id i" if "(i, v) \<in> set (tb_instances db)" for i v
    using assms that by (auto simp: rows_ok_def)
  have "map (\<lambda>v. in_id (sv_public v)) (map snd (sort_key fst (tb_instances db))) = map fst (sort_key fst (tb_instances db))"
    using id by auto
  moreover have "set (map snd (sort_key fst (tb_instances db))) = {v. \<exists>i. inst_of db i = Some v}"
    using assms by (force simp: rows_ok_def)
  ultimately show ?thesis using d id
    by (auto simp: instances_def Let_def list_ex_iff simp del: map_map)
qed

lemma other_instances_None:
  assumes "rows_ok db" "other_instances i f db = None" "inst_of db j = Some v" "j \<noteq> i"
  shows "f v = None"
proof -
  obtain all where "instances db = Inr all" "set all = {v. \<exists>i. inst_of db i = Some v}"
    using instances_ok [OF assms(1)] by blast
  moreover have "in_id (sv_public v) = j" using assms(1,3) by (simp add: rows_ok_def)
  ultimately show ?thesis using assms(2-4) by (auto simp: other_instances_def)
qed

lemma reserve_port_free:
  assumes "rows_ok db" "reserve_port env i port db = None" "inst_of db j = Some v" "j \<noteq> i"
  shows "cf_http (in_config (sv_public v)) \<noteq> port"
proof -
  have "other_instances i (port_holder port) db = None"
    using assms(2) by (simp add: reserve_port_def split: option.splits)
  from other_instances_None [OF assms(1) this assms(3,4)] show ?thesis by (auto simp: port_holder_def split: if_split_asm)
qed

section \<open>What the writes do to the invariant\<close>

lemma in_open: "(a, i, n) \<in> open_ops db \<longleftrightarrow> (\<exists>r\<in>set (tb_operations db). op_id (ow_op r) = a
    \<and> op_instance (ow_op r) = i \<and> op_revision (ow_op r) = n \<and> unfinished (ow_op r))"
  by (auto simp: open_ops_def)

lemma in_claims: "(a, i, n) \<in> claims db \<longleftrightarrow> a \<noteq> '''' \<and> (\<exists>v. inst_of db i = Some v \<and> in_active (sv_public v) = a
    \<and> in_revision (sv_public v) = n)"
  by (auto simp: claims_def)

lemma linkedI: "(\<And>a i n. (a, i, n) \<in> open_ops db \<longleftrightarrow> (a, i, n) \<in> claims db) \<Longrightarrow> open_ops db = claims db"
  by auto

lemma linkedD: "ledger_ok db \<Longrightarrow> (a, i, n) \<in> open_ops db \<longleftrightarrow> (a, i, n) \<in> claims db"
  by (simp add: ledger_ok_def)

text \<open>The fields that the invariant reads, but for the active operation.\<close>

definition same_identity :: "('x, 'f) stored_instance \<Rightarrow> ('x, 'f) stored_instance \<Rightarrow> bool" where
  "same_identity v w \<longleftrightarrow> in_id (sv_public w) = in_id (sv_public v) \<and> in_revision (sv_public w) = in_revision (sv_public v)
     \<and> in_config (sv_public w) = in_config (sv_public v) \<and> vm_id (sv_runtime w) = vm_id (sv_runtime v)"

lemma rows_save: "rows_ok db \<Longrightarrow> inst_of db i = Some v \<Longrightarrow> in_id (sv_public w) = i \<Longrightarrow> vm_id (sv_runtime w) = vm_id (sv_runtime v)
    \<Longrightarrow> rows_ok (save_instance w db)"
  by (auto simp: rows_ok_def)

lemma ports_cong: "tb_instances db = tb_instances db' \<Longrightarrow> ports_ok db = ports_ok db'"
  by (simp add: ports_ok_def)

lemma revisions_cong: "tb_instances db = tb_instances db' \<Longrightarrow> tb_deleted db = tb_deleted db' \<Longrightarrow> revisions_ok db = revisions_ok db'"
  by (simp add: revisions_ok_def)

lemma ok_save_parts:
  assumes "ledger_ok db" "inst_of db i = Some v" "same_identity v w"
  shows "rows_ok (save_instance w db)" "ports_ok (save_instance w db)" "revisions_ok (save_instance w db)"
proof -
  have i: "in_id (sv_public v) = i" using assms by (auto simp: ledger_ok_def rows_ok_def)
  show "rows_ok (save_instance w db)" using assms i by (auto simp: ledger_ok_def rows_ok_def same_identity_def)
  show "ports_ok (save_instance w db)" using assms i by (auto simp: ledger_ok_def ports_ok_def same_identity_def)
  show "revisions_ok (save_instance w db)" using assms i by (auto simp: ledger_ok_def revisions_ok_def same_identity_def)
qed

lemma ok_save:
  assumes "ledger_ok db" "inst_of db i = Some v" "same_identity v w" "in_active (sv_public w) = in_active (sv_public v)"
  shows "ledger_ok (save_instance w db)"
proof -
  have i: "in_id (sv_public w) = i" using assms(1-3) by (auto simp: ledger_ok_def rows_ok_def same_identity_def)
  have "open_ops (save_instance w db) = claims (save_instance w db)"
    using assms(2-4) linkedD [OF assms(1)] i
    by (intro linkedI) (auto simp: in_open in_claims same_identity_def)
  with ok_save_parts [OF assms(1-3)] show ?thesis by (simp add: ledger_ok_def)
qed

lemma ok_insert:
  assumes "ledger_ok db" "insert_operation op fp db = Inr db'" "op_id op \<noteq> ''''"
  shows "rows_ok db'" "ports_ok db'" "revisions_ok db'" "tb_instances db' = tb_instances db" "tb_deleted db' = tb_deleted db"
    "(a, i, n) \<in> open_ops db' \<longleftrightarrow> (a, i, n) \<in> open_ops db \<or> unfinished op \<and> a = op_id op \<and> i = op_instance op \<and> n = op_revision op"
proof -
  have d: "db' = db\<lparr>tb_operations := tb_operations db @ [\<lparr>ow_op = op, ow_fingerprint = fp, ow_runtime = None, ow_receipt = None\<rparr>]\<rparr>"
    "ops.row_of (tb_operations db) (op_id op) = None" "receipts.row_of (tb_operations db) (op_actor op, op_request op) = None"
    using assms(2) by (auto simp: insert_operation_iff)
  show "rows_ok db'" using assms(1,3) d
    by (auto simp: ledger_ok_def rows_ok_def ops.keyed_append receipts.keyed_append op_key_def receipt_key_def)
  show "ports_ok db'" "revisions_ok db'" "tb_instances db' = tb_instances db" "tb_deleted db' = tb_deleted db"
    using assms(1) d by (auto simp: ledger_ok_def ports_ok_def revisions_ok_def)
  show "(a, i, n) \<in> open_ops db' \<longleftrightarrow> (a, i, n) \<in> open_ops db \<or> unfinished op \<and> a = op_id op \<and> i = op_instance op \<and> n = op_revision op"
    using d by (auto simp: in_open)
qed

lemma ok_insert_finished:
  assumes "ledger_ok db" "insert_operation op fp db = Inr db'" "op_id op \<noteq> ''''" "\<not> unfinished op"
  shows "ledger_ok db'"
proof -
  note p = ok_insert [OF assms(1-3)]
  have "open_ops db' = claims db'"
    using linkedD [OF assms(1)] assms(4) by (intro linkedI) (simp add: p(6), simp add: in_claims p(4))
  with p(1-3) show ?thesis by (simp add: ledger_ok_def)
qed

lemma ok_open:
  assumes "ledger_ok db" "inst_of db i = Some v" "in_active (sv_public v) = ''''"
    and "insert_operation op fp db = Inr db'" "op_id op \<noteq> ''''" "unfinished op" "op_instance op = i"
    and "op_revision op = in_revision (sv_public v)" "same_identity v w" "in_active (sv_public w) = op_id op"
  shows "ledger_ok (save_instance w db')"
proof -
  note p = ok_insert [OF assms(1,4,5)]
  have i: "in_id (sv_public v) = i" using assms(1,2) by (auto simp: ledger_ok_def rows_ok_def)
  have o: "open_ops (save_instance w db') = open_ops db'" by (simp add: open_ops_def)
  have "open_ops (save_instance w db') = claims (save_instance w db')"
  proof (rule linkedI, unfold o p(6))
    fix a j n
    show "((a, j, n) \<in> open_ops db \<or> unfinished op \<and> a = op_id op \<and> j = op_instance op \<and> n = op_revision op) \<longleftrightarrow>
        (a, j, n) \<in> claims (save_instance w db')"
      using assms(2,3,5-10) i by (auto simp: linkedD [OF assms(1)] in_claims p(4) same_identity_def)
  qed
  moreover have "rows_ok (save_instance w db')" "ports_ok (save_instance w db')" "revisions_ok (save_instance w db')"
    using p(1-5) assms(2,9) i
    by (auto simp: rows_ok_def ports_ok_def revisions_ok_def same_identity_def)
  ultimately show ?thesis by (simp add: ledger_ok_def)
qed

text \<open>A row is replaced by one with the same keys.\<close>

definition same_receipt :: "operation \<Rightarrow> operation \<Rightarrow> bool" where
  "same_receipt old op \<longleftrightarrow> op_id op = op_id old \<and> op_actor op = op_actor old \<and> op_request op = op_request old
     \<and> op_instance op = op_instance old \<and> op_revision op = op_revision old"

lemma saved_rows: "ow_op ` set (tb_operations (save_operation op db)) =
    (\<lambda>o'. if op_id o' = op_id op then op else o') ` ow_op ` set (tb_operations db)"
proof -
  have "map ow_op (tb_operations (save_operation op db)) =
      map (\<lambda>o'. if op_id o' = op_id op then op else o') (map ow_op (tb_operations db))"
    by (simp add: save_operation_def)
  then show ?thesis by (metis list.set_map)
qed

lemma in_open_set: "(a, i, n) \<in> open_ops db \<longleftrightarrow> (\<exists>o'\<in>ow_op ` set (tb_operations db). op_id o' = a
    \<and> op_instance o' = i \<and> op_revision o' = n \<and> unfinished o')"
  by (auto simp: open_ops_def)

lemma ok_save_operation:
  assumes "ledger_ok db" "old \<in> ow_op ` set (tb_operations db)" "same_receipt old op"
  shows "rows_ok (save_operation op db)"
    "(a, i, n) \<in> open_ops (save_operation op db) \<longleftrightarrow>
       (if a = op_id op then unfinished op \<and> i = op_instance op \<and> n = op_revision op else (a, i, n) \<in> open_ops db)"
proof -
  from assms(2) obtain r where r: "r \<in> set (tb_operations db)" "ow_op r = old" by blast
  have u: "s = r" if "s \<in> set (tb_operations db)" "op_id (ow_op s) = op_id op" for s
    using that r assms(1,3) ops.keyed_unique [of "tb_operations db" s r]
    by (auto simp: ledger_ok_def rows_ok_def op_key_def same_receipt_def)
  have k: "ops.keyed (tb_operations (save_operation op db)) = ops.keyed (tb_operations db)"
    "receipts.keyed (tb_operations (save_operation op db)) = receipts.keyed (tb_operations db)"
  proof -
    have f: "op_key (if op_id (ow_op s) = op_id op then s\<lparr>ow_op := op\<rparr> else s) = op_key s"
      "receipt_key (if op_id (ow_op s) = op_id op then s\<lparr>ow_op := op\<rparr> else s) = receipt_key s"
      if "s \<in> set (tb_operations db)" for s
      using u [OF that] r(2) assms(3) by (auto simp: op_key_def receipt_key_def same_receipt_def)
    show "ops.keyed (tb_operations (save_operation op db)) = ops.keyed (tb_operations db)"
      "receipts.keyed (tb_operations (save_operation op db)) = receipts.keyed (tb_operations db)"
      using ops.keyed_map [OF f(1)] receipts.keyed_map [OF f(2)] by (simp_all add: save_operation_def)
  qed
  show "rows_ok (save_operation op db)"
    using assms r k by (auto simp: ledger_ok_def rows_ok_def same_receipt_def) (auto simp: save_operation_def)
  show "(a, i, n) \<in> open_ops (save_operation op db) \<longleftrightarrow>
       (if a = op_id op then unfinished op \<and> i = op_instance op \<and> n = op_revision op else (a, i, n) \<in> open_ops db)"
    using r assms(3) by (simp add: in_open_set saved_rows) (auto simp: same_receipt_def)
qed

text \<open>The active operation of a ship is active on no other.\<close>

lemma claim_unique:
  assumes "ledger_ok db" "inst_of db i = Some v" "in_active (sv_public v) \<noteq> ''''" "(a, j, n) \<in> claims db"
  shows "a = in_active (sv_public v) \<longleftrightarrow> j = i"
proof
  assume "a = in_active (sv_public v)"
  moreover have "(in_active (sv_public v), i, in_revision (sv_public v)) \<in> claims db"
    using assms(2,3) by (simp add: in_claims)
  ultimately obtain r s where "r \<in> set (tb_operations db)" "s \<in> set (tb_operations db)" "op_key r = op_key s"
    "op_instance (ow_op r) = i" "op_instance (ow_op s) = j"
    using assms(4) unfolding linkedD [OF assms(1), symmetric] in_open op_key_def by metis
  then show "j = i" using ops.keyed_unique assms(1) by (metis ledger_ok_def rows_ok_def)
qed (use assms(2,4) in \<open>simp add: in_claims\<close>)

lemma ok_close_parts:
  assumes "ledger_ok db" "inst_of db i = Some v" "in_active (sv_public v) = op_id op"
    and "old \<in> ow_op ` set (tb_operations db)" "same_receipt old op" "\<not> unfinished op"
  shows "op_id op \<noteq> ''''" "(a, j, n) \<in> open_ops (save_operation op db) \<longleftrightarrow> j \<noteq> i \<and> (a, j, n) \<in> claims db"
proof -
  show "op_id op \<noteq> ''''" using assms(1,4,5) by (auto simp: ledger_ok_def rows_ok_def same_receipt_def)
  then show "(a, j, n) \<in> open_ops (save_operation op db) \<longleftrightarrow> j \<noteq> i \<and> (a, j, n) \<in> claims db"
    using claim_unique [OF assms(1,2)] assms(3,6)
    by (auto simp: ok_save_operation(2) [OF assms(1,4,5)] linkedD [OF assms(1)])
qed

lemma ok_close:
  assumes "ledger_ok db" "inst_of db i = Some v" "in_active (sv_public v) = op_id op"
    and "old \<in> ow_op ` set (tb_operations db)" "same_receipt old op" "\<not> unfinished op"
    and "same_identity v w" "in_active (sv_public w) = ''''"
  shows "ledger_ok (save_operation op (save_instance w db))"
proof -
  have i: "in_id (sv_public v) = i" using assms(1,2) by (auto simp: ledger_ok_def rows_ok_def)
  have e: "save_operation op (save_instance w db) = save_instance w (save_operation op db)"
    by (simp add: save_operation_def save_instance_def)
  have "open_ops (save_instance w (save_operation op db)) = claims (save_instance w (save_operation op db))"
  proof (rule linkedI)
    fix a j n
    have "(a, j, n) \<in> open_ops (save_instance w (save_operation op db)) \<longleftrightarrow> j \<noteq> i \<and> (a, j, n) \<in> claims db"
      using ok_close_parts(2) [OF assms(1-6)] by (simp add: open_ops_def)
    also have "\<dots> \<longleftrightarrow> (a, j, n) \<in> claims (save_instance w (save_operation op db))"
      using assms(2,7,8) i by (auto simp: in_claims same_identity_def)
    finally show "(a, j, n) \<in> open_ops (save_instance w (save_operation op db)) \<longleftrightarrow>
        (a, j, n) \<in> claims (save_instance w (save_operation op db))" .
  qed
  moreover have "rows_ok (save_instance w (save_operation op db))"
    by (rule rows_save [OF ok_save_operation(1) [OF assms(1,4,5)], of i v]) (use assms(2,7) i in \<open>simp_all add: same_identity_def\<close>)
  moreover have "tb_instances (save_instance w (save_operation op db)) = tb_instances (save_instance w db)"
    by (simp add: save_instance_def)
  then have "ports_ok (save_instance w (save_operation op db))" "revisions_ok (save_instance w (save_operation op db))"
    using ok_save_parts(2,3) [OF assms(1,2,7)] ports_cong revisions_cong by (metis save_instance_sel(3) save_operation_sel(3))+
  ultimately show ?thesis by (simp add: ledger_ok_def e)
qed

lemma ok_retire:
  assumes "ledger_ok db" "inst_of db i = Some v" "in_active (sv_public v) = op_id op"
    and "old \<in> ow_op ` set (tb_operations db)" "same_receipt old op" "\<not> unfinished op" "op_instance op = i"
  shows "ledger_ok (save_operation op (retire_instance op db))"
proof -
  have e: "save_operation op (retire_instance op db) = retire_instance op (save_operation op db)"
    by (simp add: save_operation_def retire_instance_def)
  have "open_ops (retire_instance op (save_operation op db)) = claims (retire_instance op (save_operation op db))"
  proof (rule linkedI)
    fix a j n
    have "(a, j, n) \<in> open_ops (retire_instance op (save_operation op db)) \<longleftrightarrow> j \<noteq> i \<and> (a, j, n) \<in> claims db"
      using ok_close_parts(2) [OF assms(1-6)] by (simp add: open_ops_def)
    also have "\<dots> \<longleftrightarrow> (a, j, n) \<in> claims (retire_instance op (save_operation op db))"
      using assms(7) by (auto simp: in_claims)
    finally show "(a, j, n) \<in> open_ops (retire_instance op (save_operation op db)) \<longleftrightarrow>
        (a, j, n) \<in> claims (retire_instance op (save_operation op db))" .
  qed
  moreover have "distinct (map fst (filter (\<lambda>(i, v). i \<noteq> op_instance op) (tb_instances db)))"
    using assms(1) by (simp add: ledger_ok_def rows_ok_def distinct_map_filter)
  then have "rows_ok (retire_instance op (save_operation op db))"
    using ok_save_operation(1) [OF assms(1,4,5)] unfolding rows_ok_def retire_sel
    by (auto simp: retire_instance_def split: if_split_asm)
  moreover have "ports_ok (retire_instance op (save_operation op db))" "revisions_ok (retire_instance op (save_operation op db))"
    using assms(1) by (auto simp: ledger_ok_def ports_ok_def revisions_ok_def split: if_split_asm)
  ultimately show ?thesis by (simp add: ledger_ok_def e)
qed

lemma ok_advance:
  assumes "ledger_ok db" "inst_of db i = Some v" "in_active (sv_public v) = op_id op"
    and "old \<in> ow_op ` set (tb_operations db)" "same_receipt old op" "unfinished old" "unfinished op"
    and "same_identity v w" "in_active (sv_public w) = in_active (sv_public v)"
  shows "ledger_ok (save_instance w (save_operation op db))"
proof -
  have "open_ops (save_operation op db) = claims (save_operation op db)"
  proof (rule linkedI)
    fix a j n
    have c: "(op_id op, op_instance op, op_revision op) \<in> claims db"
      using assms(4-6) by (auto simp: linkedD [OF assms(1), symmetric] in_open same_receipt_def)
    have n: "in_active (sv_public v) \<noteq> ''''" using c assms(3) by (simp add: in_claims)
    have o: "op_instance op = i" "op_revision op = in_revision (sv_public v)"
      using claim_unique [OF assms(1,2) n c] c assms(2,3) by (simp_all add: in_claims)
    have "(op_id op, j, m) \<in> claims db \<longleftrightarrow> j = i \<and> m = in_revision (sv_public v)" for j m
      using claim_unique [OF assms(1,2) n, of "op_id op" j m] assms(2,3) n by (auto simp: in_claims)
    moreover have "claims (save_operation op db) = claims db" by (simp add: claims_def)
    ultimately show "(a, j, n) \<in> open_ops (save_operation op db) \<longleftrightarrow> (a, j, n) \<in> claims (save_operation op db)"
      using assms(7) o by (simp add: ok_save_operation(2) [OF assms(1,4,5)] linkedD [OF assms(1)])
  qed
  then have "ledger_ok (save_operation op db)"
    using ok_save_operation(1) [OF assms(1,4,5)] assms(1) by (simp add: ledger_ok_def ports_ok_def revisions_ok_def)
  then show ?thesis using assms(2,8,9) by (auto intro: ok_save)
qed

lemma ok_register:
  assumes "ledger_ok db" "insert_instance i v db = Inr db'" "in_id (sv_public v) = i" "valid_id i" "in_active (sv_public v) = ''''"
    and "length (vm_id (sv_runtime v)) = 32" "0 < in_revision (sv_public v)" "in_revision (sv_public v) \<le> max_revision"
    and "\<And>t. map_of (tb_deleted db) i = Some t \<Longrightarrow> ts_revision t < in_revision (sv_public v)"
    and "\<And>j w. inst_of db j = Some w \<Longrightarrow> j \<noteq> i \<Longrightarrow> cf_http (in_config (sv_public w)) \<noteq> cf_http (in_config (sv_public v))"
  shows "ledger_ok db'"
proof -
  have d: "db' = db\<lparr>tb_instances := tb_instances db @ [(i, v)]\<rparr>" "i \<notin> fst ` set (tb_instances db)"
    using assms(2) by (auto simp: insert_instance_def split: if_split_asm)
  have n: "inst_of db i = None" using d(2) by (simp add: map_of_eq_None_iff)
  have m: "inst_of db' j = (if j = i then Some v else inst_of db j)" for j
    using n by (auto simp: d(1) map_add_def split: option.split)
  have "open_ops db' = open_ops db" by (simp add: d(1) open_ops_def)
  moreover have "claims db' = claims db" 
  proof -
    have "(a, j, k) \<in> claims db' \<longleftrightarrow> (a, j, k) \<in> claims db" for a j k
      using assms(5) n by (cases "j = i") (auto simp: in_claims m)
    then show ?thesis by auto
  qed
  ultimately have "open_ops db' = claims db'" using assms(1) by (simp add: ledger_ok_def)
  moreover have "rows_ok db'" using assms(1,3,4,6) d m by (auto simp: ledger_ok_def rows_ok_def)
  moreover have "ports_ok db'" using assms(1,10) m unfolding ledger_ok_def ports_ok_def by (metis option.inject)
  moreover have "revisions_ok db'" using assms(1,7-9) m d by (auto simp: ledger_ok_def revisions_ok_def split: if_split_asm)
  ultimately show ?thesis by (simp add: ledger_ok_def)
qed

text \<open>Writing beside the operations of the rows changes nothing of the invariant.\<close>

lemma ok_annotate:
  assumes "\<And>r. ow_op (f r) = ow_op r"
  shows "ledger_ok (db\<lparr>tb_operations := map f (tb_operations db)\<rparr>) = ledger_ok db"
proof -
  have k: "op_key (f r) = op_key r" "receipt_key (f r) = receipt_key r" for r
    by (simp_all add: op_key_def receipt_key_def assms)
  have s: "ow_op ` f ` set rs = ow_op ` set rs" for rs by (simp add: image_image assms)
  show ?thesis
    using ops.keyed_map [of "tb_operations db" f, OF k(1)] receipts.keyed_map [of "tb_operations db" f, OF k(2)]
    by (simp add: ledger_ok_def rows_ok_def ports_ok_def revisions_ok_def open_ops_def claims_def s assms)
qed

lemma ok_checkpoint [simp]: "ledger_ok (save_checkpoint opid state db) = ledger_ok db"
  unfolding save_checkpoint_def by (rule ok_annotate) simp

end
