(* ===== verification/LedgerInvariant.thy ===== *)
theory LedgerInvariant
  imports LedgerSteps
begin

text \<open>
  Every operation of the store keeps the invariant of \<open>LedgerSteps\<close> and only moves the store forward:
  receipts are never lost or rewritten once finished, and the revision of an identifier names one
  configuration, also across its deletion.
\<close>

section \<open>Forward\<close>

definition kept :: "'x op_row \<Rightarrow> 'x op_row \<Rightarrow> bool" where
  "kept r s \<longleftrightarrow> same_receipt (ow_op r) (ow_op s) \<and> op_kind (ow_op s) = op_kind (ow_op r) \<and> ow_fingerprint s = ow_fingerprint r
     \<and> (unfinished (ow_op r) \<or> ow_op s = ow_op r)"

text \<open>The revision an identifier has reached, and the configuration it stands for while it is registered.\<close>

definition reached :: "('x, 'f) tables \<Rightarrow> string \<Rightarrow> (u64 \<times> configuration option) option" where
  "reached db i = (case inst_of db i of Some v \<Rightarrow> Some (in_revision (sv_public v), Some (in_config (sv_public v)))
     | None \<Rightarrow> map_option (\<lambda>t. (ts_revision t, None)) (map_of (tb_deleted db) i))"

fun rev_le :: "u64 \<times> configuration option \<Rightarrow> u64 \<times> configuration option \<Rightarrow> bool" where
  "rev_le (n, c) (m, d) \<longleftrightarrow> n < m \<or> n = m \<and> (d = None \<or> d = c)"

definition forward :: "('x, 'f) tables \<Rightarrow> ('x, 'f) tables \<Rightarrow> bool" where
  "forward db db' \<longleftrightarrow> (\<forall>r\<in>set (tb_operations db). \<exists>s\<in>set (tb_operations db'). kept r s)
     \<and> (\<forall>i x. reached db i = Some x \<longrightarrow> (\<exists>y. reached db' i = Some y \<and> rev_le x y))"

lemma kept_refl [simp]: "kept r r"
  by (simp add: kept_def same_receipt_def)

lemma kept_trans: "kept r s \<Longrightarrow> kept s t \<Longrightarrow> kept r t"
  unfolding kept_def same_receipt_def by metis

lemma rev_le_refl [simp]: "rev_le x x"
  by (cases x) simp

lemma rev_le_trans: "rev_le x y \<Longrightarrow> rev_le y z \<Longrightarrow> rev_le x z"
  by (cases x; cases y; cases z) auto

lemma forwardI:
  assumes "\<And>r. r \<in> set (tb_operations db) \<Longrightarrow> \<exists>s\<in>set (tb_operations db'). kept r s"
    and "\<And>i x. reached db i = Some x \<Longrightarrow> \<exists>y. reached db' i = Some y \<and> rev_le x y"
  shows "forward db db'"
  using assms unfolding forward_def by blast

lemma forward_rows:
  assumes "forward db db1" "tb_operations db2 = tb_operations db1" "reached db2 = reached db1"
  shows "forward db db2"
  using assms unfolding forward_def by metis

lemma forward_refl [simp]: "forward db db"
  by (rule forwardI) (blast intro: kept_refl rev_le_refl)+

lemma forward_trans: "forward db1 db2 \<Longrightarrow> forward db2 db3 \<Longrightarrow> forward db1 db3"
  unfolding forward_def by (meson kept_trans rev_le_trans)

lemma reached_cong: "tb_instances db = tb_instances db' \<Longrightarrow> tb_deleted db = tb_deleted db' \<Longrightarrow> reached db = reached db'"
  by (simp add: reached_def fun_eq_iff cong: option.case_cong)

text \<open>A sound commit.\<close>

definition sound_step :: "('x, 'f) tables \<Rightarrow> ('x, 'f) tables \<Rightarrow> bool" where
  "sound_step db db' \<longleftrightarrow> ledger_ok db' \<and> forward db db'"

lemma sound_refl: "ledger_ok db \<Longrightarrow> sound_step db db"
  by (simp add: sound_step_def)

lemma sound_trans: "sound_step db1 db2 \<Longrightarrow> (ledger_ok db2 \<Longrightarrow> sound_step db2 db3) \<Longrightarrow> sound_step db1 db3"
  by (auto simp: sound_step_def intro: forward_trans)

section \<open>The writes\<close>

lemma forward_save:
  assumes "inst_of db i = Some v" "same_identity v w" "in_id (sv_public v) = i"
  shows "forward db (save_instance w db)"
proof (rule forward_rows [OF forward_refl])
  have "reached (save_instance w db) j = reached db j" for j
    using assms by (cases "j = i") (auto simp: reached_def same_identity_def split: option.split)
  then show "reached (save_instance w db) = reached db" by blast
qed simp

lemma forward_insert:
  assumes "insert_operation op fp db = Inr db'"
  shows "forward db db'"
proof (rule forwardI)
  fix r assume "r \<in> set (tb_operations db)"
  with assms show "\<exists>s\<in>set (tb_operations db'). kept r s" by (auto simp: insert_operation_iff intro: kept_refl)
next
  fix i x assume "reached db i = Some x"
  moreover have "reached db' = reached db" using assms by (intro reached_cong) (auto simp: insert_operation_iff)
  ultimately show "\<exists>y. reached db' i = Some y \<and> rev_le x y" by (auto intro: rev_le_refl)
qed

lemma forward_save_operation:
  assumes "old \<in> ow_op ` set (tb_operations db)" "same_receipt old op" "op_kind op = op_kind old" "unfinished old"
    and "ops.keyed (tb_operations db)"
  shows "forward db (save_operation op db)"
proof (rule forwardI)
  fix r assume r: "r \<in> set (tb_operations db)"
  show "\<exists>s\<in>set (tb_operations (save_operation op db)). kept r s"
  proof (cases "op_id (ow_op r) = op_id op")
    case True
    obtain q where q: "q \<in> set (tb_operations db)" "old = ow_op q" using assms(1) by blast
    then have "ow_op r = old"
      using ops.keyed_unique [OF assms(5) r q(1)] True assms(2) by (simp add: op_key_def same_receipt_def)
    then have "kept r (r\<lparr>ow_op := op\<rparr>)" using assms(2-4) by (simp add: kept_def)
    moreover have "r\<lparr>ow_op := op\<rparr> \<in> set (tb_operations (save_operation op db))"
      using r True by (force simp: save_operation_def)
    ultimately show ?thesis by blast
  next
    case False
    then have "r \<in> set (tb_operations (save_operation op db))" using r by (force simp: save_operation_def)
    then show ?thesis by (blast intro: kept_refl)
  qed
next
  fix i x assume "reached db i = Some x"
  moreover have "reached (save_operation op db) = reached db" by (rule reached_cong) simp_all
  ultimately show "\<exists>y. reached (save_operation op db) i = Some y \<and> rev_le x y" by (auto intro: rev_le_refl)
qed

lemma sound_save:
  assumes "ledger_ok db" "inst_of db i = Some v" "same_identity v w" "in_active (sv_public w) = in_active (sv_public v)"
  shows "sound_step db (save_instance w db)"
proof -
  have "in_id (sv_public v) = i" using assms(1,2) by (auto simp: ledger_ok_def rows_ok_def)
  then show ?thesis using ok_save [OF assms] forward_save [OF assms(2,3)] by (simp add: sound_step_def)
qed

lemma sound_insert:
  assumes "ledger_ok db" "insert_operation op fp db = Inr db'" "op_id op \<noteq> ''''" "\<not> unfinished op"
  shows "sound_step db db'"
  using ok_insert_finished [OF assms] forward_insert [OF assms(2)] by (simp add: sound_step_def)

lemma sound_open:
  assumes "ledger_ok db" "inst_of db i = Some v" "in_active (sv_public v) = ''''"
    and "insert_operation op fp db = Inr db'" "op_id op \<noteq> ''''" "unfinished op" "op_instance op = i"
    and "op_revision op = in_revision (sv_public v)" "same_identity v w" "in_active (sv_public w) = op_id op"
  shows "sound_step db (save_instance w db')"
proof -
  have i: "in_id (sv_public v) = i" using assms(1,2) by (auto simp: ledger_ok_def rows_ok_def)
  have "inst_of db' i = Some v" using assms(2,4) by (auto simp: insert_operation_iff)
  then have "forward db (save_instance w db')"
    using forward_insert [OF assms(4)] forward_save [OF _ assms(9) i] by (rule_tac forward_trans)
  with ok_open [OF assms] show ?thesis by (simp add: sound_step_def)
qed

lemma sound_close:
  assumes "ledger_ok db" "inst_of db i = Some v" "in_active (sv_public v) = op_id op"
    and "old \<in> ow_op ` set (tb_operations db)" "same_receipt old op" "op_kind op = op_kind old" "unfinished old" "\<not> unfinished op"
    and "same_identity v w" "in_active (sv_public w) = ''''"
  shows "sound_step db (save_operation op (save_instance w db))"
proof -
  have i: "in_id (sv_public v) = i" using assms(1,2) by (auto simp: ledger_ok_def rows_ok_def)
  have k: "ops.keyed (tb_operations (save_instance w db))" using assms(1) by (simp add: ledger_ok_def rows_ok_def)
  have "forward db (save_operation op (save_instance w db))"
    using forward_save [OF assms(2,9) i] forward_save_operation [OF _ assms(5-7) k] assms(4) by (auto intro: forward_trans)
  with ok_close [OF assms(1-5,8-10)] show ?thesis by (simp add: sound_step_def)
qed

lemma sound_advance:
  assumes "ledger_ok db" "inst_of db i = Some v" "in_active (sv_public v) = op_id op"
    and "old \<in> ow_op ` set (tb_operations db)" "same_receipt old op" "op_kind op = op_kind old" "unfinished old" "unfinished op"
    and "same_identity v w" "in_active (sv_public w) = in_active (sv_public v)"
  shows "sound_step db (save_instance w (save_operation op db))"
proof -
  have i: "in_id (sv_public v) = i" using assms(1,2) by (auto simp: ledger_ok_def rows_ok_def)
  have k: "ops.keyed (tb_operations db)" using assms(1) by (simp add: ledger_ok_def rows_ok_def)
  have "forward db (save_instance w (save_operation op db))"
    using forward_save_operation [OF assms(4-7) k] forward_save [of "save_operation op db" i v w] assms(2,9) i
    by (auto intro: forward_trans)
  with ok_advance [OF assms(1-5,7-10)] show ?thesis by (simp add: sound_step_def)
qed

lemma sound_retire:
  assumes "ledger_ok db" "inst_of db i = Some v" "in_active (sv_public v) = op_id op"
    and "old \<in> ow_op ` set (tb_operations db)" "same_receipt old op" "op_kind op = op_kind old" "unfinished old" "\<not> unfinished op"
    and "op_instance op = i"
  shows "sound_step db (save_operation op (retire_instance op db))"
proof -
  have k: "ops.keyed (tb_operations (retire_instance op db))" using assms(1) by (simp add: ledger_ok_def rows_ok_def)
  have "(op_id op, op_instance op, op_revision op) \<in> claims db"
    using assms(4,5,7) by (auto simp: linkedD [OF assms(1), symmetric] in_open same_receipt_def)
  then have rv: "op_revision op = in_revision (sv_public v)" using assms(2,9) by (simp add: in_claims)
  have "forward db (retire_instance op db)"
  proof (rule forwardI)
    fix j x assume x: "reached db j = Some x"
    show "\<exists>y. reached (retire_instance op db) j = Some y \<and> rev_le x y"
    proof (cases "j = i")
      case True
      then have "x = (op_revision op, Some (in_config (sv_public v)))" using x assms(2) rv by (simp add: reached_def)
      then show ?thesis using True assms(9) by (simp add: reached_def)
    next
      case False
      then have "reached (retire_instance op db) j = reached db j" using assms(9) by (simp add: reached_def cong: option.case_cong)
      then show ?thesis using x by (auto intro: rev_le_refl)
    qed
  qed (auto intro: kept_refl)
  moreover have "forward (retire_instance op db) (save_operation op (retire_instance op db))"
    using forward_save_operation [OF _ assms(5-7) k] assms(4) by simp
  ultimately show ?thesis
    using ok_retire [OF assms(1-5,8,9)] by (auto simp: sound_step_def intro: forward_trans)
qed

end
