(* ===== verification/LedgerSound.thy ===== *)
theory LedgerSound
  imports LedgerInvariant
begin

text \<open>
  Every operation of the store commits soundly: it keeps the invariant and moves the store forward
  (\<open>sound_step\<close> of \<open>LedgerInvariant\<close>), on every branch that commits.
\<close>

section \<open>Admission\<close>

lemma new_operation_sel [simp]:
  "op_id (new_operation key request i kind actor revision now) = ''op-'' @ key"
  "op_instance (new_operation key request i kind actor revision now) = i"
  "op_kind (new_operation key request i kind actor revision now) = kind"
  "op_request (new_operation key request i kind actor revision now) = request"
  "op_actor (new_operation key request i kind actor revision now) = actor"
  "op_revision (new_operation key request i kind actor revision now) = revision"
  "op_status (new_operation key request i kind actor revision now) = ''queued''"
  by (simp_all add: new_operation_def)

lemma admission_idle:
  "admission_refused env i req v db = None \<Longrightarrow> in_revision (sv_public v) = oq_expected req \<and> in_active (sv_public v) = ''''"
  by (simp add: admission_refused_def instance_idle_def Let_def del: refuse.simps first_fault.simps)

lemma staged_id [simp]: "vm_id (staged_runtime req s) = vm_id s"
  by (simp add: staged_runtime_def)

lemma accept_sound:
  assumes "ledger_ok db" "accept env actor i req db = Inr (op, dup, db')"
  shows "sound_step db db'"
proof (cases "replay actor (oq_request req) (Operate i req) db")
  case (Some r)
  then show ?thesis using assms by (auto simp: accept_def intro: sound_refl)
next
  case None
  with assms(2) obtain v key db1 where
    v: "load_instance i db = Inr v" "admission_refused env i req v db = None"
    and op: "op = new_operation key (oq_request req) i (oq_kind req) actor (oq_expected req) (en_now env 1)"
    and db1: "insert_operation op (Operate i req) db = Inr db1" "db' = save_instance (accepted_instance req (op_id op) v) db1"
    by (auto simp: accept_def Let_def)
  note idle = admission_idle [OF v(2)]
  note ins = load_instance_Inr [OF v(1)]
  show ?thesis unfolding db1(2)
  proof (rule sound_open [OF assms(1) _ _ db1(1)])
    show "inst_of db i = Some v" using ins by simp
    show "in_active (sv_public v) = ''''" using idle by simp
    show "op_revision op = in_revision (sv_public v)" using idle by (simp add: op)
  qed (simp_all add: op unfinished_def same_identity_def accepted_instance_def)
qed

section \<open>Configuration\<close>

text \<open>A new configuration on a free port, at the revision after the current one.\<close>

lemma sound_reconfigure:
  assumes "ledger_ok db" "inst_of db i = Some v" "in_active (sv_public v) = ''''"
    and "in_revision (sv_public v) \<noteq> max_revision"
    and "in_id (sv_public w) = i \<and> vm_id (sv_runtime w) = vm_id (sv_runtime v)"
    and "in_revision (sv_public w) = in_revision (sv_public v) + 1" "in_active (sv_public w) = ''''"
    and "\<And>j u. inst_of db j = Some u \<Longrightarrow> j \<noteq> i \<Longrightarrow> cf_http (in_config (sv_public u)) \<noteq> cf_http (in_config (sv_public w))"
  shows "sound_step db (save_instance w db)"
proof -
  have rv: "in_revision (sv_public v) \<le> max_revision" "\<And>t. map_of (tb_deleted db) i = Some t \<Longrightarrow> ts_revision t < in_revision (sv_public v)"
    using assms(1,2) by (auto simp: ledger_ok_def revisions_ok_def)
  from rv(1) assms(4) have lt: "in_revision (sv_public v) < max_revision" by simp
  then have up: "in_revision (sv_public v) < in_revision (sv_public w)" "in_revision (sv_public w) \<le> max_revision"
    unfolding assms(6) by (simp_all add: word_less_nat_alt word_le_nat_alt unat_word_ariths)
  have "claims (save_instance w db) = claims db"
  proof -
    have "(a, j, n) \<in> claims (save_instance w db) \<longleftrightarrow> (a, j, n) \<in> claims db" for a j n
      using assms(2,3,5,7) by (cases "j = i") (auto simp: in_claims)
    then show ?thesis by auto
  qed
  moreover have "open_ops (save_instance w db) = open_ops db" by (simp add: open_ops_def)
  moreover have "rows_ok (save_instance w db)" using assms(1,2,5) by (auto simp: ledger_ok_def rows_ok_def)
  moreover have "ports_ok (save_instance w db)"
    using assms(1,5,8) unfolding ledger_ok_def ports_ok_def by (auto split: if_split_asm) metis+
  moreover have "revisions_ok (save_instance w db)"
  proof -
    have "0 < in_revision (sv_public w)" using up(1) by (rule le_less_trans [OF word_zero_le])
    moreover have "ts_revision t < in_revision (sv_public w)" if "map_of (tb_deleted db) i = Some t" for t
      using rv(2) [OF that] up(1) by (rule less_trans)
    ultimately show ?thesis using assms(1,5) up(2) by (auto simp: ledger_ok_def revisions_ok_def split: if_split_asm)
  qed
  ultimately have "ledger_ok (save_instance w db)" using assms(1) by (simp add: ledger_ok_def)
  moreover have "forward db (save_instance w db)"
  proof (rule forwardI)
    fix j x assume "reached db j = Some x"
    then show "\<exists>y. reached (save_instance w db) j = Some y \<and> rev_le x y"
      using assms(2,5) up(1) by (cases "j = i") (auto simp: reached_def cong: option.case_cong)
  qed (auto intro: kept_refl)
  ultimately show ?thesis by (simp add: sound_step_def)
qed

lemma configure_sound:
  assumes "ledger_ok db" "configure env actor i req db = Inr (p, db')"
  shows "sound_step db db'"
proof -
  obtain v where v: "load_instance i db = Inr v" "configure_admitted env i req v db = None"
    and c: "in_config (sv_public v) = wanted_config req v \<and> db' = db \<or> in_config (sv_public v) \<noteq> wanted_config req v
      \<and> (\<exists>key op fp. insert_operation op fp (save_instance (reconfigured (wanted_config req v) v) db) = Inr db'
           \<and> op_id op = ''op-'' @ key \<and> op_status op = ''succeeded'')"
    using assms(2) unfolding configure_def guard_Inr attempt_Inr Let_def
    by (fastforce split: if_split_asm)
  note ins = load_instance_Inr [OF v(1)]
  show ?thesis
  proof (cases "in_config (sv_public v) = wanted_config req v")
    case True
    then show ?thesis using c assms(1) by (auto intro: sound_refl)
  next
    case False
    let ?w = "reconfigured (wanted_config req v) v"
    have adm: "in_active (sv_public v) = ''''" "in_revision (sv_public v) \<noteq> max_revision"
      "reserve_port env i (cf_http (wanted_config req v)) db = None"
      using v(2) False by (simp_all add: configure_admitted_def Let_def split: if_split_asm
          del: refuse.simps first_fault.simps)
    have "sound_step db (save_instance ?w db)"
      using adm(1,2) ins reserve_port_free [OF _ adm(3)] assms(1)
      by (intro sound_reconfigure [OF assms(1)]) (auto simp: reconfigured_def ledger_ok_def)
    then show ?thesis
    proof (rule sound_trans)
      assume ok: "ledger_ok (save_instance ?w db)"
      from c False obtain key op fp where "insert_operation op fp (save_instance ?w db) = Inr db'"
        "op_id op = ''op-'' @ key" "op_status op = ''succeeded''"
        by auto
      with ok show "sound_step (save_instance ?w db) db'" by (intro sound_insert [OF ok]) (auto simp: unfinished_def)
    qed
  qed
qed

section \<open>Registration\<close>

lemma insert_instance_row:
  assumes "insert_instance i v db = Inr db'"
  shows "inst_of db i = None" "inst_of db' j = (if j = i then Some v else inst_of db j)"
    "tb_deleted db' = tb_deleted db" "tb_operations db' = tb_operations db"
proof -
  have d: "db' = db\<lparr>tb_instances := tb_instances db @ [(i, v)]\<rparr>" "i \<notin> fst ` set (tb_instances db)"
    using assms by (auto simp: insert_instance_def split: if_split_asm)
  show n: "inst_of db i = None" using d(2) by (simp add: map_of_eq_None_iff)
  show "inst_of db' j = (if j = i then Some v else inst_of db j)"
    using n by (auto simp: d(1) map_add_def split: option.split)
qed (use assms in \<open>auto simp: insert_instance_def split: if_split_asm\<close>)

lemma forward_register:
  assumes "ledger_ok db" "insert_instance i v db = Inr db'"
    and "\<And>t. map_of (tb_deleted db) i = Some t \<Longrightarrow> ts_revision t < in_revision (sv_public v)"
  shows "forward db db'"
proof (rule forwardI)
  fix r assume "r \<in> set (tb_operations db)"
  then show "\<exists>s\<in>set (tb_operations db'). kept r s"
    unfolding insert_instance_row(4) [OF assms(2)] by (blast intro: kept_refl)
next
  fix j x assume x: "reached db j = Some x"
  note d = insert_instance_row [OF assms(2)]
  show "\<exists>y. reached db' j = Some y \<and> rev_le x y"
  proof (cases "j = i")
    case True
    then show ?thesis using x d assms(3) by (auto simp: reached_def)
  next
    case False
    then have "reached db' j = reached db j" using d by (simp add: reached_def cong: option.case_cong)
    then show ?thesis using x by (auto intro: rev_le_refl)
  qed
qed

lemma sound_register:
  assumes "ledger_ok db" "insert_instance i v db = Inr db'" "in_id (sv_public v) = i" "valid_id i" "in_active (sv_public v) = ''''"
    and "length (vm_id (sv_runtime v)) = 32" "0 < in_revision (sv_public v)" "in_revision (sv_public v) \<le> max_revision"
    and "\<And>t. map_of (tb_deleted db) i = Some t \<Longrightarrow> ts_revision t < in_revision (sv_public v)"
    and "\<And>j w. inst_of db j = Some w \<Longrightarrow> j \<noteq> i \<Longrightarrow> cf_http (in_config (sv_public w)) \<noteq> cf_http (in_config (sv_public v))"
  shows "sound_step db db'"
  using ok_register [OF assms] forward_register [OF assms(1,2,9)] by (simp add: sound_step_def)

text \<open>The first revision is positive, in range, and beyond that of a deleted namesake.\<close>

lemma initial_revision_bounds:
  assumes "initial_revision env i db = Inr n"
  shows "0 < n" "n \<le> max_revision" "\<And>t. map_of (tb_deleted db) i = Some t \<Longrightarrow> ts_revision t < n"
proof -
  have *: "x < x + 1 \<and> x + 1 \<le> max_revision" if "\<not> x \<ge> max_revision" for x :: u64
    using that by (simp add: word_less_nat_alt word_le_nat_alt unat_word_ariths)
  have n: "case map_of (tb_deleted db) i of None \<Rightarrow> n = 1
    | Some t \<Rightarrow> \<not> ts_revision t \<ge> max_revision \<and> n = ts_revision t + 1"
    using assms by (auto simp: initial_revision_def split: sum.splits if_split_asm option.splits)
  show 3: "ts_revision t < n" if "map_of (tb_deleted db) i = Some t" for t using n * that by auto
  show "n \<le> max_revision" using n * by (auto split: option.splits)
  show "0 < n"
  proof (cases "map_of (tb_deleted db) i")
    case None then show ?thesis using n by simp
  next
    case (Some t) then show ?thesis using le_less_trans [OF word_zero_le 3] by blast
  qed
qed

lemma insert_save_commute:
  "insert_operation op fp (save_instance w db) = Inr db' \<Longrightarrow> \<exists>db1. insert_operation op fp db = Inr db1 \<and> db' = save_instance w db1"
  by (auto simp: insert_operation_iff save_instance_def)

lemma update_import_public [simp]: "in_id (sv_public (update_import_report v)) = in_id (sv_public v)"
  "in_revision (sv_public (update_import_report v)) = in_revision (sv_public v)"
  "in_config (sv_public (update_import_report v)) = in_config (sv_public v)"
  "in_active (sv_public (update_import_report v)) = in_active (sv_public v)"
  "sv_runtime (update_import_report v) = sv_runtime v"
  by (simp_all add: update_import_report_def split: option.split)

lemma register_new_sound:
  assumes "ledger_ok db" "valid_id (cq_id req)" "register_new env actor req source comet fake location fp db = Inr (op, db')"
  shows "sound_step db db'"
proof -
  from assms(3) obtain n uuid v db1 key where
    adm: "registration_admitted env req source location db = Inr n"
    and u: "random_id env 0 = Inr uuid"
    and v: "v = registered_instance req source comet fake location uuid n"
    and ins: "insert_instance (cq_id req) v db = Inr db1"
    and o: "op = (new_operation key (cq_request req) (cq_id req)
                 (if source \<noteq> None then ''import-fake'' else if comet then ''register-comet'' else ''register-fake'')
                 actor n (en_now env 0))
                \<lparr>op_status := (if source \<noteq> None then ''queued'' else ''succeeded''),
                 op_finished := (if source \<noteq> None then None else Some (en_now env 0))\<rparr>"
    and last: "insert_operation op fp (if source = None then db1 else save_instance (update_import_report
        (v\<lparr>sv_public := (sv_public v)\<lparr>in_active := op_id op, in_observed := ''importing''\<rparr>\<rparr>)) db1) = Inr db'"
    unfolding register_new_def attempt_Inr Let_def by blast
  have os: "op_id op = ''op-'' @ key" "op_instance op = cq_id req" "op_revision op = n"
    "op_status op = (if source \<noteq> None then ''queued'' else ''succeeded'')"
    unfolding o by simp_all
  have r: "initial_revision env (cq_id req) db = Inr n" "reserve_port env (cq_id req) (cf_http (cq_config req)) db = None"
    using adm by (auto simp: registration_admitted_def)
  have p: "in_id (sv_public v) = cq_id req" "in_active (sv_public v) = ''''" "in_revision (sv_public v) = n"
    "in_config (sv_public v) = cq_config req"
    by (simp_all add: v registered_instance_def zero_public_def Let_def)
  have l: "length (vm_id (sv_runtime v)) = 32"
    using random_id_length [OF u] by (simp add: v registered_instance_def registered_runtime_def new_managed_def Let_def)
  have "sound_step db db1"
    by (rule sound_register [OF assms(1) ins p(1) assms(2) p(2) l])
      (use initial_revision_bounds [OF r(1)] reserve_port_free [OF _ r(2)] assms(1) p in \<open>auto simp: ledger_ok_def\<close>)
  then show ?thesis
  proof (rule sound_trans)
    assume ok: "ledger_ok db1"
    have i: "inst_of db1 (cq_id req) = Some v"
      by (simp add: insert_instance_row(2) [OF ins])
    show "sound_step db1 db'"
    proof (cases "source = None")
      case True
      then show ?thesis using last by (intro sound_insert [OF ok]) (auto simp: o unfinished_def)
    next
      case False
      then obtain db2 where i2: "insert_operation op fp db1 = Inr db2" and d: "db' = save_instance (update_import_report
          (v\<lparr>sv_public := (sv_public v)\<lparr>in_active := op_id op, in_observed := ''importing''\<rparr>\<rparr>)) db2"
        using last insert_save_commute by fastforce
      then show ?thesis unfolding d using False
        by (intro sound_open [OF ok i p(2) i2]) (simp_all add: os unfinished_def same_identity_def p)
    qed
  qed
qed

lemma registration_fingerprint_id:
  "registration_fingerprint req0 source = Inr (req, fp) \<Longrightarrow> valid_id (cq_id req)"
  by (auto simp: registration_fingerprint_def Let_def split: if_split_asm option.splits)

lemma register_or_replay_sound:
  assumes "ledger_ok db" "valid_id (cq_id req)"
    and "register_or_replay env actor req source comet replay_only fake location fp db = Inr (op, dup, db')"
  shows "sound_step db db'"
proof (cases "replay actor (cq_request req) fp db")
  case None
  with assms(3) obtain op' where "register_new env actor req source comet fake location fp db = Inr (op', db')"
    by (auto simp: register_or_replay_def split: if_split_asm)
  then show ?thesis by (rule register_new_sound [OF assms(1,2)])
next
  case (Some r)
  with assms(3) show ?thesis using assms(1) by (auto simp: register_or_replay_def intro: sound_refl)
qed

lemma register_sound:
  assumes "ledger_ok db" "register_kind_replay env actor req source comet replay_only db = Inr (op, dup, db')"
  shows "sound_step db db'"
  using assms(2) unfolding register_kind_replay_def Let_def
  by (auto intro: register_or_replay_sound [OF assms(1) registration_fingerprint_id])

section \<open>Workers\<close>

lemma begun_identity: "same_identity v (begun_instance op v)" "in_active (sv_public (begun_instance op v)) = in_active (sv_public v)"
  by (simp_all add: begun_instance_def same_identity_def Let_def)

lemma begin_sound:
  assumes "ledger_ok db" "begin_operation opid db = Inr (op, w, db')"
  shows "sound_step db db'" "op \<in> ow_op ` set (tb_operations db')"
proof -
  obtain r v where r: "load_operation opid db = Inr r" and v: "load_instance (op_instance (ow_op r)) db = Inr v"
    and a: "op_status (ow_op r) = ''queued''" "in_active (sv_public v) = op_id (ow_op r)"
    and o: "op = (ow_op r)\<lparr>op_status := ''running''\<rparr>" "w = begun_instance op v" "db' = save_instance w (save_operation op db)"
    using assms(2) by (auto simp: begin_operation_def Let_def split: sum.splits if_split_asm option.splits)
  have row: "r \<in> set (tb_operations db)" using r by (auto simp: load_operation_iff dest: ops.row_of_set)
  note ins = load_instance_Inr [OF v]
  show "sound_step db db'" unfolding o(3)
    by (rule sound_advance [of db _ v op "ow_op r"])
      (use assms(1) ins row a begun_identity [where v = v and op = op] in \<open>auto simp: o(1,2) unfinished_def same_receipt_def\<close>)
  show "op \<in> ow_op ` set (tb_operations db')"
    using row by (simp add: o(3) saved_rows) (force simp: o(1))
qed

lemma forward_annotate:
  assumes "\<And>r. ow_op (f r) = ow_op r \<and> ow_fingerprint (f r) = ow_fingerprint r"
  shows "forward db (db\<lparr>tb_operations := map f (tb_operations db)\<rparr>)"
proof (rule forwardI)
  fix r assume "r \<in> set (tb_operations db)"
  moreover have "kept r (f r)" by (simp add: kept_def same_receipt_def assms)
  ultimately show "\<exists>s\<in>set (tb_operations (db\<lparr>tb_operations := map f (tb_operations db)\<rparr>)). kept r s" by auto
next
  fix i x assume "reached db i = Some x"
  moreover have "reached (db\<lparr>tb_operations := map f (tb_operations db)\<rparr>) = reached db" by (rule reached_cong) simp_all
  ultimately show "\<exists>y. reached (db\<lparr>tb_operations := map f (tb_operations db)\<rparr>) i = Some y \<and> rev_le x y" by (auto intro: rev_le_refl)
qed

lemma forward_checkpoint: "forward db (save_checkpoint opid state db)"
  unfolding save_checkpoint_def by (rule forward_annotate) simp

lemma runtime_update_sound:
  assumes "ledger_ok db" "runtime_update i opid state db = Inr db'"
  shows "sound_step db db'"
proof -
  let ?u = "\<lambda>v. update_import_report (v\<lparr>sv_runtime := state, sv_runtime_revision := sv_runtime_revision v + 1\<rparr>)"
  let ?w = "\<lambda>v. (?u v)\<lparr>sv_public := (sv_public (?u v))\<lparr>in_routine := vm_routine state\<rparr>\<rparr>"
  obtain v where v: "load_instance i db = Inr v"
    and s: "vm_id (sv_runtime v) = vm_id state"
    and d: "db' = db \<or> db' = save_checkpoint opid state (save_instance (?w v) db)"
    using assms(2) unfolding runtime_update_def Let_def guard_Inr attempt_Inr by (metis Inr_inject option.distinct(1))
  have w: "same_identity v (?w v)" "in_active (sv_public (?w v)) = in_active (sv_public v)" by (simp_all add: same_identity_def s)
  from d show ?thesis
  proof
    assume db': "db' = save_checkpoint opid state (save_instance (?w v) db)"
    have "sound_step db (save_instance (?w v) db)"
      using sound_save [OF assms(1) _ w] load_instance_Inr [OF v] by blast
    then show ?thesis unfolding db'
      by (rule sound_trans) (simp add: sound_step_def forward_checkpoint)
  qed (simp add: sound_refl assms(1))
qed

lemma observation_identity:
  "same_identity v (apply_observation env v ob now)" "in_active (sv_public (apply_observation env v ob now)) = in_active (sv_public v)"
  "same_identity v (record_healthy_boot env v)" "in_active (sv_public (record_healthy_boot env v)) = in_active (sv_public v)"
  by (simp_all add: same_identity_def apply_observation_def record_healthy_boot_def Let_def)

lemma same_identity_trans: "same_identity u v \<Longrightarrow> same_identity v w \<Longrightarrow> same_identity u w"
  by (simp add: same_identity_def)

lemma observe_sound:
  assumes "ledger_ok db" "observe env v state ob db = Inr db'"
  shows "sound_step db db'"
proof -
  have "db' = db \<or> (\<exists>u. load_instance (in_id (sv_public v)) db = Inr u \<and> vm_id state = vm_id (sv_runtime u) \<and> db' = save_instance (record_healthy_boot env (apply_observation env
            (u\<lparr>sv_runtime := state, sv_runtime_revision := sv_runtime_revision u + 1\<rparr>) ob (en_now env 0))) db)"
    using assms(2) by (auto simp: observe_def split: sum.splits fault.splits if_split_asm)
  then show ?thesis
  proof
    assume "\<exists>u. load_instance (in_id (sv_public v)) db = Inr u \<and> vm_id state = vm_id (sv_runtime u) \<and> db' = save_instance (record_healthy_boot env (apply_observation env
            (u\<lparr>sv_runtime := state, sv_runtime_revision := sv_runtime_revision u + 1\<rparr>) ob (en_now env 0))) db"
    then obtain u where u: "load_instance (in_id (sv_public v)) db = Inr u" and s: "vm_id state = vm_id (sv_runtime u)"
      and d: "db' = save_instance (record_healthy_boot env (apply_observation env
            (u\<lparr>sv_runtime := state, sv_runtime_revision := sv_runtime_revision u + 1\<rparr>) ob (en_now env 0))) db" by blast
    let ?u = "u\<lparr>sv_runtime := state, sv_runtime_revision := sv_runtime_revision u + 1\<rparr>"
    let ?w = "record_healthy_boot env (apply_observation env ?u ob (en_now env 0))"
    have "same_identity u ?u" by (simp add: same_identity_def s)
    then have "same_identity u ?w" by (meson observation_identity(1,3) same_identity_trans)
    moreover have "in_active (sv_public ?w) = in_active (sv_public u)" by (simp add: observation_identity(2,4))
    ultimately show ?thesis unfolding d using load_instance_Inr [OF u] by (blast intro: sound_save [OF assms(1)])
  qed (simp add: sound_refl assms(1))
qed

lemma failed_identity: "same_identity v (failed_instance c op prior ob v)"
  "in_active (sv_public (failed_instance c op prior ob v)) = in_active (sv_public v)"
  by (simp_all add: failed_instance_def handoff_error_def same_identity_def Let_def split: option.split)

lemma finished_identity:
  "vm_id state = vm_id (sv_runtime v) \<Longrightarrow> same_identity v (finished_instance env op state ob cause now v)"
  "in_active (sv_public (finished_instance env op state ob cause now v)) = ''''"
proof -
  let ?u = "v\<lparr>sv_runtime := state, sv_runtime_revision := sv_runtime_revision v + 1, sv_public := (sv_public v)\<lparr>in_active := ''''\<rparr>\<rparr>"
  let ?w = "apply_observation env ?u ob now"
  let ?a = "?w\<lparr>sv_public := (sv_public ?w)\<lparr>in_applied := op_revision op\<rparr>\<rparr>"
  have u: "same_identity v ?u" if "vm_id state = vm_id (sv_runtime v)" using that by (simp add: same_identity_def)
  have w: "same_identity v ?w" if "vm_id state = vm_id (sv_runtime v)"
    using u [OF that] by (meson observation_identity(1) same_identity_trans)
  have "same_identity ?w ?a" by (simp add: same_identity_def)
  then have a: "same_identity v ?a" if "vm_id state = vm_id (sv_runtime v)"
    using w [OF that] same_identity_trans by blast
  have n: "in_active (sv_public ?w) = ''''" "in_active (sv_public ?a) = ''''" by (simp_all add: observation_identity(2))
  show "same_identity v (finished_instance env op state ob cause now v)" if "vm_id state = vm_id (sv_runtime v)"
    using that same_identity_trans [OF w failed_identity(1)] same_identity_trans [OF w observation_identity(3)]
      same_identity_trans [OF a observation_identity(3)]
    by (simp add: finished_instance_def Let_def split: option.split)
  show "in_active (sv_public (finished_instance env op state ob cause now v)) = ''''"
    using n by (simp add: finished_instance_def Let_def failed_identity(2) observation_identity(4) split: option.split)
qed

lemma finished_state_receipt:
  "finished_state op v state ob cause = Inr (s, op') \<Longrightarrow> same_receipt op op' \<and> op_kind op' = op_kind op
     \<and> s \<in> {state, sv_runtime v}"
  by (auto simp: finished_state_def same_receipt_def split: if_split_asm option.splits)

lemma routine_ended_id [simp]: "vm_id (routine_ended op cause interrupted now s) = vm_id s"
  by (simp add: routine_ended_def)

text \<open>The operation that a ship names is the unfinished row of that identifier.\<close>

lemma active_unfinished:
  assumes "ledger_ok db" "inst_of db i = Some v" "in_active (sv_public v) = op_id old" "old \<in> ow_op ` set (tb_operations db)"
  shows "unfinished old" "op_instance old = i" "op_revision old = in_revision (sv_public v)"
proof -
  obtain q where q: "q \<in> set (tb_operations db)" "old = ow_op q" using assms(4) by blast
  then have "op_id old \<noteq> ''''" using assms(1) by (auto simp: ledger_ok_def rows_ok_def)
  then have "(op_id old, i, in_revision (sv_public v)) \<in> claims db" using assms(2,3) by (simp add: in_claims)
  then obtain r where r: "r \<in> set (tb_operations db)" "op_id (ow_op r) = op_id old" "op_instance (ow_op r) = i"
    "op_revision (ow_op r) = in_revision (sv_public v)" "unfinished (ow_op r)"
    by (auto simp: linkedD [OF assms(1), symmetric] in_open)
  moreover have "r = q" using ops.keyed_unique [OF _ r(1) q(1)] assms(1) r(2) q(2) by (simp add: ledger_ok_def rows_ok_def op_key_def)
  ultimately show "unfinished old" "op_instance old = i" "op_revision old = in_revision (sv_public v)" using q(2) by simp_all
qed

lemma finish_sound:
  assumes "ledger_ok db" "old \<in> ow_op ` set (tb_operations db)" "same_receipt old op" "op_kind op = op_kind old"
    and "finish env op state ob cause interrupted db = Inr db'"
  shows "sound_step db db'"
proof -
  let ?cause = "final_cause (op_kind op) cause interrupted"
  let ?opf = "\<lambda>op1. case ?cause of None \<Rightarrow> op1\<lparr>op_status := ''succeeded'', op_finished := Some (en_now env 0)\<rparr>
    | Some c \<Rightarrow> failed_operation c interrupted (op1\<lparr>op_status := ''succeeded'', op_finished := Some (en_now env 0)\<rparr>)"
  let ?w = "\<lambda>v s1 op1. finished_instance env (?opf op1) (routine_ended op1 ?cause interrupted (en_now env 0) s1) ob ?cause (en_now env 0) v"
  obtain v s1 op1 where v: "load_instance (op_instance op) db = Inr v" "in_active (sv_public v) = op_id op"
    and s: "vm_id (sv_runtime v) = vm_id state"
    and f1: "finished_state op v state ob ?cause = Inr (s1, op1)"
    and d: "db' = save_operation (?opf op1) (retire_instance (?opf op1) db)
      \<or> db' = save_operation (?opf op1) (save_instance (?w v s1 op1) db)"
    using assms(5) unfolding finish_def Let_def guard_Inr attempt_Inr by (auto split: if_split_asm)
  have "vm_id s1 = vm_id (sv_runtime v)" using finished_state_receipt [OF f1] s by auto
  then have w: "same_identity v (?w v s1 op1)" "in_active (sv_public (?w v s1 op1)) = ''''"
    by (simp_all add: finished_identity)
  define opf where "opf = ?opf op1"
  have f: "same_receipt op opf" "op_kind opf = op_kind op" "\<not> unfinished opf"
    using finished_state_receipt [OF f1]
    by (auto simp: opf_def failed_operation_def same_receipt_def unfinished_def split: option.split)
  from d have d: "db' = save_operation opf (retire_instance opf db) \<or> db' = save_operation opf (save_instance (?w v s1 op1) db)"
    unfolding opf_def .
  note ins = load_instance_Inr [OF v(1)]
  have r: "same_receipt old opf" "op_kind opf = op_kind old" using assms(3,4) f by (auto simp: same_receipt_def)
  have a: "in_active (sv_public v) = op_id old" "in_active (sv_public v) = op_id opf" "op_instance opf = op_instance op"
    using v(2) r assms(3) f(1) by (simp_all add: same_receipt_def)
  note u = active_unfinished(1) [OF assms(1) _ a(1) assms(2)]
  from d show ?thesis
  proof
    assume "db' = save_operation opf (retire_instance opf db)"
    with sound_retire [OF assms(1) _ a(2) assms(2) r _ f(3) a(3)] u ins show ?thesis by blast
  next
    assume "db' = save_operation opf (save_instance (?w v s1 op1) db)"
    with sound_close [OF assms(1) _ a(2) assms(2) r _ f(3) w] u ins show ?thesis by blast
  qed
qed

section \<open>Reconciliation\<close>

lemma interrupted_runtime_id [simp]: "vm_id (interrupted_runtime r v now) = vm_id (sv_runtime v)"
  by (simp add: interrupted_runtime_def Let_def)

lemma interrupted_identity: "same_identity v (interrupted_instance r now v)" "in_active (sv_public (interrupted_instance r now v)) = ''''"
proof -
  have h: "sv_public (handoff_error m v) = (sv_public v)\<lparr>in_handoff := in_handoff (sv_public (handoff_error m v))\<rparr>" for m
    by (simp add: handoff_error_def split: option.split)
  have "in_id (sv_public (handoff_error m v)) = in_id (sv_public v)" "in_config (sv_public (handoff_error m v)) = in_config (sv_public v)"
    "in_revision (sv_public (handoff_error m v)) = in_revision (sv_public v)" for m
    by (subst h, simp)+
  moreover have "vm_id (sv_runtime (handoff_error m v)) = vm_id (sv_runtime v)" for m
    by (simp add: handoff_error_def split: option.split)
  ultimately show "same_identity v (interrupted_instance r now v)" "in_active (sv_public (interrupted_instance r now v)) = ''''"
    by (simp_all add: interrupted_instance_def same_identity_def Let_def if_distrib [where f = sv_public] if_distrib [where f = in_id]
        if_distrib [where f = in_revision] if_distrib [where f = in_config] if_distrib [where f = in_active]
        if_distrib [where f = sv_runtime] if_distrib [where f = vm_id] cong: if_cong split del: if_split)
qed

lemma interrupted_receipt: "same_receipt (ow_op r) (interrupted_operation r v now)"
  "op_kind (interrupted_operation r v now) = op_kind (ow_op r)" "\<not> unfinished (interrupted_operation r v now)"
  by (simp_all add: interrupted_operation_def same_receipt_def unfinished_def)

text \<open>What the loop does to one ship: nothing, or its operation and the ship are interrupted.\<close>

definition left_interrupted :: "gotime \<Rightarrow> 'x op_row \<Rightarrow> ('x, 'f) stored_instance \<Rightarrow> ('x, 'f) stored_instance \<Rightarrow> ('x, 'f) tables \<Rightarrow> bool" where
  "left_interrupted now r v w db \<longleftrightarrow> op_id (ow_op r) = in_active (sv_public v) \<and> w = interrupted_instance r now v
     \<and> r\<lparr>ow_op := interrupted_operation r v now\<rparr> \<in> set (tb_operations db)"

lemma reconcile_one_idle: "in_active (sv_public v) = '''' \<Longrightarrow> reconcile_one now v db = Inr db"
  by (simp add: reconcile_one_def)

lemma reconcile_one_ok:
  assumes "ledger_ok db" "inst_of db i = Some v" "in_active (sv_public v) \<noteq> ''''"
  shows "\<exists>db' r w. reconcile_one now v db = Inr db' \<and> sound_step db db' \<and> r \<in> set (tb_operations db) \<and> left_interrupted now r v w db'
    \<and> inst_of db' = (inst_of db)(i \<mapsto> w) \<and> {s \<in> set (tb_operations db'). op_id (ow_op s) \<noteq> in_active (sv_public v)}
        = {s \<in> set (tb_operations db). op_id (ow_op s) \<noteq> in_active (sv_public v)}"
proof -
  have i: "in_id (sv_public v) = i" using assms by (simp add: ledger_ok_def rows_ok_def)
  have "(in_active (sv_public v), i, in_revision (sv_public v)) \<in> claims db" using assms(2,3) by (simp add: in_claims)
  then obtain r where r: "r \<in> set (tb_operations db)" "op_id (ow_op r) = in_active (sv_public v)" "unfinished (ow_op r)"
    by (auto simp: linkedD [OF assms(1), symmetric] in_open)
  then have l: "load_operation (in_active (sv_public v)) db = Inr r"
    using assms(1) by (simp add: load_operation_iff ops.row_of_iff ledger_ok_def rows_ok_def op_key_def)
  let ?w = "interrupted_instance r now v" and ?op = "interrupted_operation r v now"
  have e: "save_instance ?w (save_operation ?op db) = save_operation ?op (save_instance ?w db)"
    by (simp add: save_instance_def save_operation_def)
  have a: "in_active (sv_public v) = op_id ?op" using interrupted_receipt(1) [of r v now] r(2) by (simp add: same_receipt_def)
  have "sound_step db (save_operation ?op (save_instance ?w db))"
    by (rule sound_close [OF assms(1,2) a _ interrupted_receipt(1,2) r(3) interrupted_receipt(3) interrupted_identity]) (use r(1) in simp)
  moreover have "in_id (sv_public ?w) = i" using interrupted_identity(1) [of v r now] i by (simp add: same_identity_def)
  then have "inst_of (save_operation ?op (save_instance ?w db)) = (inst_of db)(i \<mapsto> ?w)" using assms(2) by (auto simp: fun_eq_iff)
  moreover have "{s \<in> set (tb_operations (save_operation ?op (save_instance ?w db))). op_id (ow_op s) \<noteq> in_active (sv_public v)}
        = {s \<in> set (tb_operations db). op_id (ow_op s) \<noteq> in_active (sv_public v)}"
    unfolding a by (auto simp: save_operation_def)
  moreover have "left_interrupted now r v ?w (save_operation ?op (save_instance ?w db))"
    using r a by (auto simp: left_interrupted_def save_operation_def)
  moreover have "reconcile_one now v db = Inr (save_operation ?op (save_instance ?w db))"
    using l assms(3) by (simp add: reconcile_one_def attempt_def e)
  ultimately show ?thesis using r(1) by blast
qed

text \<open>The whole loop, over a list of ships that are still as they were read.\<close>

definition settles :: "('x, 'f) tables \<Rightarrow> ('x, 'f) tables \<Rightarrow> ('x, 'f) stored_instance \<Rightarrow> bool" where
  "settles db db' v \<longleftrightarrow> (if in_active (sv_public v) = '''' then inst_of db' (in_id (sv_public v)) = Some v
     else \<exists>now r w. r \<in> set (tb_operations db) \<and> left_interrupted now r v w db' \<and> inst_of db' (in_id (sv_public v)) = Some w)"

lemma other_active:
  assumes "ledger_ok db" "inst_of db i = Some v" "inst_of db j = Some u" "i \<noteq> j" "in_active (sv_public v) \<noteq> ''''"
  shows "in_active (sv_public u) \<noteq> in_active (sv_public v)"
proof
  assume "in_active (sv_public u) = in_active (sv_public v)"
  then have "(in_active (sv_public v), j, in_revision (sv_public u)) \<in> claims db" using assms(3,5) by (simp add: in_claims)
  then show False using claim_unique [OF assms(1,2,5)] assms(4) by blast
qed

lemma reconcile_all_ok:
  assumes "ledger_ok db" "distinct (map (\<lambda>v. in_id (sv_public v)) vs)" "\<forall>v\<in>set vs. inst_of db (in_id (sv_public v)) = Some v"
  shows "\<exists>db'. reconcile_all env n vs db = Inr db' \<and> sound_step db db' \<and> (\<forall>v\<in>set vs. settles db db' v)
    \<and> (\<forall>j. j \<notin> (\<lambda>v. in_id (sv_public v)) ` set vs \<longrightarrow> inst_of db' j = inst_of db j)
    \<and> (\<forall>s. (\<forall>v\<in>set vs. in_active (sv_public v) \<noteq> op_id (ow_op s)) \<longrightarrow>
          s \<in> set (tb_operations db') \<longleftrightarrow> s \<in> set (tb_operations db))"
  using assms
proof (induction vs arbitrary: n db)
  case Nil
  then show ?case by (simp add: sound_refl)
next
  case (Cons v vs)
  let ?i = "in_id (sv_public v)"
  note vi = Cons.prems(3) [rule_format, of v, simplified]
  have ids: "in_id (sv_public u) \<noteq> ?i" if "u \<in> set vs" for u using Cons.prems(2) that by (auto simp: image_iff)
  obtain db1 where one: "reconcile_one (en_now env n) v db = Inr db1" "sound_step db db1"
    "\<forall>j. j \<noteq> ?i \<longrightarrow> inst_of db1 j = inst_of db j"
    "if in_active (sv_public v) = '''' then db1 = db else
      \<exists>r w. r \<in> set (tb_operations db) \<and> left_interrupted (en_now env n) r v w db1 \<and> inst_of db1 ?i = Some w"
    "\<And>s. op_id (ow_op s) \<noteq> in_active (sv_public v) \<Longrightarrow> s \<in> set (tb_operations db1) \<longleftrightarrow> s \<in> set (tb_operations db)"
  proof (cases "in_active (sv_public v) = ''''")
    case True
    then show ?thesis using that [of db] Cons.prems(1) by (simp add: reconcile_one_idle sound_refl)
  next
    case False
    from reconcile_one_ok [OF Cons.prems(1) vi this, of "en_now env n"] obtain db1 r w where
      *: "reconcile_one (en_now env n) v db = Inr db1" "sound_step db db1" "r \<in> set (tb_operations db)"
      "left_interrupted (en_now env n) r v w db1" "inst_of db1 = (inst_of db)(?i \<mapsto> w)"
      "{s \<in> set (tb_operations db1). op_id (ow_op s) \<noteq> in_active (sv_public v)}
        = {s \<in> set (tb_operations db). op_id (ow_op s) \<noteq> in_active (sv_public v)}" by blast
    show ?thesis by (rule that [OF *(1,2)]) (use *(3-6) False in auto)
  qed
  have un: "\<forall>u\<in>set vs. inst_of db1 (in_id (sv_public u)) = Some u"
    using Cons.prems(3) one(3) ids by simp
  have ok1: "ledger_ok db1" using one(2) by (simp add: sound_step_def)
  from Cons.IH [OF ok1 _ un, of "Suc n"] Cons.prems(2) obtain db2 where two: "reconcile_all env (Suc n) vs db1 = Inr db2" "sound_step db1 db2"
    "\<forall>u\<in>set vs. settles db1 db2 u"
    "\<forall>j. j \<notin> (\<lambda>v. in_id (sv_public v)) ` set vs \<longrightarrow> inst_of db2 j = inst_of db1 j"
    "\<forall>s. (\<forall>v\<in>set vs. in_active (sv_public v) \<noteq> op_id (ow_op s)) \<longrightarrow> s \<in> set (tb_operations db2) \<longleftrightarrow> s \<in> set (tb_operations db1)"
    by auto
  have act: "in_active (sv_public v) \<noteq> '''' \<Longrightarrow> in_active (sv_public u) \<noteq> in_active (sv_public v)" if "u \<in> set vs" for u
    using other_active [OF Cons.prems(1) vi] Cons.prems(3) ids [OF that] that by auto
  have v2: "inst_of db2 ?i = inst_of db1 ?i" using two(4) ids by (metis imageE)
  have "settles db db2 v"
  proof (cases "in_active (sv_public v) = ''''")
    case True
    then show ?thesis using one(4) v2 vi by (simp add: settles_def)
  next
    case False
    then obtain r w where rw: "r \<in> set (tb_operations db)" "left_interrupted (en_now env n) r v w db1" "inst_of db1 ?i = Some w"
      using one(4) by auto
    let ?s = "r\<lparr>ow_op := interrupted_operation r v (en_now env n)\<rparr>"
    have "op_id (ow_op ?s) = in_active (sv_public v)"
      using rw(2) interrupted_receipt(1) [of r v "en_now env n"] by (simp add: left_interrupted_def same_receipt_def)
    then have "left_interrupted (en_now env n) r v w db2" using rw(2) two(5) act False by (auto simp: left_interrupted_def)
    then show ?thesis using False rw v2 by (auto simp: settles_def)
  qed
  moreover have "settles db db2 u" if u: "u \<in> set vs" for u
  proof (cases "in_active (sv_public u) = ''''")
    case True
    then show ?thesis using two(3) u by (auto simp: settles_def)
  next
    case False
    have "settles db1 db2 u" using two(3) u by blast
    with False obtain now r w where rw: "r \<in> set (tb_operations db1)" "left_interrupted now r u w db2" "inst_of db2 (in_id (sv_public u)) = Some w"
      unfolding settles_def by auto
    have "r \<in> set (tb_operations db)"
    proof (cases "in_active (sv_public v) = ''''")
      case True then show ?thesis using one(4) rw(1) by simp
    next
      case False
      have "op_id (ow_op r) \<noteq> in_active (sv_public v)" using rw(2) act [OF u False] by (simp add: left_interrupted_def)
      then show ?thesis using one(5) rw(1) by blast
    qed
    then show ?thesis using False rw(2,3) by (auto simp: settles_def)
  qed
  ultimately have "\<forall>u\<in>set (v # vs). settles db db2 u" by simp
  moreover have "\<forall>j. j \<notin> (\<lambda>v. in_id (sv_public v)) ` set (v # vs) \<longrightarrow> inst_of db2 j = inst_of db j"
    using one(3) two(4) by auto
  moreover have "\<forall>s. (\<forall>v\<in>set (v # vs). in_active (sv_public v) \<noteq> op_id (ow_op s)) \<longrightarrow>
      s \<in> set (tb_operations db2) \<longleftrightarrow> s \<in> set (tb_operations db)"
    using one(5) two(5) by (metis list.set_intros(1,2))
  moreover have "sound_step db db2" using sound_trans [OF one(2)] two(2) by blast
  ultimately show ?case using one(1) two(1) by (simp add: attempt_def)
qed

lemma reconcile_ok:
  assumes "ledger_ok db"
  shows "\<exists>db'. reconcile_interrupted env db = Inr db' \<and> sound_step db db' \<and> open_ops db' = {}
    \<and> (\<forall>i v. inst_of db i = Some v \<longrightarrow> settles db db' v)"
proof -
  obtain all where all: "instances db = Inr all" "set all = {v. \<exists>i. inst_of db i = Some v}" "distinct (map (\<lambda>v. in_id (sv_public v)) all)"
    using assms instances_ok [of db] by (auto simp: ledger_ok_def)
  have id: "inst_of db i = Some v \<Longrightarrow> in_id (sv_public v) = i" for i v using assms by (simp add: ledger_ok_def rows_ok_def)
  have "\<forall>v\<in>set all. inst_of db (in_id (sv_public v)) = Some v" using all(2) id by auto
  from reconcile_all_ok [OF assms all(3) this, of env 0] obtain db' where r: "reconcile_all env 0 all db = Inr db'" "sound_step db db'"
    "\<forall>v\<in>set all. settles db db' v"
    "\<forall>j. j \<notin> (\<lambda>v. in_id (sv_public v)) ` set all \<longrightarrow> inst_of db' j = inst_of db j" by blast
  have "in_active (sv_public w) = ''''" if w: "inst_of db' j = Some w" for j w
  proof (cases "inst_of db j")
    case None
    then have "j \<notin> (\<lambda>v. in_id (sv_public v)) ` set all" using all(2) id by auto
    then show ?thesis using r(4) w None by auto
  next
    case (Some v)
    then have "settles db db' v" using r(3) all(2) by auto
    then show ?thesis using w id [OF Some] interrupted_identity(2)
      by (auto simp: settles_def left_interrupted_def split: if_split_asm)
  qed
  then have "claims db' = {}" by (auto simp: claims_def)
  then have "open_ops db' = {}" using r(2) by (simp add: sound_step_def ledger_ok_def)
  moreover have "reconcile_interrupted env db = Inr db'" using all(1) r(1) by (simp add: reconcile_interrupted_def attempt_def)
  ultimately show ?thesis using r(2,3) all(2) by auto
qed

end
