(* ===== verification/LedgerShips.thy ===== *)
theory LedgerShips
  imports LedgerFinish
begin

text \<open>
  Automatic ports (\<open>internal/managed/ports.go\<close>), the registration of an owned network identity with
  its private boot key (\<open>key_boot.go\<close>) and the enrollment of an existing pier (\<open>storage.go\<close>).
\<close>

section \<open>Text\<close>

text \<open>\<open>strings.TrimSpace\<close>: the UTF-8 encodings of the white space of \<open>unicode.IsSpace\<close>.\<close>

definition space_encodings :: "string list" where
  "space_encodings = map (\<lambda>b. [char_of b]) ([9..<14] @ [32 :: nat]) @ map (map char_of)
     ([[0xC2, 0x85], [0xC2, 0xA0], [0xE1, 0x9A, 0x80]] @ map (\<lambda>b. [0xE2, 0x80, b]) ([0x80..<0x8B] @ [0xA8, 0xA9, 0xAF])
      @ [[0xE2, 0x81, 0x9F], [0xE3, 0x80, 0x80 :: nat]])"

lemma space_encodings_nonempty: "p \<in> set space_encodings \<Longrightarrow> p \<noteq> []"
  by (auto simp: space_encodings_def)

function trim_left :: "string \<Rightarrow> string" where
  "trim_left s = (case find (has_prefix s) space_encodings of None \<Rightarrow> s | Some p \<Rightarrow> trim_left (drop (length p) s))"
  by pat_completeness auto
termination
proof (relation "measure length")
  fix s p assume "find (has_prefix s) space_encodings = Some p"
  then have "has_prefix s p" "p \<noteq> []" using space_encodings_nonempty by (auto simp: find_Some_iff)
  then show "(drop (length p) s, s) \<in> measure length" by (auto simp: has_prefix_iff)
qed simp

function trim_right :: "string \<Rightarrow> string" where
  "trim_right s = (case find (has_suffix s) space_encodings of None \<Rightarrow> s
     | Some p \<Rightarrow> trim_right (take (length s - length p) s))"
  by pat_completeness auto
termination
proof (relation "measure length")
  fix s p assume "find (has_suffix s) space_encodings = Some p"
  then have "has_suffix s p" "p \<noteq> []" using space_encodings_nonempty by (auto simp: find_Some_iff)
  then show "(take (length s - length p) s, s) \<in> measure length" by (auto simp: has_suffix_iff)
qed simp

declare trim_left.simps [simp del] trim_right.simps [simp del]

definition trim_space :: "string \<Rightarrow> string" where
  "trim_space s = trim_right (trim_left s)"

text \<open>\<open>strconv.Quote\<close>, with \<open>strconv.IsPrint\<close> of the runes above ASCII as a parameter.\<close>

definition hex_digits :: "nat \<Rightarrow> nat \<Rightarrow> string" where
  "hex_digits n r = map (\<lambda>k. hex_char (r div 16 ^ k mod 16)) (rev [0..<n])"

definition quote_rune :: "(nat \<Rightarrow> bool) \<Rightarrow> nat \<Rightarrow> nat list \<Rightarrow> bool \<Rightarrow> string" where
  "quote_rune printable r bytes valid =
     (if \<not> valid then backslash # CHR ''x'' # hex_digits 2 (hd bytes)
      else if r = 34 \<or> r = 92 then [backslash, char_of r]
      else if 32 \<le> r \<and> r < 127 \<or> 128 \<le> r \<and> printable r then map char_of bytes
      else if 7 \<le> r \<and> r \<le> 13 then [backslash, ''abtnvfr'' ! (r - 7)]
      else if r < 32 \<or> r = 127 then backslash # CHR ''x'' # hex_digits 2 r
      else if r < 65536 then backslash # CHR ''u'' # hex_digits 4 r
      else backslash # CHR ''U'' # hex_digits 8 r)"

function quote_body :: "(nat \<Rightarrow> bool) \<Rightarrow> nat list \<Rightarrow> string" where
  "quote_body printable [] = []"
| "quote_body printable (b # bs) = (case decode_rune b bs of (r, w, ok) \<Rightarrow>
     quote_rune printable r (b # take (w - 1) bs) ok @ quote_body printable (drop (w - 1) bs))"
  by pat_completeness auto
termination by (relation "measure (length \<circ> snd)") auto

definition go_quote :: "(nat \<Rightarrow> bool) \<Rightarrow> string \<Rightarrow> string" where
  "go_quote printable s = dquote # quote_body printable (bytes_of s) @ [dquote]"

fun word_problem :: "(nat \<Rightarrow> bool) \<Rightarrow> string list \<Rightarrow> string" where
  "word_problem printable [] = ''Urbit ID has noncanonical leading syllables or hyphen grouping; use the exact generated ID.''"
| "word_problem printable (w # ws) =
     (if length w \<noteq> 6 then ''Urbit IDs use six-letter words separated by hyphens (or a three-letter galaxy name).''
      else if \<not> has_syllable ship_prefixes (take 3 w)
      then ''Unknown Urbit prefix syllable '' @ go_quote printable (take 3 w) @ '' in '' @ go_quote printable w @ ''; check the generated ID.''
      else if \<not> has_syllable ship_suffixes (drop 3 w)
      then ''Unknown Urbit suffix syllable '' @ go_quote printable (drop 3 w) @ '' in '' @ go_quote printable w @ ''; check the generated ID.''
      else word_problem printable ws)"

definition ship_name_problem :: "(nat \<Rightarrow> bool) \<Rightarrow> string \<Rightarrow> string" where
  "ship_name_problem printable ship =
     (if valid_fake_ship ship then ''''
      else if length ship < 4 \<or> length ship > 57 \<or> \<not> has_prefix ship ''~'' then ''Enter a valid Urbit ID beginning with ~.''
      else let name = drop 1 ship in
        if length name = 3 then ''Unknown Urbit suffix syllable '' @ go_quote printable name @ ''; check the generated ID.''
        else word_problem printable (split_on CHR ''-'' (collapse_dashes name)))"

section \<open>Ports\<close>

definition http_reserved :: "u16 \<Rightarrow> ('x, 'f) stored_instance \<Rightarrow> bool" where
  "http_reserved port v \<longleftrightarrow> cf_http (in_config (sv_public v)) = port \<or> vm_prepared (sv_runtime v) \<and> vm_port (sv_runtime v) = port"

definition port_taken :: "'f env \<Rightarrow> string \<Rightarrow> string \<Rightarrow> ('x, 'f) tables \<Rightarrow> u16 \<Rightarrow> fault option" where
  "port_taken env i kind db port =
     (if kind = ''udp'' then reserve_ames i port db
      else case reserve_project_port env port of Some e \<Rightarrow> Some e
        | None \<Rightarrow> other_instances i (\<lambda>v. if http_reserved port v
            then Some (conflict ''port_conflict'' ''HTTP port is reserved by another ship'') else None) db)"

text \<open>The scan of a range: a reservation is passed over, any other failure ends it.\<close>

fun scan_ports :: "(u16 \<Rightarrow> fault option) \<Rightarrow> (u16 \<Rightarrow> bool) \<Rightarrow> nat list \<Rightarrow> fault + u16" where
  "scan_ports taken free [] = Inl (conflict ''port_unavailable'' ''no available host port in the automatic range'')"
| "scan_ports taken free (p # ps) = (case taken (of_nat p) of
     Some (Broken m) \<Rightarrow> Inl (Broken m)
   | Some (Problem st code m r) \<Rightarrow> scan_ports taken free ps
   | None \<Rightarrow> if free (of_nat p) then Inr (of_nat p) else scan_ports taken free ps)"

definition port_range :: "string \<Rightarrow> nat list" where
  "port_range kind = [(if kind = ''udp'' then 34343 else 18080)..<65536]"

definition choose_port :: "'f env \<Rightarrow> string \<Rightarrow> string \<Rightarrow> u16 \<Rightarrow> ('x, 'f) tables \<Rightarrow> fault + u16" where
  "choose_port env i kind wanted db =
     (if wanted \<noteq> 0 then
        guard (if wanted < 1024 then Some (bad (''choose unprivileged HTTP/Ames ports, 1024'' @ map char_of [0xE2, 0x80, 0x93 :: nat] @ ''65535'')) else None) (
        guard (port_taken env i kind db wanted) (
        guard (if en_free env kind wanted then None
               else Some (conflict ''port_conflict'' ''selected host port is already in use'')) (
        Inr wanted)))
      else scan_ports (port_taken env i kind db) (en_free env kind) (port_range kind))"

text \<open>\<open>cancelled p\<close>: the request context is done when port \<open>p\<close> is reached.\<close>

fun suggest_from :: "(nat \<Rightarrow> bool) \<Rightarrow> (u16 \<Rightarrow> bool) \<Rightarrow> (u16 \<Rightarrow> bool) \<Rightarrow> nat list \<Rightarrow> fault + u16" where
  "suggest_from cancelled reserved free [] = Inl (conflict ''port_unavailable'' ''no available host HTTP port'')"
| "suggest_from cancelled reserved free (p # ps) =
     (if cancelled p then Inl (Broken ''context canceled'')
      else if \<not> reserved (of_nat p) \<and> free (of_nat p) then Inr (of_nat p)
      else suggest_from cancelled reserved free ps)"

definition suggest_http_port :: "'f env \<Rightarrow> (nat \<Rightarrow> bool) \<Rightarrow> ('x, 'f) tables \<Rightarrow> fault + u16" where
  "suggest_http_port env cancelled db =
     attempt (instances db) (\<lambda>all. attempt (en_reserved env) (\<lambda>r.
       suggest_from cancelled (\<lambda>p. rv_ports r p \<or> list_ex (http_reserved p) all) (en_free env ''tcp'') (port_range ''tcp'')))"

section \<open>Registration of a network identity\<close>

definition tier_table :: "(string \<times> string) list" where
  "tier_table = [(''galaxy'', ''galaxies''), (''star'', ''stars''), (''planet'', ''planets''), (''moon'', ''moons'')]"

text \<open>The request with its defaults; \<open>None\<close> in \<open>bad\<close> for the name of the ship.\<close>

definition trimmed_request :: "ship_request \<Rightarrow> ship_request" where
  "trimmed_request req = req\<lparr>sq_key := trim_space (sq_key req), sq_ship := ''~'' @ trim_prefix (trim_space (sq_ship req)) ''~''\<rparr>"

definition derived_request :: "ship_request \<Rightarrow> ship_request" where
  "derived_request req =
     (let name = trim_prefix (sq_ship req) ''~'';
          base = ''livenet/'' @ lookup_str tier_table (ship_class (sq_ship req)) @ ''/'' @ name @ ''/''
      in req\<lparr>sq_id := (if sq_id req = '''' then name else sq_id req),
             sq_path := (if sq_path req = '''' then base @ name else sq_path req),
             sq_config := (if cf_loom (sq_config req) = 0 then (sq_config req)\<lparr>cf_loom := 31\<rparr> else sq_config req)\<rparr>)"

definition ship_refused :: "ship_request \<Rightarrow> fault option" where
  "ship_refused req =
     (let class = ship_class (sq_ship req); name = trim_prefix (sq_ship req) ''~'';
          base = ''livenet/'' @ lookup_str tier_table class @ ''/'' @ name @ ''/''
      in refuse [
        (sq_id req \<noteq> name \<or> \<not> valid_path (sq_path req)
           \<or> relative_path (sq_path req) \<noteq> base @ name \<and> relative_path (sq_path req) \<noteq> base @ ''pier'',
         bad ''instance name and pier path are derived from the Urbit identity''),
        (sq_pill req \<noteq> None \<and> \<not> valid_boot_pill (sq_pill req), bad ''invalid selected pill descriptor''),
        (class = '''' \<or> class = ''comet'' \<or> \<not> sq_confirm req \<or> \<not> valid_boot_key (sq_key req) \<or> pier_kind (sq_path req) \<noteq> class,
         bad ''require a valid owned ~ship, private 0w key, matching livenet directory and network acknowledgement'')])"

definition base_request :: "string \<Rightarrow> string \<Rightarrow> u16 \<Rightarrow> u8 \<Rightarrow> string \<Rightarrow> create_request" where
  "base_request i label http loom request = \<lparr>cq_bootstrap = None, cq_id = i, cq_label = label,
     cq_config = \<lparr>cf_http = http, cf_ames = 34343, cf_loom = loom, cf_native = False\<rparr>, cq_request = request,
     cq_fake_ship = '''', cq_pier_name = '''', cq_pier_path = ''''\<rparr>"

text \<open>The checked request without its key, and the key.\<close>

definition prepared_ship :: "(nat \<Rightarrow> bool) \<Rightarrow> ship_request \<Rightarrow> fault + (ship_request \<times> string)" where
  "prepared_ship printable req0 =
     (let req1 = trimmed_request req0; problem = ship_name_problem printable (sq_ship req1); req = derived_request req1
      in guard (if problem \<noteq> '''' then Some (bad problem) else None) (
         guard (ship_refused req) (
         attempt (registration_fingerprint (base_request (sq_id req) (sq_label req) 18080 (cf_loom (sq_config req)) (sq_request req)) None)
           (\<lambda>(registration, fp). Inr (req\<lparr>sq_label := cq_label registration, sq_key := ''''\<rparr>, sq_key req)))))"

definition ship_holder :: "ship_request \<Rightarrow> ('x, 'f) stored_instance \<Rightarrow> fault option" where
  "ship_holder req v = refuse [
     (in_id (sv_public v) = sq_id req, conflict ''instance_exists'' ''instance ID already registered''),
     (in_mode (sv_public v) \<noteq> ''fake'' \<and> in_ship (sv_public v) = sq_ship req,
      conflict ''ship_already_enrolled'' ''livenet identity already registered'')]"

text \<open>The request with its ports chosen, and the first revision.\<close>

definition ship_admitted :: "'f env \<Rightarrow> ship_request \<Rightarrow> ('x, 'f) tables \<Rightarrow> fault + ship_request \<times> u64" where
  "ship_admitted env req db =
     guard (en_storage env (sq_path req)) (
     guard (validate_config (cq_config (base_request (sq_id req) (sq_label req) 18080 (cf_loom (sq_config req)) (sq_request req)))) (
     attempt (initial_revision env (sq_id req) db) (\<lambda>revision.
     attempt (choose_port env (sq_id req) ''tcp'' (cf_http (sq_config req)) db) (\<lambda>http.
     attempt (choose_port env (sq_id req) ''udp'' (cf_ames (sq_config req)) db) (\<lambda>ames.
     guard (en_pill env (sq_pill req)) (
     guard (case instances db of Inl e \<Rightarrow> Some e | Inr all \<Rightarrow> first_fault (ship_holder req) all) (
     guard (reserve_port env (sq_id req) http db) (
     guard (reserve_pier_path env (sq_id req) (sq_path req) db) (
     Inr (req\<lparr>sq_config := (sq_config req)\<lparr>cf_http := http, cf_ames := ames\<rparr>\<rparr>, revision))))))))))"

definition ship_instance :: "ship_request \<Rightarrow> string \<Rightarrow> string \<Rightarrow> u64 \<Rightarrow> ('x, 'f) stored_instance" where
  "ship_instance req digest uuid revision =
     (let c = sq_config req
      in \<lparr>sv_public = zero_public\<lparr>in_id := sq_id req, in_label := sq_label req, in_config := c, in_revision := revision,
            in_ship := sq_ship req, in_mode := ship_class (sq_ship req), in_pier_path := sq_path req, in_desired := ''stopped'',
            in_observed := ''uninitialized'', in_health := ''unknown'', in_ames_published := True,
            in_bootstrap := Some \<lparr>bs_kind = (if sq_pill req \<noteq> None then ''recommended'' else ''bare''), bs_pill = sq_pill req\<rparr>\<rparr>,
          sv_runtime = (new_managed uuid (cf_http c) (cf_loom c) (cf_native c))
            \<lparr>vm_ames := cf_ames c, vm_boot := Some \<lparr>mb_pill = sq_pill req\<rparr>, vm_native_ship := sq_ship req, vm_key_digest := digest,
             vm_comet := Some \<lparr>mc_ship = sq_ship req, mc_started = None, mc_finished = None, mc_uncertain = False\<rparr>,
             vm_storage := Some (plain_location (sq_path req))\<rparr>,
          sv_runtime_revision = 0, sv_runtime_config = 0, sv_cpu = None, sv_startup = None\<rparr>)"

text \<open>
  \<open>stage uuid key\<close>: writing the private key file succeeds. The result is the operation, whether it was
  replayed, the tables, and the file that was staged.
\<close>

definition register_ship ::
  "'f env \<Rightarrow> (nat \<Rightarrow> bool) \<Rightarrow> (string \<Rightarrow> string \<Rightarrow> bool) \<Rightarrow> string \<Rightarrow> ship_request \<Rightarrow> bool \<Rightarrow> ('x, 'f) tables
     \<Rightarrow> fault + operation \<times> bool \<times> ('x, 'f) tables \<times> (string \<times> string) option" where
  "register_ship env printable stage actor req0 replay_only db =
     attempt (prepared_ship printable req0) (\<lambda>(req1, key).
     let digest = sha256_hex key; fp = RegisterShip req1 digest in
     case replay actor (sq_request req1) fp db of
       Some r \<Rightarrow> attempt r (\<lambda>op. Inr (op, True, db, None))
     | None \<Rightarrow>
         guard (if replay_only then Some (conflict ''replay_not_found''
                  ''no matching creation receipt exists for this actor; replay-only requests cannot create a ship'') else None) (
         attempt (ship_admitted env req1 db) (\<lambda>(req, revision).
         attempt (random_id env 0) (\<lambda>uuid.
         attempt (insert_instance (sq_id req) (ship_instance req digest uuid revision) db) (\<lambda>db.
         attempt (random_id env 1) (\<lambda>opkey.
         let now = en_now env 0;
             op = (new_operation opkey (sq_request req) (sq_id req) ''register-ship'' actor revision now)
                    \<lparr>op_status := ''succeeded'', op_finished := Some now\<rparr>
         in attempt (insert_operation op fp db) (\<lambda>db.
            guard (if stage uuid key then None
                   else Some (conflict ''key_staging_failed'' ''private boot-key staging failed; no registration committed'')) (
            Inr (op, False, db, Some (uuid, key))))))))))"

end
