(* ===== verification/LedgerEnroll.thy ===== *)
theory LedgerEnroll
  imports LedgerShips
begin

text \<open>
  The enrollment of existing piers (\<open>internal/managed/storage.go\<close>): what the discovery says of each
  candidate directory (\<open>pierCatalogue\<close>), the checks of a request (\<open>servePiers\<close>), and the transaction
  that registers, imports or reconnects a pier (\<open>enrollPierSource\<close>).
\<close>

section \<open>Discovery\<close>

record candidate =
  ca_path :: string
  ca_kind :: string
  ca_fingerprint :: string
  ca_busy :: bool
  ca_problem :: string
  ca_enrolled :: string
  ca_moved :: bool
  ca_identity :: pier_identity
  ca_mount :: directory_identity

text \<open>The loop over the registered ships, in the order of the identifiers; a recognised object ends it.\<close>

fun mark_enrolled :: "('x, 'f) stored_instance list \<Rightarrow> candidate \<Rightarrow> candidate" where
  "mark_enrolled [] c = c"
| "mark_enrolled (v # vs) c = (case vm_storage (sv_runtime v) of
     None \<Rightarrow> mark_enrolled vs c
   | Some s \<Rightarrow>
       if pi_inode (lo_identity s) \<noteq> 0 \<and> same_pier (lo_identity s) (ca_identity c) \<and> ca_fingerprint c \<noteq> ''''
       then c\<lparr>ca_enrolled := in_id (sv_public v),
              ca_moved := (lo_path s \<noteq> ca_path c \<or> lo_uncertain s \<or> \<not> same_directory (lo_mount s) (ca_mount c))\<rparr>
       else mark_enrolled vs (if lo_path s = ca_path c then c\<lparr>ca_enrolled := in_id (sv_public v),
              ca_problem := (if pi_inode (lo_identity s) \<noteq> 0 \<and> \<not> same_pier (lo_identity s) (ca_identity c)
                then ''A different directory replaced this registered pier. Review it before management can resume.''
                else ca_problem c)\<rparr> else c))"

definition mark_project :: "candidate \<Rightarrow> string \<times> location \<Rightarrow> candidate" where
  "mark_project c claim = (case claim of (i, l) \<Rightarrow>
     if lo_path l \<noteq> ca_path c then c
     else c\<lparr>ca_enrolled := i,
       ca_problem := (if \<not> same_directory (lo_mount l) (ca_mount c)
           \<or> pi_inode (lo_identity l) \<noteq> 0 \<and> \<not> same_pier (lo_identity l) (ca_identity c)
         then ''Project pier identity changed; review its storage.'' else ca_problem c)\<rparr>)"

text \<open>\<open>Inl\<close>: the catalogue carries this error and no candidates.\<close>

definition pier_catalogue :: "'f env \<Rightarrow> candidate list \<Rightarrow> ('x, 'f) tables \<Rightarrow> string + candidate list" where
  "pier_catalogue env sources db = (case instances db of
     Inl e \<Rightarrow> Inl ''Enrollment inventory unavailable.''
   | Inr all \<Rightarrow> (case en_claims env of
       Inl e \<Rightarrow> Inl ''Project storage inventory needs review.''
     | Inr claims \<Rightarrow> Inr (map (\<lambda>c. foldl mark_project (mark_enrolled all c) claims) sources)))"

section \<open>Requests\<close>

definition enroll_shape :: "enroll_request \<Rightarrow> fault option" where
  "enroll_shape req = refuse [
     (\<not> valid_id (eq_id req) \<or> \<not> valid_id (eq_request req) \<or> \<not> valid_fake_ship (eq_ship req) \<or> \<not> valid_path (eq_path req)
        \<or> \<not> valid_epoch_digest (eq_fingerprint req) \<or> \<not> eq_stopped req,
      bad ''enrollment requires a convention path, fresh fingerprint, expected ~ship and stopped-source confirmation''),
     (pier_kind (eq_path req) \<noteq> ''fake'' \<and> pier_kind (eq_path req) \<noteq> ship_class (eq_ship req),
      bad ''livenet directory classification must match the expected ship identity'')]"

definition selected_candidate :: "enroll_request \<Rightarrow> candidate list \<Rightarrow> fault + candidate" where
  "selected_candidate req cs = (case find (\<lambda>c. ca_path c = eq_path req) cs of
     None \<Rightarrow> Inl (conflict ''pier_not_found'' ''pier is no longer in the discovery tree'')
   | Some c \<Rightarrow> (case refuse [
       (ca_fingerprint c \<noteq> eq_fingerprint req \<or> ca_busy c \<or> ca_problem c \<noteq> '''',
        conflict ''pier_changed_or_busy'' ''pier changed, has a Vere lock, or needs storage review''),
       (ca_enrolled c \<noteq> '''' \<and> \<not> eq_relink req,
        conflict ''pier_already_enrolled'' ''reconnect the existing registration instead of enrolling the same pier twice'')] of
       Some e \<Rightarrow> Inl e | None \<Rightarrow> Inr c))"

section \<open>The transaction\<close>

definition certain_storage :: "'x managed_state \<Rightarrow> 'x managed_state" where
  "certain_storage s = s\<lparr>vm_storage := map_option (\<lambda>l. l\<lparr>lo_uncertain := False\<rparr>) (vm_storage s)\<rparr>"

definition relink_refused :: "enroll_request \<Rightarrow> candidate \<Rightarrow> ('x, 'f) stored_instance \<Rightarrow> fault option" where
  "relink_refused req source v = refuse [
     (in_revision (sv_public v) \<noteq> eq_expected req \<or> in_active (sv_public v) \<noteq> '''' \<or> in_desired (sv_public v) \<noteq> ''stopped''
        \<or> (case vm_storage (sv_runtime v) of None \<Rightarrow> True | Some l \<Rightarrow> \<not> same_pier (lo_identity l) (ca_identity source))
        \<or> in_ship (sv_public v) \<noteq> eq_ship req,
      conflict ''relink_conflict'' ''stop the same registered pier before reconnecting its moved directory''),
     (in_mode (sv_public v) \<noteq> ca_kind source, bad ''keep a moved pier in the same fake/livenet classification''),
     (uncertain_maintenance (certain_storage (sv_runtime v)) \<or> uncertain_provisioning (certain_storage (sv_runtime v)),
      conflict ''recovery_required'' ''independent provisioning or maintenance uncertainty requires review''),
     (retained_containers (sv_runtime v), conflict ''invalid_state'' ''stop retained containers before reconnecting storage'')]"

text \<open>The new registration, before the storage is filled in, and the number of random reads it made.\<close>

definition enrolled_runtime :: "enroll_request \<Rightarrow> string \<Rightarrow> string \<Rightarrow> u16 \<Rightarrow> 'x managed_state" where
  "enrolled_runtime req kind uuid ames =
     (let s = (new_managed uuid (eq_http req) 0 False)\<lparr>vm_adoption := Some \<lparr>ad_fingerprint = eq_fingerprint req,
                ad_uncertain = True, ad_verified = False, ad_finished = None\<rparr>\<rparr>
      in if kind \<noteq> ''fake''
         then s\<lparr>vm_ames := ames, vm_boot := Some \<lparr>mb_pill = None\<rparr>, vm_native_ship := eq_ship req,
                vm_comet := Some \<lparr>mc_ship = eq_ship req, mc_started = None, mc_finished = None, mc_uncertain = False\<rparr>\<rparr>
         else s\<lparr>vm_fake := Some \<lparr>mf_ship = eq_ship req, mf_uncertain = False\<rparr>\<rparr>)"

definition enrolled_public :: "enroll_request \<Rightarrow> string \<Rightarrow> string \<Rightarrow> configuration \<Rightarrow> u64 \<Rightarrow> 'f public_instance" where
  "enrolled_public req kind label c revision = zero_public\<lparr>in_id := eq_id req, in_label := label, in_ship := eq_ship req,
     in_mode := kind, in_config := c, in_revision := revision, in_desired := ''stopped'', in_observed := ''enrolling'',
     in_health := ''unknown'', in_ames_published := (kind \<noteq> ''fake'')\<rparr>"

definition new_enrollment ::
  "'f env \<Rightarrow> enroll_request \<Rightarrow> candidate \<Rightarrow> ('x, 'f) tables \<Rightarrow> fault + ('x, 'f) stored_instance" where
  "new_enrollment env req source db =
     attempt (initial_revision env (eq_id req) db) (\<lambda>revision.
     guard (if ca_kind source \<noteq> ''fake'' \<and> en_mode env \<noteq> development_mode
            then Some (conflict ''comet_mode_required'' ''livenet imports require development-managed mode'') else None) (
     attempt (registration_fingerprint (base_request (eq_id req) (eq_label req) (eq_http req) 31 (eq_request req)) None) (\<lambda>(base, fp).
     guard (if map_of (tb_instances db) (eq_id req) \<noteq> None
            then Some (conflict ''instance_exists'' ''instance ID is already registered'') else None) (
     guard (reserve_port env (eq_id req) (eq_http req) db) (
     guard (available_port env ''tcp'' (eq_http req)) (
     attempt (random_id env 0) (\<lambda>uuid.
     attempt (if ca_kind source \<noteq> ''fake'' then choose_port env (eq_id req) ''udp'' 0 db else Inr 0) (\<lambda>ames.
     let c = (if ca_kind source \<noteq> ''fake'' then (cq_config base)\<lparr>cf_ames := ames\<rparr> else cq_config base)
     in Inr \<lparr>sv_public = enrolled_public req (ca_kind source) (cq_label base) c revision,
             sv_runtime = enrolled_runtime req (ca_kind source) uuid ames,
             sv_runtime_revision = 0, sv_runtime_config = 0, sv_cpu = None, sv_startup = None\<rparr>))))))))"

definition source_holder ::
  "enroll_request \<Rightarrow> candidate \<Rightarrow> external_source option \<Rightarrow> ('x, 'f) stored_instance \<Rightarrow> fault option" where
  "source_holder req source external other =
     (let importing = (case vm_external (sv_runtime other) of None \<Rightarrow> None | Some x \<Rightarrow> if xi_stage x \<noteq> ''complete'' then Some x else None)
      in refuse [
        ((case importing of None \<Rightarrow> False | Some x \<Rightarrow> same_pier (es_identity (xi_source x)) (ca_identity source))
           \<and> pi_inode (ca_identity source) \<noteq> 0, conflict ''source_reserved'' ''this source is reserved by an import''),
        (case (external, importing) of (Some e, Some x) \<Rightarrow> overlap (es_path (xi_source x)) (es_path e) | _ \<Rightarrow> False,
         conflict ''source_reserved'' ''source is reserved by another import''),
        (in_id (sv_public other) \<noteq> eq_id req
           \<and> (case vm_storage (sv_runtime other) of None \<Rightarrow> False | Some l \<Rightarrow> same_pier (lo_identity l) (ca_identity source))
           \<and> pi_inode (ca_identity source) \<noteq> 0,
         conflict ''pier_already_enrolled'' ''this filesystem pier already belongs to another registration'')])"

definition livenet_holder :: "enroll_request \<Rightarrow> ('x, 'f) stored_instance \<Rightarrow> fault option" where
  "livenet_holder req other = (if in_id (sv_public other) \<noteq> eq_id req \<and> in_mode (sv_public other) \<noteq> ''fake''
       \<and> in_ship (sv_public other) = eq_ship req
     then Some (conflict ''ship_already_enrolled'' ''this livenet identity is already registered'') else None)"

definition all_instances :: "(('x, 'f) stored_instance \<Rightarrow> fault option) \<Rightarrow> ('x, 'f) tables \<Rightarrow> fault option" where
  "all_instances f db = (case instances db of Inl e \<Rightarrow> Some e | Inr all \<Rightarrow> first_fault f all)"

definition located :: "enroll_request \<Rightarrow> candidate \<Rightarrow> 'x managed_state \<Rightarrow> 'x managed_state" where
  "located req source s = s\<lparr>vm_storage := Some \<lparr>lo_path = eq_path req, lo_identity = ca_identity source,
     lo_mount = ca_mount source, lo_uncertain = False\<rparr>, vm_move := '''', vm_epochs := None\<rparr>"

definition reviewed_import :: "external_source \<Rightarrow> bool \<Rightarrow> gotime \<Rightarrow> enroll_request \<Rightarrow> 'x managed_state \<Rightarrow> 'x managed_state" where
  "reviewed_import e identify now req s = s\<lparr>vm_external := Some \<lparr>xi_identify = identify,
       xi_events = Slice [\<lparr>ie_stage = ''reviewed'', ie_at = now\<rparr>], xi_files = 0, xi_bytes = 0, xi_source = e,
       xi_stage = ''reviewed'', xi_held = ''''\<rparr>,
     vm_storage := Some (plain_location (eq_path req))\<rparr>"

definition enrollment_kind :: "enroll_request \<Rightarrow> external_source option \<Rightarrow> string" where
  "enrollment_kind req external = (if eq_relink req then ''relink-pier'' else if external \<noteq> None then ''import-pier'' else ''enroll-pier'')"

text \<open>The instance that is stored with the operation \<open>op\<close>.\<close>

definition enrolled_instance ::
  "'f env \<Rightarrow> enroll_request \<Rightarrow> candidate \<Rightarrow> external_source option \<Rightarrow> bool \<Rightarrow> string \<Rightarrow> gotime
     \<Rightarrow> ('x, 'f) stored_instance \<Rightarrow> ('x, 'f) stored_instance" where
  "enrolled_instance env req source external identify op now v =
     (let s = located req source (sv_runtime v);
          s = (case external of None \<Rightarrow> s | Some e \<Rightarrow> reviewed_import e identify now req s);
          p = (sv_public v)\<lparr>in_observed := (if external \<noteq> None then ''importing'' else in_observed (sv_public v)),
                in_pier_path := eq_path req,
                in_identity_pending := (case vm_adoption s of None \<Rightarrow> False | Some a \<Rightarrow> \<not> ad_verified a),
                in_active := (if eq_relink req then '''' else op)\<rparr>;
          w = v\<lparr>sv_public := p, sv_runtime := s\<rparr>;
          w = (if eq_relink req then apply_observation env w \<lparr>bo_state = ''stopped'', bo_health = ''unknown'', bo_endpoint = '''',
                bo_recovery = False, bo_resources = None\<rparr> now else w)
      in w\<lparr>sv_runtime_revision := sv_runtime_revision w + 1\<rparr>)"

definition enroll_pier ::
  "'f env \<Rightarrow> string \<Rightarrow> enroll_request \<Rightarrow> candidate \<Rightarrow> fingerprint \<Rightarrow> external_source option \<Rightarrow> bool \<Rightarrow> ('x, 'f) tables
     \<Rightarrow> fault + operation \<times> ('x, 'f) tables" where
  "enroll_pier env actor req source fp external identify db =
     guard (en_storage env (eq_path req)) (
     attempt (if eq_relink req
              then attempt (load_instance (eq_id req) db) (\<lambda>v. guard (relink_refused req source v) (Inr v))
              else new_enrollment env req source db) (\<lambda>v.
     guard (reserve_pier_path env (eq_id req) (eq_path req) db) (
     guard (all_instances (source_holder req source external) db) (
     guard (if ca_kind source \<noteq> ''fake'' then all_instances (livenet_holder req) db else None) (
     attempt (random_id env (if eq_relink req then 0 else 1)) (\<lambda>key.
     let now = en_now env 0;
         op0 = new_operation key (eq_request req) (eq_id req) (enrollment_kind req external) actor (in_revision (sv_public v)) now;
         op = (if eq_relink req then op0\<lparr>op_status := ''succeeded'', op_finished := Some now\<rparr> else op0);
         w = enrolled_instance env req source external identify (op_id op) now v
     in attempt (if eq_relink req then Inr (save_instance w db) else insert_instance (eq_id req) w db) (\<lambda>db.
        attempt (insert_operation op fp db) (\<lambda>db. Inr (op, db)))))))))"

text \<open>A request to enroll a discovered pier: \<open>sources\<close> is what the discovery found.\<close>

definition serve_piers ::
  "'f env \<Rightarrow> string \<Rightarrow> enroll_request \<Rightarrow> candidate list \<Rightarrow> ('x, 'f) tables \<Rightarrow> fault + operation \<times> bool \<times> ('x, 'f) tables" where
  "serve_piers env actor req sources db =
     guard (enroll_shape req) (
     case replay actor (eq_request req) (EnrollPier req) db of
       Some r \<Rightarrow> attempt r (\<lambda>op. Inr (op, True, db))
     | None \<Rightarrow> (case pier_catalogue env sources db of
         Inl m \<Rightarrow> Inl (conflict ''pier_unavailable'' ''pier discovery unavailable'')
       | Inr cs \<Rightarrow> attempt (selected_candidate req cs) (\<lambda>source.
           attempt (enroll_pier env actor req source (EnrollPier req) None False db) (\<lambda>(op, db). Inr (op, False, db)))))"

end
