(* ===== verification/LedgerHandoff.thy ===== *)
theory LedgerHandoff
  imports LedgerShips
begin

text \<open>
  Moving a stopped pier to another host (\<open>internal/managed/handoff.go\<close>): the source is fenced and
  prepared, the destination reserves, receives and verifies, the source commits, and only a signed
  commitment activates the destination. \<open>r.s.runnerID\<close> is the parameter \<open>runner\<close>, an answer is the
  HTTP status, the handoff, and the operation that is launched.
\<close>

section \<open>Operations and receipts\<close>

definition set_handoff :: "handoff \<Rightarrow> ('x, 'f) stored_instance \<Rightarrow> ('x, 'f) stored_instance" where
  "set_handoff h v = v\<lparr>sv_runtime := (sv_runtime v)\<lparr>vm_handoff := Some h\<rparr>,
     sv_public := (sv_public v)\<lparr>in_handoff := Some h\<rparr>\<rparr>"

definition moving_instance :: "string \<Rightarrow> handoff \<Rightarrow> ('x, 'f) stored_instance \<Rightarrow> ('x, 'f) stored_instance" where
  "moving_instance opid h v =
     (let w = set_handoff (h\<lparr>hf_error := ''''\<rparr>) v
      in w\<lparr>sv_public := (sv_public w)\<lparr>in_active := opid, in_observed := ''moving'', in_health := ''unknown'', in_desired := ''stopped''\<rparr>,
           sv_runtime_revision := sv_runtime_revision w + 1\<rparr>)"

text \<open>\<open>handoffOperation\<close>: \<open>h\<close> is the handoff of \<open>v\<close>, \<open>n\<close> the number of random identifiers already read.\<close>

definition handoff_operation ::
  "'f env \<Rightarrow> nat \<Rightarrow> string \<Rightarrow> string \<Rightarrow> string \<Rightarrow> handoff \<Rightarrow> ('x, 'f) stored_instance \<Rightarrow> ('x, 'f) tables
     \<Rightarrow> fault + operation \<times> handoff \<times> ('x, 'f) tables" where
  "handoff_operation env n actor kind request h v db =
     (let fp = HandoffWork (hf_id h) kind in
      case replay actor request fp db of
        Some r \<Rightarrow> attempt r (\<lambda>op. Inl (conflict ''handoff_request_finished''
          ''this attempt already has a recorded outcome; use a new request ID for an explicit retry''))
      | None \<Rightarrow> attempt (random_id env n) (\<lambda>key.
          let op = new_operation key request (in_id (sv_public v)) kind actor (in_revision (sv_public v)) (en_now env 0)
          in attempt (insert_operation op fp (save_instance (moving_instance (op_id op) h v) db)) (\<lambda>db.
             Inr (op, h\<lparr>hf_error := ''''\<rparr>, db))))"

definition replay_handoff :: "string \<Rightarrow> string \<Rightarrow> fingerprint \<Rightarrow> ('x, 'f) tables \<Rightarrow> fault + (nat \<times> handoff) option" where
  "replay_handoff actor request fp db = (case replay actor request fp db of
     None \<Rightarrow> Inr None
   | Some r \<Rightarrow> attempt r (\<lambda>op. attempt (load_operation (op_id op) db) (\<lambda>row.
       case ow_receipt row of
         None \<Rightarrow> Inl (Broken ''invalid stored handoff receipt'')
       | Some (status, h) \<Rightarrow> if op_status (ow_op row) \<noteq> ''succeeded'' \<or> status \<notin> {200, 201}
           then Inl (Broken ''invalid stored handoff receipt'') else Inr (Some (status, h)))))"

definition save_receipt :: "string \<Rightarrow> nat \<times> handoff \<Rightarrow> ('x, 'f) tables \<Rightarrow> ('x, 'f) tables" where
  "save_receipt opid receipt db = db\<lparr>tb_operations :=
     map (\<lambda>r. if op_id (ow_op r) = opid then r\<lparr>ow_receipt := Some receipt\<rparr> else r) (tb_operations db)\<rparr>"

definition record_receipt ::
  "'f env \<Rightarrow> nat \<Rightarrow> ('x, 'f) stored_instance \<Rightarrow> handoff \<Rightarrow> string \<Rightarrow> string \<Rightarrow> string \<Rightarrow> fingerprint \<Rightarrow> nat \<Rightarrow> ('x, 'f) tables
     \<Rightarrow> fault + ('x, 'f) tables" where
  "record_receipt env n v h actor kind request fp status db =
     attempt (random_id env n) (\<lambda>key.
     let now = en_now env 0;
         op = (new_operation key request (in_id (sv_public v)) kind actor (in_revision (sv_public v)) now)
                \<lparr>op_status := ''succeeded'', op_finished := Some now\<rparr>
     in attempt (insert_operation op fp db) (\<lambda>db. Inr (save_receipt (op_id op) (status, h) db)))"

definition load_handoff :: "string \<Rightarrow> ('x, 'f) tables \<Rightarrow> fault + ('x, 'f) stored_instance \<times> handoff" where
  "load_handoff i db = attempt (instances db) (\<lambda>all.
     case find (\<lambda>v. case vm_handoff (sv_runtime v) of None \<Rightarrow> False | Some h \<Rightarrow> hf_id h = i) all of
       None \<Rightarrow> Inl (Problem 404 ''handoff_not_found'' ''handoff not found'' None)
     | Some v \<Rightarrow> (case vm_handoff (sv_runtime v) of
         None \<Rightarrow> Inl (Problem 404 ''handoff_not_found'' ''handoff not found'' None) | Some h \<Rightarrow> Inr (v, h)))"

definition operator_only :: "string \<Rightarrow> string \<Rightarrow> fault option" where
  "operator_only role message = (if role \<noteq> ''operator'' then Some (bad message) else None)"

abbreviation moves_message :: string where "moves_message \<equiv> ''host moves require operator access''"

section \<open>Preparing the source\<close>

record prepare_request =
  pq_expected :: u64
  pq_request :: string
  pq_runner :: string
  pq_instance :: string
  pq_settings :: bool

type_synonym ('x, 'f) handoff_answer = "nat \<times> handoff \<times> operation option \<times> ('x, 'f) tables"

definition instance_settings :: "('x, 'f) stored_instance \<Rightarrow> runtime_settings" where
  "instance_settings v = \<lparr>rs_loom = cf_loom (in_config (sv_public v)), rs_native = cf_native (in_config (sv_public v))\<rparr>"

text \<open>A source that is already fenced answers its progress, or prepares again after an error.\<close>

definition prepare_again ::
  "'f env \<Rightarrow> string \<Rightarrow> prepare_request \<Rightarrow> ('x, 'f) stored_instance \<Rightarrow> handoff \<Rightarrow> ('x, 'f) tables \<Rightarrow> fault + ('x, 'f) handoff_answer" where
  "prepare_again env actor req v h db =
     guard (refuse [
       (nondefault (instance_settings v) \<and> hf_settings h = None,
        conflict ''handoff_settings_missing'' ''historical handoff lacks the selected runtime settings; retain the source fence for review''),
       (hf_destination h \<noteq> pq_runner req \<or> hf_destination_instance h \<noteq> pq_instance req,
        conflict ''handoff_fenced'' ''source is already fenced for another move'')]) (
     if hf_state h \<noteq> ''preparing'' \<or> in_active (sv_public v) \<noteq> '''' \<or> hf_error h = '''' then Inr (200, h, None, db)
     else attempt (handoff_operation env 0 actor ''prepare-handoff'' (pq_request req) h v db) (\<lambda>(op, h, db). Inr (202, h, Some op, db)))"

definition prepare_refused :: "('x, 'f) stored_instance \<Rightarrow> fault option" where
  "prepare_refused v = refuse [
     (in_active (sv_public v) \<noteq> '''' \<or> in_desired (sv_public v) \<noteq> ''stopped'' \<or> in_observed (sv_public v) \<noteq> ''stopped''
        \<or> in_recovery (sv_public v) \<or> \<not> vm_initialized (sv_runtime v) \<or> uncertain_maintenance (sv_runtime v)
        \<or> uncertain_provisioning (sv_runtime v),
      conflict ''invalid_state'' ''source must be initialized and cleanly stopped before handoff''),
     (retained_containers (sv_runtime v), conflict ''invalid_state'' ''remove stopped runtime containers before handoff'')]"

definition outgoing :: "string \<Rightarrow> string \<Rightarrow> string \<Rightarrow> string \<Rightarrow> prepare_request \<Rightarrow> gotime \<Rightarrow> ('x, 'f) stored_instance \<Rightarrow> handoff" where
  "outgoing runner i key public req now v = \<lparr>hf_id = key, hf_direction = ''out'', hf_state = ''preparing'', hf_source = runner,
     hf_source_instance = i, hf_destination = pq_runner req, hf_destination_instance = pq_instance req,
     hf_ship = in_ship (sv_public v), hf_mode = in_mode (sv_public v), hf_ames = in_ames_published (sv_public v),
     hf_roll = vm_roll_needs (sv_runtime v),
     hf_settings = (if nondefault (instance_settings v) then Some (instance_settings v) else None),
     hf_sha256 = '''', hf_tree = '''', hf_bytes = 0, hf_created = now, hf_message = ''Source fenced; preparing stopped transfer.'',
     hf_error = '''', hf_key = hex_bytes (bytes_of public), hf_commitment = ''''\<rparr>"

text \<open>\<open>keys\<close>: what \<open>ed25519.GenerateKey\<close> returns.\<close>

definition prepare_handoff ::
  "'f env \<Rightarrow> string \<Rightarrow> fault + string \<times> u8 list \<Rightarrow> string \<Rightarrow> string \<Rightarrow> string \<Rightarrow> prepare_request \<Rightarrow> ('x, 'f) tables
     \<Rightarrow> fault + ('x, 'f) handoff_answer" where
  "prepare_handoff env runner keys actor role i req db =
     guard (operator_only role moves_message) (
     guard (if \<not> valid_id (pq_request req) \<or> \<not> valid_id (pq_runner req) \<or> \<not> valid_pier_name (pq_instance req) \<or> pq_runner req = runner
            then Some (bad ''choose another pinned runner and destination instance'') else None) (
     attempt (load_instance i db) (\<lambda>v.
     guard (refuse [
       (in_revision (sv_public v) \<noteq> pq_expected req, conflict ''revision_conflict'' ''source configuration changed''),
       (nondefault (instance_settings v) \<and> \<not> pq_settings req,
        conflict ''runtime_settings_required'' ''update the collector and destination for runtime-settings-handoff before moving this ship'')]) (
     case (case vm_handoff (sv_runtime v) of None \<Rightarrow> None | Some h \<Rightarrow> if hf_direction h = ''out'' then Some h else None) of
       Some h \<Rightarrow> prepare_again env actor req v h db
     | None \<Rightarrow>
         guard (prepare_refused v) (
         attempt (random_id env 0) (\<lambda>key.
         attempt keys (\<lambda>(public, private).
         let h = outgoing runner i key public req (en_now env 0) v;
             w = set_handoff h (v\<lparr>sv_runtime := (sv_runtime v)\<lparr>vm_signing := Slice private\<rparr>\<rparr>)
         in attempt (handoff_operation env 1 actor ''prepare-handoff'' (pq_request req) h w db)
              (\<lambda>(op, h, db). Inr (202, h, Some op, db)))))))))"

section \<open>Reserving the destination\<close>

definition offer_settings :: "handoff \<Rightarrow> runtime_settings" where
  "offer_settings h = (case hf_settings h of None \<Rightarrow> \<lparr>rs_loom = default_loom, rs_native = False\<rparr> | Some s \<Rightarrow> s)"

definition offer_refused :: "string \<Rightarrow> string \<Rightarrow> string \<Rightarrow> handoff \<Rightarrow> fault option" where
  "offer_refused runner mode request h = refuse [
     (hf_settings h \<noteq> None \<and> \<not> valid_recorded_loom (rs_loom (offer_settings h)), bad ''invalid handoff runtime settings''),
     (\<not> full_handoff_id (hf_id h) \<or> \<not> valid_id request \<or> hf_destination h \<noteq> runner \<or> hf_source h = runner
        \<or> \<not> valid_id (hf_source h) \<or> \<not> valid_id (hf_source_instance h) \<or> \<not> valid_pier_name (hf_destination_instance h)
        \<or> \<not> valid_fake_ship (hf_ship h) \<or> \<not> valid_handoff_bytes h, bad ''invalid pinned handoff offer''),
     (\<not> hex_string 64 (hf_key h) \<or> hf_commitment h \<noteq> '''' \<or> hf_mode h = ''fake'' \<and> hf_ames h
        \<or> hf_mode h \<noteq> ''fake'' \<and> (hf_mode h \<noteq> ship_class (hf_ship h) \<or> mode \<noteq> development_mode),
      bad ''handoff ship classification mismatch'')]"

text \<open>The loop over the registered ships: one that holds the same transfer, or one that is in its way.\<close>

fun find_transfer :: "receive_request \<Rightarrow> ('x, 'f) stored_instance list \<Rightarrow> fault + (('x, 'f) stored_instance \<times> handoff) option" where
  "find_transfer req [] = Inr None"
| "find_transfer req (v # vs) =
     (let h = vq_offer req in
      case (case vm_handoff (sv_runtime v) of None \<Rightarrow> None | Some old \<Rightarrow> if hf_id old = hf_id h then Some old else None) of
        Some old \<Rightarrow>
          if \<not> same_transfer old h \<or> vq_http req \<noteq> 0 \<and> vq_http req \<noteq> cf_http (in_config (sv_public v))
             \<or> hf_ames h \<and> vq_ames req \<noteq> 0 \<and> vq_ames req \<noteq> cf_ames (in_config (sv_public v))
          then Inl (conflict ''handoff_conflict'' ''handoff offer changed'') else Inr (Some (v, old))
      | None \<Rightarrow>
          if in_id (sv_public v) = hf_destination_instance h \<or> in_mode (sv_public v) \<noteq> ''fake'' \<and> in_ship (sv_public v) = hf_ship h
          then Inl (conflict ''instance_exists'' ''destination already has this instance or live identity'')
          else find_transfer req vs)"

definition arrival_tier :: "(string \<times> string) list" where
  "arrival_tier = tier_table @ [(''comet'', ''comets'')]"

definition arrival_path :: "handoff \<Rightarrow> string" where
  "arrival_path h = (let leaf = trim_prefix (hf_ship h) ''~'' in
     if hf_mode h \<noteq> ''fake'' then ''livenet/'' @ lookup_str arrival_tier (hf_mode h) @ ''/'' @ hf_destination_instance h @ ''/'' @ leaf
     else ''fakeships/'' @ hf_destination_instance h @ ''/'' @ leaf)"

definition arriving_instance :: "handoff \<Rightarrow> string \<Rightarrow> u16 \<Rightarrow> u16 \<Rightarrow> u64 \<Rightarrow> ('x, 'f) stored_instance" where
  "arriving_instance h uuid http ames revision =
     (let settings = offer_settings h; path = arrival_path h;
          s = (new_managed uuid http (rs_loom settings) (rs_native settings))\<lparr>vm_ames := ames,
                vm_storage := Some (plain_location path), vm_handoff := Some h, vm_roll_needs := hf_roll h\<rparr>;
          s = (if hf_mode h = ''fake'' then s\<lparr>vm_fake := Some \<lparr>mf_ship = hf_ship h, mf_uncertain = False\<rparr>\<rparr>
               else s\<lparr>vm_comet := Some \<lparr>mc_ship = hf_ship h, mc_started = None, mc_finished = None, mc_uncertain = False\<rparr>,
                 vm_native_ship := (if hf_mode h \<noteq> ''comet'' \<or> hf_ames h then hf_ship h else ''''),
                 vm_boot := (if hf_ames h then Some \<lparr>mb_pill = None\<rparr> else None)\<rparr>)
      in \<lparr>sv_public = zero_public\<lparr>in_id := hf_destination_instance h, in_label := hf_destination_instance h, in_ship := hf_ship h,
            in_mode := hf_mode h, in_ames_published := hf_ames h, in_pier_path := path, in_pier_name := trim_prefix (hf_ship h) ''~'',
            in_config := \<lparr>cf_http = http, cf_ames = ames, cf_loom = rs_loom settings, cf_native = rs_native settings\<rparr>,
            in_revision := revision, in_desired := ''stopped'', in_observed := ''moving'', in_health := ''unknown'',
            in_handoff := Some h\<rparr>,
          sv_runtime = s, sv_runtime_revision = 0, sv_runtime_config = 0, sv_cpu = None, sv_startup = None\<rparr>)"

definition reserved_offer :: "handoff \<Rightarrow> handoff" where
  "reserved_offer h = h\<lparr>hf_direction := ''in'', hf_state := ''reserved'', hf_message := ''Destination reserved; waiting for stopped pier data.''\<rparr>"

text \<open>A new reservation.\<close>

definition reserve_arrival ::
  "'f env \<Rightarrow> string \<Rightarrow> receive_request \<Rightarrow> u64 \<Rightarrow> fingerprint \<Rightarrow> ('x, 'f) tables \<Rightarrow> fault + ('x, 'f) handoff_answer" where
  "reserve_arrival env actor req revision fp db =
     (let h = vq_offer req; i = hf_destination_instance h in
      guard (if hf_direction h \<noteq> ''out'' \<or> hf_state h \<noteq> ''ready'' then Some (bad ''source has not prepared a stopped transfer'') else None) (
      attempt (choose_port env i ''tcp'' (vq_http req) db) (\<lambda>http.
      attempt (if hf_ames h then choose_port env i ''udp'' (vq_ames req) db else Inr 34343) (\<lambda>ames.
      guard (reserve_pier_path env i (arrival_path h) db) (
      attempt (random_id env 0) (\<lambda>uuid.
      let v = arriving_instance (reserved_offer h) uuid http ames revision
      in attempt (insert_instance i v db) (\<lambda>db.
         attempt (record_receipt env 1 v (reserved_offer h) actor ''reserve-handoff'' (vq_request req) fp 201 db) (\<lambda>db.
         Inr (201, reserved_offer h, None, db))))))))) "

definition receive_handoff ::
  "'f env \<Rightarrow> string \<Rightarrow> string \<Rightarrow> string \<Rightarrow> receive_request \<Rightarrow> ('x, 'f) tables \<Rightarrow> fault + ('x, 'f) handoff_answer" where
  "receive_handoff env runner actor role req db =
     guard (operator_only role moves_message) (
     guard (if \<not> valid_id (vq_request req) then Some (bad ''valid handoff request ID required'') else None) (
     attempt (replay_handoff actor (vq_request req) (ReserveHandoff req) db) (\<lambda>receipt.
     case receipt of
       Some (status, r) \<Rightarrow>
         attempt (load_handoff (hf_id r) db) (\<lambda>(v, h).
         if in_id (sv_public v) \<noteq> hf_destination_instance r \<or> hf_direction h \<noteq> ''in'' \<or> \<not> same_transfer h r
         then Inl (conflict ''handoff_conflict'' ''accepted handoff no longer matches the destination transfer'')
         else Inr (200, h, None, db))
     | None \<Rightarrow>
         guard (offer_refused runner (en_mode env) (vq_request req) (vq_offer req)) (
         attempt (instances db) (\<lambda>all.
         attempt (initial_revision env (hf_destination_instance (vq_offer req)) db) (\<lambda>revision.
         attempt (find_transfer req all) (\<lambda>found.
         case found of
           Some (v, old) \<Rightarrow>
             attempt (record_receipt env 0 v old actor ''reserve-handoff'' (vq_request req) (ReserveHandoff req) 200 db) (\<lambda>db.
             Inr (200, old, None, db))
         | None \<Rightarrow> reserve_arrival env actor req revision (ReserveHandoff req) db)))))))"

section \<open>Control\<close>

text \<open>\<open>POST /v1/handoffs/<id>/commit\<close> and \<open>retry\<close>.\<close>

definition control_handoff ::
  "'f env \<Rightarrow> string \<Rightarrow> string \<Rightarrow> string \<Rightarrow> string \<Rightarrow> finish_request \<Rightarrow> ('x, 'f) tables \<Rightarrow> fault + ('x, 'f) handoff_answer" where
  "control_handoff env actor role i verb req db =
     guard (operator_only role moves_message) (
     attempt (load_handoff i db) (\<lambda>(v, h).
     guard (if \<not> valid_id (fq_request req) \<or> fq_sha256 req \<noteq> hf_sha256 h \<or> fq_expected req \<noteq> in_revision (sv_public v)
            then Some (bad ''handoff commitment must match its revision and digest'') else None) (
     if verb = ''commit'' \<and> hf_direction h = ''out'' \<or> verb = ''retry'' \<and> hf_direction h = ''in'' \<and> hf_state h = ''receiving'' then
       (if hf_state h = ''moved'' \<or> in_active (sv_public v) \<noteq> '''' then Inr (200, h, None, db)
        else if hf_state h \<noteq> ''ready'' \<and> \<not> (verb = ''retry'' \<and> hf_error h \<noteq> '''')
        then Inl (conflict ''invalid_state'' ''source transfer is not ready'')
        else attempt (handoff_operation env 0 actor (if verb = ''retry'' then ''receive-handoff'' else ''commit-handoff'')
               (fq_request req) h v db) (\<lambda>(op, h, db). Inr (202, h, Some op, db)))
     else Inl (bad ''unsupported handoff action''))))"

definition completed_handoff :: "string \<Rightarrow> handoff \<Rightarrow> handoff" where
  "completed_handoff commitment h = h\<lparr>hf_state := ''complete'', hf_commitment := commitment, hf_error := '''',
     hf_message := ''Stopped host move complete; explicit Start is now available on this runner.''\<rparr>"

definition activated_instance :: "handoff \<Rightarrow> ('x, 'f) stored_instance \<Rightarrow> ('x, 'f) stored_instance" where
  "activated_instance h v = (let w = set_handoff h v in
     w\<lparr>sv_public := (sv_public w)\<lparr>in_observed := ''stopped'', in_recovery := False\<rparr>,
       sv_runtime_revision := sv_runtime_revision w + 1\<rparr>)"

definition activate_handoff ::
  "(string \<Rightarrow> string \<Rightarrow> string \<Rightarrow> bool) \<Rightarrow> 'f env \<Rightarrow> string \<Rightarrow> string \<Rightarrow> string \<Rightarrow> finish_request \<Rightarrow> ('x, 'f) tables
     \<Rightarrow> fault + ('x, 'f) handoff_answer" where
  "activate_handoff verify env actor role i req db =
     guard (operator_only role moves_message) (
     guard (if \<not> valid_id (fq_request req) then Some (bad ''valid handoff request ID required'') else None) (
     attempt (replay_handoff actor (fq_request req) (ActivateHandoff i req) db) (\<lambda>receipt.
     case receipt of
       Some (status, h) \<Rightarrow> Inr (status, h, None, db)
     | None \<Rightarrow>
         attempt (load_handoff i db) (\<lambda>(v, h).
         guard (refuse [
           (hf_direction h \<noteq> ''in'' \<or> fq_sha256 req \<noteq> hf_sha256 h \<or> fq_expected req \<noteq> in_revision (sv_public v),
            bad ''handoff commitment must match its revision and digest''),
           (\<not> valid_commitment verify h (fq_commitment req),
            conflict ''handoff_uncommitted'' ''destination requires the source's matching signed commitment''),
           (hf_state h \<noteq> ''complete'' \<and> (hf_state h \<noteq> ''received'' \<or> \<not> vm_initialized (sv_runtime v) \<or> in_active (sv_public v) \<noteq> ''''),
            conflict ''invalid_state'' ''destination transfer has not been verified'')]) (
         let g = (if hf_state h \<noteq> ''complete'' then completed_handoff (fq_commitment req) h else h);
             w = (if hf_state h \<noteq> ''complete'' then activated_instance g v else v);
             db = (if hf_state h \<noteq> ''complete'' then save_instance w db else db)
         in attempt (record_receipt env 0 w g actor ''activate-handoff'' (fq_request req) (ActivateHandoff i req) 200 db) (\<lambda>db.
            Inr (200, g, None, db)))))))"

section \<open>Data\<close>

text \<open>\<open>GET\<close>: the archive of a prepared source, of exactly the recorded size. \<open>archive\<close> is the file, if it can be opened.\<close>

definition export_archive :: "string \<Rightarrow> string \<Rightarrow> string option \<Rightarrow> ('x, 'f) tables \<Rightarrow> fault + string" where
  "export_archive role i archive db =
     guard (operator_only role ''handoff data requires operator access'') (
     attempt (load_handoff i db) (\<lambda>(v, h).
     if \<not> (hf_direction h = ''out'' \<and> hf_state h = ''ready'' \<and> valid_handoff_bytes h)
     then Inl (bad ''handoff data must match the reserved destination'')
     else case archive of None \<Rightarrow> Inl (conflict ''handoff_unavailable'' ''stopped transfer artifact unavailable'')
       | Some f \<Rightarrow> if int (length f) \<noteq> hf_bytes h then Inl (bad ''transfer artifact size changed'') else Inr f))"

record upload =
  up_length :: int
  up_hash :: string
  up_type :: string
  up_body :: string

text \<open>What the host does during a \<open>PUT\<close>: free space, the spool file, its publication under the final name.\<close>

record upload_host =
  uh_free :: "u64 \<Rightarrow> bool"
  uh_spool :: "fault option"
  uh_write :: bool
  uh_publish :: "fault option"

definition upload_refused :: "upload \<Rightarrow> upload_host \<Rightarrow> handoff \<Rightarrow> fault option" where
  "upload_refused req host h = first_fault id [
     refuse [
       (hf_direction h \<noteq> ''in'' \<or> hf_state h \<noteq> ''reserved'' \<or> up_length req \<noteq> hf_bytes h \<or> up_hash req \<noteq> hf_sha256 h
          \<or> up_type req \<noteq> ''application/octet-stream'', bad ''handoff data must match the reserved destination''),
       (\<not> uh_free host (2 * of_int (hf_bytes h) + 2 ^ 33),
        conflict ''handoff_capacity'' ''destination needs two transfer sizes plus 8 GiB free disk'')],
     uh_spool host,
     refuse [(\<not> uh_write host \<or> int (length (up_body req)) > max_handoff_bytes \<or> int (length (up_body req)) \<noteq> hf_bytes h
                \<or> sha256_hex (up_body req) \<noteq> hf_sha256 h, bad ''handoff data incomplete or digest mismatch'')]]"

text \<open>
  \<open>db\<close> is the store when the request arrives, \<open>db'\<close> the store when the body has been spooled: other
  requests are served in between.
\<close>

definition upload_handoff ::
  "'f env \<Rightarrow> string \<Rightarrow> string \<Rightarrow> string \<Rightarrow> upload \<Rightarrow> upload_host \<Rightarrow> ('x, 'f) tables \<Rightarrow> ('x, 'f) tables \<Rightarrow> fault + ('x, 'f) handoff_answer" where
  "upload_handoff env actor role i req host db db' =
     guard (operator_only role ''handoff data requires operator access'') (
     attempt (load_handoff i db) (\<lambda>(v0, h0).
     guard (upload_refused req host h0) (
     attempt (load_handoff i db') (\<lambda>(v, h).
     guard (if hf_state h \<noteq> ''reserved'' \<or> in_active (sv_public v) \<noteq> ''''
            then Some (conflict ''handoff_changed'' ''destination transfer advanced; read its current status'') else None) (
     guard (uh_publish host) (
     attempt (handoff_operation env 0 actor ''receive-handoff'' (''receive-'' @ i)
         (h\<lparr>hf_state := ''receiving'', hf_message := ''Verifying stopped pier contents on destination.''\<rparr>) v db')
       (\<lambda>(op, h, db). Inr (202, h, Some op, db))))))))"

end
