(* ===== verification/LedgerStartup.thy ===== *)
theory LedgerStartup
  imports LedgerFinish
begin

text \<open>
  Resuming ships after a host reboot (\<open>internal/managed/startup.go\<close>): which ships are candidates, how
  their authorization is recorded before the poll can see the exited containers, how it is dismissed,
  and how it is claimed as one \<open>startup-resume\<close> operation per boot.
\<close>

definition startup_matches :: "('x, 'f) stored_instance \<Rightarrow> startup_state \<Rightarrow> bool" where
  "startup_matches v s \<longleftrightarrow> ss_container s = startup_container v \<and> ss_revision s = in_revision (sv_public v)"

text \<open>The authorization of a candidate: \<open>None\<close> for a ship that the loop passes over.\<close>

definition startup_candidate :: "string \<Rightarrow> ('x, 'f) stored_instance \<Rightarrow> ('x, 'f) stored_instance option" where
  "startup_candidate boot v =
     (if \<not> startup_eligible v then None
      else let matching = (case sv_startup v of None \<Rightarrow> None | Some s \<Rightarrow> if startup_matches v s then Some s else None);
               pending = (case matching of None \<Rightarrow> False | Some s \<Rightarrow> boot_id_ok (ss_pending s))
      in if \<not> pending \<and> in_recovery (sv_public v) then None
         else let s = (case matching of Some s \<Rightarrow> s | None \<Rightarrow> \<lparr>ss_healthy = '''', ss_container = startup_container v,
                        ss_revision = in_revision (sv_public v), ss_pending = '''', ss_unclean = False\<rparr>);
                  s = (if \<not> pending \<or> ss_pending s \<noteq> boot
                       then s\<lparr>ss_unclean := (boot_id_ok (ss_healthy s) \<and> ss_healthy s \<noteq> boot)\<rparr> else s)
         in Some (v\<lparr>sv_startup := Some (s\<lparr>ss_pending := boot\<rparr>), sv_runtime_revision := sv_runtime_revision v + 1\<rparr>))"

definition startup_candidates ::
  "'f env \<Rightarrow> ('x, 'f) tables \<Rightarrow> fault + ('x, 'f) stored_instance list \<times> ('x, 'f) tables" where
  "startup_candidates env db =
     (if \<not> boot_id_ok (en_boot env) then Inr ([], db)
      else attempt (instances db) (\<lambda>all.
        let found = List.map_filter (startup_candidate (en_boot env)) all
        in Inr (found, fold save_instance found db)))"

definition startup_authorized :: "('x, 'f) stored_instance \<Rightarrow> string \<Rightarrow> bool" where
  "startup_authorized v boot \<longleftrightarrow> startup_eligible v \<and> (case sv_startup v of None \<Rightarrow> False | Some s \<Rightarrow>
     startup_matches v s \<and> ss_pending s = boot
     \<and> (\<not> ss_unclean s \<or> boot_id_ok (ss_healthy s) \<and> ss_healthy s \<noteq> boot))"

text \<open>A definitive non-candidate loses its authorization.\<close>

definition dismiss_startup :: "'f env \<Rightarrow> ('x, 'f) stored_instance \<Rightarrow> ('x, 'f) tables \<Rightarrow> fault + ('x, 'f) tables" where
  "dismiss_startup env prior db =
     (case load_instance (in_id (sv_public prior)) db of
        Inl (Problem st code m r) \<Rightarrow> if code = ''instance_not_found'' then Inr db else Inl (Problem st code m r)
      | Inl (Broken m) \<Rightarrow> Inl (Broken m)
      | Inr v \<Rightarrow>
          if vm_id (sv_runtime v) = vm_id (sv_runtime prior) \<and> startup_authorized v (en_boot env) \<and> sv_startup v = sv_startup prior
          then Inr (save_instance (v\<lparr>sv_startup := None, sv_runtime_revision := sv_runtime_revision v + 1\<rparr>) db)
          else Inr db)"

definition authorize_startup_state :: "('x, 'f) stored_instance \<Rightarrow> 'x managed_state \<Rightarrow> 'x managed_state" where
  "authorize_startup_state v state = state\<lparr>vm_startup := map_option (\<lambda>s. \<lparr>su_container = ss_container s, su_unclean = ss_unclean s\<rparr>) (sv_startup v)\<rparr>"

definition startup_request :: "string \<Rightarrow> string \<Rightarrow> string" where
  "startup_request runtime boot = ''startup-'' @ take 32 (sha256_hex (''startup-resume:'' @ runtime @ '':'' @ boot))"

text \<open>The claimed ship: the observed state with the intent, and no retained-container warning.\<close>

definition claimed_instance :: "string \<Rightarrow> 'x managed_state \<Rightarrow> ('x, 'f) stored_instance \<Rightarrow> ('x, 'f) stored_instance" where
  "claimed_instance opid state v = v\<lparr>sv_runtime := state\<lparr>vm_epochs := None\<rparr>, sv_runtime_revision := sv_runtime_revision v + 1,
     sv_startup := map_option (\<lambda>s. s\<lparr>ss_pending := ''''\<rparr>) (sv_startup v),
     sv_public := (sv_public v)\<lparr>in_active := opid, in_recovery := False, in_health := ''unknown'', in_resources := None, in_epochs := None\<rparr>\<rparr>"

text \<open>\<open>None\<close> in the place of the operation: nothing was claimed.\<close>

definition claim_startup ::
  "'f env \<Rightarrow> ('x, 'f) stored_instance \<Rightarrow> 'x managed_state \<Rightarrow> 'f observation_report \<Rightarrow> string \<Rightarrow> ('x, 'f) tables
     \<Rightarrow> fault + operation option \<times> bool \<times> ('x, 'f) tables" where
  "claim_startup env prior state0 ob boot db =
     (if \<not> boot_id_ok boot \<or> \<not> startup_authorized prior boot \<or> vm_id state0 \<noteq> vm_id (sv_runtime prior)
      then Inl (Broken ''invalid startup resume authorization'')
      else let state = authorize_startup_state prior state0 in
      if \<not> startup_resume_ready (en_now env 0) state ob then Inl (Broken ''invalid startup resume evidence'')
      else let request = startup_request (vm_id state) boot; fp = StartupResume (vm_id state) boot in
      case replay ''system:startup'' request fp db of
        Some r \<Rightarrow> attempt r (\<lambda>op. Inr (Some op, False, db))
      | None \<Rightarrow>
          case load_instance (in_id (sv_public prior)) db of
            Inl (Problem st code m r) \<Rightarrow> if code = ''instance_not_found'' then Inr (None, False, db) else Inl (Problem st code m r)
          | Inl (Broken m) \<Rightarrow> Inl (Broken m)
          | Inr v \<Rightarrow>
              if vm_id (sv_runtime v) \<noteq> vm_id (sv_runtime prior) \<or> sv_runtime_revision v \<noteq> sv_runtime_revision prior
                 \<or> in_revision (sv_public v) \<noteq> in_revision (sv_public prior) \<or> \<not> startup_authorized v boot
                 \<or> sv_startup v \<noteq> sv_startup prior
              then Inr (None, False, db)
              else attempt (random_id env 0) (\<lambda>key.
                let op = (new_operation key request (in_id (sv_public v)) ''startup-resume'' ''system:startup''
                           (in_revision (sv_public v)) (en_now env 1))
                         \<lparr>op_message := (case vm_startup state of None \<Rightarrow> '''' | Some i \<Rightarrow>
                            if su_unclean i then ''Resuming the existing pier after host reboot; Vere replays persisted events as needed.'' else '''')\<rparr>
                in attempt (insert_operation op fp db) (\<lambda>db.
                   Inr (Some op, True, save_instance (claimed_instance (op_id op) state v) db))))"

end
