(* ===== verification/LedgerRoutines.thy ===== *)
theory LedgerRoutines
  imports LedgerFinish "HOL-Library.AList"
begin

text \<open>
  Scheduled maintenance over the store (\<open>internal/managed/routines.go\<close>): the stored policy, its edits,
  and the dispatch of a due slot, which is claimed or skipped with its reason, once.
\<close>

definition load_policy :: "string \<Rightarrow> ('x, 'f) tables \<Rightarrow> fault + stored_policy option" where
  "load_policy i db = (case map_of (tb_policies db) i of None \<Rightarrow> Inr None
     | Some p \<Rightarrow>
         if sr_instance p \<noteq> i \<or> \<not> valid_id (sr_id p) \<or> sr_revision p = 0 \<or> sr_instance_revision p = 0 \<or> sr_owner p = ''''
            \<or> is_zero (rp_updated (sr_policy p))
         then Inl (Broken ''invalid stored maintenance policy'')
         else case validate_routine (rp_config (sr_policy p)) of
           Inl e \<Rightarrow> Inl (Broken ''invalid stored maintenance policy'')
         | Inr c \<Rightarrow> Inr (Some (p\<lparr>sr_policy := (sr_policy p)\<lparr>rp_config := c\<rparr>\<rparr>)))"

text \<open>An insert that replaces the body on conflict.\<close>

definition save_policy :: "stored_policy \<Rightarrow> ('x, 'f) tables \<Rightarrow> ('x, 'f) tables" where
  "save_policy p db = db\<lparr>tb_policies := AList.update (sr_instance p) p (tb_policies db)\<rparr>"

definition policy_refused :: "routine_update \<Rightarrow> routine_config \<Rightarrow> ('x, 'f) stored_instance \<Rightarrow> fault option" where
  "policy_refused req c v = refuse [
     (in_revision (sv_public v) \<noteq> ru_instance req, conflict ''revision_conflict'' ''instance configuration changed''),
     (in_active (sv_public v) \<noteq> '''', conflict ''instance_busy'' ''cannot edit routine policy during active work''),
     (rc_enabled c \<and> (\<not> maintenance_qualified (sv_runtime v) \<or> in_recovery (sv_public v)
        \<or> uncertain_maintenance (sv_runtime v) \<or> uncertain_provisioning (sv_runtime v)),
      conflict ''invalid_state'' ''enable a routine only on an initialized instance without recovery requirements'')]"

text \<open>The policy before the edit; a new one has an identifier and revision 0. The second part counts the random reads.\<close>

definition previous_policy :: "'f env \<Rightarrow> string \<Rightarrow> stored_policy option \<Rightarrow> fault + stored_policy \<times> nat" where
  "previous_policy env i previous = (case previous of Some p \<Rightarrow> Inr (p, 0)
     | None \<Rightarrow> attempt (random_id env 0) (\<lambda>key. Inr (\<lparr>sr_id = key, sr_instance = i, sr_revision = 0, sr_instance_revision = 0,
         sr_owner = '''', sr_policy = \<lparr>rp_config = \<lparr>rc_enabled = False, rc_action = '''', rc_weekdays = [], rc_hour = 0, rc_minute = 0,
           rc_window = 0, rc_stop = False, rc_resume = False\<rparr>, rp_updated = zero_time, rp_last = None\<rparr>, sr_last_op = ''''\<rparr>, 1)))"

definition put_routine ::
  "'f env \<Rightarrow> string \<Rightarrow> string \<Rightarrow> routine_update \<Rightarrow> ('x, 'f) tables
     \<Rightarrow> fault + (stored_policy \<times> gotime option) \<times> ('x, 'f) tables" where
  "put_routine env actor i req db =
     guard (if ru_revision req \<ge> max_revision \<or> ru_instance req = 0 \<or> ru_instance req > max_revision
            then Some (bad ''require valid policy and instance revisions'') else None) (
     attempt (case validate_routine (ru_config req) of Inl e \<Rightarrow> Inl (bad (err_text e)) | Inr c \<Rightarrow> Inr c) (\<lambda>c.
     attempt (load_instance i db) (\<lambda>v.
     guard (policy_refused req c v) (
     attempt (load_policy i db) (\<lambda>previous.
     attempt (previous_policy env i previous) (\<lambda>(p0, n).
     guard (if sr_revision p0 \<noteq> ru_revision req
            then Some (conflict ''policy_revision_conflict'' ''routine policy changed; reload before editing'') else None) (
     let now = en_now env 0;
         p = p0\<lparr>sr_revision := sr_revision p0 + 1, sr_instance_revision := ru_instance req, sr_owner := actor,
                sr_policy := (sr_policy p0)\<lparr>rp_config := c, rp_updated := now\<rparr>\<rparr>
     in attempt (random_id env n) (\<lambda>key.
        let op = (new_operation key (''server-policy-'' @ key) i ''configure-routine'' actor (in_revision (sv_public v)) now)
                   \<lparr>op_status := ''succeeded'', op_finished := Some now\<rparr>
        in attempt (insert_operation op (RoutinePolicy (sr_id p)) (save_policy p db)) (\<lambda>db.
           Inr ((p, next_slot (sr_policy p) (en_now env 1)), db))))))))))"

text \<open>\<open>slot.Unix()\<close>: Go's zero time is 62135596800 seconds before the epoch.\<close>

definition unix_text :: "gotime \<Rightarrow> string" where
  "unix_text t = (let n = inst t div second - 62135596800 in if n < 0 then ''-'' @ dec (nat (- n)) else dec (nat n))"

definition slot_deadline :: "gotime \<Rightarrow> stored_policy \<Rightarrow> gotime" where
  "slot_deadline slot p = time_add slot (rc_window (rp_config (sr_policy p)) * (60 * second))"

text \<open>Why a due slot is skipped; empty when it is dispatched.\<close>

definition skip_reason ::
  "(string \<Rightarrow> bool) \<Rightarrow> gotime \<Rightarrow> gotime \<Rightarrow> stored_policy \<Rightarrow> ('x, 'f) stored_instance \<Rightarrow> string" where
  "skip_reason authorized now slot p v =
     (let s = sv_runtime v; i = sv_public v in
      if \<not> authorized (sr_owner p) then ''policy owner no longer has operator access''
      else if after now (slot_deadline slot p) then ''dispatch window was missed; no catch-up execution''
      else if in_revision i \<noteq> sr_instance_revision p then ''configuration changed; policy needs reapproval''
      else if in_active i \<noteq> '''' then ''instance is busy''
      else if \<not> maintenance_qualified s then ''instance maintenance profile is not qualified''
      else if in_recovery i \<or> uncertain_maintenance s \<or> uncertain_provisioning s then ''instance requires recovery review''
      else if (case in_observed_at i of None \<Rightarrow> True
               | Some t \<Rightarrow> time_sub now t > 30 * second \<or> after t (time_add now (5 * second))) then ''runtime observation is stale''
      else if in_observed i \<noteq> ''running'' \<and> in_observed i \<noteq> ''stopped'' then ''runtime state is not settled''
      else if in_observed i \<noteq> in_desired i then ''desired and observed runtime states differ''
      else if in_observed i = ''running'' \<and> (\<not> rc_stop (rp_config (sr_policy p)) \<or> in_applied i \<noteq> in_revision i)
      then ''running runtime lacks downtime consent or has configuration drift''
      else '''')"

definition slot_run :: "gotime \<Rightarrow> stored_policy \<Rightarrow> ('x, 'f) stored_instance \<Rightarrow> routine_run" where
  "slot_run slot p v = (let c = rp_config (sr_policy p) in \<lparr>rn_policy = sr_id p, rn_revision = sr_revision p, rn_slot = slot,
     rn_deadline = slot_deadline slot p, rn_action = rc_action c, rn_stop = rc_stop c, rn_resume = rc_resume c,
     rn_was_running = (in_observed (sv_public v) = ''running''), rn_stage = ''queued'', rn_started = None, rn_finished = None,
     rn_succeeded = False\<rparr>)"

definition slot_instance :: "string \<Rightarrow> gotime \<Rightarrow> stored_policy \<Rightarrow> ('x, 'f) stored_instance \<Rightarrow> ('x, 'f) stored_instance" where
  "slot_instance opid slot p v = (let r = slot_run slot p v in
     v\<lparr>sv_runtime := (sv_runtime v)\<lparr>vm_routine := Some r\<rparr>,
       sv_public := (sv_public v)\<lparr>in_active := opid, in_routine := Some r,
         in_desired := (if \<not> rn_was_running r \<or> \<not> rn_resume r then ''stopped'' else in_desired (sv_public v))\<rparr>\<rparr>)"

definition claim_routine ::
  "'f env \<Rightarrow> string \<Rightarrow> gotime \<Rightarrow> (string \<Rightarrow> bool) \<Rightarrow> ('x, 'f) tables \<Rightarrow> fault + operation option \<times> bool \<times> ('x, 'f) tables" where
  "claim_routine env i now authorized db =
     attempt (load_policy i db) (\<lambda>policy. case policy of None \<Rightarrow> Inr (None, False, db) | Some p \<Rightarrow>
     (case due (sr_policy p) now of (slot, is_due) \<Rightarrow>
      if \<not> is_due then Inr (None, False, db)
      else attempt (load_instance i db) (\<lambda>v.
        let reason = skip_reason authorized now slot p v
        in attempt (random_id env 0) (\<lambda>key.
          let op0 = new_operation key (''schedule-'' @ sr_id p @ ''-'' @ unix_text slot) i
                      (''routine-'' @ rc_action (rp_config (sr_policy p))) (sr_owner p) (in_revision (sv_public v)) now;
              op = (if reason = '''' then op0 else op0\<lparr>op_status := ''skipped'', op_message := reason, op_finished := Some now\<rparr>);
              db1 = (if reason = '''' then save_instance (slot_instance (op_id op) slot p v) db else db)
          in attempt (insert_operation op (RoutineSlot (sr_id p) slot) db1) (\<lambda>db.
             Inr (Some op, reason = '''',
               save_policy (p\<lparr>sr_policy := (sr_policy p)\<lparr>rp_last := Some slot\<rparr>, sr_last_op := op_id op\<rparr>) db))))))"

end
