(* ===== verification/LedgerIntake.thy ===== *)
theory LedgerIntake
  imports LedgerSound LedgerEnroll LedgerHandoff LedgerStartup LedgerRoutines
begin

text \<open>
  The commits of the other entry points are sound as well: startup candidates and claims, routine
  policies and slots, the registration of network identities, enrollment, and every phase of a move.
\<close>

section \<open>Arrival of an instance\<close>

lemma insert_instance_save:
  assumes "insert_instance i v db = Inr db1" "in_id (sv_public w) = i"
  shows "insert_instance i w db = Inr (save_instance w db1)"
proof -
  have d: "db1 = db\<lparr>tb_instances := tb_instances db @ [(i, v)]\<rparr>" "i \<notin> fst ` set (tb_instances db)"
    using assms(1) by (auto simp: insert_instance_def split: if_split_asm)
  have "map (\<lambda>(j, x). (j, if j = i then w else x)) (tb_instances db) = tb_instances db"
    using d(2) by (intro map_idI) (auto simp: image_iff)
  then show ?thesis using d by (simp add: insert_instance_def save_instance_def assms(2))
qed

text \<open>A new instance together with its operation, finished or still to be run.\<close>

lemma sound_arrival:
  assumes ok: "ledger_ok db" and ins: "insert_instance i w db = Inr db1" "insert_operation op fp db1 = Inr db'"
    and w: "in_id (sv_public w) = i" "valid_id i" "length (vm_id (sv_runtime w)) = 32"
    and n: "initial_revision env i db = Inr (in_revision (sv_public w))"
    and port: "\<And>j v. inst_of db j = Some v \<Longrightarrow> j \<noteq> i \<Longrightarrow> cf_http (in_config (sv_public v)) \<noteq> cf_http (in_config (sv_public w))"
    and op: "op_id op \<noteq> ''''"
    and active: "\<not> unfinished op \<and> in_active (sv_public w) = '''' \<or> unfinished op \<and> op_instance op = i
      \<and> op_revision op = in_revision (sv_public w) \<and> in_active (sv_public w) = op_id op"
  shows "sound_step db db'"
proof -
  let ?v = "w\<lparr>sv_public := (sv_public w)\<lparr>in_active := ''''\<rparr>\<rparr>"
  obtain db0 where v: "insert_instance i ?v db = Inr db0" using ins(1) by (auto simp: insert_instance_def split: if_split_asm)
  have db1: "db1 = save_instance w db0" using insert_instance_save [OF v, of w] ins(1) w(1) by simp
  have "sound_step db db0"
    by (rule sound_register [OF ok v]) (use initial_revision_bounds [OF n] w port in simp_all)
  then show ?thesis
  proof (rule sound_trans)
    assume ok0: "ledger_ok db0"
    have row: "inst_of db0 i = Some ?v" by (simp add: insert_instance_row(2) [OF v])
    from ins(2) obtain db2 where db2: "insert_operation op fp db0 = Inr db2" "db' = save_instance w db2"
      unfolding db1 using insert_save_commute by blast
    from active show "sound_step db0 db'"
    proof
      assume f: "\<not> unfinished op \<and> in_active (sv_public w) = ''''"
      have "?v = w" using f by (cases w; cases "sv_public w") simp
      then have "insert_instance i w db = Inr db0" using v by simp
      then have "insert_operation op fp db0 = Inr db'" using ins by simp
      then show ?thesis by (rule sound_insert [OF ok0]) (use op f in blast)+
    next
      assume u: "unfinished op \<and> op_instance op = i \<and> op_revision op = in_revision (sv_public w) \<and> in_active (sv_public w) = op_id op"
      then show ?thesis unfolding db2(2)
        by (intro sound_open [OF ok0 row _ db2(1)]) (use op in \<open>simp_all add: same_identity_def\<close>)
    qed
  qed
qed

section \<open>Startup\<close>

lemma startup_candidate_identity:
  "startup_candidate boot v = Some w \<Longrightarrow> same_identity v w \<and> in_active (sv_public w) = in_active (sv_public v)"
  by (auto simp: startup_candidate_def same_identity_def Let_def split: if_split_asm)

lemma instances_rows:
  assumes "ledger_ok db" "instances db = Inr all"
  shows "distinct (map (\<lambda>v. in_id (sv_public v)) all)" "\<And>v. v \<in> set all \<Longrightarrow> inst_of db (in_id (sv_public v)) = Some v"
proof -
  have ok: "rows_ok db" using assms(1) by (simp add: ledger_ok_def)
  have all: "all = map snd (sort_key fst (tb_instances db))" "\<forall>(i, v)\<in>set (tb_instances db). in_id (sv_public v) = i"
    using assms(2) by (auto simp: instances_def list_ex_iff Let_def split: if_split_asm)
  have e: "map (\<lambda>v. in_id (sv_public v)) all = map fst (sort_key fst (tb_instances db))" using all(2) by (auto simp: all(1))
  have "distinct (map fst (tb_instances db))" using ok by (simp add: rows_ok_def)
  then have "distinct (map fst (sort_key fst (tb_instances db)))"
    by (simp add: distinct_map inj_on_def)
  then show "distinct (map (\<lambda>v. in_id (sv_public v)) all)" by (simp only: e)
  show "inst_of db (in_id (sv_public v)) = Some v" if "v \<in> set all" for v
  proof -
    from that obtain i where "(i, v) \<in> set (tb_instances db)" by (auto simp: all(1))
    moreover have "in_id (sv_public v) = i" using all(2) calculation by auto
    ultimately show ?thesis using \<open>distinct (map fst (tb_instances db))\<close> by simp
  qed
qed

lemma save_all_sound:
  "ledger_ok db \<Longrightarrow> distinct (map (\<lambda>w. in_id (sv_public w)) ws)
    \<Longrightarrow> (\<And>w. w \<in> set ws \<Longrightarrow> \<exists>v. inst_of db (in_id (sv_public w)) = Some v \<and> same_identity v w
          \<and> in_active (sv_public w) = in_active (sv_public v))
    \<Longrightarrow> sound_step db (fold save_instance ws db)"
proof (induction ws arbitrary: db)
  case Nil
  then show ?case by (simp add: sound_refl)
next
  case (Cons w ws)
  obtain v where v: "inst_of db (in_id (sv_public w)) = Some v" "same_identity v w" "in_active (sv_public w) = in_active (sv_public v)"
    using Cons.prems(3) by auto
  have s: "sound_step db (save_instance w db)" by (rule sound_save [OF Cons.prems(1) v])
  then show ?case
  proof (rule sound_trans)
    assume ok: "ledger_ok (save_instance w db)"
    show "sound_step (save_instance w db) (fold save_instance (w # ws) db)"
      unfolding fold_simps comp_apply
    proof (rule Cons.IH [OF ok])
      show "distinct (map (\<lambda>w. in_id (sv_public w)) ws)" using Cons.prems(2) by simp
      fix u assume u: "u \<in> set ws"
      then have "in_id (sv_public u) \<noteq> in_id (sv_public w)" using Cons.prems(2) by (auto simp: image_iff)
      then show "\<exists>v. inst_of (save_instance w db) (in_id (sv_public u)) = Some v \<and> same_identity v u
          \<and> in_active (sv_public u) = in_active (sv_public v)"
        using Cons.prems(3) [of u] u by simp
    qed
  qed
qed

lemma startup_candidates_sound:
  assumes "ledger_ok db" "startup_candidates env db = Inr (found, db')"
  shows "sound_step db db'"
proof (cases "boot_id_ok (en_boot env)")
  case False
  then show ?thesis using assms by (simp add: startup_candidates_def sound_refl)
next
  case True
  let ?f = "startup_candidate (en_boot env)"
  obtain all where all: "instances db = Inr all" "found = List.map_filter ?f all" "db' = fold save_instance found db"
    using assms(2) True by (auto simp: startup_candidates_def Let_def)
  note rows = instances_rows [OF assms(1) all(1)]
  have ids: "map (\<lambda>w. in_id (sv_public w)) (List.map_filter ?f vs) = map (\<lambda>v. in_id (sv_public v)) (filter (\<lambda>v. ?f v \<noteq> None) vs)"
    for vs :: "('a, 'b) stored_instance list"
    using startup_candidate_identity by (induction vs) (auto simp: map_filter_simps same_identity_def split: option.split)
  show ?thesis unfolding all(3)
  proof (rule save_all_sound [OF assms(1)])
    show "distinct (map (\<lambda>w. in_id (sv_public w)) found)" unfolding all(2) ids using rows(1) by (rule distinct_map_filter)
    fix w assume "w \<in> set found"
    then obtain v where "v \<in> set all" "?f v = Some w" by (auto simp: all(2) map_filter_def)
    then show "\<exists>v. inst_of db (in_id (sv_public w)) = Some v \<and> same_identity v w \<and> in_active (sv_public w) = in_active (sv_public v)"
      using rows(2) startup_candidate_identity by (metis same_identity_def)
  qed
qed

lemma dismiss_startup_sound:
  assumes "ledger_ok db" "dismiss_startup env prior db = Inr db'"
  shows "sound_step db db'"
proof (cases "db' = db")
  case True
  then show ?thesis using assms(1) by (simp add: sound_refl)
next
  case False
  then obtain v where "load_instance (in_id (sv_public prior)) db = Inr v"
    "db' = save_instance (v\<lparr>sv_startup := None, sv_runtime_revision := sv_runtime_revision v + 1\<rparr>) db"
    using assms(2) by (auto simp: dismiss_startup_def split: sum.splits fault.splits if_split_asm)
  then show ?thesis using sound_save [OF assms(1)] by (auto dest!: load_instance_Inr simp: same_identity_def)
qed

lemma claim_startup_sound:
  assumes "ledger_ok db" "claim_startup env prior state0 ob boot db = Inr (result, claimed, db')"
  shows "sound_step db db'"
proof (cases "db' = db")
  case True
  then show ?thesis using assms(1) by (simp add: sound_refl)
next
  case False
  let ?s = "authorize_startup_state prior state0"
  let ?request = "startup_request (vm_id ?s) boot" and ?fp = "StartupResume (vm_id ?s) boot"
  have a: "vm_id state0 = vm_id (sv_runtime prior)" and r: "replay ''system:startup'' ?request ?fp db = None"
    using assms(2) False by (auto simp: claim_startup_def Let_def split: if_split_asm option.splits)
  have sid: "vm_id ?s = vm_id state0" by (simp add: authorize_startup_state_def)
  obtain v key db1 m where v: "load_instance (in_id (sv_public prior)) db = Inr v"
    and same: "vm_id (sv_runtime v) = vm_id (sv_runtime prior)" "startup_authorized v boot"
    and d: "insert_operation ((new_operation key ?request (in_id (sv_public v)) ''startup-resume'' ''system:startup''
          (in_revision (sv_public v)) (en_now env 1))\<lparr>op_message := m\<rparr>) ?fp db = Inr db1"
      "db' = save_instance (claimed_instance (''op-'' @ key) ?s v) db1"
    using assms(2) False unfolding claim_startup_def Let_def r
    by (auto split: if_split_asm sum.splits fault.splits)
  let ?op = "(new_operation key ?request (in_id (sv_public v)) ''startup-resume'' ''system:startup''
          (in_revision (sv_public v)) (en_now env 1))\<lparr>op_message := m\<rparr>"
  have i: "vm_id (sv_runtime v) = vm_id ?s" "in_active (sv_public v) = ''''"
    using same a sid by (simp_all add: startup_authorized_def startup_eligible_def)
  have op: "op_id ?op \<noteq> ''''" "unfinished ?op" "op_instance ?op = in_id (sv_public v)" "op_revision ?op = in_revision (sv_public v)"
    by (simp_all add: unfinished_def)
  note row = load_instance_Inr [OF v]
  show ?thesis unfolding d(2)
    by (rule sound_open [OF assms(1) _ i(2) d(1) op]) (use row i in \<open>simp_all add: claimed_instance_def same_identity_def\<close>)
qed

section \<open>Routines\<close>

lemma sound_policies:
  assumes "sound_step db db'" "tb_instances db'' = tb_instances db'" "tb_operations db'' = tb_operations db'" "tb_deleted db'' = tb_deleted db'"
  shows "sound_step db db''"
  using assms by (simp add: sound_step_def ledger_ok_def rows_ok_def ports_ok_def revisions_ok_def open_ops_def claims_def
      forward_def reached_def cong: option.case_cong)

lemma put_routine_sound:
  assumes "ledger_ok db" "put_routine env actor i req db = Inr (p, db')"
  shows "sound_step db db'"
proof -
  obtain q op fp where ins: "insert_operation op fp (save_policy q db) = Inr db'" and op: "op_id op \<noteq> ''''" "\<not> unfinished op"
    using assms(2) unfolding put_routine_def Let_def guard_Inr attempt_Inr
    by (fastforce simp: unfinished_def)
  have "sound_step db (save_policy q db)"
    by (rule sound_policies [OF sound_refl [OF assms(1)]]) (simp_all add: save_policy_def)
  then show ?thesis by (rule sound_trans) (rule sound_insert [OF _ ins op])
qed

lemma claim_routine_parts:
  assumes "claim_routine env i now authorized db = Inr (result, claimed, db')" "db' \<noteq> db"
  obtains slot p v key op fp db2 q where "load_instance i db = Inr v" "op_id op = ''op-'' @ key" "op_instance op = i"
    "op_revision op = in_revision (sv_public v)" "op_kind op = ''routine-'' @ rc_action (rp_config (sr_policy p))"
    "unfinished op \<and> in_active (sv_public v) = '''' \<and> insert_operation op fp (save_instance (slot_instance (op_id op) slot p v) db) = Inr db2
      \<or> \<not> unfinished op \<and> insert_operation op fp db = Inr db2" "db' = save_policy q db2"
proof -
  from assms obtain p where p: "load_policy i db = Inr (Some p)"
    by (auto simp: claim_routine_def split: option.splits)
  obtain slot is_due where due: "due (sr_policy p) now = (slot, is_due)" by (cases "due (sr_policy p) now")
  have "is_due" using assms by (auto simp: claim_routine_def p due split: if_split_asm)
  then obtain v key where v: "load_instance i db = Inr v" and rest:
    "let reason = skip_reason authorized now slot p v;
         op0 = new_operation key (''schedule-'' @ sr_id p @ ''-'' @ unix_text slot) i
                      (''routine-'' @ rc_action (rp_config (sr_policy p))) (sr_owner p) (in_revision (sv_public v)) now;
         op = (if reason = '''' then op0 else op0\<lparr>op_status := ''skipped'', op_message := reason, op_finished := Some now\<rparr>);
         db1 = (if reason = '''' then save_instance (slot_instance (op_id op) slot p v) db else db)
     in \<exists>db2. insert_operation op (RoutineSlot (sr_id p) slot) db1 = Inr db2
         \<and> db' = save_policy (p\<lparr>sr_policy := (sr_policy p)\<lparr>rp_last := Some slot\<rparr>, sr_last_op := op_id op\<rparr>) db2"
    using assms unfolding claim_routine_def Let_def attempt_Inr p
    by (auto simp: due)
  have idle: "skip_reason authorized now slot p v = '''' \<Longrightarrow> in_active (sv_public v) = ''''"
    by (auto simp: skip_reason_def Let_def split: if_split_asm)
  let ?op0 = "new_operation key (''schedule-'' @ sr_id p @ ''-'' @ unix_text slot) i
                      (''routine-'' @ rc_action (rp_config (sr_policy p))) (sr_owner p) (in_revision (sv_public v)) now"
  let ?op = "if skip_reason authorized now slot p v = '''' then ?op0
    else ?op0\<lparr>op_status := ''skipped'', op_message := skip_reason authorized now slot p v, op_finished := Some now\<rparr>"
  let ?q = "p\<lparr>sr_policy := (sr_policy p)\<lparr>rp_last := Some slot\<rparr>, sr_last_op := op_id ?op\<rparr>"
  obtain db2 where r: "insert_operation ?op (RoutineSlot (sr_id p) slot) (if skip_reason authorized now slot p v = ''''
      then save_instance (slot_instance (op_id ?op) slot p v) db else db) = Inr db2" "db' = save_policy ?q db2"
    using rest unfolding Let_def by blast
  show ?thesis
    by (rule that [OF v, where op = ?op and key = key and p = p and q = ?q and fp = "RoutineSlot (sr_id p) slot" and slot = slot and ?db2.0 = db2])
      (use r idle in \<open>auto simp: unfinished_def split: if_split_asm\<close>)
qed

lemma claim_routine_sound:
  assumes "ledger_ok db" "claim_routine env i now authorized db = Inr (result, claimed, db')"
  shows "sound_step db db'"
proof (cases "db' = db")
  case True
  then show ?thesis using assms(1) by (simp add: sound_refl)
next
  case False
  from claim_routine_parts [OF assms(2) this] obtain slot p v key op fp db2 q where c: "load_instance i db = Inr v"
    "op_id op = ''op-'' @ key" "op_instance op = i" "op_revision op = in_revision (sv_public v)"
    "op_kind op = ''routine-'' @ rc_action (rp_config (sr_policy p))"
    "unfinished op \<and> in_active (sv_public v) = '''' \<and> insert_operation op fp (save_instance (slot_instance (op_id op) slot p v) db) = Inr db2
      \<or> \<not> unfinished op \<and> insert_operation op fp db = Inr db2" "db' = save_policy q db2" .
  note row = load_instance_Inr [OF c(1)]
  from c(6) have "sound_step db db2"
  proof (elim disjE conjE)
    assume u: "unfinished op" and idle: "in_active (sv_public v) = ''''"
      and "insert_operation op fp (save_instance (slot_instance (op_id op) slot p v) db) = Inr db2"
    then obtain db1 where i: "insert_operation op fp db = Inr db1" "db2 = save_instance (slot_instance (op_id op) slot p v) db1"
      using insert_save_commute by blast
    show ?thesis unfolding i(2)
      by (rule sound_open [OF assms(1) _ idle i(1)]) (use u c row in \<open>simp_all add: slot_instance_def same_identity_def Let_def\<close>)
  next
    assume "\<not> unfinished op" and i: "insert_operation op fp db = Inr db2"
    then show ?thesis by (intro sound_insert [OF assms(1) i]) (simp_all add: c(2))
  qed
  then show ?thesis unfolding c(7) by (rule sound_policies) (simp_all add: save_policy_def)
qed

section \<open>Network identities\<close>

lemma registration_valid_id: "registration_fingerprint req source = Inr (r, fp) \<Longrightarrow> valid_id (cq_id req)"
  by (auto simp: registration_fingerprint_def Let_def split: if_split_asm option.splits)

lemma prepared_ship_id: "prepared_ship printable req0 = Inr (req, key) \<Longrightarrow> valid_id (sq_id req)"
  by (auto simp: prepared_ship_def Let_def base_request_def dest!: registration_valid_id)

lemma register_ship_sound:
  assumes "ledger_ok db" "register_ship env printable stage actor req0 replay_only db = Inr (op, dup, db', staged)"
  shows "sound_step db db'"
proof (cases "db' = db")
  case True
  then show ?thesis using assms(1) by (simp add: sound_refl)
next
  case False
  let ?op = "\<lambda>key req n. (new_operation key (sq_request req) (sq_id req) ''register-ship'' actor n (en_now env 0))
                    \<lparr>op_status := ''succeeded'', op_finished := Some (en_now env 0)\<rparr>"
  obtain req1 key where p: "prepared_ship printable req0 = Inr (req1, key)" using assms(2) by (auto simp: register_ship_def)
  have r: "replay actor (sq_request req1) (RegisterShip req1 (sha256_hex key)) db = None"
    using assms(2) False p by (auto simp: register_ship_def Let_def split: option.splits)
  obtain req n uuid db1 opkey where
    adm: "ship_admitted env req1 db = Inr (req, n)" and u: "random_id env 0 = Inr uuid"
    and ins: "insert_instance (sq_id req) (ship_instance req (sha256_hex key) uuid n) db = Inr db1"
      "insert_operation (?op opkey req n) (RegisterShip req1 (sha256_hex key)) db1 = Inr db'"
    using assms(2) unfolding register_ship_def p Let_def attempt_Inr guard_Inr
    by (auto simp: r)
  have adm': "sq_id req = sq_id req1" "initial_revision env (sq_id req) db = Inr n"
    "reserve_port env (sq_id req) (cf_http (sq_config req)) db = None"
    using adm by (auto simp: ship_admitted_def)
  show ?thesis
  proof (rule sound_arrival [OF assms(1) ins])
    show "valid_id (sq_id req)" using prepared_ship_id [OF p] adm' by simp
    show "length (vm_id (sv_runtime (ship_instance req (sha256_hex key) uuid n))) = 32"
      using random_id_length [OF u] by (simp add: ship_instance_def new_managed_def Let_def)
  qed (use adm' reserve_port_free [OF _ adm'(3)] assms(1) in
      \<open>auto simp: ship_instance_def zero_public_def Let_def unfinished_def ledger_ok_def\<close>)
qed

section \<open>Enrollment\<close>

lemma enrolled_identity:
  "same_identity v (enrolled_instance env req source external identify opid now v)"
  "in_active (sv_public (enrolled_instance env req source external identify opid now v)) = (if eq_relink req then '''' else opid)"
  "in_id (sv_public (enrolled_instance env req source external identify opid now v)) = in_id (sv_public v)"
  "in_config (sv_public (enrolled_instance env req source external identify opid now v)) = in_config (sv_public v)"
  "in_revision (sv_public (enrolled_instance env req source external identify opid now v)) = in_revision (sv_public v)"
  "vm_id (sv_runtime (enrolled_instance env req source external identify opid now v)) = vm_id (sv_runtime v)"
  by (auto simp: enrolled_instance_def same_identity_def Let_def located_def reviewed_import_def apply_observation_def
      split: option.split)

lemma new_enrollment_row:
  assumes "new_enrollment env req source db = Inr v"
  shows "in_id (sv_public v) = eq_id req" "valid_id (eq_id req)" "initial_revision env (eq_id req) db = Inr (in_revision (sv_public v))"
    "reserve_port env (eq_id req) (cf_http (in_config (sv_public v))) db = None" "length (vm_id (sv_runtime v)) = 32"
proof -
  obtain n base fp uuid ames where o: "initial_revision env (eq_id req) db = Inr n" "reserve_port env (eq_id req) (eq_http req) db = None"
    and f: "registration_fingerprint (base_request (eq_id req) (eq_label req) (eq_http req) 31 (eq_request req)) None = Inr (base, fp)"
    and u: "random_id env 0 = Inr uuid"
    and v: "v = \<lparr>sv_public = enrolled_public req (ca_kind source) (cq_label base)
             (if ca_kind source \<noteq> ''fake'' then (cq_config base)\<lparr>cf_ames := ames\<rparr> else cq_config base) n,
             sv_runtime = enrolled_runtime req (ca_kind source) uuid ames,
             sv_runtime_revision = 0, sv_runtime_config = 0, sv_cpu = None, sv_startup = None\<rparr>"
    using assms unfolding new_enrollment_def attempt_Inr guard_Inr Let_def by (auto split: prod.splits)
  have h: "cf_http (cq_config base) = eq_http req"
    using f by (auto simp: registration_fingerprint_def base_request_def Let_def split: if_split_asm option.splits)
  show "valid_id (eq_id req)" using registration_valid_id [OF f] by (simp add: base_request_def)
  show "length (vm_id (sv_runtime v)) = 32"
    using random_id_length [OF u] by (simp add: v enrolled_runtime_def new_managed_def Let_def)
  show "in_id (sv_public v) = eq_id req" "initial_revision env (eq_id req) db = Inr (in_revision (sv_public v))"
    "reserve_port env (eq_id req) (cf_http (in_config (sv_public v))) db = None"
    using o h by (simp_all add: v enrolled_public_def zero_public_def)
qed

lemma enroll_parts:
  assumes "enroll_pier env actor req source fp external identify db = Inr (op, db')"
  obtains v key op1 w db1 where "(if eq_relink req
              then attempt (load_instance (eq_id req) db) (\<lambda>v. guard (relink_refused req source v) (Inr v))
              else new_enrollment env req source db) = Inr v"
    "op1 = (let o' = new_operation key (eq_request req) (eq_id req) (enrollment_kind req external) actor (in_revision (sv_public v)) (en_now env 0)
       in if eq_relink req then o'\<lparr>op_status := ''succeeded'', op_finished := Some (en_now env 0)\<rparr> else o')"
    "w = enrolled_instance env req source external identify (op_id op1) (en_now env 0) v"
    "(if eq_relink req then Inr (save_instance w db) else insert_instance (eq_id req) w db) = Inr db1"
    "insert_operation op1 fp db1 = Inr db'"
proof -
  from assms show ?thesis unfolding enroll_pier_def attempt_Inr guard_Inr Let_def
    by (elim exE conjE, intro that) (auto simp: Let_def)
qed

lemma enroll_sound:
  assumes "ledger_ok db" "enroll_pier env actor req source fp external identify db = Inr (op, db')"
  shows "sound_step db db'"
proof -
  from enroll_parts [OF assms(2)] obtain v key op1 w db1 where v: "(if eq_relink req
              then attempt (load_instance (eq_id req) db) (\<lambda>v. guard (relink_refused req source v) (Inr v))
              else new_enrollment env req source db) = Inr v"
    and op1: "op1 = (let o' = new_operation key (eq_request req) (eq_id req) (enrollment_kind req external) actor (in_revision (sv_public v)) (en_now env 0)
       in if eq_relink req then o'\<lparr>op_status := ''succeeded'', op_finished := Some (en_now env 0)\<rparr> else o')"
    and w: "w = enrolled_instance env req source external identify (op_id op1) (en_now env 0) v"
      "(if eq_relink req then Inr (save_instance w db) else insert_instance (eq_id req) w db) = Inr db1"
    and o: "insert_operation op1 fp db1 = Inr db'" .
  have oid: "op_id op1 \<noteq> ''''" "op_instance op1 = eq_id req" "op_revision op1 = in_revision (sv_public v)"
    "unfinished op1 \<longleftrightarrow> \<not> eq_relink req" by (simp_all add: op1 Let_def unfinished_def)
  show ?thesis
  proof (cases "eq_relink req")
    case True
    with v have l: "load_instance (eq_id req) db = Inr v" "relink_refused req source v = None" by auto
    from l(2) have idle: "in_active (sv_public v) = ''''" by (simp add: relink_refused_def del: refuse.simps)
    have s: "sound_step db (save_instance w db)"
      by (rule sound_save [OF assms(1), of "eq_id req" v])
        (use load_instance_Inr [OF l(1)] idle True in \<open>simp_all add: enrolled_identity w(1)\<close>)
    have i: "insert_operation op1 fp (save_instance w db) = Inr db'" using True w(2) o by simp
    show ?thesis by (rule sound_trans [OF s]) (rule sound_insert [OF _ i], use oid True in simp_all)
  next
    case False
    with v have n: "new_enrollment env req source db = Inr v" by simp
    note row = new_enrollment_row [OF n]
    show ?thesis
    proof (rule sound_arrival [OF assms(1) _ o])
      show "insert_instance (eq_id req) w db = Inr db1" using w False by simp
      show "initial_revision env (eq_id req) db = Inr (in_revision (sv_public w))"
        using row(3) by (simp add: enrolled_identity w(1))
    qed (use row reserve_port_free [OF _ row(4)] assms(1) False oid in \<open>auto simp: enrolled_identity w(1) ledger_ok_def\<close>)
  qed
qed

lemma serve_piers_sound:
  assumes "ledger_ok db" "serve_piers env actor req sources db = Inr (op, dup, db')"
  shows "sound_step db db'"
proof (cases "db' = db")
  case True
  then show ?thesis using assms(1) by (simp add: sound_refl)
next
  case False
  then obtain source op' where "enroll_pier env actor req source (EnrollPier req) None False db = Inr (op', db')"
    using assms(2) unfolding serve_piers_def by (auto split: option.splits sum.splits)
  then show ?thesis by (rule enroll_sound [OF assms(1)])
qed

section \<open>Moves\<close>

lemma save_receipt_sound: "ledger_ok db \<Longrightarrow> sound_step db (save_receipt opid receipt db)"
  unfolding save_receipt_def sound_step_def by (intro conjI forward_annotate iffD2 [OF ok_annotate]) simp_all

lemma record_receipt_sound:
  assumes "ledger_ok db" "record_receipt env n v h actor kind request fp status db = Inr db'"
  shows "sound_step db db'"
proof -
  obtain op db1 where i: "insert_operation op fp db = Inr db1" "op_id op \<noteq> ''''" "\<not> unfinished op" and d: "db' = save_receipt (op_id op) (status, h) db1"
    using assms(2) unfolding record_receipt_def attempt_Inr Let_def by (auto simp: unfinished_def)
  show ?thesis unfolding d by (rule sound_trans [OF sound_insert [OF assms(1) i] save_receipt_sound])
qed

lemma handoff_operation_sound:
  assumes "ledger_ok db" "inst_of db i = Some u" "in_active (sv_public u) = ''''" "same_identity u v" "in_id (sv_public v) = i"
    and "handoff_operation env n actor kind request h v db = Inr (op, g, db')"
  shows "sound_step db db'"
proof -
  obtain key where op: "op = new_operation key request i kind actor (in_revision (sv_public v)) (en_now env 0)"
    and ins: "insert_operation op (HandoffWork (hf_id h) kind) (save_instance (moving_instance (op_id op) h v) db) = Inr db'"
    using assms(6) unfolding handoff_operation_def Let_def assms(5) by (auto split: option.splits)
  then obtain db1 where i: "insert_operation op (HandoffWork (hf_id h) kind) db = Inr db1" "db' = save_instance (moving_instance (op_id op) h v) db1"
    using insert_save_commute by blast
  show ?thesis unfolding i(2)
    by (rule sound_open [OF assms(1-3) i(1)])
      (use assms(4,5) in \<open>simp_all add: op unfinished_def moving_instance_def set_handoff_def same_identity_def Let_def\<close>)
qed

lemma load_handoff_row:
  assumes "ledger_ok db" "load_handoff k db = Inr (v, h)"
  shows "inst_of db (in_id (sv_public v)) = Some v" "vm_handoff (sv_runtime v) = Some h" "hf_id h = k"
proof -
  obtain all where all: "instances db = Inr all" "find (\<lambda>v. case vm_handoff (sv_runtime v) of None \<Rightarrow> False | Some h \<Rightarrow> hf_id h = k) all = Some v"
    "vm_handoff (sv_runtime v) = Some h"
    using assms(2) by (auto simp: load_handoff_def split: option.splits)
  then have "v \<in> set all" "hf_id h = k" by (auto simp: find_Some_iff)
  then show "inst_of db (in_id (sv_public v)) = Some v" "vm_handoff (sv_runtime v) = Some h" "hf_id h = k"
    using instances_rows(2) [OF assms(1) all(1)] all(3) by auto
qed

lemma prepare_sound:
  assumes "ledger_ok db" "prepare_handoff env runner keys actor role i req db = Inr (status, h, op, db')"
  shows "sound_step db db'"
proof (cases "db' = db")
  case True
  then show ?thesis using assms(1) by (simp add: sound_refl)
next
  case False
  obtain v where v: "load_instance i db = Inr v" using assms(2) by (auto simp: prepare_handoff_def)
  note row = load_instance_Inr [OF v]
  let ?old = "case vm_handoff (sv_runtime v) of None \<Rightarrow> None | Some h \<Rightarrow> if hf_direction h = ''out'' then Some h else None"
  show ?thesis
  proof (cases ?old)
    case (Some g)
    then have "prepare_again env actor req v g db = Inr (status, h, op, db')"
      using assms(2) v by (simp add: prepare_handoff_def)
    then obtain o' h' where "in_active (sv_public v) = ''''"
      "handoff_operation env 0 actor ''prepare-handoff'' (pq_request req) g v db = Inr (o', h', db')"
      using False by (auto simp: prepare_again_def split: if_split_asm)
    then show ?thesis using row by (intro handoff_operation_sound [OF assms(1)]) (auto simp: same_identity_def)
  next
    case None
    then obtain key pub priv o' h' where ref: "prepare_refused v = None" and
      "handoff_operation env 1 actor ''prepare-handoff'' (pq_request req) (outgoing runner i key pub req (en_now env 0) v)
         (set_handoff (outgoing runner i key pub req (en_now env 0) v)
            (v\<lparr>sv_runtime := (sv_runtime v)\<lparr>vm_signing := Slice priv\<rparr>\<rparr>)) db = Inr (o', h', db')"
      using assms(2) v by (auto simp: prepare_handoff_def Let_def)
    then show ?thesis using row
      by (intro handoff_operation_sound [OF assms(1)])
        (auto simp: same_identity_def set_handoff_def prepare_refused_def simp del: refuse.simps)
  qed
qed

lemma find_transfer_row:
  "find_transfer req vs = Inr (Some (v, h)) \<Longrightarrow> v \<in> set vs \<and> vm_handoff (sv_runtime v) = Some h"
  by (induction vs) (auto simp: Let_def split: option.splits if_split_asm)

lemma choose_port_free:
  assumes "choose_port env i ''tcp'' wanted db = Inr p"
  shows "port_taken env i ''tcp'' db p = None"
proof -
  have scan: "scan_ports taken free ps = Inr p \<Longrightarrow> taken p = None" for taken free ps
    by (induction ps) (auto split: option.splits fault.splits if_split_asm)
  show ?thesis using assms scan by (auto simp: choose_port_def split: if_split_asm)
qed

lemma port_taken_free:
  assumes "rows_ok db" "port_taken env i ''tcp'' db p = None" "inst_of db j = Some v" "j \<noteq> i"
  shows "cf_http (in_config (sv_public v)) \<noteq> p"
proof -
  have "other_instances i (\<lambda>v. if http_reserved p v
      then Some (conflict ''port_conflict'' ''HTTP port is reserved by another ship'') else None) db = None"
    using assms(2) by (simp add: port_taken_def split: option.splits)
  from other_instances_None [OF assms(1) this assms(3,4)] show ?thesis by (auto simp: http_reserved_def split: if_split_asm)
qed

lemma arriving_row [simp]:
  "in_id (sv_public (arriving_instance h uuid http ames n)) = hf_destination_instance h"
  "in_active (sv_public (arriving_instance h uuid http ames n)) = ''''"
  "in_revision (sv_public (arriving_instance h uuid http ames n)) = n"
  "cf_http (in_config (sv_public (arriving_instance h uuid http ames n))) = http"
  "vm_id (sv_runtime (arriving_instance h uuid http ames n)) = uuid"
  "vm_handoff (sv_runtime (arriving_instance h uuid http ames n)) = Some h"
  by (simp_all add: arriving_instance_def zero_public_def new_managed_def Let_def)

lemma receive_sound:
  assumes "ledger_ok db" "receive_handoff env runner actor role req db = Inr (status, h, op, db')"
  shows "sound_step db db'"
proof (cases "db' = db")
  case True
  then show ?thesis using assms(1) by (simp add: sound_refl)
next
  case False
  let ?i = "hf_destination_instance (vq_offer req)" and ?fp = "ReserveHandoff req"
  obtain receipt where r: "replay_handoff actor (vq_request req) ?fp db = Inr receipt" using assms(2) by (auto simp: receive_handoff_def)
  have "receipt = None" using assms(2) False by (cases receipt) (auto simp: receive_handoff_def r split: if_split_asm)
  then obtain all n found where ref: "offer_refused runner (en_mode env) (vq_request req) (vq_offer req) = None"
    and all: "instances db = Inr all" and n: "initial_revision env ?i db = Inr n" and f: "find_transfer req all = Inr found"
    and rest: "(case found of Some (v, old) \<Rightarrow>
             attempt (record_receipt env 0 v old actor ''reserve-handoff'' (vq_request req) ?fp 200 db) (\<lambda>db.
             Inr (200, old, None, db))
         | None \<Rightarrow> reserve_arrival env actor req n ?fp db) = Inr (status, h, op, db')"
    using assms(2) unfolding receive_handoff_def attempt_Inr guard_Inr r by auto
  show ?thesis
  proof (cases found)
    case (Some x)
    with rest show ?thesis by (cases x) (auto intro: record_receipt_sound [OF assms(1)])
  next
    case None
    let ?v = "\<lambda>uuid http ames. arriving_instance (reserved_offer (vq_offer req)) uuid http ames n"
    obtain http ames uuid db1 where p: "choose_port env ?i ''tcp'' (vq_http req) db = Inr http" and u: "random_id env 0 = Inr uuid"
      and ins: "insert_instance ?i (?v uuid http ames) db = Inr db1"
      and r: "record_receipt env 1 (?v uuid http ames) (reserved_offer (vq_offer req)) actor ''reserve-handoff'' (vq_request req) ?fp 201 db1 = Inr db'"
      using rest None unfolding reserve_arrival_def Let_def by auto
    have row: "in_id (sv_public (?v uuid http ames)) = ?i" by (simp add: arriving_row reserved_offer_def)
    have "valid_id ?i" using ref by (simp add: offer_refused_def valid_pier_name_def del: refuse.simps)
    then have "sound_step db db1"
      by (intro sound_register [OF assms(1) ins row(1)])
        (use arriving_row initial_revision_bounds [OF n] random_id_length [OF u] port_taken_free [OF _ choose_port_free [OF p]] assms(1) in
          \<open>auto simp: ledger_ok_def\<close>)
    then show ?thesis by (rule sound_trans) (rule record_receipt_sound [OF _ r])
  qed
qed

lemma control_sound:
  assumes "ledger_ok db" "control_handoff env actor role i verb req db = Inr (status, h, op, db')"
  shows "sound_step db db'"
proof (cases "db' = db")
  case True
  then show ?thesis using assms(1) by (simp add: sound_refl)
next
  case False
  then obtain v g kind o' h' where l: "load_handoff i db = Inr (v, g)" and idle: "in_active (sv_public v) = ''''"
    and o: "handoff_operation env 0 actor kind (fq_request req) g v db = Inr (o', h', db')"
    using assms(2) unfolding control_handoff_def by (auto split: if_split_asm)
  from load_handoff_row [OF assms(1) l] idle show ?thesis
    by (intro handoff_operation_sound [OF assms(1) _ _ _ _ o]) (auto simp: same_identity_def)
qed

lemma activate_sound:
  assumes "ledger_ok db" "activate_handoff verify env actor role i req db = Inr (status, h, op, db')"
  shows "sound_step db db'"
proof (cases "db' = db")
  case True
  then show ?thesis using assms(1) by (simp add: sound_refl)
next
  case False
  then obtain v g where l: "load_handoff i db = Inr (v, g)"
    and ref: "hf_state g \<noteq> ''complete'' \<longrightarrow> in_active (sv_public v) = ''''"
    and rest: "let g' = (if hf_state g \<noteq> ''complete'' then completed_handoff (fq_commitment req) g else g);
             w = (if hf_state g \<noteq> ''complete'' then activated_instance g' v else v);
             db1 = (if hf_state g \<noteq> ''complete'' then save_instance w db else db)
         in record_receipt env 0 w g' actor ''activate-handoff'' (fq_request req) (ActivateHandoff i req) 200 db1 = Inr db'"
    using assms(2) unfolding activate_handoff_def Let_def
    by (auto simp del: refuse.simps split: option.splits if_split_asm)
  note row = load_handoff_row [OF assms(1) l]
  have s: "sound_step db (save_instance (activated_instance g' v) db)" for g'
    by (rule sound_save [OF assms(1) row(1)]) (simp_all add: activated_instance_def set_handoff_def same_identity_def Let_def)
  show ?thesis
  proof (cases "hf_state g = ''complete''")
    case True
    then show ?thesis using rest by (auto simp: Let_def intro: record_receipt_sound [OF assms(1)])
  next
    case False
    then show ?thesis using rest by (auto simp: Let_def intro: sound_trans [OF s record_receipt_sound])
  qed
qed

lemma upload_sound:
  assumes "ledger_ok db" "upload_handoff env actor role i req host db0 db = Inr (status, h, op, db')"
  shows "sound_step db db'"
proof -
  obtain v g g' o' h' where l: "load_handoff i db = Inr (v, g)" and idle: "in_active (sv_public v) = ''''"
    and o: "handoff_operation env 0 actor ''receive-handoff'' (''receive-'' @ i) g' v db = Inr (o', h', db')"
    using assms(2) unfolding upload_handoff_def by (auto split: if_split_asm)
  from load_handoff_row [OF assms(1) l] idle show ?thesis
    by (intro handoff_operation_sound [OF assms(1) _ _ _ _ o]) (auto simp: same_identity_def)
qed

end
