(* ===== verification/MoveWorker.thy ===== *)
theory MoveWorker
  imports ManagedState
begin

text \<open>
  The worker of a move (\<open>applyHandoff\<close> in \<open>internal/runtimequalify/handoff_linux.go\<close>) and the dispatch
  that keeps every other action away from a fenced ship (\<open>applyManagedAction\<close> in \<open>managed_linux.go\<close>).

  What the host answers is a record with one field per call, in the order of the calls; \<open>None\<close> is
  success. The worker returns the state as it stands when it ends, with or without an error: the state is
  journaled either way. The extraction into the destination (\<open>receiveHandoffPier\<close>) is one field.
\<close>

record summary =
  ps_digest :: string
  ps_files :: int
  ps_bytes :: int

type_synonym failure = "string option"

text \<open>The first failure of a straight line of calls.\<close>

fun first_failure :: "failure list \<Rightarrow> failure" where
  "first_failure [] = None"
| "first_failure (f # fs) = (case f of Some e \<Rightarrow> Some e | None \<Rightarrow> first_failure fs)"

lemma first_failure_None [simp]: "first_failure fs = None \<longleftrightarrow> set fs \<subseteq> {None}"
  by (induction fs) (auto split: option.splits)

definition unless :: "string \<Rightarrow> bool \<Rightarrow> failure" where
  "unless m ok = (if ok then None else Some m)"

lemma unless_None [simp]: "unless m ok = None \<longleftrightarrow> ok"
  by (simp add: unless_def)

abbreviation disk_reserve :: u64 where "disk_reserve \<equiv> 2 ^ 33"

section \<open>Preparing the source\<close>

record prepare_host =
  oh_pier :: failure
  oh_busy :: bool
  oh_files :: failure
  oh_open :: failure
  oh_measure :: "string + summary"
  oh_disk :: "u64 option"
  oh_directory :: failure
  oh_spool :: failure
  oh_archive :: "string + summary"
  oh_stat :: "string + int"
  oh_close :: failure
  oh_sha256 :: string
  oh_linked :: bool
  oh_existing :: bool
  oh_remove :: failure
  oh_sync :: failure
  oh_save :: failure

abbreviation failed :: "string + 'a \<Rightarrow> failure" where
  "failed r \<equiv> (case r of Inl e \<Rightarrow> Some e | Inr _ \<Rightarrow> None)"

abbreviation outcome :: "'a \<Rightarrow> string + 'a \<Rightarrow> 'a" where
  "outcome d r \<equiv> (case r of Inl _ \<Rightarrow> d | Inr x \<Rightarrow> x)"

definition no_summary :: summary where
  "no_summary = \<lparr>ps_digest = '''', ps_files = 0, ps_bytes = 0\<rparr>"

text \<open>Up to the closed archive nothing of the handoff is changed.\<close>

definition archive_failure :: "prepare_host \<Rightarrow> handoff \<Rightarrow> 'x managed_state \<Rightarrow> failure" where
  "archive_failure w h s = first_failure [
     unless ''source handoff requires an initialized pier'' (hf_direction h = ''out'' \<and> vm_initialized s),
     oh_pier w,
     unless ''source still has a Vere lock'' (\<not> oh_busy w),
     oh_files w, oh_open w, failed (oh_measure w),
     unless ''handoff needs transfer bytes plus 8 GiB free disk''
       (case oh_disk w of None \<Rightarrow> False | Some disk \<Rightarrow> disk \<ge> of_int (ps_bytes (outcome no_summary (oh_measure w))) + disk_reserve),
     oh_directory w, oh_spool w, failed (oh_archive w), failed (oh_stat w),
     unless ''handoff source changed or archive exceeds limit''
       (oh_archive w = oh_measure w \<and> outcome 0 (oh_stat w) \<le> max_handoff_bytes),
     oh_close w]"

definition measured_handoff :: "prepare_host \<Rightarrow> handoff \<Rightarrow> handoff" where
  "measured_handoff w h = h\<lparr>hf_bytes := outcome 0 (oh_stat w), hf_tree := ps_digest (outcome no_summary (oh_measure w)),
     hf_sha256 := oh_sha256 w\<rparr>"

definition ready_handoff :: "handoff \<Rightarrow> handoff" where
  "ready_handoff h = h\<lparr>hf_error := '''', hf_state := ''ready''\<rparr>"

definition ready_message :: "handoff \<Rightarrow> handoff" where
  "ready_message h = h\<lparr>hf_message := ''Source stopped and fenced; ready to move to the selected runner.''\<rparr>"

abbreviation with_handoff :: "'x managed_state \<Rightarrow> handoff \<Rightarrow> 'x managed_state" where
  "with_handoff s h \<equiv> s\<lparr>vm_handoff := Some h\<rparr>"

definition prepare_transfer :: "prepare_host \<Rightarrow> handoff \<Rightarrow> 'x managed_state \<Rightarrow> 'x managed_state \<times> failure" where
  "prepare_transfer w h s =
     (case archive_failure w h s of Some e \<Rightarrow> (s, Some e) | None \<Rightarrow>
      let h1 = measured_handoff w h in
      case first_failure [unless ''existing handoff artifact does not match the frozen source'' (oh_linked w \<or> oh_existing w), oh_remove w] of
        Some e \<Rightarrow> (with_handoff s h1, Some e)
      | None \<Rightarrow> (case oh_sync w of Some e \<Rightarrow> (with_handoff s (ready_handoff h1), Some e)
        | None \<Rightarrow> (with_handoff s (ready_message (ready_handoff h1)), oh_save w)))"

section \<open>Receiving at the destination\<close>

record 'x receive_host =
  ih_open :: failure
  ih_read :: "string + int \<times> string"
  ih_seek :: failure
  ih_disk :: "u64 option"
  ih_exists :: bool
  ih_runtime :: "'x run_result"
  ih_save_workspace :: failure
  ih_directories :: failure
  ih_mount :: "location option \<times> failure"
  ih_save_mount :: failure
  ih_extract :: "location option \<times> 'x option \<times> failure"
  ih_pier :: failure
  ih_open_pier :: failure
  ih_measure :: "string + summary"
  ih_files :: failure
  ih_busy :: bool
  ih_epochs :: "string + inventory option"
  ih_sync :: failure
  ih_now :: gotime
  ih_save :: failure

definition incoming_failure :: "'x receive_host \<Rightarrow> handoff \<Rightarrow> 'x managed_state \<Rightarrow> failure" where
  "incoming_failure w h s = first_failure [
     unless ''incoming handoff requires fresh destination storage'' (hf_direction h = ''in'' \<and> hf_state h = ''receiving''),
     ih_open w,
     unless ''incoming handoff artifact changed''
       (case ih_read w of Inl e \<Rightarrow> False | Inr (n, digest) \<Rightarrow> n = hf_bytes h \<and> digest = hf_sha256 h),
     ih_seek w,
     unless ''handoff extraction needs transfer bytes plus 8 GiB free disk''
       (case ih_disk w of None \<Rightarrow> False | Some disk \<Rightarrow> disk \<ge> of_int (hf_bytes h) + disk_reserve),
     unless ''destination working storage already exists'' (vm_prepared s \<or> \<not> ih_exists w)]"

definition prepared_workspace :: "'x receive_host \<Rightarrow> 'x managed_state \<Rightarrow> 'x managed_state" where
  "prepared_workspace w s = (if vm_prepared s then s
     else s\<lparr>vm_prepared := True, vm_runtime := (ih_runtime w)\<lparr>rr_stage := ''receiving-handoff''\<rparr>\<rparr>)"

definition verified_failure :: "'x receive_host \<Rightarrow> handoff \<Rightarrow> failure" where
  "verified_failure w h = first_failure [
     ih_pier w, ih_open_pier w,
     unless ''received pier content does not match the frozen source''
       (case ih_measure w of Inl e \<Rightarrow> False | Inr m \<Rightarrow> ps_digest m = hf_tree h),
     ih_files w,
     unless ''received pier has a Vere lock'' (\<not> ih_busy w),
     failed (ih_epochs w), ih_sync w]"

definition received_handoff :: "handoff \<Rightarrow> handoff" where
  "received_handoff h = h\<lparr>hf_state := ''received'', hf_error := '''',
     hf_message := ''Pier verified on destination; waiting for source handoff commitment.''\<rparr>"

definition received_state :: "'x receive_host \<Rightarrow> handoff \<Rightarrow> 'x managed_state \<Rightarrow> 'x managed_state" where
  "received_state w h s = s\<lparr>vm_initialized := True, vm_epochs := outcome None (ih_epochs w),
     vm_adoption := Some \<lparr>ad_fingerprint = (case vm_storage s of None \<Rightarrow> '''' | Some l \<Rightarrow> pier_fingerprint (lo_identity l)),
       ad_uncertain = False, ad_verified = (vm_comet s = None), ad_finished = Some (ih_now w)\<rparr>,
     vm_comet := map_option (\<lambda>c. c\<lparr>mc_started := Some (ih_now w), mc_finished := Some (ih_now w), mc_uncertain := False\<rparr>) (vm_comet s),
     vm_handoff := Some (received_handoff h)\<rparr>"

definition receive_transfer :: "'x receive_host \<Rightarrow> handoff \<Rightarrow> 'x managed_state \<Rightarrow> 'x managed_state \<times> failure" where
  "receive_transfer w h s0 =
     (case incoming_failure w h s0 of Some e \<Rightarrow> (s0, Some e) | None \<Rightarrow>
      let s1 = prepared_workspace w s0 in
      case first_failure [if vm_prepared s0 then None else ih_save_workspace w, ih_directories w] of
        Some e \<Rightarrow> (s1, Some e)
      | None \<Rightarrow>
          let s2 = s1\<lparr>vm_storage := fst (ih_mount w)\<rparr> in
          case first_failure [snd (ih_mount w), ih_save_mount w] of
            Some e \<Rightarrow> (s2, Some e)
          | None \<Rightarrow> (case ih_extract w of (storage, staging, err) \<Rightarrow>
              let s3 = s2\<lparr>vm_storage := storage, vm_staging := staging\<rparr> in
              case err of Some e \<Rightarrow> (s3, Some e) | None \<Rightarrow>
              (case verified_failure w h of Some e \<Rightarrow> (s3, Some e)
               | None \<Rightarrow> (received_state w h s3, ih_save w))))"

section \<open>Committing the source\<close>

record commit_host =
  ch_resolve :: failure
  ch_directory :: failure
  ch_present :: bool
  ch_archived :: "(pier_identity \<times> directory_identity) option"
  ch_pier :: failure
  ch_open :: failure
  ch_measure :: "string + summary"
  ch_move :: failure
  ch_save :: failure

text \<open>The pier is in the archive: it was moved there now, or by an attempt before.\<close>

definition retire_failure :: "commit_host \<Rightarrow> handoff \<Rightarrow> 'x managed_state \<Rightarrow> failure" where
  "retire_failure w h s = first_failure ([
     unless ''source handoff is not ready to commit''
       (hf_direction h = ''out'' \<and> hf_state h = ''ready'' \<and> vm_initialized s \<and> length (items (vm_signing s)) = 64),
     ch_resolve w, ch_directory w] @
     (if \<not> ch_present w
      then [unless ''source archive outcome needs review'' (case (ch_archived w, vm_storage s) of
        (Some (identity, mount), Some l) \<Rightarrow> same_pier identity (lo_identity l) \<and> same_directory mount (lo_mount l) | _ \<Rightarrow> False)]
      else [ch_pier w, ch_open w,
        unless ''frozen source changed before commitment; keep both ends stopped''
          (case ch_measure w of Inl e \<Rightarrow> False | Inr m \<Rightarrow> ps_digest m = hf_tree h),
        ch_move w]))"

definition signed_handoff :: "(u8 list \<Rightarrow> string \<Rightarrow> string) \<Rightarrow> handoff \<Rightarrow> 'x managed_state \<Rightarrow> handoff" where
  "signed_handoff sign h s = (let g = h\<lparr>hf_state := ''moved''\<rparr>
     in g\<lparr>hf_commitment := hex_bytes (bytes_of (sign (items (vm_signing s)) (commitment_bytes g)))\<rparr>)"

definition moved_message :: "handoff \<Rightarrow> handoff" where
  "moved_message h = h\<lparr>hf_error := '''', hf_message := ''Moved to '' @ hf_destination h @ '' / '' @ hf_destination_instance h
     @ ''. Source cannot be started.''\<rparr>"

text \<open>The last component says whether the commitment was signed.\<close>

definition commit_transfer ::
  "(u8 list \<Rightarrow> string \<Rightarrow> string) \<Rightarrow> (string \<Rightarrow> string \<Rightarrow> string \<Rightarrow> bool) \<Rightarrow> commit_host \<Rightarrow> handoff \<Rightarrow> 'x managed_state
     \<Rightarrow> 'x managed_state \<times> failure \<times> bool" where
  "commit_transfer sign verify w h s =
     (case retire_failure w h s of Some e \<Rightarrow> (s, Some e, False) | None \<Rightarrow>
      let g = signed_handoff sign h s in
      if \<not> valid_commitment verify g (hf_commitment g) then (with_handoff s g, Some ''handoff signing identity changed'', True)
      else (with_handoff s (moved_message g), ch_save w, True))"

section \<open>The worker\<close>

record 'x move_host =
  mh_session :: failure
  mh_boundary :: failure
  mh_prepare :: prepare_host
  mh_receive :: "'x receive_host"
  mh_commit :: commit_host

definition transfer_refused :: "'x move_host \<Rightarrow> 'x managed_state \<Rightarrow> failure" where
  "transfer_refused w s = first_failure [
     unless ''missing handoff intent'' (case vm_handoff s of None \<Rightarrow> False | Some h \<Rightarrow> hex_string 32 (hf_id h)),
     mh_session w, mh_boundary w,
     unless ''handoff requires resolved stopped containers'' (\<not> list_ex (\<lambda>c. \<not> cn_removed c \<or> cn_uncertain c) (vm_containers s))]"

text \<open>The state, the observed state, the error, and whether a commitment was signed.\<close>

definition apply_handoff ::
  "(u8 list \<Rightarrow> string \<Rightarrow> string) \<Rightarrow> (string \<Rightarrow> string \<Rightarrow> string \<Rightarrow> bool) \<Rightarrow> 'x move_host \<Rightarrow> string \<Rightarrow> 'x managed_state
     \<Rightarrow> 'x managed_state \<times> string \<times> failure \<times> bool" where
  "apply_handoff sign verify w action s =
     (case (transfer_refused w s, vm_handoff s) of
        (None, Some h) \<Rightarrow>
          if action = ''prepare-handoff'' then (case prepare_transfer (mh_prepare w) h s of (t, e) \<Rightarrow> (t, ''moving'', e, False))
          else if action = ''receive-handoff'' then (case receive_transfer (mh_receive w) h s of (t, e) \<Rightarrow> (t, ''moving'', e, False))
          else if action = ''commit-handoff'' then (case commit_transfer sign verify (mh_commit w) h s of
            (t, e, sg) \<Rightarrow> (t, (if sg \<and> (case vm_handoff t of None \<Rightarrow> False | Some g \<Rightarrow> valid_commitment verify g (hf_commitment g))
              then ''moved'' else ''moving''), e, sg))
          else (s, ''moving'', Some ''unknown handoff operation'', False)
      | (Some e, _) \<Rightarrow> (s, ''moving'', Some e, False)
      | (None, None) \<Rightarrow> (s, ''moving'', Some ''missing handoff intent'', False))"

section \<open>Dispatch\<close>

datatype worker = RestoreImport | DeletePier | ImportPierWork | RecoverImport | MovePierHost | EnrollWork | MovePierWork
  | StartupResumeWork | RoutineWork | ImportFakeWork | RuntimeWork

text \<open>The dispatch of \<open>applyManagedAction\<close>, up to the guards that all runtime actions share.\<close>

definition runtime_refused :: "string \<Rightarrow> 'x managed_state \<Rightarrow> failure" where
  "runtime_refused action s =
     (let maintenance = action \<in> {''pack'', ''meld'', ''roll''}; inspection = action = ''inspect-epochs''; pruning = action = ''prune-epochs''
      in first_failure [
        unless ''incomplete provisioning requires manual review'' (action = ''stop'' \<or> \<not> uncertain_provisioning s),
        unless ''invalid managed action or persistence callback''
          (action = ''start'' \<or> action = ''stop'' \<or> maintenance \<or> inspection \<or> pruning),
        unless ''an interrupted maintenance outcome requires manual review'' (action = ''stop'' \<or> \<not> uncertain_maintenance s),
        unless ''resume and cleanly stop the pier before requesting another new roll'' (action \<noteq> ''roll'' \<or> \<not> vm_roll_needs s),
        unless ''offline maintenance requires an initialized registered pier''
          (\<not> (maintenance \<or> inspection \<or> pruning) \<or> vm_prepared s \<and> vm_initialized s),
        unless ''comet maintenance requires completed identity-pinned provisioning''
          (\<not> (maintenance \<or> pruning) \<or> maintenance_qualified s),
        unless ''prefix pruning requires its explicit confirmed inventory-bound intent''
          (\<not> pruning \<or> (case vm_prune_intent s of None \<Rightarrow> False | Some p \<Rightarrow> pn_confirmed p \<and> valid_epoch_digest (pn_digest p))),
        (if \<not> pruning then None else case vm_prune_intent s of None \<Rightarrow> None
           | Some p \<Rightarrow> (case epoch_number (pn_cutoff p) of Inl e \<Rightarrow> Some (err_text e) | Inr _ \<Rightarrow> None))])"

definition dispatch_action :: "string \<Rightarrow> 'x managed_state \<Rightarrow> string + worker" where
  "dispatch_action action s =
     (if action = ''restore-import'' then Inr RestoreImport
      else if vm_restore s \<noteq> None \<and> action \<noteq> ''stop'' then Inl ''source restoration must be completed before other runtime work''
      else if action = ''delete-pier'' then Inr DeletePier
      else if action = ''import-pier'' then Inr ImportPierWork
      else if action = ''recover-import'' then Inr RecoverImport
      else if action \<in> {''prepare-handoff'', ''receive-handoff'', ''commit-handoff''} then Inr MovePierHost
      else if vm_fenced s then Inl ''ship is fenced for a cross-host handoff''
      else if action = ''enroll-pier'' then Inr EnrollWork
      else if action = ''move-pier'' then Inr MovePierWork
      else if action = ''startup-resume'' then Inr StartupResumeWork
      else if action \<in> {''routine-pack'', ''routine-meld''} then Inr RoutineWork
      else if action = ''import-fake'' then (if vm_comet s \<noteq> None then Inl ''fake import cannot target a comet registration'' else Inr ImportFakeWork)
      else case runtime_refused action s of Some e \<Rightarrow> Inl e | None \<Rightarrow> Inr RuntimeWork)"

text \<open>\<open>observeManagedRuntime\<close> of a fenced ship does not look at the runtime.\<close>

definition fenced_observation :: "'x managed_state \<Rightarrow> string option" where
  "fenced_observation s = (if vm_fenced s then Some (case vm_handoff s of None \<Rightarrow> ''moving''
     | Some h \<Rightarrow> if hf_state h = ''moved'' then ''moved'' else ''moving'') else None)"

end
