(* ===== verification/LedgerMachine.thy ===== *)
theory LedgerMachine
  imports LedgerIntake MoveWorker
begin

text \<open>
  The store as a state machine: one step is one commit of a modelled operation, taken by a request, a
  worker, the poll or the start of the runner, in any order. What holds of every store the machine
  reaches: one active operation per ship, exclusive ports, receipts that are answered once and for all,
  revisions that name one configuration, and a restart that always settles what was left.
\<close>

section \<open>The machine\<close>

text \<open>
  A state is the tables and the operations that workers hold: a worker (\<open>Server.launch\<close>) keeps the
  operation that \<open>beginOperation\<close> returned until it passes it to \<open>finish\<close>. The observation of a refused
  admission is \<open>ManagedObservation{}\<close>.
\<close>

definition no_observation :: "'f observation_report" where
  "no_observation = \<lparr>bo_state = '''', bo_health = '''', bo_endpoint = '''', bo_recovery = False, bo_resources = None\<rparr>"

definition empty_tables :: "('x, 'f) tables" where
  "empty_tables = \<lparr>tb_instances = [], tb_operations = [], tb_policies = [], tb_deleted = []\<rparr>"

type_synonym ('x, 'f) machine = "('x, 'f) tables \<times> operation list"

text \<open>An admission refused because of the host finishes the queued operation with that refusal.\<close>

definition begin_refused :: "'f env \<Rightarrow> string \<Rightarrow> ('x, 'f) tables \<Rightarrow> (fault + ('x, 'f) tables) option" where
  "begin_refused env opid db = (case begin_operation opid db of
     Inl (Problem st code m rv, Some (op, v)) \<Rightarrow>
       if code = ''host_recovery_required''
       then Some (finish env op (sv_runtime v) no_observation (Some \<lparr>rx_text = m, rx_host = False\<rparr>) False db) else None
   | _ \<Rightarrow> None)"

text \<open>
  What a step is, for readers of a run: a worker, the poll or a claim wrote the runtime record of a ship;
  a move was prepared, received or activated (by the runner of that name, with that signature check).
\<close>

datatype 'x label =
    Quiet
  | Wrote string string "'x managed_state"
  | Prepared string
  | Received string handoff
  | Activated "string \<Rightarrow> string \<Rightarrow> string \<Rightarrow> bool" string string

inductive ledger_step :: "'x label \<Rightarrow> ('x, 'f) machine \<Rightarrow> ('x, 'f) machine \<Rightarrow> bool" where
  step_register: "register_kind_replay env actor req source comet replay_only db = Inr (op, dup, db')
    \<Longrightarrow> ledger_step Quiet (db, ws) (db', ws)"
| step_ship: "register_ship env printable stage actor sreq replay_only db = Inr (op, dup, db', staged)
    \<Longrightarrow> ledger_step Quiet (db, ws) (db', ws)"
| step_enroll: "serve_piers env actor ereq sources db = Inr (op, dup, db') \<Longrightarrow> ledger_step Quiet (db, ws) (db', ws)"
| step_import: "enroll_pier env actor ereq source fp external identify db = Inr (op, db') \<Longrightarrow> ledger_step Quiet (db, ws) (db', ws)"
| step_configure: "configure env actor i greq db = Inr (p, db') \<Longrightarrow> ledger_step Quiet (db, ws) (db', ws)"
| step_accept: "accept env actor i oreq db = Inr (op, dup, db') \<Longrightarrow> ledger_step Quiet (db, ws) (db', ws)"
| step_begin: "begin_operation opid db = Inr (op, v, db') \<Longrightarrow> ledger_step Quiet (db, ws) (db', op # ws)"
| step_refused: "begin_refused env opid db = Some (Inr db') \<Longrightarrow> ledger_step Quiet (db, ws) (db', ws)"
| step_update: "op \<in> set ws \<Longrightarrow> runtime_update (op_instance op) (op_id op) state db = Inr db'
    \<Longrightarrow> ledger_step (Wrote (op_kind op) (op_instance op) state) (db, ws) (db', ws)"
| step_finish: "op \<in> set ws \<Longrightarrow> finish env op state ob cause interrupted db = Inr db'
    \<Longrightarrow> ledger_step (Wrote (op_kind op) (op_instance op) state) (db, ws) (db', remove1 op ws)"
| step_observe: "observe env v state ob db = Inr db'
    \<Longrightarrow> ledger_step (Wrote ''observe'' (in_id (sv_public v)) state) (db, ws) (db', ws)"
| step_restart: "reconcile_interrupted env db = Inr db' \<Longrightarrow> ledger_step Quiet (db, ws) (db', [])"
| step_candidates: "startup_candidates env db = Inr (found, db') \<Longrightarrow> ledger_step Quiet (db, ws) (db', ws)"
| step_dismiss: "dismiss_startup env v db = Inr db' \<Longrightarrow> ledger_step Quiet (db, ws) (db', ws)"
| step_claim: "claim_startup env v state ob boot db = Inr (result, claimed, db')
    \<Longrightarrow> ledger_step (Wrote ''startup-resume'' (in_id (sv_public v)) state) (db, ws) (db', ws)"
| step_policy: "put_routine env actor i ureq db = Inr (answer, db') \<Longrightarrow> ledger_step Quiet (db, ws) (db', ws)"
| step_slot: "claim_routine env i now authorized db = Inr (result, claimed, db') \<Longrightarrow> ledger_step Quiet (db, ws) (db', ws)"
| step_prepare: "prepare_handoff env runner keys actor role i preq db = Inr (status, h, launched, db')
    \<Longrightarrow> ledger_step (Prepared runner) (db, ws) (db', ws)"
| step_receive: "receive_handoff env runner actor role vreq db = Inr (status, h, launched, db')
    \<Longrightarrow> ledger_step (Received runner (vq_offer vreq)) (db, ws) (db', ws)"
| step_control: "control_handoff env actor role i verb freq db = Inr (status, h, launched, db') \<Longrightarrow> ledger_step Quiet (db, ws) (db', ws)"
| step_activate: "activate_handoff verify env actor role i freq db = Inr (status, h, launched, db')
    \<Longrightarrow> ledger_step (Activated verify i (fq_commitment freq)) (db, ws) (db', ws)"
| step_upload: "upload_handoff env actor role i ureq host db0 db = Inr (status, h, launched, db') \<Longrightarrow> ledger_step Quiet (db, ws) (db', ws)"

inductive_cases ledger_stepE: "ledger_step l s t"

abbreviation ledger_steps :: "('x, 'f) machine \<Rightarrow> ('x, 'f) machine \<Rightarrow> bool" where
  "ledger_steps \<equiv> (\<lambda>s t. \<exists>l. ledger_step l s t)\<^sup>*\<^sup>*"

definition ledger_reachable :: "('x, 'f) machine \<Rightarrow> bool" where
  "ledger_reachable s \<longleftrightarrow> ledger_steps (empty_tables, []) s"

lemma reachable_step: "ledger_reachable s \<Longrightarrow> ledger_step l s t \<Longrightarrow> ledger_reachable t"
  unfolding ledger_reachable_def by (blast intro: rtranclp.rtrancl_into_rtrancl)

section \<open>Invariant\<close>

definition workers_ok :: "('x, 'f) machine \<Rightarrow> bool" where
  "workers_ok s \<longleftrightarrow> (\<forall>op\<in>set (snd s). \<exists>old\<in>ow_op ` set (tb_operations (fst s)). same_receipt old op \<and> op_kind op = op_kind old)"

lemma workers_forward:
  assumes "workers_ok (db, ws)" "forward db db'" "set us \<subseteq> set ws"
  shows "workers_ok (db', us)"
  unfolding workers_ok_def
proof
  fix op assume "op \<in> set (snd (db', us))"
  then obtain r where r: "r \<in> set (tb_operations db)" "same_receipt (ow_op r) op" "op_kind op = op_kind (ow_op r)"
    using assms(1,3) by (auto simp: workers_ok_def)
  then obtain s where s: "s \<in> set (tb_operations db')" "kept r s" using assms(2) by (auto simp: forward_def)
  have "same_receipt (ow_op s) op \<and> op_kind op = op_kind (ow_op s)"
    using r(2,3) s(2) by (auto simp: kept_def same_receipt_def)
  then show "\<exists>old\<in>ow_op ` set (tb_operations (fst (db', us))). same_receipt old op \<and> op_kind op = op_kind old"
    using s(1) by auto
qed

lemma workers_sound: "sound_step db db' \<Longrightarrow> workers_ok (db, ws) \<Longrightarrow> workers_ok (db', ws)"
  by (auto simp: sound_step_def intro: workers_forward)

lemma begin_refused_sound:
  assumes "ledger_ok db" "begin_refused env opid db = Some (Inr db')"
  shows "sound_step db db'"
proof -
  obtain st code m rv op v where b: "begin_operation opid db = Inl (Problem st code m rv, Some (op, v))"
    and f: "finish env op (sv_runtime v) no_observation (Some \<lparr>rx_text = m, rx_host = False\<rparr>) False db = Inr db'"
    using assms(2) by (auto simp: begin_refused_def split: sum.splits prod.splits fault.splits option.splits if_split_asm)
  from b have "op \<in> ow_op ` set (tb_operations db)"
    by (auto simp: begin_operation_def Let_def load_operation_iff split: sum.splits if_split_asm option.splits dest: ops.row_of_set)
  from finish_sound [OF assms(1) this _ _ f] show ?thesis by (simp add: same_receipt_def)
qed

lemma step_sound:
  assumes "ledger_step l s t" "ledger_ok (fst s)" "workers_ok s"
  shows "sound_step (fst s) (fst t) \<and> workers_ok t"
  using assms
proof (cases rule: ledger_step.cases)
  case (step_begin opid db op v db' ws)
  with assms(2) have ok: "sound_step db db'" "op \<in> ow_op ` set (tb_operations db')" using begin_sound by auto
  then have "workers_ok (db', ws)" using workers_forward [of db ws db' ws] assms(3) step_begin(2) by (simp add: sound_step_def)
  then show ?thesis using step_begin ok by (auto simp: workers_ok_def same_receipt_def)
next
  case (step_finish op ws env state ob cause interrupted db db')
  from step_finish(2,4) assms(3) obtain old where "old \<in> ow_op ` set (tb_operations db)" "same_receipt old op" "op_kind op = op_kind old"
    by (metis (no_types) workers_ok_def fst_conv snd_conv)
  with step_finish(2,5) assms(2) have ok: "sound_step db db'" using finish_sound by (metis fst_conv)
  then show ?thesis using step_finish(2,3) assms(3) workers_forward [of db ws db' "remove1 op ws"]
    by (simp add: sound_step_def set_remove1_subset)
next
  case (step_restart env db db' ws)
  then have "sound_step db db'" using reconcile_ok [of db env] assms(2) by auto
  then show ?thesis using step_restart(2,3) by (simp add: workers_ok_def)
qed (auto intro: workers_sound register_sound configure_sound accept_sound begin_refused_sound runtime_update_sound observe_sound
    register_ship_sound serve_piers_sound enroll_sound startup_candidates_sound dismiss_startup_sound claim_startup_sound
    put_routine_sound claim_routine_sound prepare_sound receive_sound control_sound activate_sound upload_sound)

lemma empty_ok: "ledger_ok empty_tables"
  by (simp add: ledger_ok_def rows_ok_def ports_ok_def revisions_ok_def empty_tables_def open_ops_def claims_def
      ops.keyed_def receipts.keyed_def)

lemma steps_sound:
  assumes "ledger_steps s t" "ledger_ok (fst s)" "workers_ok s"
  shows "sound_step (fst s) (fst t)" "workers_ok t"
  using assms
proof (induction rule: rtranclp_induct)
  case base
  { case 1 then show ?case by (simp add: sound_refl) }
  { case 2 then show ?case by simp }
next
  case (step t u)
  { case 1 then show ?case using step step_sound by (metis sound_step_def sound_trans) }
  { case 2 then show ?case using step step_sound by (metis sound_step_def) }
qed

lemma reachable_ok:
  assumes "ledger_reachable s"
  shows "ledger_ok (fst s)" "workers_ok s"
proof -
  have "ledger_ok (fst (empty_tables, []))" "workers_ok (empty_tables, [])" by (simp_all add: empty_ok workers_ok_def)
  from steps_sound [OF assms [unfolded ledger_reachable_def] this] show "ledger_ok (fst s)" "workers_ok s"
    by (simp_all add: sound_step_def)
qed

lemma reachable_steps:
  assumes "ledger_reachable s" "ledger_steps s t"
  shows "ledger_ok (fst t)" "forward (fst s) (fst t)" "workers_ok t"
  using steps_sound [OF assms(2)] reachable_ok [OF assms(1)] by (simp_all add: sound_step_def)

end
