(* ===== verification/LedgerSamples.thy ===== *)
theory LedgerSamples
  imports LedgerMachine
begin

text \<open>
  Concrete stores on which the guarantees are shown to apply: a fake ship is registered, a start is
  accepted, a worker takes it, and the runner is restarted.
\<close>

definition sample_env :: "unit env" where
  "sample_env = \<lparr>en_mode = development_mode, en_boot = '''', en_now = (\<lambda>n. \<lparr>inst = 1000, meta = 0\<rparr>),
     en_random = (\<lambda>n. Inr (\<lambda>k. of_nat n)), en_storage = (\<lambda>p. None), en_free = (\<lambda>k p. True), en_pill = (\<lambda>p. None),
     en_reserved = Inr \<lparr>rv_instances = (\<lambda>i. False), rv_ports = (\<lambda>p. False)\<rparr>, en_claims = Inr [],
     en_usage = (\<lambda>a b t. None), en_two = ()\<rparr>"

text \<open>The same host with other random bytes, so that its identifiers are fresh.\<close>

definition later_env :: "unit env" where
  "later_env = sample_env\<lparr>en_random := (\<lambda>n. Inr (\<lambda>k. of_nat (n + 8)))\<rparr>"

definition sample_create :: create_request where
  "sample_create = \<lparr>cq_bootstrap = None, cq_id = ''zod'', cq_label = '''',
     cq_config = \<lparr>cf_http = 8080, cf_ames = 34343, cf_loom = 31, cf_native = False\<rparr>,
     cq_request = ''create'', cq_fake_ship = '''', cq_pier_name = '''', cq_pier_path = ''''\<rparr>"

definition sample_start :: operation_request where
  "sample_start = \<lparr>oq_confirm_restore = False, oq_restore_digest = '''', oq_confirm_delete = False, oq_request = ''go'',
     oq_kind = ''start'', oq_expected = 1, oq_cutoff = '''', oq_digest = '''', oq_confirm_loss = False, oq_pier_path = ''''\<rparr>"

definition sample_again :: operation_request where
  "sample_again = sample_start\<lparr>oq_request := ''again''\<rparr>"

definition tables_of :: "fault + 'a \<times> 'b \<times> (unit, unit) tables \<Rightarrow> (unit, unit) tables" where
  "tables_of r = (case r of Inl e \<Rightarrow> empty_tables | Inr (a, b, db) \<Rightarrow> db)"

lemma tables_of: "\<not> isl r \<Longrightarrow> r = Inr (fst (projr r), fst (snd (projr r)), tables_of r)"
  by (cases r) (auto simp: tables_of_def)

definition sample_register :: "fault + operation \<times> bool \<times> (unit, unit) tables" where
  "sample_register = register_kind_replay sample_env ''me'' sample_create None False False empty_tables"

definition sample_accept :: "fault + operation \<times> bool \<times> (unit, unit) tables" where
  "sample_accept = accept later_env ''me'' ''zod'' sample_start (tables_of sample_register)"

definition sample_op :: operation where
  "sample_op = fst (projr sample_accept)"

definition sample_begin :: "fault + operation \<times> (unit, unit) stored_instance \<times> (unit, unit) tables" where
  "sample_begin = (case begin_operation (op_id sample_op) (tables_of sample_accept) of Inl (e, x) \<Rightarrow> Inl e | Inr y \<Rightarrow> Inr y)"

definition sample_ship :: "(unit, unit) stored_instance" where
  "sample_ship = fst (snd (projr sample_begin))"

lemma sample_register_ok: "\<not> isl sample_register"
  by code_simp

lemma sample_accept_ok: "\<not> isl sample_accept"
  by code_simp

lemma sample_begin_ok: "\<not> isl sample_begin"
  by code_simp

lemma sample_accepted:
  "accept later_env ''me'' ''zod'' sample_start (tables_of sample_register) = Inr (sample_op, fst (snd (projr sample_accept)), tables_of sample_accept)"
  using tables_of [OF sample_accept_ok] by (simp add: sample_op_def sample_accept_def)

lemma sample_begun:
  "begin_operation (op_id sample_op) (tables_of sample_accept) = Inr (fst (projr sample_begin), sample_ship, tables_of sample_begin)"
proof (cases "begin_operation (op_id sample_op) (tables_of sample_accept)")
  case (Inr y)
  then have "sample_begin = Inr y" by (simp add: sample_begin_def)
  then have "y = (fst (projr sample_begin), fst (snd (projr sample_begin)), tables_of sample_begin)"
    using arg_cong [OF tables_of [OF sample_begin_ok], of projr] by (metis sum.sel(2))
  then show ?thesis using Inr by (simp only: sample_ship_def)
next
  case (Inl y)
  then show ?thesis using sample_begin_ok by (simp add: sample_begin_def split: prod.splits)
qed

lemma sample_steps:
  "ledger_step Quiet (empty_tables, []) (tables_of sample_register, [])"
  "ledger_step Quiet (tables_of sample_register, []) (tables_of sample_accept, [])"
  "ledger_step Quiet (tables_of sample_accept, []) (tables_of sample_begin, [fst (projr sample_begin)])"
  using tables_of [OF sample_register_ok] step_register [of sample_env "''me''" sample_create None False False]
    step_accept [OF sample_accepted] step_begin [OF sample_begun]
  by (auto simp: sample_register_def)

lemma sample_reachable:
  "ledger_reachable (tables_of sample_register, [])"
  "ledger_reachable (tables_of sample_accept, [])"
  "ledger_reachable (tables_of sample_begin, [fst (projr sample_begin)])"
  using sample_steps unfolding ledger_reachable_def by (blast intro: rtranclp.intros)+

text \<open>The runner restarts while the worker is at the engine.\<close>

definition sample_restart :: "fault + (unit, unit) tables" where
  "sample_restart = reconcile_interrupted later_env (tables_of sample_begin)"

definition sample_row :: "unit op_row" where
  "sample_row = last (tb_operations (tables_of sample_begin))"

lemma sample_restart_ok: "\<not> isl sample_restart"
  by code_simp

lemma sample_restarted: "reconcile_interrupted later_env (tables_of sample_begin) = Inr (projr sample_restart)"
  using sample_restart_ok by (simp add: sample_restart_def)

lemma sample_fact1: "\<not> Option.is_none (inst_of (tables_of sample_begin) ''zod'')"
  by code_simp
lemma sample_fact2: "tb_operations (tables_of sample_begin) \<noteq> []"
  by code_simp
lemma sample_fact3: "op_id (ow_op sample_row) = in_active (sv_public (the (inst_of (tables_of sample_begin) ''zod'')))"
  by code_simp
lemma sample_fact4: "op_status (ow_op sample_row) = ''running''"
  by code_simp
lemma sample_fact6: "Option.is_none (find_receipt ''me'' ''again'' (projr sample_restart))"
  by code_simp
lemma sample_fact7: "\<not> Option.is_none (inst_of (tables_of sample_register) ''zod'')"
  by code_simp

lemma sample_fact8: "\<not> Option.is_none (inst_of (tables_of sample_accept) ''zod'')"
  by code_simp
lemma sample_fact9: "in_active (sv_public (the (inst_of (tables_of sample_accept) ''zod''))) \<noteq> ''''"
  by code_simp

lemma sample_row_in: "sample_row \<in> set (tb_operations (tables_of sample_begin))"
  using sample_fact2 by (simp add: sample_row_def)

end
