(* ===== verification/LedgerGuarantees.thy ===== *)
theory LedgerGuarantees
  imports LedgerSamples
begin

text \<open>
  What the store guarantees to its callers, over every sequence of commits.
\<close>

section \<open>Consequences of the invariant\<close>

lemma unfinished_claimed:
  assumes "ledger_ok db" "r \<in> set (tb_operations db)" "unfinished (ow_op r)"
  shows "\<exists>v. inst_of db (op_instance (ow_op r)) = Some v \<and> in_active (sv_public v) = op_id (ow_op r)
    \<and> in_revision (sv_public v) = op_revision (ow_op r)"
proof -
  have "(op_id (ow_op r), op_instance (ow_op r), op_revision (ow_op r)) \<in> claims db"
    using assms by (auto simp: linkedD [OF assms(1), symmetric] in_open)
  then show ?thesis by (auto simp: in_claims)
qed

lemma active_row:
  assumes "ledger_ok db" "inst_of db i = Some v" "in_active (sv_public v) \<noteq> ''''"
  shows "\<exists>r\<in>set (tb_operations db). op_id (ow_op r) = in_active (sv_public v) \<and> op_instance (ow_op r) = i \<and> unfinished (ow_op r)"
proof -
  have "(in_active (sv_public v), i, in_revision (sv_public v)) \<in> claims db" using assms(2,3) by (simp add: in_claims)
  then show ?thesis by (auto simp: linkedD [OF assms(1), symmetric] in_open)
qed

lemma same_operation_id:
  assumes "ledger_ok db" "r \<in> set (tb_operations db)" "s \<in> set (tb_operations db)" "op_id (ow_op r) = op_id (ow_op s)"
  shows "r = s"
  using ops.keyed_unique [OF _ assms(2,3)] assms(1,4) by (simp add: ledger_ok_def rows_ok_def op_key_def)

lemma load_instance_ok: "ledger_ok db \<Longrightarrow> inst_of db i = Some v \<Longrightarrow> load_instance i db = Inr v"
  by (auto simp: ledger_ok_def rows_ok_def revisions_ok_def load_instance_def word_gt_0)

lemma find_receipt_ok:
  assumes "ledger_ok db" "r \<in> set (tb_operations db)"
  shows "find_receipt (op_actor (ow_op r)) (op_request (ow_op r)) db = Some r"
  using assms by (simp add: find_receipt_row receipts.row_of_iff ledger_ok_def rows_ok_def receipt_key_def)

text \<open>The receipt of an accepted request is in the tables.\<close>

lemma accept_receipt:
  assumes "accept env actor i req db = Inr (op, dup, db')"
  shows "\<exists>r\<in>set (tb_operations db'). ow_op r = op \<and> op_actor op = actor \<and> op_request op = oq_request req
    \<and> ow_fingerprint r = Operate i req" "operation_shape i req = None"
proof -
  show "operation_shape i req = None" using assms by (simp add: accept_def)
  show "\<exists>r\<in>set (tb_operations db'). ow_op r = op \<and> op_actor op = actor \<and> op_request op = oq_request req
    \<and> ow_fingerprint r = Operate i req"
  proof (cases "find_receipt actor (oq_request req) db")
    case (Some r)
    then have "replay actor (oq_request req) (Operate i req) db \<noteq> None" by (simp add: replay_def)
    then have "ow_op r = op" "db' = db" "ow_fingerprint r = Operate i req"
      using assms Some by (auto simp: accept_def replay_def split: if_split_asm)
    moreover have "r \<in> set (tb_operations db) \<and> receipt_key r = (actor, oq_request req)"
      using Some by (auto simp: find_receipt_row dest: receipts.row_of_set)
    ultimately show ?thesis by (auto simp: receipt_key_def)
  next
    case None
    then show ?thesis using assms
      by (auto simp: accept_def replay_def Let_def insert_operation_iff)
  qed
qed

lemma interrupted_recovery: "\<not> queued_start r \<Longrightarrow> in_recovery (sv_public (interrupted_instance r now v))"
  unfolding interrupted_instance_def Let_def by simp

section \<open>Guarantees\<close>

text \<open>
  C5. One operation at a time: in every reachable store, an unfinished operation is the active operation of
  the ship it was accepted for, at the revision it was accepted for, and the active operation of a ship is
  the one unfinished row of that ship.
\<close>

theorem one_active_operation:
  assumes "ledger_reachable (db, ws)"
  shows "(\<forall>r\<in>set (tb_operations db). unfinished (ow_op r) \<longrightarrow>
      (\<exists>v. inst_of db (op_instance (ow_op r)) = Some v \<and> in_active (sv_public v) = op_id (ow_op r)
        \<and> in_revision (sv_public v) = op_revision (ow_op r)))
    \<and> (\<forall>i v. inst_of db i = Some v \<longrightarrow> in_active (sv_public v) \<noteq> '''' \<longrightarrow>
      (\<exists>!r. r \<in> set (tb_operations db) \<and> op_instance (ow_op r) = i \<and> unfinished (ow_op r)))"
proof -
  have ok: "ledger_ok db" using reachable_ok [OF assms] by simp
  have "\<exists>!r. r \<in> set (tb_operations db) \<and> op_instance (ow_op r) = i \<and> unfinished (ow_op r)"
    if v: "inst_of db i = Some v" "in_active (sv_public v) \<noteq> ''''" for i v
  proof (rule ex_ex1I)
    show "\<exists>r. r \<in> set (tb_operations db) \<and> op_instance (ow_op r) = i \<and> unfinished (ow_op r)"
      using active_row [OF ok v] by blast
    show "r = s" if "r \<in> set (tb_operations db) \<and> op_instance (ow_op r) = i \<and> unfinished (ow_op r)"
      "s \<in> set (tb_operations db) \<and> op_instance (ow_op s) = i \<and> unfinished (ow_op s)" for r s
      using unfinished_claimed [OF ok, of r] unfinished_claimed [OF ok, of s] same_operation_id [OF ok] that by auto
  qed
  with unfinished_claimed [OF ok] show ?thesis by blast
qed

theorem one_active_operation_witness:
  "\<exists>v. inst_of (tables_of sample_accept) ''zod'' = Some v \<and> in_active (sv_public v) \<noteq> ''''
     \<and> (\<exists>!r. r \<in> set (tb_operations (tables_of sample_accept)) \<and> op_instance (ow_op r) = ''zod'' \<and> unfinished (ow_op r))"
proof -
  obtain v where v: "inst_of (tables_of sample_accept) ''zod'' = Some v" using sample_fact8 by (auto simp: Option.is_none_def)
  then have "in_active (sv_public v) \<noteq> ''''" using sample_fact9 by simp
  with v one_active_operation [OF sample_reachable(2)] show ?thesis by blast
qed

text \<open>
  C10. Every stored row of a reachable store is well formed: each registered instance and the inventory decode
  with every check of the loader, the operation a ship names is found, and the ports of two registered ships
  differ.
\<close>

theorem store_well_formed:
  assumes "ledger_reachable (db, ws)"
  shows "(\<exists>all. instances db = Inr all) \<and> (\<forall>i v. inst_of db i = Some v \<longrightarrow> load_instance i db = Inr v
      \<and> in_revision (sv_public v) \<le> max_revision
      \<and> (in_active (sv_public v) \<noteq> '''' \<longrightarrow> (\<exists>r. load_operation (in_active (sv_public v)) db = Inr r)))
    \<and> (\<forall>i j v w. inst_of db i = Some v \<longrightarrow> inst_of db j = Some w \<longrightarrow>
        cf_http (in_config (sv_public v)) = cf_http (in_config (sv_public w)) \<longrightarrow> i = j)"
proof -
  have ok: "ledger_ok db" using reachable_ok [OF assms] by simp
  have "\<exists>all. instances db = Inr all" using instances_ok [of db] ok by (auto simp: ledger_ok_def)
  moreover have "\<exists>r. load_operation (in_active (sv_public v)) db = Inr r"
    if "inst_of db i = Some v" "in_active (sv_public v) \<noteq> ''''" for i v
    using active_row [OF ok that] ok by (auto simp: load_operation_iff ops.row_of_iff ledger_ok_def rows_ok_def op_key_def)
  ultimately show ?thesis using load_instance_ok [OF ok] ok by (auto simp: ledger_ok_def revisions_ok_def ports_ok_def)
qed

theorem store_well_formed_witness:
  "\<exists>all. instances (tables_of sample_begin) = Inr all"
  using store_well_formed [OF sample_reachable(3)] by blast

text \<open>
  C7. A request is accepted once: after an acceptance, whatever commits follow, the same request of the same
  actor is answered with the receipt of the same operation and changes nothing, and a different request
  under that identifier is refused.
\<close>

theorem accept_once:
  assumes "ledger_reachable (db, ws)" "accept env actor i req db = Inr (op, dup, db')"
    and "ledger_steps (db', ws) (db'', ws'')"
  shows "(\<exists>op'. accept env' actor i req db'' = Inr (op', True, db'') \<and> same_receipt op op' \<and> op_kind op' = op_kind op)
    \<and> ((j, req') \<noteq> (i, req) \<longrightarrow> oq_request req' = oq_request req \<longrightarrow> operation_shape j req' = None \<longrightarrow>
        accept env' actor j req' db'' = Inl (conflict ''request_conflict'' ''request_id already identifies different input for this actor''))"
proof -
  have re: "ledger_reachable (db', ws)" by (rule reachable_step [OF assms(1) step_accept [OF assms(2)]])
  note after = reachable_steps [OF re assms(3), simplified]
  obtain r where r: "r \<in> set (tb_operations db')" "ow_op r = op" "op_actor op = actor" "op_request op = oq_request req"
    "ow_fingerprint r = Operate i req" using accept_receipt(1) [OF assms(2)] by blast
  then obtain s where s: "s \<in> set (tb_operations db'')" "kept r s" using after(2) by (auto simp: forward_def)
  then have k: "same_receipt op (ow_op s)" "op_kind (ow_op s) = op_kind op" "ow_fingerprint s = Operate i req"
    using r by (simp_all add: kept_def)
  have f: "find_receipt actor (oq_request req) db'' = Some s"
    using find_receipt_ok [OF after(1) s(1)] k(1) r(3,4) by (simp add: same_receipt_def)
  then have "accept env' actor i req db'' = Inr (ow_op s, True, db'')"
    using accept_receipt(2) [OF assms(2)] k(3) by (simp add: accept_def replay_def guard_def attempt_def)
  moreover have "accept env' actor j req' db'' = Inl (conflict ''request_conflict'' ''request_id already identifies different input for this actor'')"
    if "(j, req') \<noteq> (i, req)" "oq_request req' = oq_request req" "operation_shape j req' = None"
    using that f k(3) by (auto simp: accept_def replay_def guard_def attempt_def)
  ultimately show ?thesis using k(1,2) by blast
qed

theorem accept_once_witness:
  "(\<exists>op'. accept sample_env ''me'' ''zod'' sample_start (tables_of sample_begin) = Inr (op', True, tables_of sample_begin) \<and> same_receipt sample_op op')
   \<and> accept sample_env ''me'' ''zod'' (sample_start\<lparr>oq_kind := ''stop''\<rparr>) (tables_of sample_begin)
       = Inl (conflict ''request_conflict'' ''request_id already identifies different input for this actor'')"
proof -
  have steps: "ledger_steps (tables_of sample_accept, []) (tables_of sample_begin, [fst (projr sample_begin)])"
    using sample_steps(3) by blast
  have shape: "operation_shape ''zod'' (sample_start\<lparr>oq_kind := ''stop''\<rparr>) = None" by code_simp
  have other: "(''zod'', sample_start\<lparr>oq_kind := ''stop''\<rparr>) \<noteq> (''zod'', sample_start)" by (simp add: sample_start_def)
  show ?thesis
    using accept_once [OF sample_reachable(1) sample_accepted steps, of sample_env "''zod''" "sample_start\<lparr>oq_kind := ''stop''\<rparr>"]
      other shape by auto
qed

text \<open>
  C9. A revision names one configuration: once an identifier has a revision, every later registration under
  that identifier has no lower one, also after its deletion, and the same revision is the same configuration.
\<close>

theorem revision_names_configuration:
  assumes "ledger_reachable s" "ledger_steps s t" "inst_of (fst s) i = Some v" "inst_of (fst t) i = Some w"
  shows "in_revision (sv_public v) \<le> in_revision (sv_public w)
    \<and> (in_revision (sv_public v) = in_revision (sv_public w) \<longrightarrow> in_config (sv_public v) = in_config (sv_public w))"
proof -
  have "reached (fst s) i = Some (in_revision (sv_public v), Some (in_config (sv_public v)))"
    "reached (fst t) i = Some (in_revision (sv_public w), Some (in_config (sv_public w)))"
    using assms(3,4) by (simp_all add: reached_def)
  with reachable_steps(2) [OF assms(1,2)] have "rev_le (in_revision (sv_public v), Some (in_config (sv_public v)))
      (in_revision (sv_public w), Some (in_config (sv_public w)))"
    unfolding forward_def by fastforce
  then show ?thesis by auto
qed

theorem revision_names_configuration_witness:
  "\<exists>v w. inst_of (tables_of sample_register) ''zod'' = Some v \<and> inst_of (tables_of sample_accept) ''zod'' = Some w
     \<and> in_revision (sv_public v) \<le> in_revision (sv_public w)"
proof -
  obtain v w where vw: "inst_of (tables_of sample_register) ''zod'' = Some v" "inst_of (tables_of sample_accept) ''zod'' = Some w"
    using sample_fact7 sample_fact8 by (auto simp: Option.is_none_def)
  have "ledger_steps (tables_of sample_register, []) (tables_of sample_accept, [])" using sample_steps(2) by blast
  from revision_names_configuration [OF sample_reachable(1) this, of "''zod''" v w] vw show ?thesis by auto
qed

text \<open>
  C6. A restart always ends: on every reachable store the reconciliation succeeds, leaves no unfinished
  operation and no ship with an active one, interrupts with an end time every operation that was
  unfinished, and keeps every finished one as it was.
\<close>

theorem restart_settles:
  assumes "ledger_reachable (db, ws)"
  shows "\<exists>db'. reconcile_interrupted env db = Inr db'
    \<and> (\<forall>r\<in>set (tb_operations db'). \<not> unfinished (ow_op r))
    \<and> (\<forall>i w. inst_of db' i = Some w \<longrightarrow> in_active (sv_public w) = '''')
    \<and> (\<forall>r\<in>set (tb_operations db). \<exists>s\<in>set (tb_operations db'). op_id (ow_op s) = op_id (ow_op r)
        \<and> (if unfinished (ow_op r) then op_status (ow_op s) = ''interrupted'' \<and> op_finished (ow_op s) \<noteq> None else ow_op s = ow_op r))"
proof -
  have ok: "ledger_ok db" using reachable_ok [OF assms] by simp
  from reconcile_ok [OF ok, of env] obtain db' where db': "reconcile_interrupted env db = Inr db'" "sound_step db db'"
    "open_ops db' = {}" "\<forall>i v. inst_of db i = Some v \<longrightarrow> settles db db' v" by blast
  have ok': "ledger_ok db'" "forward db db'" using db'(2) by (simp_all add: sound_step_def)
  have "\<forall>r\<in>set (tb_operations db'). \<not> unfinished (ow_op r)" using db'(3) by (auto simp: open_ops_def)
  moreover have "in_active (sv_public w) = ''''" if "inst_of db' i = Some w" for i w
  proof (rule ccontr)
    assume "in_active (sv_public w) \<noteq> ''''"
    with active_row [OF ok'(1) that] db'(3) show False by (auto simp: open_ops_def)
  qed
  moreover have "\<exists>s\<in>set (tb_operations db'). op_id (ow_op s) = op_id (ow_op r)
        \<and> (if unfinished (ow_op r) then op_status (ow_op s) = ''interrupted'' \<and> op_finished (ow_op s) \<noteq> None else ow_op s = ow_op r)"
    if r: "r \<in> set (tb_operations db)" for r
  proof (cases "unfinished (ow_op r)")
    case False
    obtain s where s: "s \<in> set (tb_operations db')" "kept r s" using r ok'(2) unfolding forward_def by blast
    then have "ow_op s = ow_op r" using False by (simp add: kept_def)
    then show ?thesis using False s(1) by (intro bexI [of _ s]) simp_all
  next
    case True
    obtain v where v: "inst_of db (op_instance (ow_op r)) = Some v" "in_active (sv_public v) = op_id (ow_op r)"
      using unfinished_claimed [OF ok r True] by blast
    have "op_id (ow_op r) \<noteq> ''''" using ok r by (auto simp: ledger_ok_def rows_ok_def)
    with v db'(4) have "\<exists>now q w. q \<in> set (tb_operations db) \<and> left_interrupted now q v w db'"
      unfolding settles_def by force
    then obtain now q w where q: "q \<in> set (tb_operations db)" "left_interrupted now q v w db'" by blast
    then have "q = r" using same_operation_id [OF ok q(1) r] v(2) by (simp add: left_interrupted_def)
    then show ?thesis using True q(2)
      by (intro bexI [of _ "q\<lparr>ow_op := interrupted_operation q v now\<rparr>"])
        (auto simp: left_interrupted_def interrupted_operation_def)
  qed
  ultimately show ?thesis using db'(1) by blast
qed

theorem restart_settles_witness:
  "\<exists>db'. reconcile_interrupted later_env (tables_of sample_begin) = Inr db' \<and> (\<exists>s\<in>set (tb_operations db'). op_status (ow_op s) = ''interrupted'')"
proof -
  have "unfinished (ow_op sample_row)" using sample_fact4 by (simp add: unfinished_def)
  with restart_settles [OF sample_reachable(3), of later_env] sample_row_in show ?thesis by meson
qed

text \<open>
  C8. Work that may have reached the engine is not repeated after a restart: when the interrupted operation
  was anything but a start that had not been dispatched, no new start of that ship is accepted, whatever
  the revision, actor and host, until it has been reconciled.
\<close>

theorem interrupted_start_refused:
  assumes "ledger_reachable (db, ws)" "reconcile_interrupted env db = Inr db'"
    and "inst_of db i = Some v" "r \<in> set (tb_operations db)" "op_id (ow_op r) = in_active (sv_public v)" "\<not> queued_start r"
    and "oq_kind req = ''start''" "find_receipt actor (oq_request req) db' = None"
  shows "\<exists>e. accept env' actor i req db' = Inl e"
proof -
  have ok: "ledger_ok db" using reachable_ok [OF assms(1)] by simp
  have db': "sound_step db db'" "settles db db' v"
    using reconcile_ok [OF ok, of env] assms(2,3) by auto
  have id: "in_id (sv_public v) = i" using ok assms(3) by (simp add: ledger_ok_def rows_ok_def)
  have n: "in_active (sv_public v) \<noteq> ''''" using ok assms(4,5) by (auto simp: ledger_ok_def rows_ok_def)
  obtain now q w where w: "q \<in> set (tb_operations db)" "left_interrupted now q v w db'" "inst_of db' i = Some w"
    using db'(2) n id by (auto simp: settles_def)
  have "q = r" using same_operation_id [OF ok w(1) assms(4)] w(2) assms(5) by (simp add: left_interrupted_def)
  then have "in_recovery (sv_public w)" using w(2) interrupted_recovery [OF assms(6)] by (simp add: left_interrupted_def)
  then have "start_refused env' req (w\<lparr>sv_runtime := s\<rparr>) \<noteq> None" for s
    using assms(7) by (simp add: start_refused_def)
  then have "admission_refused env' i req w db' \<noteq> None"
    by (simp add: admission_refused_def Let_def del: refuse.simps first_fault.simps)
  moreover have "load_instance i db' = Inr w" using load_instance_ok w(3) db'(1) by (auto simp: sound_step_def)
  ultimately show ?thesis using assms(8)
    by (auto simp: accept_def replay_def guard_def attempt_def split: option.split)
qed

theorem interrupted_start_refused_witness:
  "\<exists>e. accept sample_env ''me'' ''zod'' sample_again (projr sample_restart) = Inl e"
proof -
  obtain v where v: "inst_of (tables_of sample_begin) ''zod'' = Some v" using sample_fact1 by (auto simp: Option.is_none_def)
  have k: "oq_kind sample_again = ''start''" "oq_request sample_again = ''again''" by (simp_all add: sample_again_def sample_start_def)
  show ?thesis
    by (rule interrupted_start_refused [OF sample_reachable(3) sample_restarted v sample_row_in])
      (use v sample_fact3 sample_fact4 sample_fact6 k in \<open>simp_all add: queued_start_def Option.is_none_def\<close>)
qed

end
