(* ===== verification/LedgerCustody.thy ===== *)
theory LedgerCustody
  imports LedgerMachine
begin

text \<open>
  What a commit does to the handoffs of the registered ships: the abstract specification of custody
  (\<open>turn\<close>), and what the writes of the store do to the view. A ship is seen as its handoff and its
  active operation; \<open>kind_of\<close> is the kind of an operation.
\<close>

section \<open>The abstract view\<close>

definition ship_view :: "('x, 'f) stored_instance \<Rightarrow> handoff option \<times> string" where
  "ship_view v = (vm_handoff (sv_runtime v), in_active (sv_public v))"

definition custody :: "('x, 'f) tables \<Rightarrow> string \<Rightarrow> (handoff option \<times> string) option" where
  "custody db i = map_option ship_view (inst_of db i)"

definition kind_of :: "('x, 'f) tables \<Rightarrow> string \<Rightarrow> string option" where
  "kind_of db a = map_option (\<lambda>r. op_kind (ow_op r)) (ops.row_of (tb_operations db) a)"

abbreviation outbound :: "handoff option \<Rightarrow> bool" where
  "outbound h \<equiv> (case h of None \<Rightarrow> False | Some g \<Rightarrow> hf_direction g = ''out'')"

text \<open>The same handoff, up to the error it shows.\<close>

definition same_move :: "handoff option \<Rightarrow> handoff option \<Rightarrow> bool" where
  "same_move h g \<longleftrightarrow> map_option (\<lambda>x. x\<lparr>hf_error := ''''\<rparr>) h = map_option (\<lambda>x. x\<lparr>hf_error := ''''\<rparr>) g"

lemma same_move_refl [simp]: "same_move h h"
  by (simp add: same_move_def)

abbreviation retiring_kind :: "string \<Rightarrow> bool" where
  "retiring_kind k \<equiv> k \<in> {''delete-pier'', ''restore-import''}"

text \<open>The operations that may be opened on an outgoing ship: none that unregisters it, and no second preparation of a prepared one.\<close>

definition may_open :: "string \<Rightarrow> handoff option \<Rightarrow> bool" where
  "may_open k h = (case h of None \<Rightarrow> True | Some g \<Rightarrow> hf_direction g = ''out'' \<longrightarrow>
     \<not> retiring_kind k \<and> (k = ''prepare-handoff'' \<longrightarrow> hf_state g = ''preparing''))"

text \<open>A step that is not the write of a commitment on the ship.\<close>

definition settled :: "'x label \<Rightarrow> string \<Rightarrow> bool" where
  "settled l i \<longleftrightarrow> (\<forall>state. l \<noteq> Wrote ''commit-handoff'' i state)"

lemma settled_simps [simp]: "settled Quiet i" "settled (Prepared r) i" "settled (Received r g) i" "settled (Activated vf k c) i"
  "settled (Wrote k j st) i \<longleftrightarrow> \<not> (k = ''commit-handoff'' \<and> j = i)"
  by (auto simp: settled_def)

definition new_outgoing :: "string \<Rightarrow> string \<Rightarrow> handoff \<Rightarrow> bool" where
  "new_outgoing runner i g \<longleftrightarrow> hf_direction g = ''out'' \<and> hf_state g = ''preparing'' \<and> hf_source g = runner
     \<and> hf_source_instance g = i \<and> valid_id (hf_destination g) \<and> hf_destination g \<noteq> runner"

text \<open>
  The steps of one ship \<open>i\<close>: nothing but its activity changes, it arrives, its record is written, it is
  retired, or its handoff is opened, reserved, activated or begins to be received.
\<close>

inductive turn :: "'x label \<Rightarrow> string \<Rightarrow> (string \<Rightarrow> string option) \<Rightarrow> (handoff option \<times> string) option
    \<Rightarrow> (handoff option \<times> string) option \<Rightarrow> bool" for l i K where
  turn_absent: "settled l i \<Longrightarrow> turn l i K None None"
| turn_idle: "settled l i \<Longrightarrow> same_move h h' \<Longrightarrow> a' = a \<or> a' = '''' \<or> a = '''' \<and> (\<exists>k. K a' = Some k \<and> may_open k h')
    \<Longrightarrow> turn l i K (Some (h, a)) (Some (h', a'))"
| turn_arrive: "settled l i \<Longrightarrow> turn l i K None (Some (None, a))"
| turn_work: "l = Wrote k i state \<Longrightarrow> same_move (vm_handoff state) h' \<Longrightarrow> a \<noteq> '''' \<Longrightarrow> K a = Some k \<Longrightarrow> a' = a \<or> a' = ''''
    \<Longrightarrow> turn l i K (Some (h, a)) (Some (h', a'))"
| turn_poll: "l = Wrote k i state \<Longrightarrow> k \<in> {''observe'', ''startup-resume''} \<Longrightarrow> same_move (vm_handoff state) h'
    \<Longrightarrow> a' = '''' \<or> K a' = Some ''startup-resume'' \<Longrightarrow> turn l i K (Some (h, '''')) (Some (h', a'))"
| turn_retire: "settled l i \<Longrightarrow> K a = Some k \<Longrightarrow> retiring_kind k \<Longrightarrow> a \<noteq> '''' \<Longrightarrow> turn l i K (Some (h, a)) None"
| turn_prepare: "l = Prepared runner \<Longrightarrow> \<not> outbound h \<Longrightarrow> new_outgoing runner i g \<Longrightarrow> K a' = Some ''prepare-handoff''
    \<Longrightarrow> turn l i K (Some (h, '''')) (Some (Some g, a'))"
| turn_reserve: "l = Received runner g \<Longrightarrow> offer_refused runner mode request g = None \<Longrightarrow> hf_direction g = ''out'' \<Longrightarrow> hf_state g = ''ready''
    \<Longrightarrow> i = hf_destination_instance g \<Longrightarrow> turn l i K None (Some (Some (reserved_offer g), ''''))"
| turn_activate: "l = Activated verify (hf_id h) c \<Longrightarrow> hf_direction h = ''in'' \<Longrightarrow> hf_state h = ''received'' \<Longrightarrow> valid_commitment verify h c
    \<Longrightarrow> turn l i K (Some (Some h, '''')) (Some (Some (completed_handoff c h), ''''))"
| turn_upload: "settled l i \<Longrightarrow> hf_state h = ''reserved'' \<Longrightarrow> K a' = Some ''receive-handoff''
    \<Longrightarrow> turn l i K (Some (Some h, '''')) (Some (Some (h\<lparr>hf_state := ''receiving'',
          hf_message := ''Verifying stopped pier contents on destination.'', hf_error := ''''\<rparr>), a'))"

lemma turn_refl [simp]: "settled l i \<Longrightarrow> turn l i K x x"
  by (cases x) (auto intro: turn_absent turn_idle)

definition turns :: "'x label \<Rightarrow> ('x, 'f) tables \<Rightarrow> ('x, 'f) tables \<Rightarrow> bool" where
  "turns l db db' \<longleftrightarrow> (\<forall>i. turn l i (kind_of db') (custody db i) (custody db' i))"

lemma turns_one:
  assumes "\<And>j. j \<noteq> i \<Longrightarrow> custody db' j = custody db j" "turn l i (kind_of db') (custody db i) (custody db' i)"
    and "\<And>j. j \<noteq> i \<Longrightarrow> settled l j"
  shows "turns l db db'"
  unfolding turns_def using assms by (metis turn_refl)

lemma turns_refl [simp]: "(\<And>j. settled l j) \<Longrightarrow> turns l db db"
  by (simp add: turns_def)

section \<open>What the writes do to the view\<close>

lemma custody_save [simp]: "custody (save_instance w db) i =
    (if i = in_id (sv_public w) then map_option (\<lambda>_. ship_view w) (custody db i) else custody db i)"
  by (simp add: custody_def option.map_comp comp_def)

lemma custody_cong: "tb_instances db' = tb_instances db \<Longrightarrow> custody db' = custody db"
  by (simp add: custody_def fun_eq_iff)

lemma custody_writes [simp]:
  "custody (save_operation op db) = custody db" "custody (save_checkpoint opid state db) = custody db"
  "custody (save_receipt opid receipt db) = custody db" "custody (save_policy p db) = custody db"
  by (rule custody_cong; simp add: save_checkpoint_def save_receipt_def save_policy_def)+

lemma custody_insert_operation: "insert_operation op fp db = Inr db' \<Longrightarrow> custody db' = custody db"
  by (rule custody_cong) (auto simp: insert_operation_iff)

lemma custody_insert_instance:
  assumes "insert_instance i v db = Inr db'"
  shows "custody db i = None" "custody db' j = (if j = i then Some (ship_view v) else custody db j)"
  using insert_instance_row(1,2) [OF assms] by (simp_all add: custody_def)

lemma custody_retire [simp]: "custody (retire_instance op db) i = (if i = op_instance op then None else custody db i)"
  by (simp add: custody_def)

lemma custody_row: "inst_of db i = Some v \<Longrightarrow> custody db i = Some (ship_view v)"
  by (simp add: custody_def)

lemma find_snoc: "find P rs = None \<Longrightarrow> find P (rs @ [r]) = (if P r then Some r else None)"
  by (induction rs) (auto split: if_split_asm)

lemma kind_of_insert:
  assumes "insert_operation op fp db = Inr db'"
  shows "kind_of db' (op_id op) = Some (op_kind op)"
  using assms by (auto simp: insert_operation_iff kind_of_def ops.row_of_def op_key_def find_snoc)

lemma kind_of_cong: "tb_operations db' = tb_operations db \<Longrightarrow> kind_of db' = kind_of db"
  by (simp add: kind_of_def fun_eq_iff)

lemma kind_of_save [simp]: "kind_of (save_instance w db) = kind_of db" "kind_of (save_policy p db) = kind_of db"
  by (rule kind_of_cong; simp add: save_policy_def)+

lemma kind_of_receipt [simp]: "kind_of (save_receipt opid receipt db) = kind_of db"
proof -
  have "op_key (if op_id (ow_op r) = opid then r\<lparr>ow_receipt := Some receipt\<rparr> else r) = op_key r" for r :: "'a op_row"
    by (simp add: op_key_def)
  from ops.row_of_map [OF this] show ?thesis
    by (simp add: fun_eq_iff kind_of_def save_receipt_def option.map_comp comp_def if_distrib [where f = ow_op]
        if_distrib [where f = op_kind] cong: if_cong)
qed

text \<open>An operation keeps its kind.\<close>

lemma kind_of_kept:
  assumes "ledger_ok db'" "forward db db'" "kind_of db a = Some k"
  shows "kind_of db' a = Some k"
proof -
  obtain r where r: "r \<in> set (tb_operations db)" "op_id (ow_op r) = a" "op_kind (ow_op r) = k"
    using assms(3) by (auto simp: kind_of_def op_key_def dest: ops.row_of_set)
  obtain s where s: "s \<in> set (tb_operations db')" "kept r s" using assms(2) r(1) by (auto simp: forward_def)
  then have "op_id (ow_op s) = a" "op_kind (ow_op s) = k" using r(2,3) by (simp_all add: kept_def same_receipt_def)
  have "ops.row_of (tb_operations db') a = Some s"
    using s(1) \<open>op_id (ow_op s) = a\<close> assms(1) by (simp add: ledger_ok_def rows_ok_def ops.row_of_iff op_key_def)
  then show ?thesis using \<open>op_kind (ow_op s) = k\<close> by (simp add: kind_of_def)
qed

end
