(* ===== verification/LedgerTurns.thy ===== *)
theory LedgerTurns
  imports LedgerCustody
begin

text \<open>
  Every step of the store refines the specification of custody (\<open>turn\<close> of \<open>LedgerCustody\<close>), operation
  by operation.
\<close>

section \<open>Admission and registration\<close>

lemma ship_view_simps [simp]:
  "ship_view (v\<lparr>sv_startup := x\<rparr>) = ship_view v" "ship_view (v\<lparr>sv_runtime_revision := n\<rparr>) = ship_view v"
  by (simp_all add: ship_view_def)

text \<open>A new operation on a ship that had none.\<close>

lemma turns_open:
  assumes "inst_of db i = Some v" "in_active (sv_public v) = ''''" "insert_operation op fp db = Inr db1" "in_id (sv_public w) = i"
    and "in_active (sv_public w) = op_id op" "same_move (vm_handoff (sv_runtime v)) (vm_handoff (sv_runtime w))"
    and "may_open (op_kind op) (vm_handoff (sv_runtime w))"
    and settled: "\<And>j. settled l j"
  shows "turns l db (save_instance w db1)"
proof (rule turns_one [of i])
  have c: "custody db1 = custody db" by (rule custody_insert_operation [OF assms(3)])
  show "custody (save_instance w db1) j = custody db j" if "j \<noteq> i" for j using that assms(4) by (simp add: c)
  show "settled l j" for j by (rule settled)
  have "turn l i (kind_of db1) (Some (vm_handoff (sv_runtime v), '''')) (Some (vm_handoff (sv_runtime w), op_id op))"
    using settled assms(6,7) kind_of_insert [OF assms(3)] by (auto intro: turn_idle)
  then show "turn l i (kind_of (save_instance w db1)) (custody db i) (custody (save_instance w db1) i)"
    using assms(2,4,5) custody_row [OF assms(1)] by (simp add: c ship_view_def)
qed

lemma turns_keep:
  assumes "custody db' = custody db"
    and settled: "\<And>j. settled l j"
  shows "turns l db db'"
  using assms by (simp add: turns_def)

lemma turns_save:
  assumes "inst_of db i = Some v" "in_id (sv_public w) = i" "same_move (vm_handoff (sv_runtime v)) (vm_handoff (sv_runtime w))"
    and "in_active (sv_public w) = in_active (sv_public v) \<or> in_active (sv_public w) = ''''"
    and "custody db' = custody (save_instance w db)"
    and settled: "\<And>j. settled l j"
  shows "turns l db db'"
proof (rule turns_one [of i])
  show "custody db' j = custody db j" if "j \<noteq> i" for j using that assms(2) by (simp add: assms(5))
  have "turn l i (kind_of db') (Some (ship_view v)) (Some (ship_view w))"
    unfolding ship_view_def by (rule turn_idle [OF settled]) (use assms(3,4) in auto)
  then show "turn l i (kind_of db') (custody db i) (custody db' i)"
    using assms(2) custody_row [OF assms(1)] by (simp add: assms(5))
qed (rule settled)

lemma turns_arrive:
  assumes "insert_instance i v db = Inr db1" "vm_handoff (sv_runtime v) = None" "custody db' = custody db1"
    and settled: "\<And>j. settled l j"
  shows "turns l db db'"
proof (rule turns_one [of i])
  show "custody db' j = custody db j" if "j \<noteq> i" for j using that custody_insert_instance(2) [OF assms(1)] assms(3) by simp
  show "turn l i (kind_of db') (custody db i) (custody db' i)"
    using custody_insert_instance [OF assms(1)] assms(2,3) by (simp add: ship_view_def turn_arrive settled)
qed (rule settled)

lemma accept_turns:
  assumes "accept env actor i req db = Inr (op, dup, db')"
  shows "turns Quiet db db'"
proof (cases "replay actor (oq_request req) (Operate i req) db")
  case (Some r)
  then show ?thesis using assms by (auto simp: accept_def)
next
  case None
  with assms obtain v key db1 where
    v: "load_instance i db = Inr v" "admission_refused env i req v db = None"
    and op: "op = new_operation key (oq_request req) i (oq_kind req) actor (oq_expected req) (en_now env 1)"
    and db1: "insert_operation op (Operate i req) db = Inr db1" "db' = save_instance (accepted_instance req (op_id op) v) db1"
    by (auto simp: accept_def Let_def)
  have "\<not> vm_fenced (sv_runtime v)"
    using v(2) by (simp add: admission_refused_def instance_idle_def Let_def del: refuse.simps first_fault.simps)
  then have "may_open k (vm_handoff (sv_runtime v))" for k by (auto simp: fenced_def may_open_def split: option.splits)
  moreover have "vm_handoff (staged_runtime req s) = vm_handoff s" for s :: "'a managed_state" by (simp add: staged_runtime_def)
  ultimately show ?thesis using load_instance_Inr [OF v(1)] admission_idle [OF v(2)] unfolding db1(2)
    by (intro turns_open [OF _ _ db1(1)]) (auto simp: accepted_instance_def)
qed

lemma configure_turns:
  assumes "configure env actor i req db = Inr (p, db')"
  shows "turns Quiet db db'"
proof (cases "db' = db")
  case False
  then obtain v op fp where v: "load_instance i db = Inr v"
    and ins: "insert_operation op fp (save_instance (reconfigured (wanted_config req v) v) db) = Inr db'"
    using assms unfolding configure_def guard_Inr attempt_Inr Let_def by (auto split: if_split_asm)
  show ?thesis
    by (rule turns_save [of _ i v "reconfigured (wanted_config req v) v"])
      (use load_instance_Inr [OF v] custody_insert_operation [OF ins] in \<open>simp_all add: reconfigured_def\<close>)
qed simp

lemma register_turns:
  assumes "register_kind_replay env actor req source comet replay_only db = Inr (op, dup, db')"
  shows "turns Quiet db db'"
proof (cases "db' = db")
  case False
  have new: "turns Quiet db db'" if n: "register_new env actor r s c fake location fp db = Inr (op, db')" for r s c fake location fp op
  proof -
    from n obtain v db1 w where v: "insert_instance (cq_id r) v db = Inr db1" "vm_handoff (sv_runtime v) = None"
      and d: "insert_operation op fp (if s = None then db1 else save_instance w db1) = Inr db'"
      and w: "in_id (sv_public w) = cq_id r" "sv_runtime w = sv_runtime v"
      unfolding register_new_def attempt_Inr Let_def
      by (auto simp: registered_instance_def registered_runtime_def new_managed_def zero_public_def Let_def)
    show ?thesis
    proof (cases "s = None")
      case True
      then show ?thesis using turns_arrive [OF v] custody_insert_operation [OF d] by simp
    next
      case False
      then have d': "insert_operation op fp (save_instance w db1) = Inr db'" using d by (simp only: if_False)
      show ?thesis
        by (rule turns_arrive [OF insert_instance_save [OF v(1) w(1)]])
          (use v(2) w(2) custody_insert_operation [OF d'] in simp_all)
    qed
  qed
  show ?thesis using assms False new unfolding register_kind_replay_def register_or_replay_def Let_def
    by (auto split: option.splits if_split_asm)
qed simp

lemma register_ship_turns:
  assumes "register_ship env printable stage actor req0 replay_only db = Inr (op, dup, db', staged)"
  shows "turns Quiet db db'"
proof (cases "db' = db")
  case False
  obtain req1 key where p: "prepared_ship printable req0 = Inr (req1, key)" using assms by (auto simp: register_ship_def)
  have r: "replay actor (sq_request req1) (RegisterShip req1 (sha256_hex key)) db = None"
    using assms False p by (auto simp: register_ship_def Let_def split: option.splits)
  obtain req n uuid db1 o' where
    ins: "insert_instance (sq_id req) (ship_instance req (sha256_hex key) uuid n) db = Inr db1"
      "insert_operation o' (RegisterShip req1 (sha256_hex key)) db1 = Inr db'"
    using assms unfolding register_ship_def p Let_def attempt_Inr guard_Inr by (auto simp: r)
  show ?thesis
    by (rule turns_arrive [OF ins(1)])
      (use custody_insert_operation [OF ins(2)] in \<open>simp_all add: ship_instance_def new_managed_def Let_def\<close>)
qed simp

lemma enroll_turns:
  assumes "enroll_pier env actor req source fp external identify db = Inr (op, db')"
  shows "turns Quiet db db'"
proof -
  have h: "vm_handoff (sv_runtime (enrolled_instance env req source external identify o' now v)) = vm_handoff (sv_runtime v)"
    for o' now and v :: "('a, 'b) stored_instance"
    by (auto simp: enrolled_instance_def Let_def located_def reviewed_import_def apply_observation_def split: option.split)
  from enroll_parts [OF assms] obtain v key op1 w db1 where v: "(if eq_relink req
              then attempt (load_instance (eq_id req) db) (\<lambda>v. guard (relink_refused req source v) (Inr v))
              else new_enrollment env req source db) = Inr v"
    and "op1 = (let o' = new_operation key (eq_request req) (eq_id req) (enrollment_kind req external) actor (in_revision (sv_public v)) (en_now env 0)
       in if eq_relink req then o'\<lparr>op_status := ''succeeded'', op_finished := Some (en_now env 0)\<rparr> else o')"
    and w: "w = enrolled_instance env req source external identify (op_id op1) (en_now env 0) v"
      "(if eq_relink req then Inr (save_instance w db) else insert_instance (eq_id req) w db) = Inr db1"
    and o: "insert_operation op1 fp db1 = Inr db'" .
  note c = custody_insert_operation [OF o]
  show ?thesis
  proof (cases "eq_relink req")
    case True
    then have l: "load_instance (eq_id req) db = Inr v" and d: "db1 = save_instance w db" using v w by auto
    show ?thesis
      by (rule turns_save [of _ "eq_id req" v w])
        (use load_instance_Inr [OF l] c d True in \<open>simp_all add: enrolled_identity w(1) h\<close>)
  next
    case False
    with v have n: "new_enrollment env req source db = Inr v" by simp
    then have "vm_handoff (sv_runtime v) = None"
      by (auto simp: new_enrollment_def enrolled_runtime_def new_managed_def Let_def split: prod.splits if_split_asm)
    with False w c show ?thesis by (intro turns_arrive [of "eq_id req" w]) (simp_all add: h)
  qed
qed

lemma serve_piers_turns:
  assumes "serve_piers env actor req sources db = Inr (op, dup, db')"
  shows "turns Quiet db db'"
proof (cases "db' = db")
  case False
  then obtain source op' where "enroll_pier env actor req source (EnrollPier req) None False db = Inr (op', db')"
    using assms unfolding serve_piers_def by (auto split: option.splits sum.splits)
  then show ?thesis by (rule enroll_turns)
qed simp

lemma begin_turns:
  assumes "begin_operation opid db = Inr (op, w, db')"
  shows "turns Quiet db db'"
proof -
  obtain r v where "load_operation opid db = Inr r" and v: "load_instance (op_instance (ow_op r)) db = Inr v" and o: "w = begun_instance op v" "db' = save_instance w (save_operation op db)"
    using assms by (auto simp: begin_operation_def Let_def split: sum.splits if_split_asm option.splits)
  have "same_identity v w" "in_active (sv_public w) = in_active (sv_public v)" "vm_handoff (sv_runtime w) = vm_handoff (sv_runtime v)"
    using begun_identity [where v = v and op = op] by (simp_all add: o(1)) (simp add: begun_instance_def Let_def)
  then show ?thesis using load_instance_Inr [OF v]
    by (intro turns_save [of _ "op_instance (ow_op r)" v w]) (simp_all add: o(2) same_identity_def fun_eq_iff)
qed

text \<open>The record of a ship is written by a worker, the poll, or a claim.\<close>

lemma turns_write:
  assumes "inst_of db i = Some v" "in_id (sv_public w) = i" "custody db' = custody (save_instance w db)"
    and "same_move (vm_handoff state) (vm_handoff (sv_runtime w))"
    and "in_active (sv_public v) \<noteq> '''' \<and> kind_of db' (in_active (sv_public v)) = Some k
        \<and> (in_active (sv_public w) = in_active (sv_public v) \<or> in_active (sv_public w) = '''')
      \<or> in_active (sv_public v) = '''' \<and> k \<in> {''observe'', ''startup-resume''}
        \<and> (in_active (sv_public w) = '''' \<or> kind_of db' (in_active (sv_public w)) = Some ''startup-resume'')"
  shows "turns (Wrote k i state) db db'"
proof (rule turns_one [of i])
  show "custody db' j = custody db j" if "j \<noteq> i" for j using that assms(2) by (simp add: assms(3))
  have "turn (Wrote k i state) i (kind_of db') (Some (ship_view v)) (Some (ship_view w))"
    using assms(5) turn_work [OF refl assms(4)] turn_poll [OF refl _ assms(4)] unfolding ship_view_def by auto
  then show "turn (Wrote k i state) i (kind_of db') (custody db i) (custody db' i)"
    using assms(2) custody_row [OF assms(1)] by (simp add: assms(3))
qed simp

lemma runtime_update_turns:
  assumes "ledger_ok db" "kind_of db opid = Some k" "opid \<noteq> ''''" "runtime_update i opid state db = Inr db'"
  shows "turns (Wrote k i state) db db'"
proof -
  let ?u = "\<lambda>v. update_import_report (v\<lparr>sv_runtime := state, sv_runtime_revision := sv_runtime_revision v + 1\<rparr>)"
  let ?w = "\<lambda>v. (?u v)\<lparr>sv_public := (sv_public (?u v))\<lparr>in_routine := vm_routine state\<rparr>\<rparr>"
  obtain v r where v: "load_instance i db = Inr v" "in_active (sv_public v) = opid" and r: "load_operation opid db = Inr r"
    and d: "if op_kind (ow_op r) = ''recover-import'' then db' = db else db' = save_checkpoint opid state (save_instance (?w v) db)"
    using assms(4) unfolding runtime_update_def Let_def by (auto split: if_split_asm)
  have k: "op_kind (ow_op r) = k" using r assms(2) by (simp add: kind_of_def load_operation_iff)
  have k': "kind_of db' opid = Some k"
    using kind_of_kept [OF _ _ assms(2)] runtime_update_sound [OF assms(1,4)] by (simp add: sound_step_def)
  show ?thesis
  proof (cases "k = ''recover-import''")
    case True
    then show ?thesis using d k by simp
  next
    case False
    then show ?thesis using load_instance_Inr [OF v(1)] v(2) d k k' assms(3)
      by (intro turns_write [of _ i v "?w v"]) simp_all
  qed
qed

lemma observed_handoff [simp]: "vm_handoff (sv_runtime (apply_observation env v ob now)) = vm_handoff (sv_runtime v)"
  "vm_handoff (sv_runtime (record_healthy_boot env v)) = vm_handoff (sv_runtime v)"
  by (simp_all add: apply_observation_def record_healthy_boot_def Let_def)

lemma handoff_error_move: "same_move (vm_handoff (sv_runtime v)) (vm_handoff (sv_runtime (handoff_error m v)))"
  by (simp add: handoff_error_def same_move_def split: option.split)

lemma finished_handoff: "same_move (vm_handoff state) (vm_handoff (sv_runtime (finished_instance env op state ob cause now v)))"
proof -
  have "same_move (vm_handoff (sv_runtime w)) (vm_handoff (sv_runtime (failed_instance c op prior ob w)))"
    for c prior and w :: "('a, 'b) stored_instance"
    by (simp add: handoff_error_move failed_instance_def Let_def)
  from this [of "apply_observation env (v\<lparr>sv_runtime := state, sv_runtime_revision := sv_runtime_revision v + 1,
                sv_public := (sv_public v)\<lparr>in_active := ''''\<rparr>\<rparr>) ob now"]
  show ?thesis by (simp add: finished_instance_def Let_def split: option.split)
qed

lemma observe_turns:
  assumes "observe env v state ob db = Inr db'"
  shows "turns (Wrote ''observe'' (in_id (sv_public v)) state) db db'"
proof (cases "db' = db")
  case False
  let ?w = "\<lambda>u. record_healthy_boot env (apply_observation env
            (u\<lparr>sv_runtime := state, sv_runtime_revision := sv_runtime_revision u + 1\<rparr>) ob (en_now env 0))"
  obtain u where u: "load_instance (in_id (sv_public v)) db = Inr u" "in_active (sv_public u) = ''''" and s: "vm_id state = vm_id (sv_runtime u)" and d: "db' = save_instance (?w u) db"
    using assms False by (auto simp: observe_def split: sum.splits fault.splits if_split_asm)
  have "same_identity u (u\<lparr>sv_runtime := state, sv_runtime_revision := sv_runtime_revision u + 1\<rparr>)" using s by (simp add: same_identity_def)
  then have "same_identity u (?w u)" by (meson observation_identity(1,3) same_identity_trans)
  then show ?thesis using load_instance_Inr [OF u(1)] u(2)
    by (intro turns_write [of _ _ u "?w u"]) (simp_all add: d observation_identity(2,4) same_identity_def)
qed simp

lemma kind_of_row:
  assumes "ledger_ok db" "old \<in> ow_op ` set (tb_operations db)"
  shows "kind_of db (op_id old) = Some (op_kind old)"
proof -
  obtain r where r: "r \<in> set (tb_operations db)" "old = ow_op r" using assms(2) by blast
  then have "ops.row_of (tb_operations db) (op_id old) = Some r"
    using assms(1) by (simp add: ledger_ok_def rows_ok_def ops.row_of_iff op_key_def)
  then show ?thesis by (simp add: kind_of_def r(2))
qed

lemma finish_turns:
  assumes "ledger_ok db" "old \<in> ow_op ` set (tb_operations db)" "same_receipt old op" "op_kind op = op_kind old"
    and "finish env op state ob cause interrupted db = Inr db'"
  shows "turns (Wrote (op_kind op) (op_instance op) state) db db'"
proof -
  let ?cause = "final_cause (op_kind op) cause interrupted"
  let ?opf = "\<lambda>op1. case ?cause of None \<Rightarrow> op1\<lparr>op_status := ''succeeded'', op_finished := Some (en_now env 0)\<rparr>
    | Some c \<Rightarrow> failed_operation c interrupted (op1\<lparr>op_status := ''succeeded'', op_finished := Some (en_now env 0)\<rparr>)"
  let ?w = "\<lambda>v s1 op1. finished_instance env (?opf op1) (routine_ended op1 ?cause interrupted (en_now env 0) s1) ob ?cause (en_now env 0) v"
  obtain v s1 op1 where v: "load_instance (op_instance op) db = Inr v" "in_active (sv_public v) = op_id op"
    and s: "vm_id (sv_runtime v) = vm_id state"
    and f1: "finished_state op v state ob ?cause = Inr (s1, op1)"
    and d: "db' = save_operation (?opf op1) (if op_kind (?opf op1) \<in> {''delete-pier'', ''restore-import''} \<and> ?cause = None
        then retire_instance (?opf op1) db else save_instance (?w v s1 op1) db)"
    using assms(5) unfolding finish_def Let_def guard_Inr attempt_Inr by (auto split: if_split_asm)
  define opf where "opf = ?opf op1"
  from d have d: "db' = save_operation opf (if op_kind opf \<in> {''delete-pier'', ''restore-import''} \<and> ?cause = None
        then retire_instance opf db else save_instance (finished_instance env opf (routine_ended op1 ?cause interrupted (en_now env 0) s1)
          ob ?cause (en_now env 0) v) db)" unfolding opf_def .
  have f: "op_kind opf = op_kind op" "op_instance opf = op_instance op" "op_id opf = op_id op"
    using finished_state_receipt [OF f1]
    by (auto simp: opf_def failed_operation_def same_receipt_def split: option.split)
  note row = load_instance_Inr [OF v(1)]
  have id: "op_id op \<noteq> ''''" "kind_of db' (op_id op) = Some (op_kind op)"
  proof -
    show "op_id op \<noteq> ''''" using assms(1-3) by (auto simp: ledger_ok_def rows_ok_def same_receipt_def)
    show "kind_of db' (op_id op) = Some (op_kind op)"
      using kind_of_kept [OF _ _ kind_of_row [OF assms(1,2)]] finish_sound [OF assms] assms(3,4)
      by (simp add: sound_step_def same_receipt_def)
  qed
  show ?thesis
  proof (cases "op_kind opf \<in> {''delete-pier'', ''restore-import''} \<and> ?cause = None")
    case True
    have db': "db' = save_operation opf (retire_instance opf db)" using d unfolding if_P [OF True] .
    show ?thesis
    proof (rule turns_one [of "op_instance op"])
      show "custody db' j = custody db j" if "j \<noteq> op_instance op" for j using that by (simp add: db' f)
      show "turn (Wrote (op_kind op) (op_instance op) state) (op_instance op) (kind_of db') (custody db (op_instance op)) (custody db' (op_instance op))"
        using custody_row [of db "op_instance op" v] row v(2) id True f by (auto simp: db' ship_view_def intro: turn_retire)
    qed simp
  next
    case False
    let ?v = "finished_instance env opf (routine_ended op1 ?cause interrupted (en_now env 0) s1) ob ?cause (en_now env 0) v"
    have db': "db' = save_operation opf (save_instance ?v db)" using d unfolding if_not_P [OF False] .
    have "vm_id s1 = vm_id (sv_runtime v)" using finished_state_receipt [OF f1] s by auto
    then have w: "in_id (sv_public ?v) = op_instance op" "in_active (sv_public ?v) = ''''"
      using row finished_identity [where v = v and state = "routine_ended op1 ?cause interrupted (en_now env 0) s1"]
      by (simp_all add: same_identity_def)
    have "vm_handoff (routine_ended op1 ?cause interrupted (en_now env 0) s1) = vm_handoff s1" by (simp add: routine_ended_def)
    then have m: "same_move (vm_handoff s1) (vm_handoff (sv_runtime ?v))" using finished_handoff by metis
    from f1 consider "s1 = state" | "s1 = sv_runtime v" "op_kind op \<in> {''restore-import'', ''recover-import''}"
      by (auto simp: finished_state_def split: if_split_asm option.splits)
    then show ?thesis
    proof cases
      case 1
      then show ?thesis using m row w v(2) id by (intro turns_write [of _ _ v ?v]) (simp_all add: db')
    next
      case 2
      then show ?thesis using m row w by (intro turns_save [of _ "op_instance op" v ?v]) (auto simp: db' fun_eq_iff)
    qed
  qed
qed

lemma begin_refused_turns:
  assumes "ledger_ok db" "begin_refused env opid db = Some (Inr db')"
  shows "turns Quiet db db'"
proof -
  obtain st code m rv op v where b: "begin_operation opid db = Inl (Problem st code m rv, Some (op, v))"
    and f: "finish env op (sv_runtime v) no_observation (Some \<lparr>rx_text = m, rx_host = False\<rparr>) False db = Inr db'"
    using assms(2) by (auto simp: begin_refused_def split: sum.splits prod.splits fault.splits option.splits if_split_asm)
  from b have o: "op \<in> ow_op ` set (tb_operations db)" and v: "load_instance (op_instance op) db = Inr v"
    by (auto simp: begin_operation_def Let_def load_operation_iff split: sum.splits if_split_asm option.splits dest: ops.row_of_set)
  let ?c = "Some \<lparr>rx_text = m, rx_host = False\<rparr>"
  let ?opf = "failed_operation \<lparr>rx_text = m, rx_host = False\<rparr> False (op\<lparr>op_status := ''succeeded'', op_finished := Some (en_now env 0)\<rparr>)"
  let ?w = "finished_instance env ?opf (routine_ended op ?c False (en_now env 0) (sv_runtime v)) no_observation ?c (en_now env 0) v"
  have fs: "finished_state op v (sv_runtime v) no_observation ?c = Inr (sv_runtime v, op)" by (simp add: finished_state_def)
  have d: "db' = save_operation ?opf (save_instance ?w db)"
    using f v fs by (auto simp: finish_def final_cause_def Let_def split: if_split_asm)
  have "same_identity v ?w" "in_active (sv_public ?w) = ''''" by (simp_all add: finished_identity)
  moreover have "same_move (vm_handoff (sv_runtime v)) (vm_handoff (sv_runtime ?w))"
  proof -
    have "vm_handoff (routine_ended op ?c False (en_now env 0) (sv_runtime v)) = vm_handoff (sv_runtime v)" by (simp add: routine_ended_def)
    then show ?thesis using finished_handoff by metis
  qed
  ultimately show ?thesis using load_instance_Inr [OF v]
    by (intro turns_save [of _ "op_instance op" v ?w]) (simp_all add: d fun_eq_iff same_identity_def)
qed

lemma interrupted_handoff: "same_move (vm_handoff (sv_runtime v)) (vm_handoff (sv_runtime (interrupted_instance r now v)))"
proof -
  have k: "vm_handoff (interrupted_runtime r w now) = vm_handoff (sv_runtime w)" for w :: "('a, 'b) stored_instance"
    by (simp add: interrupted_runtime_def Let_def)
  show ?thesis using handoff_error_move [of v] by (simp add: interrupted_instance_def Let_def k)
qed

lemma reconcile_absent:
  assumes "ledger_ok db" "reconcile_interrupted env db = Inr db'" "inst_of db i = None"
  shows "inst_of db' i = None"
proof -
  have one: "reconcile_one now v d = Inr d' \<Longrightarrow> inst_of d i = None \<Longrightarrow> inst_of d' i = None" for now d d' and v :: "('a, 'b) stored_instance"
    by (auto simp: reconcile_one_def split: if_split_asm)
  have "reconcile_all env n vs d = Inr d' \<Longrightarrow> inst_of d i = None \<Longrightarrow> inst_of d' i = None" for n d d' and vs :: "('a, 'b) stored_instance list"
    by (induction vs arbitrary: n d) (auto dest: one)
  then show ?thesis using assms(2,3) by (auto simp: reconcile_interrupted_def)
qed

lemma reconcile_turns:
  assumes "ledger_ok db" "reconcile_interrupted env db = Inr db'"
  shows "turns Quiet db db'"
  unfolding turns_def
proof
  fix i
  have s: "sound_step db db'" "\<forall>i v. inst_of db i = Some v \<longrightarrow> settles db db' v" using reconcile_ok [OF assms(1), of env] assms(2) by auto
  show "turn Quiet i (kind_of db') (custody db i) (custody db' i)"
  proof (cases "inst_of db i")
    case (Some v)
    have "in_id (sv_public v) = i" using assms(1) Some by (simp add: ledger_ok_def rows_ok_def)
    moreover have "settles db db' v" using s(2) Some by blast
    ultimately consider "inst_of db' i = Some v" | r now where "inst_of db' i = Some (interrupted_instance r now v)"
      unfolding settles_def left_interrupted_def by (metis (no_types))
    then show ?thesis
    proof cases
      case 1
      then show ?thesis using Some by (simp add: custody_def)
    next
      case 2
      then show ?thesis using Some interrupted_identity(2) interrupted_handoff
        by (auto simp: custody_def ship_view_def intro!: turn_idle)
    qed
  next
    case None
    have "inst_of db' i = None" using reconcile_absent [OF assms None] .
    then show ?thesis using None by (simp add: custody_def turn_absent)
  qed
qed

lemma startup_candidates_turns:
  assumes "ledger_ok db" "startup_candidates env db = Inr (found, db')"
  shows "turns Quiet db db'"
proof (cases "boot_id_ok (en_boot env)")
  case False
  then show ?thesis using assms by (simp add: startup_candidates_def)
next
  case True
  obtain all where all: "instances db = Inr all" "found = List.map_filter (startup_candidate (en_boot env)) all" "db' = fold save_instance found db"
    using assms(2) True by (auto simp: startup_candidates_def Let_def)
  have keep: "custody (fold save_instance ws d) = custody d" if "\<forall>w\<in>set ws. custody d (in_id (sv_public w)) = Some (ship_view w)"
    for ws and d :: "('a, 'b) tables"
    using that
  proof (induction ws arbitrary: d)
    case (Cons w ws)
    have e: "custody (save_instance w d) = custody d" using Cons.prems by (simp add: fun_eq_iff)
    show ?case using Cons.IH [of "save_instance w d"] Cons.prems by (simp add: e)
  qed simp
  have "custody db (in_id (sv_public w)) = Some (ship_view w)" if "w \<in> set found" for w
  proof -
    from that obtain v where v: "v \<in> set all" "startup_candidate (en_boot env) v = Some w" by (auto simp: all(2) map_filter_def)
    have "ship_view w = ship_view v" "in_id (sv_public w) = in_id (sv_public v)"
      using v(2) by (auto simp: startup_candidate_def Let_def split: if_split_asm)
    then show ?thesis using custody_row [OF instances_rows(2) [OF assms(1) all(1) v(1)]] by simp
  qed
  then show ?thesis using keep [of found db] by (intro turns_keep) (simp_all add: all(3))
qed

lemma dismiss_turns:
  assumes "dismiss_startup env prior db = Inr db'"
  shows "turns Quiet db db'"
proof (cases "db' = db")
  case False
  then obtain v where v: "load_instance (in_id (sv_public prior)) db = Inr v"
    "db' = save_instance (v\<lparr>sv_startup := None, sv_runtime_revision := sv_runtime_revision v + 1\<rparr>) db"
    using assms by (auto simp: dismiss_startup_def split: sum.splits fault.splits if_split_asm)
  then show ?thesis using load_instance_Inr [OF v(1)]
    by (intro turns_save [of _ _ v "v\<lparr>sv_startup := None, sv_runtime_revision := sv_runtime_revision v + 1\<rparr>"]) simp_all
qed simp

lemma claim_startup_turns:
  assumes "claim_startup env prior state0 ob boot db = Inr (result, claimed, db')"
  shows "turns (Wrote ''startup-resume'' (in_id (sv_public prior)) state0) db db'"
proof (cases "db' = db")
  case False
  let ?s = "authorize_startup_state prior state0"
  let ?request = "startup_request (vm_id ?s) boot" and ?fp = "StartupResume (vm_id ?s) boot"
  have r: "replay ''system:startup'' ?request ?fp db = None"
    using assms False by (auto simp: claim_startup_def Let_def split: if_split_asm option.splits)
  let ?op = "\<lambda>v key m. (new_operation key ?request (in_id (sv_public v)) ''startup-resume'' ''system:startup''
          (in_revision (sv_public v)) (en_now env 1))\<lparr>op_message := m\<rparr>"
  obtain v key db1 m where v: "load_instance (in_id (sv_public prior)) db = Inr v"
    and same: "startup_authorized v boot"
    and d: "insert_operation (?op v key m) ?fp db = Inr db1" "db' = save_instance (claimed_instance (''op-'' @ key) ?s v) db1"
    using assms False unfolding claim_startup_def Let_def r
    by (auto split: if_split_asm sum.splits fault.splits)
  have idle: "in_active (sv_public v) = ''''" using same by (simp add: startup_authorized_def startup_eligible_def)
  let ?w = "claimed_instance (''op-'' @ key) ?s v"
  have "kind_of db' (''op-'' @ key) = Some ''startup-resume''"
    using kind_of_insert [OF d(1)] by (simp add: d(2) new_operation_def)
  then show ?thesis using load_instance_Inr [OF v] idle custody_insert_operation [OF d(1)]
    by (intro turns_write [of _ _ v ?w]) (simp_all add: d(2) claimed_instance_def authorize_startup_state_def fun_eq_iff)
qed simp

lemma put_routine_turns:
  assumes "put_routine env actor i req db = Inr (p, db')"
  shows "turns Quiet db db'"
proof -
  obtain q op fp where "insert_operation op fp (save_policy q db) = Inr db'"
    using assms unfolding put_routine_def Let_def guard_Inr attempt_Inr by fastforce
  from custody_insert_operation [OF this] show ?thesis by (intro turns_keep) simp_all
qed

lemma claim_routine_turns:
  assumes "claim_routine env i now authorized db = Inr (result, claimed, db')"
  shows "turns Quiet db db'"
proof (cases "db' = db")
  case False
  from claim_routine_parts [OF assms this] obtain slot p v key op fp db2 q where c: "load_instance i db = Inr v" "op_id op = ''op-'' @ key"
    "op_instance op = i" "op_revision op = in_revision (sv_public v)" "op_kind op = ''routine-'' @ rc_action (rp_config (sr_policy p))"
    "unfinished op \<and> in_active (sv_public v) = '''' \<and> insert_operation op fp (save_instance (slot_instance (op_id op) slot p v) db) = Inr db2
      \<or> \<not> unfinished op \<and> insert_operation op fp db = Inr db2" "db' = save_policy q db2" .
  let ?w = "slot_instance (op_id op) slot p v"
  note row = load_instance_Inr [OF c(1)]
  have kind: "turns Quiet db db2 \<Longrightarrow> turns Quiet db db'" by (simp add: c(7) turns_def)
  from c(6) show ?thesis
  proof (elim disjE conjE)
    assume idle: "in_active (sv_public v) = ''''" and ins: "insert_operation op fp (save_instance ?w db) = Inr db2"
    from insert_save_commute [OF ins] obtain db1 where i: "insert_operation op fp db = Inr db1" "db2 = save_instance ?w db1" by blast
    show ?thesis
      by (rule kind, unfold i(2), rule turns_open [OF _ idle i(1)])
        (use row c(5) in \<open>auto simp: slot_instance_def may_open_def Let_def split: option.split\<close>)
  next
    assume "insert_operation op fp db = Inr db2"
    from custody_insert_operation [OF this] show ?thesis by (intro turns_keep) (simp_all add: c(7))
  qed
qed simp

section \<open>Moves\<close>

lemma handoff_operation_view:
  assumes "handoff_operation env n actor kind request h v db = Inr (op, g, db')" "custody db (in_id (sv_public v)) \<noteq> None"
  shows "custody db' = (custody db)(in_id (sv_public v) \<mapsto> (Some (h\<lparr>hf_error := ''''\<rparr>), op_id op))" "kind_of db' (op_id op) = Some kind"
proof -
  let ?w = "moving_instance (op_id op) h v"
  have ins: "insert_operation op (HandoffWork (hf_id h) kind) (save_instance ?w db) = Inr db'" and k: "op_kind op = kind"
    using assms(1) by (auto simp: handoff_operation_def Let_def new_operation_def split: option.splits)
  have "in_id (sv_public ?w) = in_id (sv_public v)" "ship_view ?w = (Some (h\<lparr>hf_error := ''''\<rparr>), op_id op)"
    by (simp_all add: moving_instance_def set_handoff_def ship_view_def Let_def)
  then show "custody db' = (custody db)(in_id (sv_public v) \<mapsto> (Some (h\<lparr>hf_error := ''''\<rparr>), op_id op))"
    using custody_insert_operation [OF ins] assms(2) by (auto simp: fun_eq_iff)
  show "kind_of db' (op_id op) = Some kind" using kind_of_insert [OF ins] by (simp add: k)
qed

lemma handoff_operation_turns:
  assumes "handoff_operation env n actor kind request h v db = Inr (op, g, db')"
    and "inst_of db i = Some u" "in_id (sv_public v) = i"
    and "\<And>K. K (op_id op) = Some kind \<Longrightarrow> turn l i K (Some (ship_view u)) (Some (Some (h\<lparr>hf_error := ''''\<rparr>), op_id op))"
    and settled: "\<And>j. settled l j"
  shows "turns l db db'"
proof (rule turns_one [of i])
  have c: "custody db' = (custody db)(i \<mapsto> (Some (h\<lparr>hf_error := ''''\<rparr>), op_id op))" "kind_of db' (op_id op) = Some kind"
    using handoff_operation_view [OF assms(1)] assms(2,3) by (simp_all add: custody_def)
  show "custody db' j = custody db j" if "j \<noteq> i" for j using that c(1) by simp
  show "turn l i (kind_of db') (custody db i) (custody db' i)"
    using assms(4) [of "kind_of db'", OF c(2)] custody_row [OF assms(2)] c(1) by simp
qed (rule settled)

lemma prepare_turns:
  assumes "prepare_handoff env runner keys actor role i req db = Inr (status, h, op, db')"
  shows "turns (Prepared runner) db db'"
proof (cases "db' = db")
  case False
  obtain v where v: "load_instance i db = Inr v" using assms by (auto simp: prepare_handoff_def)
  note row = load_instance_Inr [OF v]
  let ?old = "case vm_handoff (sv_runtime v) of None \<Rightarrow> None | Some h \<Rightarrow> if hf_direction h = ''out'' then Some h else None"
  show ?thesis
  proof (cases ?old)
    case (Some g)
    then have "prepare_again env actor req v g db = Inr (status, h, op, db')"
      using assms v by (simp add: prepare_handoff_def)
    then obtain o' h' where idle: "in_active (sv_public v) = ''''" "hf_state g = ''preparing''"
      and o: "handoff_operation env 0 actor ''prepare-handoff'' (pq_request req) g v db = Inr (o', h', db')"
      using False by (auto simp: prepare_again_def split: if_split_asm)
    have g: "vm_handoff (sv_runtime v) = Some g" using Some by (auto split: option.splits if_split_asm)
    show ?thesis
      by (rule handoff_operation_turns [OF o conjunct1 [OF row] conjunct2 [OF row]])
        (auto simp: ship_view_def g idle same_move_def may_open_def intro!: turn_idle)
  next
    case None
    let ?g = "\<lambda>key pub. outgoing runner i key pub req (en_now env 0) v"
    have q: "valid_id (pq_runner req)" "pq_runner req \<noteq> runner"
      using assms by (auto simp: prepare_handoff_def split: if_split_asm)
    from None obtain key pub priv o' h' where ref: "prepare_refused v = None"
      and o: "handoff_operation env 1 actor ''prepare-handoff'' (pq_request req) (?g key pub)
         (set_handoff (?g key pub) (v\<lparr>sv_runtime := (sv_runtime v)\<lparr>vm_signing := Slice priv\<rparr>\<rparr>)) db = Inr (o', h', db')"
      using assms v by (auto simp: prepare_handoff_def Let_def)
    have idle: "in_active (sv_public v) = ''''" using ref by (auto simp: prepare_refused_def simp del: refuse.simps)
    have out: "\<not> outbound (vm_handoff (sv_runtime v))" using None by (auto split: option.splits if_split_asm)
    have i: "in_id (sv_public (set_handoff (?g key pub) (v\<lparr>sv_runtime := (sv_runtime v)\<lparr>vm_signing := Slice priv\<rparr>\<rparr>))) = i"
      using row by (simp add: set_handoff_def)
    have n: "new_outgoing runner i ((?g key pub)\<lparr>hf_error := ''''\<rparr>)" using q by (simp add: new_outgoing_def outgoing_def)
    show ?thesis
      by (rule handoff_operation_turns [OF o conjunct1 [OF row] i]) (auto simp: ship_view_def idle intro: turn_prepare [OF refl out n])
  qed
qed simp

lemma record_receipt_view:
  assumes "record_receipt env n v h actor kind request fp status db = Inr db'"
  shows "custody db' = custody db"
proof -
  obtain op db1 where "insert_operation op fp db = Inr db1" "db' = save_receipt (op_id op) (status, h) db1"
    using assms unfolding record_receipt_def attempt_Inr Let_def by auto
  then show ?thesis using custody_insert_operation by simp
qed

lemma record_receipt_turns: "record_receipt env n v h actor kind request fp status db = Inr db' \<Longrightarrow> (\<And>j. settled l j) \<Longrightarrow> turns l db db'"
  by (rule turns_keep) (simp_all add: record_receipt_view)

lemma receive_turns:
  assumes "receive_handoff env runner actor role req db = Inr (status, h, op, db')"
  shows "turns (Received runner (vq_offer req)) db db'"
proof (cases "db' = db")
  case False
  let ?i = "hf_destination_instance (vq_offer req)" and ?fp = "ReserveHandoff req"
  obtain receipt where r: "replay_handoff actor (vq_request req) ?fp db = Inr receipt" using assms by (auto simp: receive_handoff_def)
  have "receipt = None" using assms False by (cases receipt) (auto simp: receive_handoff_def r split: if_split_asm)
  then obtain all n found where ref: "offer_refused runner (en_mode env) (vq_request req) (vq_offer req) = None"
    and rest: "(case found of Some (v, old) \<Rightarrow>
             attempt (record_receipt env 0 v old actor ''reserve-handoff'' (vq_request req) ?fp 200 db) (\<lambda>db.
             Inr (200, old, None, db))
         | None \<Rightarrow> reserve_arrival env actor req n ?fp db) = Inr (status, h, op, db')"
    using assms unfolding receive_handoff_def attempt_Inr guard_Inr r by auto
  show ?thesis
  proof (cases found)
    case (Some x)
    with rest show ?thesis by (cases x) (auto intro: record_receipt_turns)
  next
    case None
    let ?v = "\<lambda>uuid http ames. arriving_instance (reserved_offer (vq_offer req)) uuid http ames n"
    obtain http ames uuid db1 where d: "hf_direction (vq_offer req) = ''out''" "hf_state (vq_offer req) = ''ready''"
      and ins: "insert_instance ?i (?v uuid http ames) db = Inr db1"
      and r: "record_receipt env 1 (?v uuid http ames) (reserved_offer (vq_offer req)) actor ''reserve-handoff'' (vq_request req) ?fp 201 db1 = Inr db'"
      using rest None unfolding reserve_arrival_def Let_def by (auto split: if_split_asm)
    note c = custody_insert_instance [OF ins] record_receipt_view [OF r]
    show ?thesis
    proof (rule turns_one [of ?i])
      show "custody db' j = custody db j" if "j \<noteq> ?i" for j using that c by simp
      show "turn (Received runner (vq_offer req)) ?i (kind_of db') (custody db ?i) (custody db' ?i)"
        using c by (simp add: ship_view_def turn_reserve [OF refl ref d])
    qed simp
  qed
qed simp

lemma control_turns:
  assumes "ledger_ok db" "control_handoff env actor role i verb req db = Inr (status, h, op, db')"
  shows "turns Quiet db db'"
proof (cases "db' = db")
  case False
  then obtain v g kind o' h' where l: "load_handoff i db = Inr (v, g)" and idle: "in_active (sv_public v) = ''''"
    and o: "handoff_operation env 0 actor kind (fq_request req) g v db = Inr (o', h', db')" and k: "kind \<in> {''receive-handoff'', ''commit-handoff''}"
    using assms(2) unfolding control_handoff_def by (auto split: if_split_asm)
  note row = load_handoff_row [OF assms(1) l]
  show ?thesis
    by (rule handoff_operation_turns [OF o row(1) refl]) (use k in \<open>auto simp: ship_view_def row(2) idle same_move_def may_open_def intro!: turn_idle\<close>)
qed simp

lemma activate_turns:
  assumes "ledger_ok db" "activate_handoff verify env actor role i req db = Inr (status, h, op, db')"
  shows "turns (Activated verify i (fq_commitment req)) db db'"
proof (cases "db' = db")
  case False
  then obtain v g where l: "load_handoff i db = Inr (v, g)"
    and ref: "hf_direction g = ''in''" "valid_commitment verify g (fq_commitment req)"
      "hf_state g \<noteq> ''complete'' \<longrightarrow> hf_state g = ''received'' \<and> in_active (sv_public v) = ''''"
    and rest: "let g' = (if hf_state g \<noteq> ''complete'' then completed_handoff (fq_commitment req) g else g);
             w = (if hf_state g \<noteq> ''complete'' then activated_instance g' v else v);
             db1 = (if hf_state g \<noteq> ''complete'' then save_instance w db else db)
         in record_receipt env 0 w g' actor ''activate-handoff'' (fq_request req) (ActivateHandoff i req) 200 db1 = Inr db'"
    using assms(2) unfolding activate_handoff_def Let_def
    by (auto simp del: refuse.simps split: option.splits if_split_asm)
  note row = load_handoff_row [OF assms(1) l]
  show ?thesis
  proof (cases "hf_state g = ''complete''")
    case True
    then show ?thesis using rest by (auto simp: Let_def intro: record_receipt_turns)
  next
    case False
    let ?g = "completed_handoff (fq_commitment req) g"
    have c: "custody db' = custody (save_instance (activated_instance ?g v) db)"
      using rest False record_receipt_view by (auto simp: Let_def)
    have a: "in_active (sv_public v) = ''''" "hf_state g = ''received''" using ref(3) False by simp_all
    have id: "in_id (sv_public (activated_instance ?g v)) = in_id (sv_public v)"
      "ship_view (activated_instance ?g v) = (Some ?g, '''')" "ship_view v = (Some g, '''')"
      by (simp_all add: activated_instance_def set_handoff_def ship_view_def Let_def a row(2))
    show ?thesis
    proof (rule turns_one [of "in_id (sv_public v)"])
      show "custody db' j = custody db j" if "j \<noteq> in_id (sv_public v)" for j using that by (simp add: c id)
      show "turn (Activated verify i (fq_commitment req)) (in_id (sv_public v)) (kind_of db') (custody db (in_id (sv_public v)))
          (custody db' (in_id (sv_public v)))"
        using custody_row [OF row(1)]
        by (simp add: c id turn_activate [OF _ ref(1) a(2) ref(2)] row(3) [symmetric])
    qed simp
  qed
qed simp

lemma upload_turns:
  assumes "ledger_ok db" "upload_handoff env actor role i req host db0 db = Inr (status, h, op, db')"
  shows "turns Quiet db db'"
proof -
  obtain v g o' h' where l: "load_handoff i db = Inr (v, g)" and s: "hf_state g = ''reserved''" "in_active (sv_public v) = ''''"
    and o: "handoff_operation env 0 actor ''receive-handoff'' (''receive-'' @ i)
      (g\<lparr>hf_state := ''receiving'', hf_message := ''Verifying stopped pier contents on destination.''\<rparr>) v db = Inr (o', h', db')"
    using assms(2) unfolding upload_handoff_def by (auto split: if_split_asm)
  note row = load_handoff_row [OF assms(1) l]
  show ?thesis
    by (rule handoff_operation_turns [OF o row(1) refl]) (simp_all add: ship_view_def row(2) s(2) turn_upload [OF _ s(1)])
qed

text \<open>Every step of the machine is a turn of every ship.\<close>

lemma step_turns:
  assumes "ledger_step l s t" "ledger_ok (fst s)" "workers_ok s"
  shows "turns l (fst s) (fst t)"
  using assms
proof (cases rule: ledger_step.cases)
  case (step_finish op ws env state ob cause interrupted db db')
  from step_finish(2,4) assms(3) obtain old where "old \<in> ow_op ` set (tb_operations db)" "same_receipt old op" "op_kind op = op_kind old"
    by (metis (no_types) workers_ok_def fst_conv snd_conv)
  with step_finish(1-3,5) assms(2) show ?thesis using finish_turns by (metis fst_conv)
next
  case (step_update op ws state db db')
  from step_update(2,4) assms(3) obtain old where old: "old \<in> ow_op ` set (tb_operations db)" "same_receipt old op" "op_kind op = op_kind old"
    by (metis (no_types) workers_ok_def fst_conv snd_conv)
  have ok: "ledger_ok db" using assms(2) step_update(2) by simp
  have "op_id op \<noteq> ''''" using ok old by (auto simp: ledger_ok_def rows_ok_def same_receipt_def)
  then show ?thesis using runtime_update_turns [OF ok _ _ step_update(5)] kind_of_row [OF ok old(1)] old(2,3) step_update(1-3)
    by (simp add: same_receipt_def)
qed (auto intro: register_turns register_ship_turns serve_piers_turns enroll_turns configure_turns accept_turns begin_turns begin_refused_turns
    observe_turns reconcile_turns startup_candidates_turns dismiss_turns claim_startup_turns put_routine_turns
    claim_routine_turns prepare_turns receive_turns control_turns activate_turns upload_turns)

end
