(* ===== verification/MoveHosts.thy ===== *)
theory MoveHosts
  imports LedgerTurns MoveWorker
begin

text \<open>
  Several hosts that move piers to each other: every host runs the machine of its store, a source shows its
  handoff to the operator, the operator carries it to the destination, and a commitment is a signature that
  only the source's worker makes. In every reachable world a destination that may be started has a source
  that is moved and stays fenced.
\<close>

section \<open>The world\<close>

record ('x, 'f) world =
  wd_hosts :: "string \<Rightarrow> ('x, 'f) machine"
  wd_shown :: "handoff set"
  wd_signed :: "string set"

abbreviation ship_at :: "('x, 'f) world \<Rightarrow> string \<Rightarrow> string \<Rightarrow> (handoff option \<times> string) option" where
  "ship_at w n i \<equiv> custody (fst (wd_hosts w n)) i"

definition at_host :: "string \<Rightarrow> ('x, 'f) machine \<Rightarrow> ('x, 'f) world \<Rightarrow> ('x, 'f) world" where
  "at_host n m w = w\<lparr>wd_hosts := (wd_hosts w)(n := m)\<rparr>"

definition sign_move :: "'x managed_state \<Rightarrow> ('x, 'f) world \<Rightarrow> ('x, 'f) world" where
  "sign_move st w = (case vm_handoff st of None \<Rightarrow> w | Some g \<Rightarrow> w\<lparr>wd_signed := insert (commitment_bytes g) (wd_signed w)\<rparr>)"

text \<open>Signatures cannot be forged: what verifies for a shown handoff was signed by its source.\<close>

definition unforged :: "(string \<Rightarrow> string \<Rightarrow> string \<Rightarrow> bool) \<Rightarrow> ('x, 'f) world \<Rightarrow> string \<Rightarrow> bool" where
  "unforged verify w c \<longleftrightarrow> (\<forall>g\<in>wd_shown w. valid_commitment verify g c \<longrightarrow> commitment_bytes g \<in> wd_signed w)"

text \<open>
  A step of the world: a host shows a handoff, or its store commits a step. A record that a worker writes
  has the handoff that the store has, or it is what \<open>applyHandoff\<close> made of the record in the store.
\<close>

inductive world_step :: "(u8 list \<Rightarrow> string \<Rightarrow> string) \<Rightarrow> (string \<Rightarrow> string \<Rightarrow> string \<Rightarrow> bool)
    \<Rightarrow> ('x, 'f) world \<Rightarrow> ('x, 'f) world \<Rightarrow> bool" for sign verify w where
  ws_show: "ship_at w n i = Some (Some h, a) \<Longrightarrow> world_step sign verify w (w\<lparr>wd_shown := insert h (wd_shown w)\<rparr>)"
| ws_quiet: "ledger_step Quiet (wd_hosts w n) m \<Longrightarrow> world_step sign verify w (at_host n m w)"
| ws_prepare: "ledger_step (Prepared n) (wd_hosts w n) m \<Longrightarrow> world_step sign verify w (at_host n m w)"
| ws_receive: "ledger_step (Received n h) (wd_hosts w n) m \<Longrightarrow> h \<in> wd_shown w \<Longrightarrow> world_step sign verify w (at_host n m w)"
| ws_activate: "ledger_step (Activated verify k c) (wd_hosts w n) m \<Longrightarrow> unforged verify w c
    \<Longrightarrow> world_step sign verify w (at_host n m w)"
| ws_write: "ledger_step (Wrote k i st) (wd_hosts w n) m \<Longrightarrow> ship_at w n i = Some (h, a) \<Longrightarrow> same_move h (vm_handoff st)
    \<Longrightarrow> world_step sign verify w (at_host n m w)"
| ws_work: "ledger_step (Wrote k i st) (wd_hosts w n) m \<Longrightarrow> inst_of (fst (wd_hosts w n)) i = Some v
    \<Longrightarrow> apply_handoff sign verify mh k (sv_runtime v) = (st, ob, err, signs)
    \<Longrightarrow> world_step sign verify w (at_host n m (if signs then sign_move st w else w))"

text \<open>A world starts with hosts that have made no move.\<close>

definition world_start :: "('x, 'f) world \<Rightarrow> bool" where
  "world_start w \<longleftrightarrow> wd_shown w = {} \<and> wd_signed w = {} \<and> (\<forall>n. ledger_reachable (wd_hosts w n)
     \<and> (\<forall>i h a. ship_at w n i = Some (h, a) \<longrightarrow> h = None))"

inductive world_reachable :: "(u8 list \<Rightarrow> string \<Rightarrow> string) \<Rightarrow> (string \<Rightarrow> string \<Rightarrow> string \<Rightarrow> bool)
    \<Rightarrow> ('x, 'f) world \<Rightarrow> bool" for sign verify where
  wr_start: "world_start w \<Longrightarrow> world_reachable sign verify w"
| wr_step: "world_reachable sign verify w \<Longrightarrow> world_step sign verify w w' \<Longrightarrow> world_reachable sign verify w'"

section \<open>What a transfer keeps\<close>

text \<open>The places a handoff can be in.\<close>

definition placed :: "string \<Rightarrow> string \<Rightarrow> handoff \<Rightarrow> bool" where
  "placed n i h \<longleftrightarrow> hf_direction h = ''out'' \<and> hf_state h \<in> {''preparing'', ''ready'', ''moved''} \<and> hf_source h = n \<and> hf_source_instance h = i
       \<and> valid_id (hf_destination h)
     \<or> hf_direction h = ''in'' \<and> hf_state h \<in> {''reserved'', ''receiving'', ''received'', ''complete''} \<and> hf_destination h = n
       \<and> hf_destination_instance h = i"

definition moved_out :: "handoff \<Rightarrow> bool" where
  "moved_out h \<longleftrightarrow> hf_direction h = ''out'' \<and> hf_state h = ''moved''"

lemma commitment_bytes_transfer: "transfer h = transfer g \<Longrightarrow> commitment_bytes h = commitment_bytes g"
  by (simp add: commitment_bytes_def commitment_items_eq [symmetric])

lemma transfer_key: "transfer h = transfer g \<Longrightarrow> hf_key h = hf_key g"
  by (cases h; cases g) (simp add: transfer_def)

lemma valid_commitment_transfer:
  assumes "transfer h = transfer g"
  shows "valid_commitment verify h c = valid_commitment verify g c"
  using transfer_key [OF assms] commitment_bytes_transfer [OF assms] by (simp add: valid_commitment_def cong: option.case_cong)

lemma transfer_simps [simp]: "transfer (h\<lparr>hf_direction := x\<rparr>) = transfer h" "transfer (h\<lparr>hf_state := x\<rparr>) = transfer h"
  "transfer (h\<lparr>hf_message := x\<rparr>) = transfer h" "transfer (h\<lparr>hf_error := x\<rparr>) = transfer h"
  "transfer (h\<lparr>hf_commitment := x\<rparr>) = transfer h"
  by (simp_all add: transfer_def)

lemma handoff_plain_transfer: "transfer h = transfer g \<Longrightarrow> handoff_plain h = handoff_plain g"
  by (cases h; cases g) (simp add: transfer_def handoff_plain_def)

lemma same_move_Some:
  assumes "same_move (Some h) x"
  obtains g where "x = Some g" "hf_direction g = hf_direction h" "hf_state g = hf_state h" "hf_source g = hf_source h"
    "hf_source_instance g = hf_source_instance h" "hf_destination g = hf_destination h" "hf_destination_instance g = hf_destination_instance h" "transfer g = transfer h"
proof (cases x)
  case (Some g)
  then have e: "h\<lparr>hf_error := ''''\<rparr> = g\<lparr>hf_error := ''''\<rparr>" using assms by (simp add: same_move_def)
  have "transfer g = transfer h" using arg_cong [OF e, of transfer] by simp
  then show ?thesis using that [OF Some] arg_cong [OF e, of hf_direction] arg_cong [OF e, of hf_state]
    arg_cong [OF e, of hf_source] arg_cong [OF e, of hf_source_instance]
    arg_cong [OF e, of hf_destination] arg_cong [OF e, of hf_destination_instance] by simp
qed (use assms in \<open>simp add: same_move_def\<close>)

lemma same_move_None [simp]: "same_move None x \<longleftrightarrow> x = None" "same_move x None \<longleftrightarrow> x = None"
  by (auto simp: same_move_def)

text \<open>What the worker of a move makes of the handoff.\<close>

definition worked :: "string \<Rightarrow> handoff \<Rightarrow> handoff \<Rightarrow> bool \<Rightarrow> bool" where
  "worked k h g signs \<longleftrightarrow> hf_direction g = hf_direction h \<and> hf_source g = hf_source h \<and> hf_source_instance g = hf_source_instance h
     \<and> hf_destination g = hf_destination h \<and> hf_destination_instance g = hf_destination_instance h
     \<and> (hf_direction h = ''in'' \<longrightarrow> transfer g = transfer h \<and> (hf_state g = hf_state h \<or> hf_state g = ''received''))
     \<and> (hf_direction h = ''out'' \<longrightarrow> hf_state g \<in> {hf_state h, ''ready'', ''moved''} \<and> (hf_state g = ''moved'' \<and> hf_state h \<noteq> ''moved'' \<longrightarrow> signs)
          \<and> (k \<noteq> ''prepare-handoff'' \<and> hf_state h = ''moved'' \<longrightarrow> hf_state g = ''moved'' \<and> transfer g = transfer h) \<and> (k = ''prepare-handoff'' \<longrightarrow> hf_state g = ''moved'' \<longrightarrow> hf_state h = ''moved''))
     \<and> (signs \<longrightarrow> k = ''commit-handoff'' \<and> moved_out g)"

lemma workedD:
  assumes "worked k h g signs"
  shows "hf_direction g = hf_direction h" "hf_source g = hf_source h" "hf_source_instance g = hf_source_instance h"
    "hf_destination g = hf_destination h" "hf_destination_instance g = hf_destination_instance h"
    "hf_direction h = ''in'' \<Longrightarrow> transfer g = transfer h" "hf_direction h = ''in'' \<Longrightarrow> hf_state g = hf_state h \<or> hf_state g = ''received''"
    "hf_direction h = ''out'' \<Longrightarrow> hf_state g \<in> {hf_state h, ''ready'', ''moved''}"
    "hf_direction h = ''out'' \<Longrightarrow> hf_state h = ''moved'' \<Longrightarrow> k \<noteq> ''prepare-handoff'' \<Longrightarrow> hf_state g = ''moved'' \<and> transfer g = transfer h"
    "hf_direction h = ''out'' \<Longrightarrow> k = ''prepare-handoff'' \<Longrightarrow> hf_state g = ''moved'' \<Longrightarrow> hf_state h = ''moved''"
    "signs \<Longrightarrow> k = ''commit-handoff'' \<and> moved_out g"
  using assms unfolding worked_def by blast+

lemma worked_refl [simp]: "worked k h h False"
  by (simp add: worked_def)

lemma prepare_worked:
  assumes "prepare_transfer p h s = (t, e)" "vm_handoff s = Some h"
  obtains g where "vm_handoff t = Some g" "worked ''prepare-handoff'' h g False"
proof (cases "archive_failure p h s")
  case None
  then have "hf_direction h = ''out''" by (simp add: archive_failure_def del: first_failure.simps)
  then show ?thesis using assms None that
    by (auto simp: prepare_transfer_def Let_def worked_def measured_handoff_def ready_handoff_def ready_message_def
        split: option.splits)
qed (use assms that in \<open>auto simp: prepare_transfer_def\<close>)

lemma receive_worked:
  assumes "receive_transfer p h s = (t, e)" "vm_handoff s = Some h"
  obtains g where "vm_handoff t = Some g" "worked ''receive-handoff'' h g False"
proof (cases "incoming_failure p h s")
  case None
  then have "hf_direction h = ''in''" by (simp add: incoming_failure_def del: first_failure.simps)
  then show ?thesis using assms None that
    by (auto simp: receive_transfer_def Let_def worked_def prepared_workspace_def received_state_def received_handoff_def
        split: option.splits prod.splits if_splits)
qed (use assms that in \<open>auto simp: receive_transfer_def\<close>)

lemma commit_worked:
  assumes "commit_transfer sign verify p h s = (t, e, signs)" "vm_handoff s = Some h"
  obtains g where "vm_handoff t = Some g" "worked ''commit-handoff'' h g signs"
proof (cases "retire_failure p h s")
  case None
  then have "hf_direction h = ''out''" "hf_state h = ''ready''" by (simp_all add: retire_failure_def del: first_failure.simps)
  then show ?thesis using assms None that
    by (auto simp: commit_transfer_def Let_def worked_def signed_handoff_def moved_message_def moved_out_def split: if_splits)
qed (use assms that in \<open>auto simp: commit_transfer_def\<close>)

lemma apply_worked:
  assumes "apply_handoff sign verify p k s = (t, ob, e, signs)" "vm_handoff s = Some h"
  obtains g where "vm_handoff t = Some g" "worked k h g signs"
proof (cases "transfer_refused p s")
  case None
  from assms None that show ?thesis
    using prepare_worked [OF _ assms(2)] receive_worked [OF _ assms(2)] commit_worked [OF _ assms(2)]
    unfolding apply_handoff_def by (auto split: if_splits prod.splits) metis+
qed (use assms that in \<open>auto simp: apply_handoff_def\<close>)

lemma apply_no_handoff:
  assumes "apply_handoff sign verify p k s = (t, ob, e, signs)" "vm_handoff s = None"
  shows "vm_handoff t = None \<and> \<not> signs"
  using assms by (auto simp: apply_handoff_def split: option.splits)

section \<open>The invariant of one ship\<close>

text \<open>
  \<open>K\<close> gives the kinds of the operations of the host. An outgoing ship has no operation that unregisters it,
  and a moved one none that prepares it again; an incoming ship holds a shown transfer, and it is complete
  only when its transfer was signed.
\<close>

definition busy_ok :: "(string \<Rightarrow> string option) \<Rightarrow> handoff \<Rightarrow> string \<Rightarrow> bool" where
  "busy_ok K h a \<longleftrightarrow> (hf_direction h = ''out'' \<longrightarrow> a \<noteq> '''' \<longrightarrow>
     (\<exists>k. K a = Some k \<and> \<not> retiring_kind k \<and> (k = ''prepare-handoff'' \<longrightarrow> hf_state h \<noteq> ''moved'')))"

definition arrived_ok :: "handoff set \<Rightarrow> string set \<Rightarrow> handoff \<Rightarrow> bool" where
  "arrived_ok S G h \<longleftrightarrow> (hf_direction h = ''in'' \<longrightarrow> handoff_plain h \<and> (\<exists>g\<in>S. transfer g = transfer h)
     \<and> (hf_state h = ''complete'' \<longrightarrow> commitment_bytes h \<in> G))"

definition entry_ok :: "handoff set \<Rightarrow> string set \<Rightarrow> string \<Rightarrow> string \<Rightarrow> (string \<Rightarrow> string option) \<Rightarrow> (handoff option \<times> string) option \<Rightarrow> bool" where
  "entry_ok S G n i K x = (case x of Some (Some h, a) \<Rightarrow> placed n i h \<and> busy_ok K h a \<and> arrived_ok S G h | _ \<Rightarrow> True)"

lemma entry_ok_simps [simp]: "entry_ok S G n i K None" "entry_ok S G n i K (Some (None, a))"
  "entry_ok S G n i K (Some (Some h, a)) \<longleftrightarrow> placed n i h \<and> busy_ok K h a \<and> arrived_ok S G h"
  by (simp_all add: entry_ok_def)

text \<open>The offers that a host accepts are plain text, so that a commitment binds every field of them.\<close>

lemma offer_plain:
  assumes "offer_refused runner mode request h = None" "valid_id (hf_destination h)"
  shows "handoff_plain h"
proof -
  have o: "full_handoff_id (hf_id h)" "valid_id (hf_source h)" "valid_id (hf_source_instance h)" "valid_pier_name (hf_destination_instance h)"
    "valid_fake_ship (hf_ship h)" "valid_handoff_bytes h" "hex_string 64 (hf_key h)" "hf_mode h = ''fake'' \<or> hf_mode h = ship_class (hf_ship h)"
    using assms(1) by (auto simp: offer_refused_def simp del: refuse.simps)
  have hex: "hex_string n s \<Longrightarrow> json_plain s" for n s using hex_plain by (simp add: hex_string_def)
  have "json_plain (hf_mode h)"
    using o(8) by (auto simp: ship_class_def Let_def json_plain_def json_plain_char_def)
  moreover have "json_plain (hf_id h)" "json_plain (hf_sha256 h)" "json_plain (hf_tree h)" "json_plain (hf_key h)"
    using o(1,6,7) hex by (auto simp: full_handoff_id_hex valid_handoff_bytes_def)
  ultimately show ?thesis
    using valid_id_plain [OF o(2)] valid_id_plain [OF o(3)] valid_id_plain [OF assms(2)] ship_plain [OF o(5)]
      valid_id_plain [of "hf_destination_instance h"] o(4)
    by (simp add: handoff_plain_def valid_pier_name_def)
qed

lemma offer_destination: "offer_refused runner mode request h = None \<Longrightarrow> hf_destination h = runner"
  by (simp add: offer_refused_def del: refuse.simps)

text \<open>
  Which steps are lawful in a world for the ship \<open>i\<close> with the view \<open>x\<close>: \<open>S\<close> is shown, \<open>G\<close> was signed,
  \<open>G'\<close> is signed after the step.
\<close>

definition lawful :: "(string \<Rightarrow> string \<Rightarrow> string \<Rightarrow> bool) \<Rightarrow> handoff set \<Rightarrow> string set \<Rightarrow> string \<Rightarrow> string
    \<Rightarrow> (handoff option \<times> string) option \<Rightarrow> 'x label \<Rightarrow> bool" where
  "lawful verify S G n i x l = (case l of Quiet \<Rightarrow> True | Prepared r \<Rightarrow> r = n | Received r h \<Rightarrow> r = n \<and> h \<in> S
     | Activated vf k c \<Rightarrow> vf = verify \<and> (\<forall>g\<in>S. valid_commitment verify g c \<longrightarrow> commitment_bytes g \<in> G)
     | Wrote k j st \<Rightarrow> j = i \<longrightarrow> (case x of None \<Rightarrow> True | Some (None, a) \<Rightarrow> vm_handoff st = None
         | Some (Some h, a) \<Rightarrow> \<exists>g signs. vm_handoff st = Some g \<and> worked k h g signs))"

lemma same_move_worked: "same_move (Some h) (Some g) \<Longrightarrow> worked k h g False"
  by (erule same_move_Some) (auto simp: worked_def)

definition shown_ok :: "handoff set \<Rightarrow> bool" where
  "shown_ok S \<longleftrightarrow> (\<forall>g\<in>S. hf_direction g = ''out'' \<longrightarrow> valid_id (hf_destination g))"

lemma same_move_moved:
  assumes "same_move (Some g) x" "moved_out g"
  shows "\<exists>h. x = Some h \<and> moved_out h \<and> transfer h = transfer g"
  by (rule same_move_Some [OF assms(1)]) (use assms(2) in \<open>auto simp: moved_out_def\<close>)

lemma worked_moved:
  assumes "worked k h g signs" "moved_out h" "k \<noteq> ''prepare-handoff''"
  shows "moved_out g" "transfer g = transfer h"
  using assms by (simp_all add: worked_def moved_out_def)

lemma moved_kept:
  assumes "turn l i K (Some (Some h, a)) y" "lawful verify S G n i (Some (Some h, a)) l" "placed n i h" "busy_ok K h a" "moved_out h"
  shows "\<exists>g b. y = Some (Some g, b) \<and> moved_out g \<and> transfer g = transfer h"
  using assms(1)
proof cases
  case (turn_idle h' a')
  then show ?thesis using same_move_moved [OF _ assms(5)] by auto
next
  case (turn_work k st h' a')
  then obtain g signs where g: "vm_handoff st = Some g" "worked k h g signs" using assms(2) by (auto simp: lawful_def)
  have "k \<noteq> ''prepare-handoff''" using assms(4,5) turn_work by (auto simp: busy_ok_def moved_out_def)
  note m = worked_moved [OF g(2) assms(5) this]
  have "same_move (Some g) h'" using turn_work(3) g(1) by simp
  from same_move_moved [OF this m(1)] turn_work(1) m(2) show ?thesis by auto
next
  case (turn_poll k st h' a')
  then obtain g signs where g: "vm_handoff st = Some g" "worked k h g signs" using assms(2) by (auto simp: lawful_def)
  have "k \<noteq> ''prepare-handoff''" using turn_poll(4) by auto
  note m = worked_moved [OF g(2) assms(5) this]
  have "same_move (Some g) h'" using turn_poll(5) g(1) by simp
  from same_move_moved [OF this m(1)] turn_poll(2) m(2) show ?thesis by auto
next
  case (turn_retire k)
  then show ?thesis using assms(4,5) by (auto simp: busy_ok_def moved_out_def)
next
  case (turn_upload a')
  then show ?thesis using assms(5) by (simp add: moved_out_def)
qed (use assms(5) in \<open>auto simp: moved_out_def\<close>)

lemma signed_stored:
  assumes "turn (Wrote ''commit-handoff'' i st) i K x y" "vm_handoff st = Some g" "moved_out g"
  shows "\<exists>g' b. y = Some (Some g', b) \<and> moved_out g' \<and> transfer g' = transfer g"
  using assms(1)
proof cases
  case (turn_work k st' h' a')
  then have "same_move (Some g) h'" using assms(2) by simp
  from same_move_moved [OF this assms(3)] turn_work(2) show ?thesis by auto
qed auto

lemma entry_same_move:
  assumes "same_move (Some g) h'" "placed n i g" "arrived_ok S G g" "G \<subseteq> G'"
    and "\<And>g'. hf_direction g' = hf_direction g \<Longrightarrow> hf_state g' = hf_state g \<Longrightarrow> busy_ok K g' a'"
  shows "entry_ok S G' n i K (Some (h', a'))"
proof -
  from same_move_Some [OF assms(1)] obtain g' where g: "h' = Some g'" "hf_direction g' = hf_direction g" "hf_state g' = hf_state g"
    "hf_source g' = hf_source g" "hf_source_instance g' = hf_source_instance g" "hf_destination g' = hf_destination g"
    "hf_destination_instance g' = hf_destination_instance g" "transfer g' = transfer g" .
  have "placed n i g'" using assms(2) g by (simp add: placed_def)
  moreover have "arrived_ok S G' g'"
    using assms(3,4) g(2,3,8) handoff_plain_transfer [OF g(8)] commitment_bytes_transfer [OF g(8)] by (auto simp: arrived_ok_def)
  ultimately show ?thesis using assms(5) [OF g(2,3)] g(1) by simp
qed

lemma entry_worked:
  assumes "worked k h g signs" "placed n i h" "arrived_ok S G h"
  shows "placed n i g" "arrived_ok S G g"
proof -
  show "placed n i g"
  proof (cases "hf_direction h = ''out''")
    case True
    then have p: "hf_state h \<in> {''preparing'', ''ready'', ''moved''}" "hf_source h = n" "hf_source_instance h = i" "valid_id (hf_destination h)"
      using assms(2) by (simp_all add: placed_def)
    note w = workedD(1-4,8) [OF assms(1)]
    have "hf_state g \<in> {''preparing'', ''ready'', ''moved''}" using p(1) w(5) [OF True] by auto
    then show ?thesis using w(1-4) p(2-4) True unfolding placed_def by metis
  next
    case False
    then have p: "hf_direction h = ''in''" "hf_state h \<in> {''reserved'', ''receiving'', ''received'', ''complete''}"
      "hf_destination h = n" "hf_destination_instance h = i" using assms(2) by (simp_all add: placed_def)
    note w = workedD(1,4,5,7) [OF assms(1)]
    have "hf_state g \<in> {''reserved'', ''receiving'', ''received'', ''complete''}" using p(2) w(4) [OF p(1)] by auto
    then show ?thesis using w(1-3) p(1,3,4) unfolding placed_def by metis
  qed
  show "arrived_ok S G g"
  proof (cases "hf_direction h = ''in''")
    case True
    then have t: "transfer g = transfer h" "hf_direction g = ''in''" "hf_state g = hf_state h \<or> hf_state g = ''received''"
      using workedD(1,6,7) [OF assms(1)] by simp_all
    show ?thesis using assms(3) True t(2,3) handoff_plain_transfer [OF t(1)] commitment_bytes_transfer [OF t(1)] t(1)
      by (auto simp: arrived_ok_def)
  next
    case False
    then have "hf_direction g \<noteq> ''in''" using workedD(1) [OF assms(1)] by simp
    then show ?thesis by (simp add: arrived_ok_def)
  qed
qed

lemma busy_worked:
  assumes "worked k h g signs" "busy_ok K h a" "K a = Some k" "a' = a \<or> a' = ''''" "hf_direction g' = hf_direction g" "hf_state g' = hf_state g"
  shows "busy_ok K g' a'"
  unfolding busy_ok_def
proof (intro impI)
  assume o: "hf_direction g' = ''out''" and a: "a' \<noteq> ''''"
  then have h: "hf_direction h = ''out''" "a' = a" using assms(4,5) workedD(1) [OF assms(1)] by simp_all
  then have "\<not> retiring_kind k" "k = ''prepare-handoff'' \<longrightarrow> hf_state h \<noteq> ''moved''" using assms(2,3) a by (auto simp: busy_ok_def)
  then show "\<exists>k. K a' = Some k \<and> \<not> retiring_kind k \<and> (k = ''prepare-handoff'' \<longrightarrow> hf_state g' \<noteq> ''moved'')"
    using assms(3,6) h workedD(10) [OF assms(1)] by metis
qed

lemma entry_kept:
  assumes "turn l i K x y" "lawful verify S G n i x l" "entry_ok S G n i K x" "shown_ok S" "G \<subseteq> G'"
  shows "entry_ok S G' n i K y"
  using assms(1)
proof cases
  case (turn_idle h h' a' a)
  show ?thesis
  proof (cases h)
    case (Some g)
    then have e: "placed n i g" "busy_ok K g a" "arrived_ok S G g" and m: "same_move (Some g) h'" using assms(3) turn_idle by simp_all
    have "busy_ok K g' a'" if g': "hf_direction g' = hf_direction g" "hf_state g' = hf_state g" for g'
    proof -
      from same_move_Some [OF m] obtain k where k: "h' = Some k" "hf_direction k = hf_direction g" "hf_state k = hf_state g" by metis
      from turn_idle(5) consider "a' = ''''" | "a' = a" | j where "K a' = Some j" "may_open j h'" by blast
      then show ?thesis
      proof cases
        case 3
        then show ?thesis using k g' by (simp add: busy_ok_def may_open_def)
      qed (use e(2) g' in \<open>simp_all add: busy_ok_def\<close>)
    qed
    then show ?thesis unfolding turn_idle(2) by (rule entry_same_move [OF m e(1,3) assms(5)])
  qed (use turn_idle in simp)
next
  case (turn_work k st h' a a' h)
  show ?thesis
  proof (cases h)
    case (Some g)
    then have e: "placed n i g" "busy_ok K g a" "arrived_ok S G g" using assms(3) turn_work by simp_all
    obtain g1 signs where g1: "vm_handoff st = Some g1" "worked k g g1 signs" using assms(2) turn_work Some by (auto simp: lawful_def)
    have m: "same_move (Some g1) h'" using turn_work g1(1) by simp
    have "busy_ok K g' a'" if "hf_direction g' = hf_direction g1" "hf_state g' = hf_state g1" for g'
      using busy_worked [OF g1(2) e(2)] turn_work(6,7) that by auto
    then show ?thesis unfolding turn_work(2) by (rule entry_same_move [OF m entry_worked [OF g1(2) e(1,3)] assms(5)])
  next
    case None
    then have "h' = None" using assms(2) turn_work by (auto simp: lawful_def)
    then show ?thesis using turn_work by simp
  qed
next
  case (turn_poll k st h' a' h)
  show ?thesis
  proof (cases h)
    case (Some g)
    then have e: "placed n i g" "arrived_ok S G g" using assms(3) turn_poll by simp_all
    obtain g1 signs where g1: "vm_handoff st = Some g1" "worked k g g1 signs" using assms(2) turn_poll Some by (auto simp: lawful_def)
    have m: "same_move (Some g1) h'" using turn_poll g1(1) by simp
    have "busy_ok K g' a'" for g' using turn_poll by (auto simp: busy_ok_def)
    then show ?thesis unfolding turn_poll(2) by (rule entry_same_move [OF m entry_worked [OF g1(2) e] assms(5)])
  next
    case None
    then have "h' = None" using assms(2) turn_poll by (auto simp: lawful_def)
    then show ?thesis using turn_poll by simp
  qed
next
  case (turn_prepare runner h g a')
  then show ?thesis using assms(2) by (auto simp: lawful_def new_outgoing_def placed_def busy_ok_def arrived_ok_def)
next
  case (turn_upload h a')
  then have e: "placed n i h" "arrived_ok S G h" using assms(3) by simp_all
  let ?g = "h\<lparr>hf_state := ''receiving'', hf_message := ''Verifying stopped pier contents on destination.'', hf_error := ''''\<rparr>"
  have t: "transfer ?g = transfer h" by simp
  show ?thesis unfolding turn_upload(2)
    using e turn_upload(4) handoff_plain_transfer [OF t] t by (simp add: placed_def busy_ok_def arrived_ok_def)
next
  case (turn_reserve runner g mode request)
  then have v: "valid_id (hf_destination g)" using assms(2,4) by (auto simp: lawful_def shown_ok_def)
  have p: "handoff_plain g" by (rule offer_plain [OF turn_reserve(4) v])
  have r: "transfer (reserved_offer g) = transfer g" by (simp add: reserved_offer_def)
  show ?thesis using turn_reserve assms(2) p handoff_plain_transfer [OF r] r
    by (auto simp: lawful_def placed_def busy_ok_def arrived_ok_def) (auto simp: reserved_offer_def dest: offer_destination)
next
  case (turn_activate vf h c)
  have r: "transfer (completed_handoff c h) = transfer h" by (simp add: completed_handoff_def)
  obtain g where g: "g \<in> S" "transfer g = transfer h" using assms(3) turn_activate by (auto simp: arrived_ok_def)
  then have "commitment_bytes h \<in> G"
    using assms(2) turn_activate valid_commitment_transfer [OF g(2)] commitment_bytes_transfer [OF g(2)] by (auto simp: lawful_def)
  then show ?thesis using turn_activate assms(3,5) handoff_plain_transfer [OF r] commitment_bytes_transfer [OF r] r
    by (auto simp: placed_def busy_ok_def arrived_ok_def completed_handoff_def)
qed (use assms in \<open>simp_all\<close>)

section \<open>The invariant of the world\<close>

definition committed :: "('x, 'f) world \<Rightarrow> string \<Rightarrow> bool" where
  "committed w m \<longleftrightarrow> (\<exists>n i g a. ship_at w n i = Some (Some g, a) \<and> moved_out g \<and> commitment_bytes g = m)"

definition world_ok :: "('x, 'f) world \<Rightarrow> bool" where
  "world_ok w \<longleftrightarrow> shown_ok (wd_shown w) \<and> (\<forall>m\<in>wd_signed w. committed w m)
     \<and> (\<forall>n. ledger_ok (fst (wd_hosts w n)) \<and> workers_ok (wd_hosts w n)
          \<and> (\<forall>i. entry_ok (wd_shown w) (wd_signed w) n i (kind_of (fst (wd_hosts w n))) (ship_at w n i)))"

lemma world_start_ok:
  assumes "world_start w"
  shows "world_ok w"
proof -
  have "entry_ok S G n i K (ship_at w n i)" for S G n i K
  proof (cases "ship_at w n i")
    case (Some x)
    obtain h a where x: "x = (h, a)" by (cases x)
    then have "h = None" using assms Some unfolding world_start_def by blast
    then show ?thesis using Some x by simp
  qed simp
  moreover have "ledger_ok (fst (wd_hosts w n)) \<and> workers_ok (wd_hosts w n)" for n
    using reachable_ok [of "wd_hosts w n"] assms by (simp add: world_start_def)
  ultimately show ?thesis using assms by (simp add: world_start_def world_ok_def shown_ok_def)
qed

text \<open>The kinds of operations are kept, so the invariant of a ship is kept with them.\<close>

lemma entry_ok_kinds:
  assumes "entry_ok S G n i K x" "\<And>a k. K a = Some k \<Longrightarrow> K' a = Some k"
  shows "entry_ok S G n i K' x"
proof -
  have "busy_ok K h a \<Longrightarrow> busy_ok K' h a" for h a unfolding busy_ok_def using assms(2) by blast
  then show ?thesis using assms(1) by (auto simp: entry_ok_def split: option.splits)
qed

text \<open>A moved ship stays moved over a lawful step of its host.\<close>

lemma host_moved:
  assumes "world_ok w" "ledger_step l (wd_hosts w n) m" "lawful verify (wd_shown w) (wd_signed w) n i (ship_at w n i) l"
    "ship_at w n i = Some (Some g, a)" "moved_out g"
  shows "\<exists>g' b. custody (fst m) i = Some (Some g', b) \<and> moved_out g' \<and> transfer g' = transfer g"
proof -
  let ?db = "fst (wd_hosts w n)" and ?db' = "fst m"
  have ok: "ledger_ok ?db" "workers_ok (wd_hosts w n)" and e: "entry_ok (wd_shown w) (wd_signed w) n i (kind_of ?db) (ship_at w n i)"
    using assms(1) by (simp_all add: world_ok_def)
  have s: "ledger_ok ?db'" "forward ?db ?db'" using step_sound [OF assms(2) ok] by (simp_all add: sound_step_def)
  have "entry_ok (wd_shown w) (wd_signed w) n i (kind_of ?db') (ship_at w n i)"
    by (rule entry_ok_kinds [OF e]) (rule kind_of_kept [OF s])
  then have p: "placed n i g" "busy_ok (kind_of ?db') g a" using assms(4) by simp_all
  have "turn l i (kind_of ?db') (ship_at w n i) (custody ?db' i)" using step_turns [OF assms(2) ok] by (simp add: turns_def)
  with moved_kept [OF _ _ p assms(5)] assms(3,4) show ?thesis by auto
qed

lemma step_at:
  assumes w: "world_ok w" and l: "ledger_step l (wd_hosts w n) m"
    and law: "\<And>i. lawful verify (wd_shown w) (wd_signed w) n i (ship_at w n i) l"
    and G: "wd_signed w \<subseteq> G" "\<And>x. x \<in> G \<Longrightarrow> x \<notin> wd_signed w \<Longrightarrow>
      \<exists>i st g. l = Wrote ''commit-handoff'' i st \<and> vm_handoff st = Some g \<and> moved_out g \<and> x = commitment_bytes g"
  shows "world_ok ((at_host n m w)\<lparr>wd_signed := G\<rparr>)"
proof -
  let ?w = "(at_host n m w)\<lparr>wd_signed := G\<rparr>"
  let ?db = "fst (wd_hosts w n)" and ?db' = "fst m"
  have shown: "shown_ok (wd_shown w)"
    and entry: "\<And>k i. entry_ok (wd_shown w) (wd_signed w) k i (kind_of (fst (wd_hosts w k))) (ship_at w k i)"
    and ok: "\<And>k. ledger_ok (fst (wd_hosts w k)) \<and> workers_ok (wd_hosts w k)"
    using w by (simp_all add: world_ok_def)
  have sound: "sound_step ?db ?db'" "workers_ok m" using step_sound [OF l] ok [of n] by simp_all
  then have ok': "ledger_ok ?db'" and fwd: "forward ?db ?db'" by (simp_all add: sound_step_def)
  have turn: "turn l i (kind_of ?db') (ship_at w n i) (custody ?db' i)" for i
    using step_turns [OF l] ok [of n] by (simp add: turns_def)
  have kinds: "entry_ok (wd_shown w) (wd_signed w) n i (kind_of ?db') (ship_at w n i)" for i
    by (rule entry_ok_kinds [OF entry]) (rule kind_of_kept [OF ok' fwd])
  have "entry_ok (wd_shown w) G n i (kind_of ?db') (custody ?db' i)" for i
    by (rule entry_kept [OF turn law kinds shown G(1)])
  moreover have "entry_ok (wd_shown w) G k i (kind_of (fst (wd_hosts w k))) (ship_at w k i)" for k i
    using entry [of k i] G(1) by (auto simp: entry_ok_def arrived_ok_def split: option.splits)
  moreover have "committed ?w x" if x: "x \<in> G" for x
  proof (cases "x \<in> wd_signed w")
    case True
    then obtain k i g a where g: "ship_at w k i = Some (Some g, a)" "moved_out g" "commitment_bytes g = x"
      using w by (auto simp: world_ok_def committed_def)
    show ?thesis
    proof (cases "k = n")
      case True
      from host_moved [OF w l law _ g(2)] g(1) True
      obtain g' b where "custody ?db' i = Some (Some g', b)" "moved_out g'" "transfer g' = transfer g" by blast
      then have "ship_at ?w n i = Some (Some g', b) \<and> moved_out g' \<and> commitment_bytes g' = x"
        using commitment_bytes_transfer [of g' g] g(3) by (simp add: at_host_def)
      then show ?thesis unfolding committed_def by blast
    next
      case False
      then have "ship_at ?w k i = Some (Some g, a)" using g(1) by (simp add: at_host_def)
      then show ?thesis using g(2,3) unfolding committed_def by blast
    qed
  next
    case False
    then obtain i st g where g: "l = Wrote ''commit-handoff'' i st" "vm_handoff st = Some g" "moved_out g" "x = commitment_bytes g"
      using G(2) x by blast
    from signed_stored [OF turn [of i, unfolded g(1)] g(2,3)]
    obtain g' b where "custody ?db' i = Some (Some g', b)" "moved_out g'" "transfer g' = transfer g" by auto
    then have "ship_at ?w n i = Some (Some g', b) \<and> moved_out g' \<and> commitment_bytes g' = x"
      using commitment_bytes_transfer [of g' g] g(4) by (simp add: at_host_def)
    then show ?thesis unfolding committed_def by blast
  qed
  ultimately show ?thesis using shown ok ok' sound(2) by (simp add: world_ok_def at_host_def)
qed

lemma show_ok:
  assumes "world_ok w" "ship_at w n i = Some (Some h, a)"
  shows "world_ok (w\<lparr>wd_shown := insert h (wd_shown w)\<rparr>)"
proof -
  have e: "entry_ok (wd_shown w) (wd_signed w) k j (kind_of (fst (wd_hosts w k))) (ship_at w k j)" for k j
    using assms(1) by (simp add: world_ok_def)
  have "entry_ok (insert h (wd_shown w)) (wd_signed w) k j (kind_of (fst (wd_hosts w k))) (ship_at w k j)" for k j
    using e [of k j] by (auto simp: entry_ok_def arrived_ok_def split: option.splits)
  moreover have "hf_direction h = ''out'' \<Longrightarrow> valid_id (hf_destination h)"
    using e [of n i] assms(2) by (simp add: placed_def)
  ultimately show ?thesis using assms(1) by (auto simp: world_ok_def shown_ok_def committed_def)
qed

lemma work_lawful:
  assumes "inst_of (fst (wd_hosts w n)) i = Some v" "apply_handoff sign verify mh k (sv_runtime v) = (st, ob, err, signs)"
  shows "lawful verify S G n j (ship_at w n j) (Wrote k i st)"
proof (cases "vm_handoff (sv_runtime v)")
  case None
  then show ?thesis using apply_no_handoff [OF assms(2)] assms(1)
    by (auto simp: lawful_def custody_def ship_view_def)
next
  case (Some h)
  from apply_worked [OF assms(2) Some] obtain g where "vm_handoff st = Some g" "worked k h g signs" .
  then show ?thesis using assms(1) Some by (auto simp: lawful_def custody_def ship_view_def)
qed

lemma at_host_signed: "at_host n m (w\<lparr>wd_signed := G\<rparr>) = (at_host n m w)\<lparr>wd_signed := G\<rparr>"
  by (cases w) (simp add: at_host_def)

text \<open>A step of the world shows a handoff or commits one lawful step of one host.\<close>

lemma world_stepE:
  assumes "world_step sign verify w w'" "world_ok w"
  obtains (shown) n i h a where "w' = w\<lparr>wd_shown := insert h (wd_shown w)\<rparr>" "ship_at w n i = Some (Some h, a)"
  | (commit) n m l G where "w' = (at_host n m w)\<lparr>wd_signed := G\<rparr>" "ledger_step l (wd_hosts w n) m"
      "\<And>i. lawful verify (wd_shown w) (wd_signed w) n i (ship_at w n i) l" "wd_signed w \<subseteq> G"
      "\<And>x. x \<in> G \<Longrightarrow> x \<notin> wd_signed w \<Longrightarrow>
        \<exists>i st g. l = Wrote ''commit-handoff'' i st \<and> vm_handoff st = Some g \<and> moved_out g \<and> x = commitment_bytes g"
proof -
  have plain: thesis if "w' = at_host n m w" "ledger_step l (wd_hosts w n) m"
    "\<And>i. lawful verify (wd_shown w) (wd_signed w) n i (ship_at w n i) l" for n m l
    by (rule commit [OF _ that(2,3) order_refl]) (use that(1) in \<open>simp_all add: at_host_def\<close>)
  show thesis using assms(1)
  proof cases
    case (ws_show n i h a)
    then show ?thesis using shown by simp
  next
    case (ws_activate k c n m)
    then show ?thesis using plain [OF ws_activate(1,2)] by (simp add: lawful_def unforged_def)
  next
    case (ws_write k i st n m h a)
    have "lawful verify (wd_shown w) (wd_signed w) n j (ship_at w n j) (Wrote k i st)" for j
    proof (cases h)
      case None
      then show ?thesis using ws_write(3,4) by (auto simp: lawful_def)
    next
      case (Some g)
      then have "same_move (Some g) (vm_handoff st)" using ws_write(4) by simp
      then obtain g' where "vm_handoff st = Some g'" by (rule same_move_Some)
      then have "worked k g g' False" using ws_write(4) Some same_move_worked by simp
      then show ?thesis using ws_write(3) Some \<open>vm_handoff st = Some g'\<close> unfolding lawful_def by auto
    qed
    then show ?thesis by (rule plain [OF ws_write(1,2)])
  next
    case (ws_work k i st n m v mh ob err signs)
    note law = work_lawful [OF ws_work(3,4)]
    show ?thesis
    proof (cases "signs \<and> vm_handoff st \<noteq> None")
      case True
      then obtain g where g: "vm_handoff st = Some g" by auto
      have "\<exists>h. vm_handoff (sv_runtime v) = Some h" using apply_no_handoff [OF ws_work(4)] True by (cases "vm_handoff (sv_runtime v)") auto
      then obtain h where "vm_handoff (sv_runtime v) = Some h" by blast
      from apply_worked [OF ws_work(4) this] obtain g' where "vm_handoff st = Some g'" "worked k h g' signs" .
      then have c: "k = ''commit-handoff''" "moved_out g" using workedD(11) True g by auto
      have "w' = (at_host n m w)\<lparr>wd_signed := insert (commitment_bytes g) (wd_signed w)\<rparr>"
        using ws_work(1) True g by (simp add: sign_move_def at_host_signed)
      then show ?thesis by (rule commit [OF _ ws_work(2) law]) (use c g in auto)
    next
      case False
      then have "w' = at_host n m w" using ws_work(1) by (auto simp: sign_move_def split: option.split)
      then show ?thesis by (rule plain [OF _ ws_work(2) law])
    qed
  qed (use plain in \<open>simp_all add: lawful_def\<close>)
qed

lemma world_step_ok:
  assumes "world_step sign verify w w'" "world_ok w"
  shows "world_ok w'"
  using assms
proof (cases rule: world_stepE)
  case (shown n i h a)
  then show ?thesis using show_ok [OF assms(2)] by simp
next
  case (commit n m l G)
  show ?thesis unfolding commit(1) by (rule step_at [OF assms(2) commit(2-5)])
qed

lemma world_reachable_ok: "world_reachable sign verify w \<Longrightarrow> world_ok w"
  by (induction rule: world_reachable.induct) (simp_all add: world_start_ok world_step_ok)

section \<open>A moved ship stays moved\<close>

lemma step_moved:
  assumes "world_step sign verify w w'" "world_ok w" "ship_at w n i = Some (Some g, a)" "moved_out g"
  shows "\<exists>g' b. ship_at w' n i = Some (Some g', b) \<and> moved_out g' \<and> transfer g' = transfer g"
  using assms(1,2)
proof (cases rule: world_stepE)
  case (commit k m l G)
  show ?thesis
  proof (cases "k = n")
    case True
    with commit(2) have l: "ledger_step l (wd_hosts w n) m" by simp
    from host_moved [OF assms(2) l _ assms(3,4)] commit(3) [of i] True show ?thesis
      by (simp add: commit(1) at_host_def)
  qed (use commit(1) assms(3,4) in \<open>auto simp: at_host_def\<close>)
qed (use assms(3,4) in auto)

lemma steps_moved:
  assumes "(world_step sign verify)\<^sup>*\<^sup>* w w'" "world_ok w" "ship_at w n i = Some (Some g, a)" "moved_out g"
  shows "\<exists>g' b. ship_at w' n i = Some (Some g', b) \<and> moved_out g' \<and> transfer g' = transfer g"
proof -
  have "world_ok w' \<and> (\<exists>g' b. ship_at w' n i = Some (Some g', b) \<and> moved_out g' \<and> transfer g' = transfer g)"
    using assms(1)
  proof (induction rule: rtranclp_induct)
    case (step y z)
    then obtain g' b where y: "ship_at y n i = Some (Some g', b)" "moved_out g'" "transfer g' = transfer g" and ok: "world_ok y" by blast
    from step_moved [OF step(2) ok y(1,2)] y(3) world_step_ok [OF step(2) ok] show ?case by auto
  qed (use assms(2-4) in blast)
  then show ?thesis by blast
qed

end
