(* ===== verification/Sha256Test.thy ===== *)
theory Sha256Test
  imports Sha256
begin

text \<open>
  The sum of \<open>''abc''\<close> is the one that FIPS 180-4 gives: the constants are the published words, and the
  block is computed round by round. Concrete runs of the models use this sum.
\<close>

section \<open>The constants\<close>

lemma root_floor_invariant:
  assumes "r ^ e \<le> n" "n < (r + 2 ^ k) ^ e"
  shows "foldl (\<lambda>r b. if (r + 2 ^ b) ^ e \<le> n then r + 2 ^ b else r) r (rev [0..<k]) ^ e \<le> n
    \<and> n < Suc (foldl (\<lambda>r b. if (r + 2 ^ b) ^ e \<le> n then r + 2 ^ b else r) r (rev [0..<k])) ^ e"
  using assms
proof (induction k arbitrary: r)
  case (Suc k)
  have "n < (r + 2 ^ k + 2 ^ k) ^ e" using Suc.prems(2) by (simp add: mult_2 add.assoc)
  then show ?case using Suc.IH [of "if (r + 2 ^ k) ^ e \<le> n then r + 2 ^ k else r"] Suc.prems(1)
    by auto
qed simp

text \<open>The root is the one number between whose powers the argument lies.\<close>

lemma root_floorI:
  assumes "r ^ e \<le> n" "n < Suc r ^ e" "n < 2 ^ (64 * e)" "0 < e"
  shows "root_floor e n = r"
proof -
  have "0 ^ e \<le> n" "n < (0 + 2 ^ 64) ^ e" using assms(3,4) by (simp_all add: power_mult zero_power)
  from root_floor_invariant [OF this] have *: "root_floor e n ^ e \<le> n" "n < Suc (root_floor e n) ^ e"
    by (simp_all add: root_floor_def)
  have "root_floor e n < Suc r" using le_less_trans [OF *(1) assms(2)] by (rule power_less_imp_less_base) simp
  moreover have "r < Suc (root_floor e n)" using le_less_trans [OF assms(1) *(2)] by (rule power_less_imp_less_base) simp
  ultimately show ?thesis by simp
qed

text \<open>A divisor of a number below \<open>18\<^sup>2\<close> comes with one below 18.\<close>

lemma small_divisors:
  assumes "n < 324"
  shows "list_all (\<lambda>d. \<not> d dvd n) [2..<n] \<longleftrightarrow> list_all (\<lambda>d. d < n \<longrightarrow> \<not> d dvd n) [2..<18]"
proof -
  have "\<exists>c\<in>{2..<18}. c < n \<and> c dvd n" if d: "d \<in> {2..<n}" "d dvd n" for d
  proof (cases "d < 18")
    case False
    obtain c where c: "n = d * c" using d(2) by (rule dvdE)
    have "c < 18"
    proof (rule ccontr)
      assume "\<not> c < 18"
      then have "18 * 18 \<le> d * c" using False by (intro mult_le_mono) simp_all
      then show False using assms c by simp
    qed
    moreover have "c \<noteq> 0" "c \<noteq> 1" using c d(1) by auto
    moreover have "c < n" using c d(1) \<open>c \<noteq> 0\<close> by simp
    moreover have "c dvd n" using c by simp
    ultimately show ?thesis by (intro bexI [of _ c]) simp_all
  next
    case True
    then show ?thesis using d by (intro bexI [of _ d]) simp_all
  qed
  then show ?thesis unfolding list_all_iff set_upt by (metis atLeastLessThan_iff)
qed

lemma sha_primes_eq: "sha_primes = [2, 3, 5, 7, 11, 13, 17, 19, 23, 29, 31, 37, 41, 43, 47, 53, 59, 61, 67, 71, 73, 79, 83, 89, 97, 101, 103, 107, 109, 113, 127, 131, 137, 139, 149, 151, 157, 163, 167, 173, 179, 181, 191, 193, 197, 199, 211, 223, 227, 229, 233, 239, 241, 251, 257, 263, 269, 271, 277, 281, 283, 293, 307, 311]"
proof -
  have "sha_primes = filter (\<lambda>n. list_all (\<lambda>d. d < n \<longrightarrow> \<not> d dvd n) [2..<18]) [2..<312]"
    unfolding sha_primes_def by (rule filter_cong [OF refl small_divisors]) (unfold set_upt atLeastLessThan_iff, linarith)
  then show ?thesis by (simp add: upt_rec_numeral)
qed

lemma cube_roots: "root_floor 3 (2 * 2 ^ 96) = 5411319704"
  "root_floor 3 (3 * 2 ^ 96) = 6194414737"
  "root_floor 3 (5 * 2 ^ 96) = 7344290767"
  "root_floor 3 (7 * 2 ^ 96) = 8215976869"
  "root_floor 3 (11 * 2 ^ 96) = 9551921755"
  "root_floor 3 (13 * 2 ^ 96) = 10098905585"
  "root_floor 3 (17 * 2 ^ 96) = 11043570340"
  "root_floor 3 (19 * 2 ^ 96) = 11460697813"
  "root_floor 3 (23 * 2 ^ 96) = 12214315672"
  "root_floor 3 (29 * 2 ^ 96) = 13195500289"
  "root_floor 3 (31 * 2 ^ 96) = 13492127166"
  "root_floor 3 (37 * 2 ^ 96) = 14311783875"
  "root_floor 3 (41 * 2 ^ 96) = 14809980276"
  "root_floor 3 (43 * 2 ^ 96) = 15046980094"
  "root_floor 3 (47 * 2 ^ 96) = 15499789991"
  "root_floor 3 (53 * 2 ^ 96) = 16133124468"
  "root_floor 3 (59 * 2 ^ 96) = 16720292289"
  "root_floor 3 (61 * 2 ^ 96) = 16907126662"
  "root_floor 3 (67 * 2 ^ 96) = 17444216262"
  "root_floor 3 (71 * 2 ^ 96) = 17784676812"
  "root_floor 3 (73 * 2 ^ 96) = 17950125167"
  "root_floor 3 (79 * 2 ^ 96) = 18429019306"
  "root_floor 3 (83 * 2 ^ 96) = 18734950876"
  "root_floor 3 (89 * 2 ^ 96) = 19175934170"
  "root_floor 3 (97 * 2 ^ 96) = 19734090066"
  "root_floor 3 (101 * 2 ^ 96) = 20001703533"
  "root_floor 3 (103 * 2 ^ 96) = 20132865992"
  "root_floor 3 (107 * 2 ^ 96) = 20390182855"
  "root_floor 3 (109 * 2 ^ 96) = 20516441075"
  "root_floor 3 (113 * 2 ^ 96) = 20764397895"
  "root_floor 3 (127 * 2 ^ 96) = 21588763473"
  "root_floor 3 (131 * 2 ^ 96) = 21813078375"
  "root_floor 3 (137 * 2 ^ 96) = 22141143685"
  "root_floor 3 (139 * 2 ^ 96) = 22248366392"
  "root_floor 3 (149 * 2 ^ 96) = 22769593852"
  "root_floor 3 (151 * 2 ^ 96) = 22871018771"
  "root_floor 3 (157 * 2 ^ 96) = 23170020180"
  "root_floor 3 (163 * 2 ^ 96) = 23461497531"
  "root_floor 3 (167 * 2 ^ 96) = 23651862830"
  "root_floor 3 (173 * 2 ^ 96) = 23931792517"
  "root_floor 3 (179 * 2 ^ 96) = 24205322401"
  "root_floor 3 (181 * 2 ^ 96) = 24295138891"
  "root_floor 3 (191 * 2 ^ 96) = 24734567280"
  "root_floor 3 (193 * 2 ^ 96) = 24820601251"
  "root_floor 3 (197 * 2 ^ 96) = 24990902297"
  "root_floor 3 (199 * 2 ^ 96) = 25075189284"
  "root_floor 3 (211 * 2 ^ 96) = 25569408389"
  "root_floor 3 (223 * 2 ^ 96) = 26045227120"
  "root_floor 3 (227 * 2 ^ 96) = 26200031510"
  "root_floor 3 (229 * 2 ^ 96) = 26276752392"
  "root_floor 3 (233 * 2 ^ 96) = 26428864332"
  "root_floor 3 (239 * 2 ^ 96) = 26653801653"
  "root_floor 3 (241 * 2 ^ 96) = 26727943347"
  "root_floor 3 (251 * 2 ^ 96) = 27092625994"
  "root_floor 3 (257 * 2 ^ 96) = 27306805839"
  "root_floor 3 (263 * 2 ^ 96) = 27517677555"
  "root_floor 3 (269 * 2 ^ 96) = 27725365998"
  "root_floor 3 (271 * 2 ^ 96) = 27793908591"
  "root_floor 3 (277 * 2 ^ 96) = 27997534228"
  "root_floor 3 (281 * 2 ^ 96) = 28131656200"
  "root_floor 3 (283 * 2 ^ 96) = 28198240250"
  "root_floor 3 (293 * 2 ^ 96) = 28526537963"
  "root_floor 3 (307 * 2 ^ 96) = 28973835255"
  "root_floor 3 (311 * 2 ^ 96) = 29099129074"
  by (rule root_floorI; simp)+

lemma square_roots: "root_floor 2 (2 * 2 ^ 64) = 6074000999"
  "root_floor 2 (3 * 2 ^ 64) = 7439101573"
  "root_floor 2 (5 * 2 ^ 64) = 9603838834"
  "root_floor 2 (7 * 2 ^ 64) = 11363415354"
  "root_floor 2 (11 * 2 ^ 64) = 14244795007"
  "root_floor 2 (13 * 2 ^ 64) = 15485724812"
  "root_floor 2 (17 * 2 ^ 64) = 17708603819"
  "root_floor 2 (19 * 2 ^ 64) = 18721328409"
  by (rule root_floorI; simp)+

lemma sha_k_eq: "sha_k = [1116352408, 1899447441, 3049323471, 3921009573, 961987163, 1508970993, 2453635748, 2870763221, 3624381080, 310598401, 607225278, 1426881987, 1925078388, 2162078206, 2614888103, 3248222580, 3835390401, 4022224774, 264347078, 604807628, 770255983, 1249150122, 1555081692, 1996064986, 2554220882, 2821834349, 2952996808, 3210313671, 3336571891, 3584528711, 113926993, 338241895, 666307205, 773529912, 1294757372, 1396182291, 1695183700, 1986661051, 2177026350, 2456956037, 2730485921, 2820302411, 3259730800, 3345764771, 3516065817, 3600352804, 4094571909, 275423344, 430227734, 506948616, 659060556, 883997877, 958139571, 1322822218, 1537002063, 1747873779, 1955562222, 2024104815, 2227730452, 2361852424, 2428436474, 2756734187, 3204031479, 3329325298]"
  by (simp only: sha_k_def sha_primes_eq list.map cube_roots, simp)

lemma take_eight: "take 8 (a # b # c # d # e # f # g # h # xs) = [a, b, c, d, e, f, g, h]"
  by simp

lemma sha_h0_eq: "sha_h0 = [1779033703, 3144134277, 1013904242, 2773480762, 1359893119, 2600822924, 528734635, 1541459225]"
  by (simp only: sha_h0_def sha_primes_eq take_eight list.map square_roots, simp)

lemma rotr_bits:
  assumes "0 < n" "n < 32"
  shows "rotr n w = or (drop_bit n w) (push_bit (32 - n) w)"
proof -
  have "bit (rotr n w) i = bit (or (drop_bit n w) (push_bit (32 - n) w)) i" if i: "i < 32" for i
  proof -
    have r: "bit (rotr n w) i \<longleftrightarrow> bit w ((i + n) mod 32)" using i by (simp add: rotr_def bit_word_rotr_iff)
    have o: "bit (or (drop_bit n w) (push_bit (32 - n) w)) i \<longleftrightarrow> bit w (n + i) \<or> 32 - n \<le> i \<and> bit w (i - (32 - n))"
      using i by (simp add: bit_or_iff bit_drop_bit_eq bit_push_bit_iff)
    show ?thesis
    proof (cases "i + n < 32")
      case True
      then have "\<not> 32 - n \<le> i" by linarith
      then show ?thesis unfolding r o using True by (simp add: add.commute)
    next
      case False
      then have "(i + n) mod 32 = i - (32 - n)" using assms i by (simp add: mod_if)
      moreover have "32 - n \<le> i" using False by linarith
      moreover have "\<not> bit w (n + i)" using False bit_imp_le_length [of w "n + i"] by auto
      ultimately show ?thesis unfolding r o by simp
    qed
  qed
  then show ?thesis by (auto intro: bit_word_eqI)
qed

section \<open>One block\<close>

lemma schedule_step: "schedule (numeral k) ws =
    schedule (pred_numeral k) ((small1 (ws ! 1) + ws ! 6 + small0 (ws ! 14) + ws ! 15) # ws)"
  by (simp add: numeral_eq_Suc)

lemma chunks_word: "chunks 4 (a # b # c # d # xs) = [a, b, c, d] # chunks 4 xs"
  by simp

lemma chunks_block: "length xs = 64 \<Longrightarrow> chunks 64 xs = [xs]"
  by (cases xs) simp_all

lemma be_bytes_step: "be_bytes (numeral k) v = be_bytes (pred_numeral k) (v div 256) @ [v mod 256]"
  unfolding numeral_eq_Suc [of k] by (rule be_bytes.simps(2))

lemma abc_padding: "sha_pad [97, 98, 99] = 
     [97, 98, 99, 128, 0, 0, 0, 0, 0, 0, 0, 0, 0, 0, 0, 0, 0, 0, 0, 0, 0, 0, 0, 0, 0, 0, 0, 0, 0, 0, 0, 0, 0, 0, 0, 0,
     0, 0, 0, 0, 0, 0, 0, 0, 0, 0, 0, 0, 0, 0, 0, 0, 0, 0, 0, 0, 0, 0, 0, 0, 0, 0, 0, 24]"
proof -
  have "replicate 52 (0 :: nat) = 
     [0, 0, 0, 0, 0, 0, 0, 0, 0, 0, 0, 0, 0, 0, 0, 0, 0, 0, 0, 0, 0, 0, 0, 0, 0, 0, 0, 0, 0, 0, 0, 0, 0, 0, 0, 0, 0, 0,
     0, 0, 0, 0, 0, 0, 0, 0, 0, 0, 0, 0, 0, 0]" by code_simp
  then show ?thesis by (simp add: sha_pad_def be_bytes_step)
qed

lemma abc_words: "map be32 (chunks 4 (sha_pad [97, 98, 99])) = 
     [1633837952, 0, 0, 0, 0, 0, 0, 0, 0, 0, 0, 0, 0, 0, 0, 24]"
  unfolding abc_padding chunks_word chunks.simps(1) list.map by (simp add: be32_def)

lemma abc_schedule: "rev (schedule 48 (rev 
     [1633837952, 0, 0, 0, 0, 0, 0, 0, 0, 0, 0, 0, 0, 0, 0, 24])) = 
     [1633837952, 0, 0, 0, 0, 0, 0, 0, 0, 0, 0, 0, 0, 0, 0, 24, 1633837952, 983040, 2108187653, 1610613702, 1050508152,
     25426944, 316456923, 3806512014, 3357629466, 3073800610, 3854317833, 845560923, 2636160359, 3968280267,
     1881225380, 3552024379, 2482346367, 996719219, 2952069057, 4043988066, 176896406, 1924104970, 2483675966,
     610538786, 2672279444, 4037431130, 1042573945, 657669027, 206005234, 2215296807, 2049510749, 106709978,
     4215179723, 3430291419, 3118885940, 2845390439, 2226839261, 3256115900, 344409900, 2987358873, 4015503821,
     3957764664, 2682456414, 2025622859, 2755645205, 1720397816, 4004225740, 313650667]"
  by (simp add: schedule_step small0_def small1_def rotr_bits)

lemma abc_rounds_1: "foldl sha_round [1779033703, 3144134277, 1013904242, 2773480762, 1359893119, 2600822924, 528734635, 1541459225] (zip 
     [1116352408, 1899447441, 3049323471, 3921009573, 961987163, 1508970993, 2453635748, 2870763221, 3624381080,
     310598401, 607225278, 1426881987, 1925078388, 2162078206, 2614888103, 3248222580] 
     [1633837952, 0, 0, 0, 0, 0, 0, 0, 0, 0, 0, 0, 0, 0, 0, 24]) =
     [2969183118, 3227803614, 3643992854, 2274437520, 123276749, 194179596, 1952073950, 509051416]"
  by (simp add: big0_def big1_def choose3_def majority_def rotr_bits)

lemma abc_rounds_2: "foldl sha_round [2969183118, 3227803614, 3643992854, 2274437520, 123276749, 194179596, 1952073950, 509051416] (zip 
     [3835390401, 4022224774, 264347078, 604807628, 770255983, 1249150122, 1555081692, 1996064986, 2554220882,
     2821834349, 2952996808, 3210313671, 3336571891, 3584528711, 113926993, 338241895] 
     [1633837952, 983040, 2108187653, 1610613702, 1050508152, 25426944, 316456923, 3806512014, 3357629466, 3073800610,
     3854317833, 845560923, 2636160359, 3968280267, 1881225380, 3552024379]) =
     [1941126133, 3935906338, 2684750640, 909411017, 3126399250, 17410874, 2917635127, 1628611511]"
  by (simp add: big0_def big1_def choose3_def majority_def rotr_bits)

lemma abc_rounds_3: "foldl sha_round [1941126133, 3935906338, 2684750640, 909411017, 3126399250, 17410874, 2917635127, 1628611511] (zip 
     [666307205, 773529912, 1294757372, 1396182291, 1695183700, 1986661051, 2177026350, 2456956037, 2730485921,
     2820302411, 3259730800, 3345764771, 3516065817, 3600352804, 4094571909, 275423344] 
     [2482346367, 996719219, 2952069057, 4043988066, 176896406, 1924104970, 2483675966, 610538786, 2672279444,
     4037431130, 1042573945, 657669027, 206005234, 2215296807, 2049510749, 106709978]) =
     [1098003085, 2706117808, 1923828625, 643991573, 4274981830, 3581645993, 3077922209, 2819559920]"
  by (simp add: big0_def big1_def choose3_def majority_def rotr_bits)

lemma abc_rounds_4: "foldl sha_round [1098003085, 2706117808, 1923828625, 643991573, 4274981830, 3581645993, 3077922209, 2819559920] (zip 
     [430227734, 506948616, 659060556, 883997877, 958139571, 1322822218, 1537002063, 1747873779, 1955562222,
     2024104815, 2227730452, 2361852424, 2428436474, 2756734187, 3204031479, 3329325298] 
     [4215179723, 3430291419, 3118885940, 2845390439, 2226839261, 3256115900, 344409900, 2987358873, 4015503821,
     3957764664, 2682456414, 2025622859, 2755645205, 1720397816, 4004225740, 313650667]) =
     [1349398616, 3550093669, 80891244, 3093179625, 1593118500, 4212265488, 2492278198, 2518632596]"
  by (simp add: big0_def big1_def choose3_def majority_def rotr_bits)

lemma abc_block: "sha_block sha_h0 
     [1633837952, 0, 0, 0, 0, 0, 0, 0, 0, 0, 0, 0, 0, 0, 0, 24] = [3128432319, 2399260650, 1094795486, 1571693091, 2953011619, 2518121116, 3021012833, 4060091821]"
proof -
  have "zip sha_k (
     [1633837952, 0, 0, 0, 0, 0, 0, 0, 0, 0, 0, 0, 0, 0, 0, 24, 1633837952, 983040, 2108187653, 1610613702, 1050508152,
     25426944, 316456923, 3806512014, 3357629466, 3073800610, 3854317833, 845560923, 2636160359, 3968280267,
     1881225380, 3552024379, 2482346367, 996719219, 2952069057, 4043988066, 176896406, 1924104970, 2483675966,
     610538786, 2672279444, 4037431130, 1042573945, 657669027, 206005234, 2215296807, 2049510749, 106709978,
     4215179723, 3430291419, 3118885940, 2845390439, 2226839261, 3256115900, 344409900, 2987358873, 4015503821,
     3957764664, 2682456414, 2025622859, 2755645205, 1720397816, 4004225740, 313650667] :: u32 list) = zip 
     [1116352408, 1899447441, 3049323471, 3921009573, 961987163, 1508970993, 2453635748, 2870763221, 3624381080,
     310598401, 607225278, 1426881987, 1925078388, 2162078206, 2614888103, 3248222580] 
     [1633837952, 0, 0, 0, 0, 0, 0, 0, 0, 0, 0, 0, 0, 0, 0, 24] @ zip 
     [3835390401, 4022224774, 264347078, 604807628, 770255983, 1249150122, 1555081692, 1996064986, 2554220882,
     2821834349, 2952996808, 3210313671, 3336571891, 3584528711, 113926993, 338241895] 
     [1633837952, 983040, 2108187653, 1610613702, 1050508152, 25426944, 316456923, 3806512014, 3357629466, 3073800610,
     3854317833, 845560923, 2636160359, 3968280267, 1881225380, 3552024379] @ zip 
     [666307205, 773529912, 1294757372, 1396182291, 1695183700, 1986661051, 2177026350, 2456956037, 2730485921,
     2820302411, 3259730800, 3345764771, 3516065817, 3600352804, 4094571909, 275423344] 
     [2482346367, 996719219, 2952069057, 4043988066, 176896406, 1924104970, 2483675966, 610538786, 2672279444,
     4037431130, 1042573945, 657669027, 206005234, 2215296807, 2049510749, 106709978] @ zip 
     [430227734, 506948616, 659060556, 883997877, 958139571, 1322822218, 1537002063, 1747873779, 1955562222,
     2024104815, 2227730452, 2361852424, 2428436474, 2756734187, 3204031479, 3329325298] 
     [4215179723, 3430291419, 3118885940, 2845390439, 2226839261, 3256115900, 344409900, 2987358873, 4015503821,
     3957764664, 2682456414, 2025622859, 2755645205, 1720397816, 4004225740, 313650667]"
    by (simp add: sha_k_eq)
  then show ?thesis
    unfolding sha_block_def abc_schedule sha_h0_eq foldl_append abc_rounds_1 abc_rounds_2 abc_rounds_3 abc_rounds_4
    by (simp only: foldl_append abc_rounds_1 abc_rounds_2 abc_rounds_3 abc_rounds_4, simp)
qed

text \<open>The known answer of the standard.\<close>

lemma sha256_abc: "sha256_hex ''abc'' = ''ba7816bf8f01cfea414140de5dae2223b00361a396177a9cb410ff61f20015ad''"
proof -
  have "bytes_of ''abc'' = [97, 98, 99]" by code_simp
  moreover have "chunks 64 (sha_pad [97, 98, 99]) = [sha_pad [97, 98, 99]]"
    by (rule chunks_block) (simp add: abc_padding)
  moreover have "hex_bytes 
     [186, 120, 22, 191, 143, 1, 207, 234, 65, 65, 64, 222, 93, 174, 34, 35, 176, 3, 97, 163, 150, 23, 122, 156, 180,
     16, 255, 97, 242, 0, 21, 173] = ''ba7816bf8f01cfea414140de5dae2223b00361a396177a9cb410ff61f20015ad''" by code_simp
  ultimately show ?thesis
    by (simp add: sha256_hex_def sha256_def abc_words abc_block be_bytes_step)
qed

text \<open>Concrete runs use this sum only, so it is the code equation of the sum from here on.\<close>

lemmas sha256_known [code] = sha256_abc

end
