(* ===== verification/MoveRun.thy ===== *)
theory MoveRun
  imports MoveHosts LedgerSamples Sha256Test
begin

text \<open>
  A whole move on concrete hosts: the ship of \<open>LedgerSamples\<close> is moved from \<open>a\<close> to \<open>b\<close>.
\<close>

text \<open>The host at its \<open>k\<close>-th step: every identifier is fresh.\<close>

definition move_env :: "nat \<Rightarrow> unit env" where
  "move_env k = sample_env\<lparr>en_random := (\<lambda>n. Inr (\<lambda>j. of_nat (n + 8 * k)))\<rparr>"

definition all_hosts :: "unit move_host" where
  "all_hosts = \<lparr>mh_session = None, mh_boundary = None,
     mh_prepare = \<lparr>oh_pier = None, oh_busy = False, oh_files = None, oh_open = None,
       oh_measure = Inr \<lparr>ps_digest = replicate 64 CHR ''d'', ps_files = 1, ps_bytes = 3\<rparr>, oh_disk = Some (2 ^ 40), oh_directory = None,
       oh_spool = None, oh_archive = Inr \<lparr>ps_digest = replicate 64 CHR ''d'', ps_files = 1, ps_bytes = 3\<rparr>, oh_stat = Inr 3,
       oh_close = None, oh_sha256 = sha256_hex ''abc'', oh_linked = True, oh_existing = False, oh_remove = None, oh_sync = None, oh_save = None\<rparr>,
     mh_receive = \<lparr>ih_open = None, ih_read = Inr (3, sha256_hex ''abc''), ih_seek = None, ih_disk = Some (2 ^ 40), ih_exists = False,
       ih_runtime = zero_result, ih_save_workspace = None, ih_directories = None, ih_mount = (Some (plain_location ''p''), None),
       ih_save_mount = None, ih_extract = (Some (plain_location ''p''), None, None), ih_pier = None, ih_open_pier = None,
       ih_measure = Inr \<lparr>ps_digest = replicate 64 CHR ''d'', ps_files = 1, ps_bytes = 3\<rparr>, ih_files = None, ih_busy = False,
       ih_epochs = Inr None, ih_sync = None, ih_now = \<lparr>inst = 1000, meta = 0\<rparr>, ih_save = None\<rparr>,
     mh_commit = \<lparr>ch_resolve = None, ch_directory = None, ch_present = True, ch_archived = None, ch_pier = None, ch_open = None,
       ch_measure = Inr \<lparr>ps_digest = replicate 64 CHR ''d'', ps_files = 1, ps_bytes = 3\<rparr>, ch_move = None, ch_save = None\<rparr>\<rparr>"

definition sample_sign :: "u8 list \<Rightarrow> string \<Rightarrow> string" where
  "sample_sign key m = ''S''"

definition sample_verify :: "string \<Rightarrow> string \<Rightarrow> string \<Rightarrow> bool" where
  "sample_verify key m s \<longleftrightarrow> s = ''S''"

definition stopped_report :: "unit observation_report" where
  "stopped_report = \<lparr>bo_state = ''stopped'', bo_health = ''unknown'', bo_endpoint = '''', bo_recovery = False, bo_resources = None\<rparr>"

definition moving_report :: "unit observation_report" where
  "moving_report = stopped_report\<lparr>bo_state := ''moving''\<rparr>"


section \<open>The stores of the run\<close>

definition noon :: gotime where
  "noon = \<lparr>inst = 1000, meta = 0\<rparr>"

definition move_offer :: handoff where
  "move_offer = \<lparr>hf_id = ''10101010101010101010101010101010'', hf_direction = ''out'', hf_state = ''preparing'', hf_source = ''a'',
     hf_source_instance = ''zod'', hf_destination = ''b'', hf_destination_instance = ''zod'', hf_ship = ''~zod'', hf_mode = ''fake'',
     hf_ames = False, hf_roll = False, hf_settings = None, hf_sha256 = '''', hf_tree = '''', hf_bytes = 0, hf_created = noon,
     hf_message = ''Source fenced; preparing stopped transfer.'', hf_error = '''',
     hf_key = ''6b6b6b6b6b6b6b6b6b6b6b6b6b6b6b6b6b6b6b6b6b6b6b6b6b6b6b6b6b6b6b6b'', hf_commitment = ''''\<rparr>"

definition move_ready :: handoff where
  "move_ready = move_offer\<lparr>hf_state := ''ready'', hf_sha256 := ''ba7816bf8f01cfea414140de5dae2223b00361a396177a9cb410ff61f20015ad'',
     hf_tree := replicate 64 CHR ''d'', hf_bytes := 3, hf_message := ''Source stopped and fenced; ready to move to the selected runner.''\<rparr>"

definition move_moved :: handoff where
  "move_moved = move_ready\<lparr>hf_state := ''moved'', hf_message := ''Moved to b / zod. Source cannot be started.'', hf_commitment := ''53''\<rparr>"

definition move_in :: "string \<Rightarrow> string \<Rightarrow> handoff" where
  "move_in st m = move_ready\<lparr>hf_direction := ''in'', hf_state := st, hf_message := m\<rparr>"

definition move_reserved :: handoff where
  "move_reserved = move_in ''reserved'' ''Destination reserved; waiting for stopped pier data.''"

definition move_receiving :: handoff where
  "move_receiving = move_in ''receiving'' ''Verifying stopped pier contents on destination.''"

definition move_received :: handoff where
  "move_received = move_in ''received'' ''Pier verified on destination; waiting for source handoff commitment.''"

definition move_complete :: handoff where
  "move_complete = (move_in ''complete'' ''Stopped host move complete; explicit Start is now available on this runner.'')\<lparr>hf_commitment := ''53''\<rparr>"

text \<open>The rows of the ship, on the source and on the destination.\<close>

definition zod_public :: "u16 \<Rightarrow> bootstrap option \<Rightarrow> handoff option \<Rightarrow> string \<Rightarrow> string \<Rightarrow> string \<Rightarrow> string \<Rightarrow> gotime option
    \<Rightarrow> unit public_instance" where
  "zod_public port boot h observed active name path seen = \<lparr>in_delete_pending = False, in_bootstrap = boot,
     in_handoff = h, in_id = ''zod'', in_label = ''zod'',
     in_config = \<lparr>cf_http = port, cf_ames = 34343, cf_loom = default_loom, cf_native = False\<rparr>,
     in_revision = 1, in_applied = 0, in_desired = ''stopped'', in_observed = observed, in_active = active, in_mode = ''fake'',
     in_ship = ''~zod'', in_pier_name = name, in_pier_path = path, in_ames_published = False,
     in_identity_pending = False, in_endpoint = '''', in_health = ''unknown'', in_recovery = False, in_observed_at = seen,
     in_maintenance = None, in_resources = None, in_epochs = None, in_roll_needs = False, in_pruning = None, in_import = None,
     in_routine = None\<rparr>"

definition source_runtime :: "handoff option \<Rightarrow> unit managed_state" where
  "source_runtime h = (new_managed ''00000000000000000000000000000000'' 8080 default_loom False)\<lparr>vm_bootstrap := Some \<lparr>bs_kind = ''bare'', bs_pill = None\<rparr>,
     vm_handoff := h, vm_signing := (if h = None then NilSlice else Slice (replicate 64 0)), vm_initialized := True,
     vm_storage := Some (plain_location ''fakeships/zod/zod'')\<rparr>"

definition source_row :: "handoff option \<Rightarrow> string \<Rightarrow> u64 \<Rightarrow> (unit, unit) stored_instance" where
  "source_row h active n = \<lparr>sv_public = zod_public 8080 (Some \<lparr>bs_kind = ''bare'', bs_pill = None\<rparr>) h
       (if h = None then ''stopped'' else ''moving'') active ''zod'' ''fakeships/zod/zod'' (Some noon),
     sv_runtime = source_runtime h, sv_runtime_revision = n, sv_runtime_config = 0, sv_cpu = None, sv_startup = None\<rparr>"

definition target_runtime :: "handoff \<Rightarrow> unit managed_state" where
  "target_runtime h = (new_managed ''08080808080808080808080808080808'' 18080 default_loom False)\<lparr>vm_handoff := Some h,
     vm_fake := Some \<lparr>mf_ship = ''~zod'', mf_uncertain = False\<rparr>, vm_storage := Some (plain_location ''fakeships/zod/zod''), vm_ames := 34343\<rparr>"

definition target_row :: "handoff \<Rightarrow> string \<Rightarrow> u64 \<Rightarrow> (unit, unit) stored_instance" where
  "target_row h active n = \<lparr>sv_public = zod_public 18080 None (Some h) ''moving'' active ''zod'' ''fakeships/zod/zod'' None,
     sv_runtime = target_runtime h, sv_runtime_revision = n, sv_runtime_config = 0, sv_cpu = None, sv_startup = None\<rparr>"

definition arrived_runtime :: "handoff \<Rightarrow> unit managed_state" where
  "arrived_runtime h = (target_runtime h)\<lparr>vm_prepared := True, vm_initialized := True, vm_storage := Some (plain_location ''p''),
     vm_runtime := zero_result\<lparr>rr_stage := ''receiving-handoff''\<rparr>,
     vm_adoption := Some \<lparr>ad_fingerprint = pier_fingerprint no_pier, ad_uncertain = False, ad_verified = True, ad_finished = Some noon\<rparr>\<rparr>"

definition arrived_row :: "handoff \<Rightarrow> string \<Rightarrow> u64 \<Rightarrow> (unit, unit) stored_instance" where
  "arrived_row h observed n = \<lparr>sv_public = zod_public 18080 None (Some h) observed '''' ''p'' ''p'' (Some noon),
     sv_runtime = arrived_runtime h, sv_runtime_revision = n, sv_runtime_config = 0, sv_cpu = None, sv_startup = None\<rparr>"

definition move_op :: "string \<Rightarrow> string \<Rightarrow> string \<Rightarrow> string \<Rightarrow> operation" where
  "move_op i request kind status = \<lparr>op_project = '''', op_restoration = None, op_id = i, op_request = request, op_instance = ''zod'',
     op_kind = kind, op_actor = ''me'', op_status = status, op_revision = 1, op_created = noon,
     op_finished = (if status = ''succeeded'' then Some noon else None), op_message = ''''\<rparr>"

definition plain_op :: "operation \<Rightarrow> fingerprint \<Rightarrow> unit op_row" where
  "plain_op op fp = \<lparr>ow_op = op, ow_fingerprint = fp, ow_runtime = None, ow_receipt = None\<rparr>"

definition one_ship :: "(unit, unit) stored_instance \<Rightarrow> unit op_row list \<Rightarrow> (unit, unit) tables" where
  "one_ship v ops = \<lparr>tb_instances = [(''zod'', v)], tb_operations = ops, tb_policies = [], tb_deleted = []\<rparr>"

definition op_register :: "unit op_row" where
  "op_register = plain_op (move_op ''op-01010101010101010101010101010101'' ''create'' ''register-fake'' ''succeeded'')
     (RegisterFake (sample_create\<lparr>cq_label := ''zod''\<rparr>))"

definition op_prepare :: "string \<Rightarrow> operation" where
  "op_prepare st = move_op ''op-11111111111111111111111111111111'' ''prepare'' ''prepare-handoff'' st"

definition op_commit :: "string \<Rightarrow> operation" where
  "op_commit st = move_op ''op-28282828282828282828282828282828'' ''commit'' ''commit-handoff'' st"

definition op_receive :: "string \<Rightarrow> operation" where
  "op_receive st = move_op ''op-10101010101010101010101010101010'' ''receive-10101010101010101010101010101010'' ''receive-handoff'' st"

definition move_work :: "operation \<Rightarrow> unit op_row" where
  "move_work op = plain_op op (HandoffWork ''10101010101010101010101010101010'' (op_kind op))"

definition offered :: "handoff \<Rightarrow> receive_request" where
  "offered h = \<lparr>vq_offer = h, vq_http = 18080, vq_ames = 0, vq_request = ''receive''\<rparr>"

definition op_reserve :: "unit op_row" where
  "op_reserve = (plain_op (move_op ''op-09090909090909090909090909090909'' ''receive'' ''reserve-handoff'' ''succeeded'') (ReserveHandoff (offered move_ready)))
     \<lparr>ow_receipt := Some (201, move_reserved)\<rparr>"

definition finish_move :: "string \<Rightarrow> string \<Rightarrow> finish_request" where
  "finish_move c r = \<lparr>fq_commitment = c, fq_sha256 = ''ba7816bf8f01cfea414140de5dae2223b00361a396177a9cb410ff61f20015ad'', fq_request = r, fq_expected = 1\<rparr>"

definition op_activate :: "unit op_row" where
  "op_activate = (plain_op (move_op ''op-40404040404040404040404040404040'' ''activate'' ''activate-handoff'' ''succeeded'')
     (ActivateHandoff ''10101010101010101010101010101010'' (finish_move ''53'' ''activate'')))\<lparr>ow_receipt := Some (200, move_complete)\<rparr>"

definition sample_upload :: upload where
  "sample_upload = \<lparr>up_length = 3, up_hash = sha256_hex ''abc'', up_type = ''application/octet-stream'', up_body = ''abc''\<rparr>"


definition registered_row :: "(unit, unit) stored_instance" where
  "registered_row = (source_row None '''' 0)\<lparr>sv_public := zod_public 8080 (Some \<lparr>bs_kind = ''bare'', bs_pill = None\<rparr>) None ''uninitialized''
     '''' ''zod'' ''fakeships/zod/zod'' None, sv_runtime := (source_runtime None)\<lparr>vm_initialized := False\<rparr>\<rparr>"

lemma run_register: "tables_of sample_register = one_ship registered_row [op_register]"
  by code_simp

definition source_start :: "(unit, unit) tables" where
  "source_start = one_ship (source_row None '''' 1) [op_register]"

lemma run_observe: "observe (move_env 1) registered_row (source_runtime None) stopped_report (one_ship registered_row [op_register]) = Inr source_start"
  by code_simp

definition source_preparing :: "string \<Rightarrow> (unit, unit) tables" where
  "source_preparing st = one_ship (source_row (Some move_offer) ''op-11111111111111111111111111111111'' 2) [op_register, move_work (op_prepare st)]"

definition move_request :: prepare_request where
  "move_request = \<lparr>pq_expected = 1, pq_request = ''prepare'', pq_runner = ''b'', pq_instance = ''zod'', pq_settings = False\<rparr>"

lemma run_prepare: "prepare_handoff (move_env 2) ''a'' (Inr (replicate 32 CHR ''k'', replicate 64 0)) ''me'' ''operator'' ''zod''
     move_request source_start = Inr (202, move_offer, Some (op_prepare ''queued''), source_preparing ''queued'')"
  by code_simp

lemma run_begin_prepare: "begin_operation ''op-11111111111111111111111111111111'' (source_preparing ''queued'')
  = Inr (op_prepare ''running'', source_row (Some move_offer) ''op-11111111111111111111111111111111'' 2, source_preparing ''running'')"
  by code_simp

definition source_ready :: "(unit, unit) tables" where
  "source_ready = one_ship (source_row (Some move_ready) '''' 3) [op_register, move_work (op_prepare ''succeeded'')]"

lemma run_work_prepare: "apply_handoff sample_sign sample_verify all_hosts ''prepare-handoff'' (source_runtime (Some move_offer))
  = (source_runtime (Some move_ready), ''moving'', None, False)"
  by code_simp

lemma run_finish_prepare: "finish (move_env 4) (op_prepare ''running'') (source_runtime (Some move_ready)) moving_report None False (source_preparing ''running'')
  = Inr source_ready"
  by code_simp

section \<open>The steps of the destination\<close>

definition target_reserved :: "(unit, unit) tables" where
  "target_reserved = one_ship (target_row move_reserved '''' 0) [op_reserve]"

lemma run_receive: "receive_handoff (move_env 1) ''b'' ''me'' ''operator'' (offered move_ready) empty_tables
  = Inr (201, move_reserved, None, target_reserved)"
  by code_simp

definition target_receiving :: "string \<Rightarrow> (unit, unit) tables" where
  "target_receiving st = one_ship (target_row move_receiving ''op-10101010101010101010101010101010'' 1) [op_reserve, move_work (op_receive st)]"

lemma run_upload: "upload_handoff (move_env 2) ''me'' ''operator'' ''10101010101010101010101010101010'' sample_upload
     \<lparr>uh_free = (\<lambda>n. True), uh_spool = None, uh_write = True, uh_publish = None\<rparr> target_reserved target_reserved
  = Inr (202, move_receiving, Some (op_receive ''queued''), target_receiving ''queued'')"
  by code_simp

lemma run_begin_receive: "begin_operation ''op-10101010101010101010101010101010'' (target_receiving ''queued'')
  = Inr (op_receive ''running'', target_row move_receiving ''op-10101010101010101010101010101010'' 1, target_receiving ''running'')"
  by code_simp

lemma run_work_receive: "apply_handoff sample_sign sample_verify all_hosts ''receive-handoff'' (target_runtime move_receiving)
  = (arrived_runtime move_received, ''moving'', None, False)"
  by code_simp

definition target_received :: "(unit, unit) tables" where
  "target_received = one_ship (arrived_row move_received ''moving'' 2) [op_reserve, move_work (op_receive ''succeeded'')]"

lemma run_finish_receive: "finish (move_env 4) (op_receive ''running'') (arrived_runtime move_received) moving_report None False (target_receiving ''running'')
  = Inr target_received"
  by code_simp

section \<open>The commitment\<close>

definition source_committing :: "string \<Rightarrow> (unit, unit) tables" where
  "source_committing st = one_ship (source_row (Some move_ready) ''op-28282828282828282828282828282828'' 4)
     [op_register, move_work (op_prepare ''succeeded''), move_work (op_commit st)]"

lemma run_commit: "control_handoff (move_env 5) ''me'' ''operator'' ''10101010101010101010101010101010'' ''commit'' (finish_move '''' ''commit'') source_ready
  = Inr (202, move_ready, Some (op_commit ''queued''), source_committing ''queued'')"
  by code_simp

lemma run_begin_commit: "begin_operation ''op-28282828282828282828282828282828'' (source_committing ''queued'')
  = Inr (op_commit ''running'', source_row (Some move_ready) ''op-28282828282828282828282828282828'' 4, source_committing ''running'')"
  by code_simp

lemma sample_signed: "signed_handoff sample_sign h s = h\<lparr>hf_state := ''moved'', hf_commitment := ''53''\<rparr>"
proof -
  have "hex_bytes (bytes_of ''S'') = ''53''" by code_simp
  then show ?thesis by (simp add: signed_handoff_def Let_def sample_sign_def)
qed

lemma sample_valid: "hf_key h = hf_key move_offer \<Longrightarrow> valid_commitment sample_verify h ''53''"
proof -
  have "map_option length (hex_decode (hf_key move_offer)) = Some 32" "hex_decode ''53'' = Some ''S''" by code_simp+
  then show "hf_key h = hf_key move_offer \<Longrightarrow> valid_commitment sample_verify h ''53''"
    by (auto simp: valid_commitment_def sample_verify_def)
qed

lemma run_work_commit: "apply_handoff sample_sign sample_verify all_hosts ''commit-handoff'' (source_runtime (Some move_ready))
  = (source_runtime (Some move_moved), ''moved'', None, True)"
proof -
  have "transfer_refused all_hosts (source_runtime (Some move_ready)) = None" by code_simp
  moreover have "retire_failure (mh_commit all_hosts) move_ready (source_runtime (Some move_ready)) = None" by code_simp
  moreover have "ch_save (mh_commit all_hosts) = None" by code_simp
  moreover have "with_handoff (source_runtime (Some move_ready)) (moved_message (move_ready\<lparr>hf_state := ''moved'', hf_commitment := ''53''\<rparr>))
    = source_runtime (Some move_moved)" by code_simp
  moreover have "vm_handoff (source_runtime h) = h" for h by (simp add: source_runtime_def)
  moreover have "hf_key move_ready = hf_key move_offer" "hf_key move_moved = hf_key move_offer" "hf_commitment move_moved = ''53''"
    by (simp_all add: move_moved_def move_ready_def)
  ultimately show ?thesis by (simp add: apply_handoff_def commit_transfer_def Let_def sample_signed sample_valid)
qed

definition source_moved :: "(unit, unit) tables" where
  "source_moved = one_ship (source_row (Some move_moved) '''' 5)
     [op_register, move_work (op_prepare ''succeeded''), move_work (op_commit ''succeeded'')]"

lemma run_finish_commit: "finish (move_env 7) (op_commit ''running'') (source_runtime (Some move_moved)) moving_report None False (source_committing ''running'')
  = Inr source_moved"
  by code_simp

definition target_complete :: "(unit, unit) tables" where
  "target_complete = one_ship (arrived_row move_complete ''stopped'' 3) [op_reserve, move_work (op_receive ''succeeded''), op_activate]"

lemma run_activate: "activate_handoff sample_verify (move_env 8) ''me'' ''operator'' ''10101010101010101010101010101010''
     (finish_move ''53'' ''activate'') target_received = Inr (200, move_complete, None, target_complete)"
proof -
  let ?v = "arrived_row move_received ''moving'' 2"
  have "load_handoff ''10101010101010101010101010101010'' target_received = Inr (?v, move_received)" by code_simp
  moreover have "replay_handoff ''me'' ''activate'' (ActivateHandoff ''10101010101010101010101010101010'' (finish_move ''53'' ''activate''))
    target_received = Inr None" by code_simp
  moreover have "record_receipt (move_env 8) 0 (arrived_row move_complete ''stopped'' 3) move_complete ''me'' ''activate-handoff'' ''activate''
      (ActivateHandoff ''10101010101010101010101010101010'' (finish_move ''53'' ''activate'')) 200
      (save_instance (arrived_row move_complete ''stopped'' 3) target_received) = Inr target_complete" by code_simp
  moreover have "completed_handoff ''53'' move_received = move_complete" by code_simp
  moreover have "activated_instance move_complete ?v = arrived_row move_complete ''stopped'' 3" by code_simp
  moreover have "hf_key move_received = hf_key move_offer" by code_simp
  then have "valid_commitment sample_verify move_received ''53''" by (rule sample_valid)
  moreover have "hf_direction move_received = ''in''" "hf_sha256 move_received = fq_sha256 (finish_move ''53'' ''activate'')"
    "hf_state move_received = ''received''" "in_revision (sv_public ?v) = 1"
    "vm_initialized (sv_runtime ?v)" "in_active (sv_public ?v) = ''''" "valid_id ''activate''" by code_simp+
  ultimately show ?thesis
    by (simp add: activate_handoff_def operator_only_def sample_valid Let_def) (simp add: finish_move_def)
qed

end
