(* ===== verification/MoveGuarantees.thy ===== *)
theory MoveGuarantees
  imports MoveRun
begin

text \<open>
  What holds of every world of hosts: the properties of a move, with a whole move of one ship on two concrete
  hosts as their witness.
\<close>

section \<open>Consequences of the invariant\<close>

lemma live_source:
  assumes "world_ok w" "ship_at w n i = Some (Some h, a)" "\<not> fenced (Some h)"
  shows "\<exists>g b. ship_at w (hf_source h) (hf_source_instance h) = Some (Some g, b) \<and> moved_out g \<and> fenced (Some g)
    \<and> transfer g = transfer h \<and> hf_destination g = n \<and> hf_destination_instance g = i"
proof -
  have e: "entry_ok (wd_shown w) (wd_signed w) k j (kind_of (fst (wd_hosts w k))) (ship_at w k j)" for k j
    using assms(1) by (simp add: world_ok_def)
  have h: "hf_direction h = ''in''" "hf_state h = ''complete''" using assms(3) by (simp_all add: fenced_def)
  have p: "placed n i h" "arrived_ok (wd_shown w) (wd_signed w) h" using e [of n i] assms(2) by simp_all
  then have "commitment_bytes h \<in> wd_signed w" "handoff_plain h" using h by (simp_all add: arrived_ok_def)
  moreover have "committed w m" if "m \<in> wd_signed w" for m using assms(1) that by (simp add: world_ok_def)
  ultimately obtain k j g b where g: "ship_at w k j = Some (Some g, b)" "moved_out g" "commitment_bytes g = commitment_bytes h" "handoff_plain h"
    unfolding committed_def by blast
  then have "same_transfer g h" by (simp add: same_transfer_def)
  then have t: "transfer h = transfer g" using same_transfer_iff [OF g(4), of g] by simp
  have "placed k j g" using e [of k j] g(1) by simp
  then have "hf_source g = k" "hf_source_instance g = j" using g(2) by (simp_all add: placed_def moved_out_def)
  moreover have "hf_source g = hf_source h" "hf_source_instance g = hf_source_instance h" "hf_destination g = hf_destination h"
    "hf_destination_instance g = hf_destination_instance h" using t by (cases g; cases h; simp add: transfer_def)+
  moreover have "fenced (Some g)" using g(2) by (simp add: fenced_def moved_out_def)
  moreover have "hf_destination h = n" "hf_destination_instance h = i" using p(1) h by (simp_all add: placed_def)
  ultimately show ?thesis using g(1,2) t by auto
qed

section \<open>The world of the run\<close>

definition two_hosts :: "(unit, unit) machine \<Rightarrow> (unit, unit) machine \<Rightarrow> handoff set \<Rightarrow> string set \<Rightarrow> (unit, unit) world" where
  "two_hosts s t S G = \<lparr>wd_hosts = (\<lambda>n. if n = ''a'' then s else if n = ''b'' then t else (empty_tables, [])), wd_shown = S, wd_signed = G\<rparr>"

lemma two_hosts_simps [simp]:
  "wd_hosts (two_hosts s t S G) ''a'' = s" "wd_hosts (two_hosts s t S G) ''b'' = t" "wd_shown (two_hosts s t S G) = S"
  "wd_signed (two_hosts s t S G) = G" "at_host ''a'' m (two_hosts s t S G) = two_hosts m t S G"
  "at_host ''b'' m (two_hosts s t S G) = two_hosts s m S G"
  by (auto simp: two_hosts_def at_host_def)

lemma one_ship_view [simp]: "inst_of (one_ship v ops) ''zod'' = Some v" "custody (one_ship v ops) ''zod'' = Some (ship_view v)"
  by (simp_all add: one_ship_def custody_def)

lemma source_view [simp]: "ship_view (source_row h a n) = (h, a)" "sv_runtime (source_row h a n) = source_runtime h"
  by (simp_all add: ship_view_def source_row_def source_runtime_def zod_public_def)

lemma target_view [simp]: "ship_view (target_row h a n) = (Some h, a)" "sv_runtime (target_row h a n) = target_runtime h"
  by (simp_all add: ship_view_def target_row_def target_runtime_def zod_public_def)

lemma arrived_view [simp]: "ship_view (arrived_row h ob n) = (Some h, '''')"
  by (simp add: ship_view_def arrived_row_def arrived_runtime_def target_runtime_def zod_public_def)

lemma move_op_simps [simp]: "op_kind (move_op i r k st) = k" "op_instance (move_op i r k st) = ''zod''"
  by (simp_all add: move_op_def)

lemma source_start_reachable: "ledger_reachable (source_start, [])"
proof -
  have "ledger_step Quiet (empty_tables, []) (one_ship registered_row [op_register], [])"
    using sample_steps(1) by (simp add: run_register)
  moreover have "ledger_reachable (empty_tables, [])" by (simp add: ledger_reachable_def)
  ultimately show ?thesis using step_observe [OF run_observe] by (metis reachable_step)
qed

lemma run_start: "world_start (two_hosts (source_start, []) (empty_tables, []) {} {})"
  using source_start_reachable
  by (auto simp: world_start_def two_hosts_def ledger_reachable_def source_start_def one_ship_def custody_def empty_tables_def
      source_row_def ship_view_def source_runtime_def new_managed_def split: if_splits)

lemma move_complete_facts: "\<not> fenced (Some move_complete)" "hf_source move_complete = ''a''" "hf_source_instance move_complete = ''zod''"
  by (simp_all add: fenced_def move_complete_def move_in_def move_ready_def move_offer_def)

abbreviation sample_world :: "(unit, unit) machine \<Rightarrow> (unit, unit) machine \<Rightarrow> handoff set \<Rightarrow> string set \<Rightarrow> bool" where
  "sample_world s t S G \<equiv> world_reachable sample_sign sample_verify (two_hosts s t S G)"

lemma run_work:
  assumes "world_reachable sample_sign sample_verify w" "ledger_step (Wrote k ''zod'' st) (wd_hosts w n) m"
    "fst (wd_hosts w n) = one_ship v ops" "apply_handoff sample_sign sample_verify all_hosts k (sv_runtime v) = (st, ob, err, signs)"
  shows "world_reachable sample_sign sample_verify (at_host n m (if signs then sign_move st w else w))"
  by (rule wr_step [OF assms(1) ws_work [OF assms(2) _ assms(4)]]) (simp add: assms(3))

lemma run_work_prepare_at: "apply_handoff sample_sign sample_verify all_hosts ''prepare-handoff''
  (sv_runtime (source_row (Some move_offer) ''op-11111111111111111111111111111111'' 2)) = (source_runtime (Some move_ready), ''moving'', None, False)"
  by (simp add: run_work_prepare)

lemma run_work_receive_at: "apply_handoff sample_sign sample_verify all_hosts ''receive-handoff''
  (sv_runtime (target_row move_receiving ''op-10101010101010101010101010101010'' 1)) = (arrived_runtime move_received, ''moving'', None, False)"
  by (simp add: run_work_receive)

lemma run_work_commit_at: "apply_handoff sample_sign sample_verify all_hosts ''commit-handoff''
  (sv_runtime (source_row (Some move_ready) ''op-28282828282828282828282828282828'' 4)) = (source_runtime (Some move_moved), ''moved'', None, True)"
  by (simp add: run_work_commit)

lemma run_to_ready: "sample_world (source_ready, []) (empty_tables, []) {} {}"
proof -
  let ?op = "op_prepare ''running''" and ?w = "\<lambda>s. two_hosts s (empty_tables, []) {} {}"
  note w = wr_start [OF run_start, of sample_sign sample_verify]
  have "ledger_step (Prepared ''a'') (source_start, []) (source_preparing ''queued'', [])" by (rule step_prepare [OF run_prepare])
  then have w: "sample_world (source_preparing ''queued'', []) (empty_tables, []) {} {}"
    using wr_step [OF w ws_prepare [of "''a''"]] by simp
  have "ledger_step Quiet (source_preparing ''queued'', []) (source_preparing ''running'', [?op])"
    by (rule step_begin [OF run_begin_prepare])
  then have w: "sample_world (source_preparing ''running'', [?op]) (empty_tables, []) {} {}"
    using wr_step [OF w ws_quiet [of _ "''a''"]] by simp
  have s: "ledger_step (Wrote ''prepare-handoff'' ''zod'' (source_runtime (Some move_ready)))
      (wd_hosts (?w (source_preparing ''running'', [?op])) ''a'') (source_ready, [])"
    using step_finish [OF _ run_finish_prepare, of "[?op]"] by (simp add: op_prepare_def)
  show ?thesis using run_work [OF w s _ run_work_prepare_at] by (simp add: source_preparing_def)
qed

lemma run_to_received: "sample_world (source_ready, []) (target_received, []) {move_ready} {}"
proof -
  let ?op = "op_receive ''running''" and ?w = "\<lambda>t. two_hosts (source_ready, []) t {move_ready} {}"
  have "ship_at (two_hosts (source_ready, []) (empty_tables, []) {} {}) ''a'' ''zod'' = Some (Some move_ready, '''')"
    by (simp add: source_ready_def)
  from wr_step [OF run_to_ready ws_show [OF this]]
  have w: "sample_world (source_ready, []) (empty_tables, []) {move_ready} {}" by (simp add: two_hosts_def)
  have "ledger_step (Received ''b'' move_ready) (empty_tables, []) (target_reserved, [])"
    using step_receive [OF run_receive] by (simp add: offered_def)
  then have w: "sample_world (source_ready, []) (target_reserved, []) {move_ready} {}"
    using wr_step [OF w ws_receive [of "''b''" move_ready]] by simp
  have "ledger_step Quiet (target_reserved, []) (target_receiving ''queued'', [])" by (rule step_upload [OF run_upload])
  then have w: "sample_world (source_ready, []) (target_receiving ''queued'', []) {move_ready} {}"
    using wr_step [OF w ws_quiet [of _ "''b''"]] by simp
  have "ledger_step Quiet (target_receiving ''queued'', []) (target_receiving ''running'', [?op])"
    by (rule step_begin [OF run_begin_receive])
  then have w: "sample_world (source_ready, []) (target_receiving ''running'', [?op]) {move_ready} {}"
    using wr_step [OF w ws_quiet [of _ "''b''"]] by simp
  have s: "ledger_step (Wrote ''receive-handoff'' ''zod'' (arrived_runtime move_received))
      (wd_hosts (?w (target_receiving ''running'', [?op])) ''b'') (target_received, [])"
    using step_finish [OF _ run_finish_receive, of "[?op]"] by (simp add: op_receive_def)
  show ?thesis using run_work [OF w s _ run_work_receive_at] by (simp add: target_receiving_def)
qed

lemma run_to_moved: "sample_world (source_moved, []) (target_received, []) {move_ready} {commitment_bytes move_moved}"
proof -
  let ?op = "op_commit ''running''" and ?w = "\<lambda>s. two_hosts s (target_received, []) {move_ready} {}"
  have "ledger_step Quiet (source_ready, []) (source_committing ''queued'', [])" by (rule step_control [OF run_commit])
  then have w: "sample_world (source_committing ''queued'', []) (target_received, []) {move_ready} {}"
    using wr_step [OF run_to_received ws_quiet [of _ "''a''"]] by simp
  have "ledger_step Quiet (source_committing ''queued'', []) (source_committing ''running'', [?op])"
    by (rule step_begin [OF run_begin_commit])
  then have w: "sample_world (source_committing ''running'', [?op]) (target_received, []) {move_ready} {}"
    using wr_step [OF w ws_quiet [of _ "''a''"]] by simp
  have s: "ledger_step (Wrote ''commit-handoff'' ''zod'' (source_runtime (Some move_moved)))
      (wd_hosts (?w (source_committing ''running'', [?op])) ''a'') (source_moved, [])"
    using step_finish [OF _ run_finish_commit, of "[?op]"] by (simp add: op_commit_def)
  have "vm_handoff (source_runtime (Some move_moved)) = Some move_moved" by (simp add: source_runtime_def)
  then have "at_host ''a'' (source_moved, []) (sign_move (source_runtime (Some move_moved)) (?w s))
      = two_hosts (source_moved, []) (target_received, []) {move_ready} {commitment_bytes move_moved}" for s
    by (auto simp: sign_move_def at_host_def two_hosts_def)
  then show ?thesis using run_work [OF w s _ run_work_commit_at] by (simp add: source_committing_def)
qed

text \<open>The destination activates the pier with the commitment of the source.\<close>

lemma run_last: "world_step sample_sign sample_verify (two_hosts (source_moved, []) (target_received, []) {move_ready} {commitment_bytes move_moved})
  (two_hosts (source_moved, []) (target_complete, []) {move_ready} {commitment_bytes move_moved})"
proof -
  let ?w = "two_hosts (source_moved, []) (target_received, []) {move_ready} {commitment_bytes move_moved}"
  have "transfer move_ready = transfer move_moved" by (simp add: move_moved_def)
  then have "commitment_bytes move_ready = commitment_bytes move_moved" by (rule commitment_bytes_transfer)
  then have u: "unforged sample_verify ?w ''53''" by (simp add: unforged_def)
  have "ledger_step (Activated sample_verify ''10101010101010101010101010101010'' ''53'') (target_received, []) (target_complete, [])"
    using step_activate [OF run_activate] by (simp add: finish_move_def)
  then show ?thesis using ws_activate [of sample_verify _ "''53''" ?w "''b''", OF _ u] by simp
qed

lemma run_to_complete: "sample_world (source_moved, []) (target_complete, []) {move_ready} {commitment_bytes move_moved}"
  by (rule wr_step [OF run_to_moved run_last])

section \<open>Guarantees\<close>







text \<open>
  C4. Every commit of the store refines the abstract specification of custody, ship by ship: it keeps the ship's handoff,
  or takes one of the steps of the move protocol; what a worker writes is what is stored, and no operation is opened
  that could unregister a ship which is moving away.
\<close>

theorem commit_refines_custody:
  assumes "ledger_reachable s" "ledger_step l s t"
  shows "turn l i (kind_of (fst t)) (custody (fst s) i) (custody (fst t) i)"
  using step_turns [OF assms(2) reachable_ok [OF assms(1)]] by (simp add: turns_def)

theorem commit_refines_custody_witness:
  "turn (Prepared ''a'' :: unit label) ''zod'' (kind_of (source_preparing ''queued'')) (Some (None, ''''))
     (Some (Some move_offer, ''op-11111111111111111111111111111111''))"
proof -
  have "ledger_step (Prepared ''a'') (source_start, []) (source_preparing ''queued'', [])" by (rule step_prepare [OF run_prepare])
  from commit_refines_custody [OF source_start_reachable this, of "''zod''"] show ?thesis
    by (simp add: source_start_def source_preparing_def)
qed

end
