(* ===== verification/Spec2Isabelle.thy ===== *)
theory Spec2Isabelle
  imports Protocol Epochs Routines PierStore PierMeta Membership ResumedReadiness HostPolicy LedgerGuarantees MoveGuarantees
begin

text \<open>
  A verification library for the core of omabit.
\<close>

end
